(* ===== verification/Prelude.thy ===== *)
theory Prelude
  imports Complex_Main
begin

text \<open>
  What the component theories share: the result type the code's exceptions become, the
  rational grids money and quantities live on, and half-up rounding with its laws. The
  collections \<open>res_simps\<close> (result plumbing) and \<open>grid_intros\<close> (closure of a grid under
  the operations of the program) carry most component proofs.
\<close>

named_theorems res_simps \<open>rewriting of results and their sequencing\<close>
named_theorems grid_intros \<open>values that stay on a decimal grid\<close>

section \<open>Results: a thrown error is \<open>Inl\<close>, a returned value is \<open>Inr\<close>\<close>

definition bind_res :: "'e + 'a \<Rightarrow> ('a \<Rightarrow> 'e + 'b) \<Rightarrow> 'e + 'b" where
  "bind_res r f = (case r of Inl e \<Rightarrow> Inl e | Inr x \<Rightarrow> f x)"

lemma bind_res_Inl [simp, res_simps]: "bind_res (Inl e) f = Inl e"
  by (simp add: bind_res_def)

lemma bind_res_Inr [simp, res_simps]: "bind_res (Inr x) f = f x"
  by (simp add: bind_res_def)

lemma bind_res_eq_Inr [res_simps]:
  "bind_res r f = Inr y \<longleftrightarrow> (\<exists>x. r = Inr x \<and> f x = Inr y)"
  by (cases r) auto

lemma bind_res_eq_Inl [res_simps]:
  "bind_res r f = Inl e \<longleftrightarrow> r = Inl e \<or> (\<exists>x. r = Inr x \<and> f x = Inl e)"
  by (cases r) auto

lemma if_Inl_eq_Inr [simp, res_simps]: "(if b then Inl e else r) = Inr y \<longleftrightarrow> \<not> b \<and> r = Inr y"
  by auto

lemma bind_res_cong [fundef_cong]:
  "r = r' \<Longrightarrow> (\<And>x. r' = Inr x \<Longrightarrow> f x = g x) \<Longrightarrow> bind_res r f = bind_res r' g"
  by (cases r') auto

text \<open>\<open>xs.map(f)\<close> where \<open>f\<close> may throw: the first error, in list order, ends it.\<close>

fun map_res :: "('a \<Rightarrow> 'e + 'b) \<Rightarrow> 'a list \<Rightarrow> 'e + 'b list" where
  "map_res f [] = Inr []"
| "map_res f (x # xs) = bind_res (f x) (\<lambda>y. bind_res (map_res f xs) (\<lambda>ys. Inr (y # ys)))"

lemma map_res_Inr_list_all2:
  "map_res f xs = Inr ys \<longleftrightarrow> list_all2 (\<lambda>x y. f x = Inr y) xs ys"
  by (induction xs arbitrary: ys) (auto simp: bind_res_eq_Inr list_all2_Cons1)

lemma map_res_Inr_length: "map_res f xs = Inr ys \<Longrightarrow> length ys = length xs"
  by (auto simp: map_res_Inr_list_all2 dest: list_all2_lengthD)

lemma map_res_Inr_set:
  "map_res f xs = Inr ys \<Longrightarrow> y \<in> set ys \<Longrightarrow> \<exists>x \<in> set xs. f x = Inr y"
  by (induction xs arbitrary: ys) (auto simp: bind_res_eq_Inr)

section \<open>Decimal grids\<close>

text \<open>\<open>on_grid n x\<close>: \<open>x\<close> is a whole number of \<open>10\<close>-to-the-minus-\<open>n\<close> units (paise for \<open>n = 2\<close>).\<close>

definition on_grid :: "nat \<Rightarrow> rat \<Rightarrow> bool" where
  "on_grid n x \<longleftrightarrow> of_int \<lfloor>x * 10 ^ n\<rfloor> = x * 10 ^ n"

lemma on_grid_iff: "on_grid n x \<longleftrightarrow> (\<exists>m::int. x = of_int m / 10 ^ n)"
proof
  assume "on_grid n x"
  then have "of_int \<lfloor>x * 10 ^ n\<rfloor> = x * 10 ^ n" by (simp only: on_grid_def)
  then have "x = of_int \<lfloor>x * 10 ^ n\<rfloor> / 10 ^ n" by (simp only: nonzero_mult_div_cancel_right) simp
  then show "\<exists>m::int. x = of_int m / 10 ^ n" by blast
next
  assume "\<exists>m::int. x = of_int m / 10 ^ n"
  then obtain m :: int where "x * 10 ^ n = of_int m" by auto
  then show "on_grid n x" by (simp only: on_grid_def floor_of_int)
qed

lemma on_grid_of_int [simp, grid_intros]: "on_grid n (of_int m)"
proof -
  have "of_int m = (of_int (m * 10 ^ n) :: rat) / 10 ^ n" by simp
  then show ?thesis unfolding on_grid_iff by blast
qed

lemma on_grid_0 [simp, grid_intros]: "on_grid n 0"
  using on_grid_of_int[of n 0] by simp

lemma on_grid_add [grid_intros]: "on_grid n x \<Longrightarrow> on_grid n y \<Longrightarrow> on_grid n (x + y)"
  by (auto simp: on_grid_iff add_divide_distrib [symmetric] of_int_add [symmetric] simp del: of_int_add)

lemma on_grid_minus [grid_intros]: "on_grid n x \<Longrightarrow> on_grid n (- x)"
  unfolding on_grid_iff by (metis minus_divide_left of_int_minus)

lemma on_grid_double [grid_intros]: "on_grid n x \<Longrightarrow> on_grid n (2 * x)"
  using on_grid_add[of n x x] by simp

lemma on_grid_diff [grid_intros]: "on_grid n x \<Longrightarrow> on_grid n y \<Longrightarrow> on_grid n (x - y)"
  using on_grid_add[of n x "- y"] on_grid_minus[of n y] by simp

lemma on_grid_min [grid_intros]: "on_grid n x \<Longrightarrow> on_grid n y \<Longrightarrow> on_grid n (min x y)"
  by (simp add: min_def)

lemma on_grid_max [grid_intros]: "on_grid n x \<Longrightarrow> on_grid n y \<Longrightarrow> on_grid n (max x y)"
  by (simp add: max_def)

lemma on_grid_mult:
  assumes "on_grid n x" and "on_grid m y"
  shows "on_grid (n + m) (x * y)"
proof -
  from assms obtain a b :: int where "x = of_int a / 10 ^ n" "y = of_int b / 10 ^ m"
    by (auto simp: on_grid_iff)
  then have "x * y = of_int (a * b) / 10 ^ (n + m)" by (simp add: power_add)
  then show ?thesis unfolding on_grid_iff by blast
qed

lemma on_grid_mono:
  assumes "on_grid n x" and "n \<le> m"
  shows "on_grid m x"
proof -
  have "on_grid (n + (m - n)) (x * 1)"
    using assms(1) on_grid_of_int[of "m - n" 1] by (intro on_grid_mult) simp_all
  with assms(2) show ?thesis by simp
qed

lemma on_grid_sum_list [grid_intros]:
  "(\<And>x. x \<in> set xs \<Longrightarrow> on_grid n x) \<Longrightarrow> on_grid n (sum_list xs)"
  by (induction xs) (auto intro: grid_intros)

lemma on_grid_abs_ge:
  assumes "on_grid n x" and "x \<noteq> 0"
  shows "1 / 10 ^ n \<le> \<bar>x\<bar>"
proof -
  from assms obtain m :: int where "x = of_int m / 10 ^ n" and "m \<noteq> 0"
    by (auto simp: on_grid_iff)
  moreover from \<open>m \<noteq> 0\<close> have "1 \<le> \<bar>of_int m :: rat\<bar>" by (metis of_int_abs of_int_1_le_iff zero_less_abs_iff int_one_le_iff_zero_less)
  ultimately show ?thesis by (simp add: divide_right_mono)
qed

lemma on_grid_less_iff:
  assumes "on_grid n x" and "on_grid n y"
  shows "x < y \<longleftrightarrow> x + 1 / 10 ^ n \<le> y"
proof
  assume "x < y"
  then have "1 / 10 ^ n \<le> \<bar>y - x\<bar>"
    using assms by (intro on_grid_abs_ge grid_intros) auto
  with \<open>x < y\<close> show "x + 1 / 10 ^ n \<le> y" by simp
next
  assume "x + 1 / 10 ^ n \<le> y"
  moreover have "(0::rat) < 1 / 10 ^ n" by simp
  ultimately show "x < y" by linarith
qed

section \<open>Half-up rounding to a grid\<close>

text \<open>Nearest grid point, ties away from zero: \<open>ROUND_HALF_UP\<close>.\<close>

definition half_up :: "nat \<Rightarrow> rat \<Rightarrow> rat" where
  "half_up n x = sgn x * (of_int \<lfloor>\<bar>x\<bar> * 10 ^ n + 1 / 2\<rfloor> / 10 ^ n)"

lemma floor_half_rat [simp]: "\<lfloor>1 / 2 :: rat\<rfloor> = 0"
  by (simp add: floor_eq_iff)

lemma half_up_nonneg_eq: "0 \<le> x \<Longrightarrow> half_up n x = of_int \<lfloor>x * 10 ^ n + 1 / 2\<rfloor> / 10 ^ n"
  by (cases "x = 0") (simp_all add: half_up_def)

lemma half_up_minus: "half_up n (- x) = - half_up n x"
  by (simp add: half_up_def)

lemma half_up_0 [simp]: "half_up n 0 = 0"
  by (simp add: half_up_def)

lemma on_grid_half_up [simp, grid_intros]: "on_grid n (half_up n x)"
proof (cases "0 \<le> x")
  case True
  then show ?thesis unfolding on_grid_iff half_up_nonneg_eq[OF True] by blast
next
  case False
  then have "on_grid n (half_up n (- x))"
    unfolding on_grid_iff using half_up_nonneg_eq[of "- x" n] by auto
  then show ?thesis using on_grid_minus by (fastforce simp: half_up_minus)
qed

lemma half_up_nonneg: "0 \<le> x \<Longrightarrow> 0 \<le> half_up n x"
  by (simp add: half_up_nonneg_eq)

lemma half_up_exact:
  assumes "on_grid n x"
  shows "half_up n x = x"
proof -
  have nn: "half_up n y = y" if g: "on_grid n y" and "0 \<le> y" for y
  proof -
    from g obtain m :: int where y: "y * 10 ^ n = of_int m" by (auto simp: on_grid_iff)
    have "\<lfloor>of_int m + (1 / 2 :: rat)\<rfloor> = m" by (simp add: floor_unique)
    with y \<open>0 \<le> y\<close> show ?thesis by (simp add: half_up_nonneg_eq) (simp add: field_simps)
  qed
  show ?thesis
  proof (cases "0 \<le> x")
    case True
    with nn assms show ?thesis by blast
  next
    case False
    with nn[of "- x"] assms show ?thesis by (simp add: on_grid_minus half_up_minus)
  qed
qed

lemma half_up_mono_nonneg: "0 \<le> x \<Longrightarrow> x \<le> y \<Longrightarrow> half_up n x \<le> half_up n y"
  by (simp add: half_up_nonneg_eq divide_right_mono floor_mono mult_right_mono)

lemma half_up_mono:
  assumes "x \<le> y"
  shows "half_up n x \<le> half_up n y"
proof -
  consider "0 \<le> x" | "x < 0" "0 \<le> y" | "x < 0" "y < 0" by linarith
  then show ?thesis
  proof cases
    case 1
    with assms show ?thesis by (intro half_up_mono_nonneg)
  next
    case 2
    have "0 \<le> half_up n (- x)" using 2 by (intro half_up_nonneg) simp
    moreover have "0 \<le> half_up n y" using 2 by (intro half_up_nonneg)
    ultimately show ?thesis by (simp add: half_up_minus)
  next
    case 3
    then have "half_up n (- y) \<le> half_up n (- x)" using assms by (intro half_up_mono_nonneg) simp_all
    then show ?thesis by (simp add: half_up_minus)
  qed
qed

lemma half_up_le: "x \<le> y \<Longrightarrow> on_grid n y \<Longrightarrow> half_up n x \<le> y"
  using half_up_mono[of x y n] by (simp add: half_up_exact)

lemma half_up_ge: "y \<le> x \<Longrightarrow> on_grid n y \<Longrightarrow> y \<le> half_up n x"
  using half_up_mono[of y x n] by (simp add: half_up_exact)

lemma half_up_error: "\<bar>half_up n x - x\<bar> \<le> 1 / 2 / 10 ^ n"
proof -
  have nn: "\<bar>half_up n y - y\<bar> \<le> 1 / 2 / 10 ^ n" if "0 \<le> y" for y
  proof -
    let ?k = "\<lfloor>y * 10 ^ n + 1 / 2\<rfloor>"
    have "of_int ?k \<le> y * 10 ^ n + 1 / 2" and "y * 10 ^ n + 1 / 2 < of_int ?k + 1"
      by linarith+
    then have "\<bar>of_int ?k - y * 10 ^ n\<bar> \<le> 1 / 2" by linarith
    then have "\<bar>of_int ?k - y * 10 ^ n\<bar> / 10 ^ n \<le> 1 / 2 / 10 ^ n" by (rule divide_right_mono) simp
    moreover have "of_int ?k / 10 ^ n - y = (of_int ?k - y * 10 ^ n) / 10 ^ n"
      by (simp add: diff_divide_distrib)
    then have "\<bar>of_int ?k / 10 ^ n - y\<bar> = \<bar>of_int ?k - y * 10 ^ n\<bar> / 10 ^ n"
      by (simp only: abs_divide) simp
    ultimately show ?thesis using that by (simp add: half_up_nonneg_eq)
  qed
  show ?thesis
  proof (cases "0 \<le> x")
    case True
    with nn show ?thesis by blast
  next
    case False
    with nn[of "- x"] show ?thesis by (simp add: half_up_minus abs_minus_commute)
  qed
qed

section \<open>Text\<close>

text \<open>
  A source string is a HOL \<open>string\<close>: its code units, those below 256. \<open>js_upper\<close> is
  \<open>toUpperCase\<close> on the ASCII letters (the only ones in the constants the code compares
  with), \<open>js_trim\<close> is \<open>trim\<close> with the white space among those code units.
\<close>

definition js_upper_char :: "char \<Rightarrow> char" where
  "js_upper_char c =
     (let k = of_char c :: nat in if 97 \<le> k \<and> k \<le> 122 then char_of (k - 32) else c)"

definition js_upper :: "string \<Rightarrow> string" where
  "js_upper s = map js_upper_char s"

definition js_space :: "char \<Rightarrow> bool" where
  "js_space c = (let k = of_char c :: nat in (9 \<le> k \<and> k \<le> 13) \<or> k = 32 \<or> k = 160)"

definition js_trim :: "string \<Rightarrow> string" where
  "js_trim s = rev (dropWhile js_space (rev (dropWhile js_space s)))"

lemma js_trim_Nil_iff: "js_trim s = [] \<longleftrightarrow> (\<forall>c \<in> set s. js_space c)"
proof -
  have "js_trim s = [] \<longleftrightarrow> (\<forall>c \<in> set (dropWhile js_space s). js_space c)"
    by (simp add: js_trim_def dropWhile_eq_Nil_conv)
  also have "\<dots> \<longleftrightarrow> (\<forall>c \<in> set s. js_space c)"
    by (induction s) auto
  finally show ?thesis .
qed

section \<open>A natural number in decimal\<close>

fun nat_text :: "nat \<Rightarrow> string" where
  "nat_text n = (if n < 10 then [char_of (48 + n)] else nat_text (n div 10) @ [char_of (48 + n mod 10)])"

declare nat_text.simps [simp del]

end
