(* ===== verification/Decimal.thy ===== *)
theory Decimal
  imports Prelude
begin

text \<open>
  The interface to \<open>decimal.js\<close>, the arbitrary-precision decimal package the money code
  rests on (imported in \<open>packages/invoice-math/src/decimal.ts\<close>, where its precision is
  locked to 20 digits and its rounding to \<open>ROUND_HALF_UP\<close>). The package is not part of
  the repository: a Decimal is the rational it denotes, and the package's operations are a
  parameter \<open>D\<close> of every definition that uses them. The locale \<open>decimal_arith\<close> states what
  the package documents and the code relies on; \<open>decimal_js\<close> is a concrete instance that
  rounds to 20 significant digits, so the laws can hold.
\<close>

type_synonym decimal = rat

record decimal_lib =
  ctx_round :: "rat \<Rightarrow> rat"       \<comment> \<open>the exact result of plus, minus, mul, div, rounded to the locked precision\<close>
  to_dp_half_up :: "nat \<Rightarrow> rat \<Rightarrow> rat"  \<comment> \<open>\<open>toDecimalPlaces(dp, ROUND_HALF_UP)\<close>\<close>
  to_dp_down :: "nat \<Rightarrow> rat \<Rightarrow> rat"     \<comment> \<open>\<open>toDecimalPlaces(dp, ROUND_DOWN)\<close>\<close>
  parse_decimal :: "string \<Rightarrow> rat option" \<comment> \<open>\<open>new Decimal(text)\<close>; \<open>None\<close> where it throws or is not finite\<close>
  via_number :: "rat \<Rightarrow> rat"      \<comment> \<open>\<open>new Decimal(d.toNumber())\<close>\<close>

definition d_plus :: "decimal_lib \<Rightarrow> decimal \<Rightarrow> decimal \<Rightarrow> decimal" where
  "d_plus D x y = ctx_round D (x + y)"

definition d_minus :: "decimal_lib \<Rightarrow> decimal \<Rightarrow> decimal \<Rightarrow> decimal" where
  "d_minus D x y = ctx_round D (x - y)"

definition d_mul :: "decimal_lib \<Rightarrow> decimal \<Rightarrow> decimal \<Rightarrow> decimal" where
  "d_mul D x y = ctx_round D (x * y)"

definition d_div :: "decimal_lib \<Rightarrow> decimal \<Rightarrow> decimal \<Rightarrow> decimal" where
  "d_div D x y = ctx_round D (x / y)"

text \<open>\<open>xs.reduce((acc, x) => acc.plus(x), new Decimal(0))\<close>\<close>

definition d_sum :: "decimal_lib \<Rightarrow> decimal list \<Rightarrow> decimal" where
  "d_sum D xs = foldl (d_plus D) 0 xs"

text \<open>A value with at most \<open>p\<close> significant decimal digits.\<close>

definition fits :: "nat \<Rightarrow> rat \<Rightarrow> bool" where
  "fits p x \<longleftrightarrow> (\<exists>(m::int) (k::int). \<bar>m\<bar> < 10 ^ p \<and> x = of_int m * 10 powi k)"

definition trunc_dp :: "nat \<Rightarrow> rat \<Rightarrow> rat" where
  "trunc_dp n x = sgn x * (of_int \<lfloor>\<bar>x\<bar> * 10 ^ n\<rfloor> / 10 ^ n)"

lemma fits_grid:
  assumes "on_grid n x" and "\<bar>x\<bar> * 10 ^ n < 10 ^ p"
  shows "fits p x"
proof -
  from assms(1) obtain m :: int where m: "x = of_int m / 10 ^ n" by (auto simp: on_grid_iff)
  with assms(2) have "\<bar>of_int m :: rat\<bar> < 10 ^ p" by (simp add: abs_divide)
  then have "\<bar>m\<bar> < 10 ^ p" by (metis of_int_abs of_int_less_iff of_int_numeral of_int_power)
  moreover have "x = of_int m * 10 powi (- int n)"
    using m by (simp add: power_int_minus field_simps)
  ultimately show ?thesis unfolding fits_def by blast
qed

section \<open>What the code relies on\<close>

lemma sum_filter_le:
  fixes f :: "'a \<Rightarrow> rat"
  shows "(\<And>x. x \<in> set xs \<Longrightarrow> 0 \<le> f x) \<Longrightarrow> sum_list (map f (filter P xs)) \<le> sum_list (map f xs)"
  by (induction xs) (auto intro: add_increasing add_mono)

locale decimal_arith =
  fixes D :: decimal_lib
  assumes ctx_exact: "fits 20 x \<Longrightarrow> ctx_round D x = x"
    and ctx_mono: "x \<le> y \<Longrightarrow> ctx_round D x \<le> ctx_round D y"
    and to_dp_half_up: "to_dp_half_up D n x = half_up n x"
    and to_dp_down: "to_dp_down D n x = trunc_dp n x"
    and via_exact: "fits 15 x \<Longrightarrow> via_number D x = x"
    and via_mono: "x \<le> y \<Longrightarrow> via_number D x \<le> via_number D y"
begin

lemma ctx_grid: "on_grid n x \<Longrightarrow> \<bar>x\<bar> * 10 ^ n < 10 ^ 20 \<Longrightarrow> ctx_round D x = x"
  by (intro ctx_exact fits_grid)

lemma ctx_0 [simp]: "ctx_round D 0 = 0"
  by (rule ctx_grid[of 0]) simp_all

lemma ctx_nonneg: "0 \<le> x \<Longrightarrow> 0 \<le> ctx_round D x"
  using ctx_mono[of 0 x] by simp

lemma ctx_nonpos: "x \<le> 0 \<Longrightarrow> ctx_round D x \<le> 0"
  using ctx_mono[of x 0] by simp

lemma ctx_le: "x \<le> y \<Longrightarrow> fits 20 y \<Longrightarrow> ctx_round D x \<le> y"
  using ctx_mono[of x y] ctx_exact[of y] by simp

lemma ctx_ge: "y \<le> x \<Longrightarrow> fits 20 y \<Longrightarrow> y \<le> ctx_round D x"
  using ctx_mono[of y x] ctx_exact[of y] by simp

lemma via_0 [simp]: "via_number D 0 = 0"
  by (rule via_exact) (auto simp: fits_def intro!: exI[of _ 0])

lemma via_le:
  assumes "x \<le> of_int m" and "\<bar>m\<bar> < 10 ^ 15"
  shows "via_number D x \<le> of_int m"
proof -
  have "fits 15 (of_int m :: rat)"
    unfolding fits_def using assms(2) by (intro exI[of _ m] exI[of _ 0]) simp
  then show ?thesis using via_mono[OF assms(1)] via_exact by simp
qed

lemma via_nonneg: "0 \<le> x \<Longrightarrow> 0 \<le> via_number D x"
  using via_mono[of 0 x] by simp

text \<open>Sums of amounts on a grid: exact while they fit, and a small result means it was exact.\<close>

lemma d_plus_grid:
  "on_grid n x \<Longrightarrow> on_grid n y \<Longrightarrow> \<bar>x + y\<bar> * 10 ^ n < 10 ^ 20 \<Longrightarrow> d_plus D x y = x + y"
  unfolding d_plus_def by (intro ctx_grid grid_intros)

lemma d_minus_grid:
  "on_grid n x \<Longrightarrow> on_grid n y \<Longrightarrow> \<bar>x - y\<bar> * 10 ^ n < 10 ^ 20 \<Longrightarrow> d_minus D x y = x - y"
  unfolding d_minus_def by (intro ctx_grid grid_intros)

lemma foldl_plus_ge:
  assumes "fits 20 a" and "a \<le> acc" and "\<And>x. x \<in> set xs \<Longrightarrow> 0 \<le> x"
  shows "a \<le> foldl (d_plus D) acc xs"
  using assms(2,3)
proof (induction xs arbitrary: acc)
  case (Cons x xs)
  have "a \<le> d_plus D acc x"
    unfolding d_plus_def using Cons.prems by (intro ctx_ge assms(1)) (simp add: add_increasing2)
  with Cons show ?case by simp
qed simp

lemma foldl_plus_exact:
  assumes "on_grid n acc" and "0 \<le> acc"
    and "\<And>x. x \<in> set xs \<Longrightarrow> on_grid n x \<and> 0 \<le> x"
    and "(acc + sum_list xs) * 10 ^ n < 10 ^ 20"
  shows "foldl (d_plus D) acc xs = acc + sum_list xs"
  using assms
proof (induction xs arbitrary: acc)
  case (Cons x xs)
  have s: "0 \<le> sum_list xs" using Cons.prems(3) by (intro sum_list_nonneg) auto
  then have "(acc + x) * 10 ^ n \<le> (acc + sum_list (x # xs)) * 10 ^ n"
    by (intro mult_right_mono) simp_all
  moreover have "\<bar>acc + x\<bar> = acc + x" using Cons.prems by (intro abs_of_nonneg add_nonneg_nonneg) auto
  ultimately have "\<bar>acc + x\<bar> * 10 ^ n < 10 ^ 20" using Cons.prems(4) by linarith
  then have "d_plus D acc x = acc + x" using Cons.prems by (intro d_plus_grid) auto
  moreover have "foldl (d_plus D) (acc + x) xs = acc + x + sum_list xs"
    using Cons.prems by (intro Cons.IH) (auto intro: grid_intros simp: add.assoc)
  ultimately show ?case by simp
qed simp

lemma d_sum_exact:
  assumes "\<And>x. x \<in> set xs \<Longrightarrow> on_grid n x \<and> 0 \<le> x" and "sum_list xs * 10 ^ n < 10 ^ 20"
  shows "d_sum D xs = sum_list xs"
  using foldl_plus_exact[of n 0 xs] assms by (simp add: d_sum_def)

lemma d_sum_exact_small:
  assumes g: "\<And>x. x \<in> set xs \<Longrightarrow> on_grid n x \<and> 0 \<le> x" and small: "d_sum D xs * 10 ^ n < 10 ^ 19"
  shows "d_sum D xs = sum_list xs"
proof (rule ccontr)
  assume neq: "d_sum D xs \<noteq> sum_list xs"
  let ?b = "10 ^ 19 / 10 ^ n :: rat"
  have fb: "fits 20 ?b"
    by (rule fits_grid[of n]) (auto simp: on_grid_iff intro!: exI[of _ "10 ^ 19"])
  have "\<exists>ys zs x. xs = ys @ x # zs \<and> foldl (d_plus D) 0 ys = sum_list ys \<and>
          foldl (d_plus D) 0 (ys @ [x]) \<noteq> sum_list (ys @ [x])"
    using neq unfolding d_sum_def
  proof (induction xs rule: rev_induct)
    case (snoc x xs)
    then show ?case by (cases "foldl (d_plus D) 0 xs = sum_list xs") (fastforce, force)
  qed simp
  then obtain ys zs x where xs: "xs = ys @ x # zs"
    and ys: "foldl (d_plus D) 0 ys = sum_list ys"
    and bad: "d_plus D (sum_list ys) x \<noteq> sum_list ys + x" by auto
  have "on_grid n (sum_list ys + x)" and nn: "0 \<le> sum_list ys + x"
    using g xs by (auto intro!: grid_intros add_nonneg_nonneg sum_list_nonneg)
  then have "\<not> (sum_list ys + x) * 10 ^ n < 10 ^ 20"
    using bad nn g xs by (metis abs_of_nonneg ctx_grid d_plus_def)
  then have "10 ^ 20 / 10 ^ n \<le> sum_list ys + x" by (simp add: field_simps)
  moreover have "?b \<le> 10 ^ 20 / 10 ^ n" by (simp add: field_simps)
  ultimately have "?b \<le> d_plus D (sum_list ys) x"
    unfolding d_plus_def by (intro ctx_ge fb) linarith
  then have "?b \<le> foldl (d_plus D) (d_plus D (sum_list ys) x) zs"
    using g xs by (intro foldl_plus_ge fb) auto
  then have "?b \<le> d_sum D xs" using xs ys by (simp add: d_sum_def)
  with small show False by (simp add: field_simps)
qed

end

section \<open>A concrete instance: rounding to significant digits\<close>

definition pow10 :: "int \<Rightarrow> rat" where
  "pow10 i = (if 0 \<le> i then 10 ^ nat i else 1 / 10 ^ nat (- i))"

lemma pow10_powi: "pow10 i = 10 powi i"
  by (simp add: pow10_def power_int_def power_one_over)

text \<open>The number of decimal digits of a positive integer.\<close>

fun dec_len :: "int \<Rightarrow> int" where
  "dec_len n = (if n < 10 then 1 else 1 + dec_len (n div 10))"

declare dec_len.simps [simp del]

text \<open>The decimal exponent \<open>e\<close> of a positive rational: \<open>10\<close> to the \<open>e\<close> is at most \<open>a\<close>, which is less than \<open>10\<close> to the \<open>e + 1\<close>.\<close>

definition dec_exp :: "rat \<Rightarrow> int" where
  "dec_exp a = (let (n, d) = quotient_of a; e = dec_len n - dec_len d
                in if pow10 e \<le> a then e else e - 1)"

definition sig_round :: "nat \<Rightarrow> rat \<Rightarrow> rat" where
  "sig_round p x =
     (if x = 0 then 0
      else let s = int p - 1 - dec_exp \<bar>x\<bar>
           in sgn x * (of_int \<lfloor>\<bar>x\<bar> * pow10 s + 1 / 2\<rfloor> * pow10 (- s)))"

text \<open>For evaluation: a value whose denominator divides the scale is already rounded.\<close>

lemma sig_round_code [code]:
  "sig_round p x =
     (if x = 0 then 0
      else let (n, d) = quotient_of \<bar>x\<bar>; s = int p - 1 - dec_exp \<bar>x\<bar>
           in if 0 \<le> s \<and> 10 ^ nat s mod d = 0 then x
              else sgn x * (of_int \<lfloor>\<bar>x\<bar> * pow10 s + 1 / 2\<rfloor> * pow10 (- s)))"
proof (cases "x = 0")
  case False
  obtain n d where q: "quotient_of \<bar>x\<bar> = (n, d)" by (cases "quotient_of \<bar>x\<bar>")
  then have a: "\<bar>x\<bar> = of_int n / of_int d" and d: "0 < d"
    by (auto dest: quotient_of_div quotient_of_denom_pos)
  define s where "s = int p - 1 - dec_exp \<bar>x\<bar>"
  have "sgn x * (of_int \<lfloor>\<bar>x\<bar> * pow10 s + 1 / 2\<rfloor> * pow10 (- s)) = x"
    if "0 \<le> s" and "10 ^ nat s mod d = 0"
  proof -
    from that(2) obtain k where k: "10 ^ nat s = d * k" by auto
    have "\<bar>x\<bar> * pow10 s = of_int n / of_int d * of_int (10 ^ nat s)"
      using that(1) a by (simp add: pow10_def)
    also have "\<dots> = of_int (n * k)" unfolding k using d by simp
    finally have m: "\<bar>x\<bar> * pow10 s = of_int (n * k)" .
    have "\<lfloor>of_int (n * k) + (1 / 2 :: rat)\<rfloor> = n * k" by (rule floor_unique) simp_all
    then have "of_int \<lfloor>\<bar>x\<bar> * pow10 s + 1 / 2\<rfloor> * pow10 (- s) = \<bar>x\<bar> * pow10 s * pow10 (- s)"
      by (simp only: m)
    also have "\<dots> = \<bar>x\<bar> * (pow10 s * pow10 (- s))" by (simp only: mult.assoc)
    finally have "of_int \<lfloor>\<bar>x\<bar> * pow10 s + 1 / 2\<rfloor> * pow10 (- s) = \<bar>x\<bar> * (pow10 s * pow10 (- s))" .
    moreover have "pow10 s * pow10 (- s) = 1"
      unfolding pow10_powi by (simp add: power_int_add [symmetric])
    ultimately show ?thesis by (simp only: mult_1_right mult_sgn_abs)
  qed
  with False q show ?thesis by (simp add: sig_round_def Let_def s_def)
qed (simp add: sig_round_def)

lemma powi_10_pos [simp]: "0 < (10 powi i :: rat)"
  by (rule zero_less_power_int) simp

lemma powi_10_less_iff [simp]: "(10 powi i :: rat) < 10 powi j \<longleftrightarrow> i < j"
proof -
  have "(10 powi i :: rat) < 10 powi j" if "i < j" for i j
    using that by (rule power_int_strict_increasing) simp
  then show ?thesis by (cases i j rule: linorder_cases) (auto dest: less_asym)
qed

lemma powi_10_le_iff [simp]: "(10 powi i :: rat) \<le> 10 powi j \<longleftrightarrow> i \<le> j"
  by (simp add: linorder_not_less [symmetric])

lemma powi_10_mult [simp]: "(10 powi i * 10 powi j :: rat) = 10 powi (i + j)"
  by (simp add: power_int_add)

lemma dec_len_bounds_int:
  "0 < n \<Longrightarrow> 1 \<le> dec_len n \<and> 10 ^ nat (dec_len n - 1) \<le> n \<and> n < 10 ^ nat (dec_len n)"
proof (induction n rule: dec_len.induct)
  case (1 n)
  show ?case
  proof (cases "n < 10")
    case True
    then show ?thesis using "1.prems" by (simp add: dec_len.simps[of n])
  next
    case False
    let ?m = "n div 10" and ?k = "nat (dec_len (n div 10))"
    have IH: "1 \<le> dec_len ?m" "10 ^ nat (dec_len ?m - 1) \<le> ?m" "?m < 10 ^ ?k"
      using "1.IH" False by auto
    have len: "dec_len n = 1 + dec_len ?m" using False by (simp add: dec_len.simps[of n])
    have k: "?k = Suc (nat (dec_len ?m - 1))" "nat (dec_len n) = Suc ?k" using IH(1) len by auto
    have "10 ^ ?k \<le> 10 * ?m" using IH(2) k(1) by simp
    moreover have "10 * ?m \<le> n" "n < 10 * (?m + 1)" by simp_all
    moreover have "10 * (?m + 1) \<le> 10 * 10 ^ ?k" using IH(3) by simp
    ultimately show ?thesis using k(2) len IH(1) by (simp add: nat_add_distrib)
  qed
qed

lemma dec_len_bounds:
  assumes "0 < m"
  shows "10 powi (dec_len m - 1) \<le> (of_int m :: rat)" and "(of_int m :: rat) < 10 powi dec_len m"
proof -
  note b = dec_len_bounds_int[OF assms]
  have "(of_int (10 ^ nat (dec_len m - 1)) :: rat) \<le> of_int m" using b by (simp only: of_int_le_iff)
  then show "10 powi (dec_len m - 1) \<le> (of_int m :: rat)" using b by (simp add: power_int_def)
  have "(of_int m :: rat) < of_int (10 ^ nat (dec_len m))" using b by (simp only: of_int_less_iff)
  then show "(of_int m :: rat) < 10 powi dec_len m" using b by (simp add: power_int_def)
qed

lemma dec_exp_bounds:
  assumes "0 < a"
  shows "10 powi dec_exp a \<le> a" and "a < 10 powi (dec_exp a + 1)"
proof -
  obtain n d where q: "quotient_of a = (n, d)" by (cases "quotient_of a")
  then have a: "a = of_int n / of_int d" and d: "0 < d"
    by (auto dest: quotient_of_div quotient_of_denom_pos)
  with assms have n: "0 < n" by (simp add: zero_less_divide_iff)
  define N where "N = dec_len n"
  define M where "M = dec_len d"
  note nb = dec_len_bounds[OF n, folded N_def] and db = dec_len_bounds[OF d, folded M_def]
  have "10 powi (N - M - 1) * 10 powi M = (10 powi (N - 1) :: rat)"
    by simp
  moreover have "10 powi (N - M - 1) * of_int d < (10 powi (N - M - 1) * 10 powi M :: rat)"
    using db(2) by (intro mult_strict_left_mono) simp_all
  ultimately have lo: "10 powi (N - M - 1) \<le> a"
    using nb(1) d unfolding a by (simp add: le_divide_eq)
  have "10 powi (N - M + 1) * 10 powi (M - 1) = (10 powi N :: rat)"
    by simp
  moreover have "10 powi (N - M + 1) * 10 powi (M - 1) \<le> (10 powi (N - M + 1) * of_int d :: rat)"
    using db(1) by (intro mult_left_mono) (simp_all add: less_imp_le)
  ultimately have hi: "a < 10 powi (N - M + 1)"
    using nb(2) d unfolding a by (simp add: divide_less_eq)
  show "10 powi dec_exp a \<le> a" "a < 10 powi (dec_exp a + 1)"
    using lo hi by (auto simp: dec_exp_def q Let_def pow10_powi N_def [symmetric] M_def [symmetric])
qed

lemma sig_round_0 [simp]: "sig_round p 0 = 0"
  by (simp add: sig_round_def)

lemma sig_round_minus: "sig_round p (- x) = - sig_round p x"
  by (simp add: sig_round_def Let_def)

lemma sig_round_pos_eq:
  "0 < x \<Longrightarrow> s = int p - 1 - dec_exp x \<Longrightarrow>
   sig_round p x = of_int \<lfloor>x * 10 powi s + 1 / 2\<rfloor> * 10 powi (- s)"
  by (simp add: sig_round_def Let_def pow10_powi)

lemma sig_round_exact_pos:
  assumes "0 < x" and "fits p x"
  shows "sig_round p x = x"
proof -
  obtain m k :: int where mk: "\<bar>m\<bar> < 10 ^ p" "x = of_int m * 10 powi k"
    using assms(2) by (auto simp: fits_def)
  with assms(1) powi_10_pos[of k] have m: "0 < m"
    by (auto simp: zero_less_mult_iff dest: less_asym)
  define s where "s = int p - 1 - dec_exp x"
  have "m < 10 ^ p" using mk(1) by simp
  then have "(of_int m :: rat) < of_int (10 ^ p)" by (simp only: of_int_less_iff)
  then have "(of_int m :: rat) < 10 powi int p" by simp
  then have "of_int m * 10 powi k < (10 powi int p * 10 powi k :: rat)"
    by (intro mult_strict_right_mono) simp_all
  then have "x < 10 powi (int p + k)" by (simp only: mk(2) powi_10_mult)
  then have "10 powi dec_exp x < (10 powi (int p + k) :: rat)"
    using dec_exp_bounds(1)[OF assms(1)] by linarith
  then have "0 \<le> k + s" by (simp add: s_def)
  then have "(10 powi (k + s) :: rat) = of_int (10 ^ nat (k + s))" by (simp add: power_int_def)
  then have "x * 10 powi s = of_int (m * 10 ^ nat (k + s))"
    by (simp only: mk(2) mult.assoc powi_10_mult of_int_mult)
  moreover have "\<lfloor>of_int (m * 10 ^ nat (k + s)) + (1 / 2 :: rat)\<rfloor> = m * 10 ^ nat (k + s)"
    by (rule floor_unique) simp_all
  ultimately have "of_int \<lfloor>x * 10 powi s + 1 / 2\<rfloor> = x * 10 powi s" by simp
  then have "sig_round p x = x * (10 powi s * 10 powi (- s))"
    using sig_round_pos_eq[OF assms(1) s_def] by (simp add: mult.assoc)
  then show ?thesis by (simp flip: power_int_add)
qed

lemma sig_round_exact: "fits p x \<Longrightarrow> sig_round p x = x"
proof -
  assume f: "fits p x"
  then have "fits p (- x)" unfolding fits_def by (metis abs_minus_cancel mult_minus_left of_int_minus)
  with f show ?thesis
    using sig_round_exact_pos[of x p] sig_round_exact_pos[of "- x" p]
    by (cases x "0 :: rat" rule: linorder_cases) (auto simp: sig_round_minus)
qed

lemma sig_round_bounds:
  assumes "0 < x" and "0 < p"
  shows "10 powi dec_exp x \<le> sig_round p x" and "sig_round p x \<le> 10 powi (dec_exp x + 1)"
proof -
  define s where "s = int p - 1 - dec_exp x"
  note b = dec_exp_bounds[OF assms(1)]
  note eq = sig_round_pos_eq[OF assms(1) s_def]
  have e: "dec_exp x + s = int (p - 1)" "dec_exp x + 1 + s = int p"
    using assms(2) by (auto simp: s_def)
  have "10 powi dec_exp x * 10 powi s \<le> x * 10 powi s"
    using b(1) by (intro mult_right_mono) (simp_all add: less_imp_le)
  then have "of_int (10 ^ (p - 1)) \<le> x * 10 powi s" by (simp add: e(1))
  then have "10 ^ (p - 1) \<le> \<lfloor>x * 10 powi s + 1 / 2\<rfloor>" by linarith
  then have "of_int (10 ^ (p - 1)) * 10 powi (- s) \<le> (of_int \<lfloor>x * 10 powi s + 1 / 2\<rfloor> * 10 powi (- s) :: rat)"
    by (intro mult_right_mono) (simp_all only: of_int_le_iff powi_10_pos less_imp_le)
  moreover have "of_int (10 ^ (p - 1)) * 10 powi (- s) = (10 powi (int (p - 1) + - s) :: rat)"
    by (simp only: powi_10_mult [symmetric] power_int_of_nat of_int_power of_int_numeral)
  moreover have "int (p - 1) + - s = dec_exp x" using e(1) by simp
  ultimately show "10 powi dec_exp x \<le> sig_round p x" unfolding eq by metis
  have "x * 10 powi s < 10 powi (dec_exp x + 1) * 10 powi s"
    using b(2) by (intro mult_strict_right_mono) simp_all
  then have "x * 10 powi s < of_int (10 ^ p)" by (simp add: e(2))
  then have "\<lfloor>x * 10 powi s + 1 / 2\<rfloor> \<le> 10 ^ p" by linarith
  then have "(of_int \<lfloor>x * 10 powi s + 1 / 2\<rfloor> * 10 powi (- s) :: rat) \<le> of_int (10 ^ p) * 10 powi (- s)"
    by (intro mult_right_mono) (simp_all only: of_int_le_iff powi_10_pos less_imp_le)
  moreover have "of_int (10 ^ p) * 10 powi (- s) = (10 powi (int p + - s) :: rat)"
    by (simp only: powi_10_mult [symmetric] power_int_of_nat of_int_power of_int_numeral)
  moreover have "int p + - s = dec_exp x + 1" using e(2) by simp
  ultimately show "sig_round p x \<le> 10 powi (dec_exp x + 1)" unfolding eq by metis
qed

lemma dec_exp_mono: "0 < x \<Longrightarrow> x \<le> y \<Longrightarrow> dec_exp x \<le> dec_exp y"
proof -
  assume "0 < x" "x \<le> y"
  then have "10 powi dec_exp x < (10 powi (dec_exp y + 1) :: rat)"
    using dec_exp_bounds(1)[of x] dec_exp_bounds(2)[of y] by linarith
  then show ?thesis by simp
qed

lemma sig_round_mono_pos:
  assumes "0 < x" and "x \<le> y" and "0 < p"
  shows "sig_round p x \<le> sig_round p y"
proof (cases "dec_exp x = dec_exp y")
  case True
  have "0 < y" using assms by simp
  define s where "s = int p - 1 - dec_exp y"
  have "x * 10 powi s \<le> y * 10 powi s"
    using assms(2) by (intro mult_right_mono) (simp_all add: less_imp_le)
  then have "\<lfloor>x * 10 powi s + 1 / 2\<rfloor> \<le> \<lfloor>y * 10 powi s + 1 / 2\<rfloor>"
    by (intro floor_mono) simp
  then have "(of_int \<lfloor>x * 10 powi s + 1 / 2\<rfloor> * 10 powi (- s) :: rat)
      \<le> of_int \<lfloor>y * 10 powi s + 1 / 2\<rfloor> * 10 powi (- s)"
    by (intro mult_right_mono) (simp_all only: of_int_le_iff powi_10_pos less_imp_le)
  then show ?thesis
    using sig_round_pos_eq[OF \<open>0 < x\<close>, of s p] sig_round_pos_eq[OF \<open>0 < y\<close> s_def] True
    by (simp add: s_def)
next
  case False
  then have "dec_exp x + 1 \<le> dec_exp y" using dec_exp_mono[OF assms(1,2)] by simp
  then have "(10 powi (dec_exp x + 1) :: rat) \<le> 10 powi dec_exp y" by simp
  with sig_round_bounds(2)[OF assms(1,3)] sig_round_bounds(1)[of y p] assms show ?thesis by linarith
qed

lemma sig_round_mono:
  assumes "x \<le> y" and "0 < p"
  shows "sig_round p x \<le> sig_round p y"
proof -
  have nn: "0 \<le> sig_round p z" if "0 \<le> z" for z
  proof (cases "z = 0")
    case False
    with that have "10 powi dec_exp z \<le> sig_round p z" using sig_round_bounds(1) assms(2) by simp
    then show ?thesis using powi_10_pos[of "dec_exp z"] by linarith
  qed simp
  consider "0 < x" | "x \<le> 0" "0 \<le> y" | "y < 0" by linarith
  then show ?thesis
  proof cases
    case 1
    with assms show ?thesis by (intro sig_round_mono_pos)
  next
    case 2
    then show ?thesis using nn[of y] nn[of "- x"] by (simp add: sig_round_minus)
  next
    case 3
    then show ?thesis
      using assms sig_round_mono_pos[of "- y" "- x" p] by (simp add: sig_round_minus)
  qed
qed

text \<open>
  \<open>decimal_js\<close> parses plain decimal numerals (an optional sign, digits, an optional
  fraction); its number round trip keeps 15 significant digits, what every double carries.
\<close>

definition digit_val :: "char \<Rightarrow> int option" where
  "digit_val c = (let k = of_char c :: int in if 48 \<le> k \<and> k \<le> 57 then Some (k - 48) else None)"

fun parse_digits :: "int \<Rightarrow> string \<Rightarrow> int option" where
  "parse_digits acc [] = Some acc"
| "parse_digits acc (c # cs) =
     (case digit_val c of None \<Rightarrow> None | Some d \<Rightarrow> parse_digits (10 * acc + d) cs)"

definition parse_unsigned :: "string \<Rightarrow> rat option" where
  "parse_unsigned s =
     (let w = takeWhile (\<lambda>c. c \<noteq> CHR ''.'') s; f = drop (Suc (length w)) s
      in if w @ f = [] then None
         else map_option (\<lambda>n. of_int n / 10 ^ length f) (parse_digits 0 (w @ f)))"

fun parse_simple :: "string \<Rightarrow> rat option" where
  "parse_simple (CHR ''-'' # s) = map_option uminus (parse_unsigned s)"
| "parse_simple (CHR ''+'' # s) = parse_unsigned s"
| "parse_simple s = parse_unsigned s"

definition decimal_js :: decimal_lib where
  "decimal_js =
     \<lparr>ctx_round = sig_round 20, to_dp_half_up = half_up, to_dp_down = trunc_dp,
      parse_decimal = parse_simple, via_number = sig_round 15\<rparr>"

interpretation js: decimal_arith decimal_js
  by unfold_locales (simp_all add: decimal_js_def sig_round_exact sig_round_mono)

end
