(* ===== verification/InvoiceTypes.thy ===== *)
theory InvoiceTypes
  imports Decimal
begin

text \<open>
  The data of \<open>packages/invoice-math\<close>: inputs, results, error codes and constants
  (\<open>invoice.types.ts\<close>, \<open>invoice-math.error.ts\<close>, \<open>invoice.constants.ts\<close>,
  \<open>tax/gst.types.ts\<close>, \<open>tax/gst.constants.ts\<close>). A field keeps the source's name with a
  suffix naming its record, since fields of several records share a name.
\<close>

section \<open>Errors\<close>

text \<open>
  The codes an \<open>InvoiceMathError\<close> carries; \<open>DecimalError\<close> stands for an error the decimal
  package throws, which is none of them. Messages are not modelled.
\<close>

datatype thrown =
    ERR_NEGATIVE_DISCOUNT | ERR_DISCOUNT_EXCEEDS_SUBTOTAL | ERR_MISSING_DISCOUNT_REASON
  | ERR_DISCOUNT_LIMIT | ERR_ZERO_SUBTOTAL_DISCOUNT | ERR_INVALID_QUANTITY | ERR_INVALID_PRICE
  | ERR_INVALID_LINE_DISCOUNT | ERR_UNKNOWN_GST_RATE | ERR_INVALID_CESS | ERR_DUPLICATE_LINE
  | ERR_EMPTY_INVOICE | ERR_INVALID_PAYMENT | ERR_NEGATIVE_PAYMENT | ERR_NEGATIVE_UDHAR
  | ERR_PAYMENT_MISMATCH | ERR_CHANGE_NOT_ALLOWED | ERR_UNKNOWN_TENDER
  | ERR_UNKNOWN_PAYMENT_MODE | ERR_RETURN_QTY_EXCEEDS | ERR_INVALID_RETURN_LINE
  | ERR_AMOUNT_TOO_LARGE
  | DecimalError

section \<open>Inputs\<close>

text \<open>
  A \<open>NumericInput\<close> as it can arrive: absent, null, a finite number (the value \<open>new Decimal\<close>
  reads from it), \<open>NaN\<close> or an infinity, a text, or a finite Decimal.
\<close>

datatype numeric_input =
    NUndefined | NNull | NNumber rat | NNotFinite | NText string | NDecimal decimal

datatype TenderType = CASH | UPI | CARD | BANK_TRANSFER

datatype InvoicePaymentMode = PM_CASH | PM_UPI | PM_CARD | PM_UDHAR | PM_SPLIT

record InvoiceItemMathInput =
  productId_i :: string
  quantity_i :: numeric_input
  unitPrice_i :: numeric_input
  discountPercent_i :: numeric_input
  gstRateStr_i :: "string option"
  gstRate_i :: numeric_input
  cessRate_i :: numeric_input
  isInterState_i :: bool

text \<open>The tender's type is checked at run time, so it arrives as a string.\<close>

record TenderInput =
  type_ti :: string
  amount_ti :: numeric_input
  tenderedAmount_ti :: numeric_input
  reference_ti :: "string option"

record PaymentInput =
  tenders_pi :: "TenderInput list"
  udharAmount_pi :: numeric_input

record InvoiceMathInput =
  items_m :: "InvoiceItemMathInput list"
  discountAmount_m :: numeric_input
  discountPercentage_m :: numeric_input
  discountType_m :: "string option"
  discountReason_m :: "string option"
  payment_m :: "PaymentInput option"
  paymentMode_m :: "string option"
  amountPaid_m :: numeric_input
  udharAmount_m :: numeric_input

section \<open>Results\<close>

record InvoiceLineResult =
  productId_l :: string
  quantity_l :: decimal
  unitPrice_l :: decimal
  lineSubtotal_l :: decimal
  discountAmount_l :: decimal
  itemDiscountAmount_l :: decimal
  invoiceDiscountShare_l :: decimal
  taxableAmount_l :: decimal
  gstRate_l :: decimal
  cgstAmount_l :: decimal
  sgstAmount_l :: decimal
  igstAmount_l :: decimal
  cessAmount_l :: decimal
  taxAmount_l :: decimal
  lineTotal_l :: decimal

record TenderResult =
  type_t :: TenderType
  amount_t :: decimal
  tenderedAmount_t :: decimal
  changeAmount_t :: decimal
  reference_t :: "string option"

record PaymentResult =
  paidAmount_p :: decimal
  udharAmount_p :: decimal
  changeAmount_p :: decimal
  paymentMode_p :: InvoicePaymentMode
  tenders_p :: "TenderResult list"

record InvoiceCalculationResultV1 =
  schemaVersion_r :: int
  engineVersion_r :: string
  calculationHash_r :: string
  lines_r :: "InvoiceLineResult list"
  subtotal_r :: decimal
  totalItemDiscount_r :: decimal
  invoiceDiscount_r :: decimal
  totalDiscount_r :: decimal
  taxableTotal_r :: decimal
  totalCgst_r :: decimal
  totalSgst_r :: decimal
  totalIgst_r :: decimal
  totalCess_r :: decimal
  totalTax_r :: decimal
  grandTotal_r :: decimal
  roundOff_r :: decimal
  finalTotal_r :: decimal
  payment_r :: "PaymentResult option"

section \<open>Returns\<close>

record ReturnLineMathInput =
  lineRef_ri :: string
  originalQuantity_ri :: numeric_input
  returnedQuantity_ri :: numeric_input
  quantity_ri :: numeric_input
  unitPrice_ri :: numeric_input
  discountAmount_ri :: numeric_input
  taxableAmount_ri :: numeric_input
  cgstAmount_ri :: numeric_input
  sgstAmount_ri :: numeric_input
  igstAmount_ri :: numeric_input
  cessAmount_ri :: numeric_input
  totalAmount_ri :: numeric_input

record ReturnSettlementInput =
  invoiceTotal_s :: numeric_input
  refundedTotal_s :: numeric_input
  completesInvoice_s :: bool

record ReturnMathInput =
  lines_rm :: "ReturnLineMathInput list"
  settlement_rm :: "ReturnSettlementInput option"

record ReturnLineResult =
  lineRef_rl :: string
  quantity_rl :: decimal
  unitPrice_rl :: decimal
  lineSubtotal_rl :: decimal
  discountAmount_rl :: decimal
  taxableAmount_rl :: decimal
  cgstAmount_rl :: decimal
  sgstAmount_rl :: decimal
  igstAmount_rl :: decimal
  cessAmount_rl :: decimal
  taxAmount_rl :: decimal
  lineTotal_rl :: decimal

record ReturnCalculationResult =
  lines_rr :: "ReturnLineResult list"
  subtotal_rr :: decimal
  totalDiscount_rr :: decimal
  taxableTotal_rr :: decimal
  totalCgst_rr :: decimal
  totalSgst_rr :: decimal
  totalIgst_rr :: decimal
  totalCess_rr :: decimal
  totalTax_rr :: decimal
  grandTotal_rr :: decimal
  roundOff_rr :: decimal
  finalTotal_rr :: decimal

section \<open>Constants\<close>

definition MAX_DISCOUNT_PERCENT :: rat where "MAX_DISCOUNT_PERCENT = 100"

definition MAX_DISCOUNT_AMOUNT :: rat where "MAX_DISCOUNT_AMOUNT = 99999999"

definition TENDER_TYPES :: "(string \<times> TenderType) list" where
  "TENDER_TYPES =
     [(''CASH'', CASH), (''UPI'', UPI), (''CARD'', CARD), (''BANK_TRANSFER'', BANK_TRANSFER)]"

fun TENDER_TO_PAYMENT_MODE :: "TenderType \<Rightarrow> InvoicePaymentMode" where
  "TENDER_TO_PAYMENT_MODE CASH = PM_CASH"
| "TENDER_TO_PAYMENT_MODE UPI = PM_UPI"
| "TENDER_TO_PAYMENT_MODE CARD = PM_CARD"
| "TENDER_TO_PAYMENT_MODE BANK_TRANSFER = PM_CARD"

definition MONEY_DP :: nat where "MONEY_DP = 2"

definition QUANTITY_DP :: nat where "QUANTITY_DP = 3"

definition MONEY_MAX :: rat where "MONEY_MAX = 9999999999 / 100"

definition QUANTITY_MAX :: rat where "QUANTITY_MAX = 9999999999 / 1000"

definition GST_RATE_MAP :: "string \<rightharpoonup> rat" where
  "GST_RATE_MAP =
     [''ZERO'' \<mapsto> 0, ''FIVE'' \<mapsto> 5, ''TWELVE'' \<mapsto> 12, ''EIGHTEEN'' \<mapsto> 18, ''TWENTYEIGHT'' \<mapsto> 28]"

text \<open>
  \<open>GST_RATE_MAP[key]\<close> also finds what every JavaScript object inherits: under one of these
  names it is a function or an object, which \<open>new Decimal\<close> refuses.
\<close>

definition object_prototype_keys :: "string list" where
  "object_prototype_keys =
     [''constructor'', ''__defineGetter__'', ''__defineSetter__'', ''hasOwnProperty'',
      ''__lookupGetter__'', ''__lookupSetter__'', ''isPrototypeOf'', ''propertyIsEnumerable'',
      ''toString'', ''valueOf'', ''__proto__'', ''toLocaleString'']"

lemmas invoice_constants =
  MAX_DISCOUNT_PERCENT_def MAX_DISCOUNT_AMOUNT_def MONEY_DP_def QUANTITY_DP_def MONEY_MAX_def
  QUANTITY_MAX_def

lemma MONEY_MAX_grid [simp]: "on_grid 2 MONEY_MAX"
  by (auto simp: on_grid_iff invoice_constants)

lemma MONEY_MAX_small [simp]: "0 \<le> MONEY_MAX" "MONEY_MAX < 1000000000000000"
  by (simp_all add: invoice_constants)

end
