(* ===== verification/Tax.thy ===== *)
theory Tax
  imports InvoiceTypes
begin

text \<open>
  The GST and cess breakdown of one taxable amount (\<open>tax/tax.calculator.ts\<close>), its value
  in whole paise, and the bounds the invoice engine rests on.
\<close>

datatype GSTMode = INCLUSIVE | EXCLUSIVE

record TaxCalculationInput =
  taxableAmount_x :: decimal
  gstRate_x :: rat
  cessRate_x :: rat
  isInterState_x :: bool
  mode_x :: GSTMode

record TaxCalculationResult =
  baseAmount_x :: decimal
  totalAmount_x :: decimal
  cgstAmount_x :: decimal
  sgstAmount_x :: decimal
  igstAmount_x :: decimal
  taxCess_x :: decimal
  totalTaxAmount_x :: decimal

definition tax_base :: "decimal_lib \<Rightarrow> TaxCalculationInput \<Rightarrow> decimal" where
  "tax_base D inp =
     (case mode_x inp of
        INCLUSIVE \<Rightarrow>
          d_div D (taxableAmount_x inp)
            (d_plus D 1 (d_div D (d_plus D (gstRate_x inp) (cessRate_x inp)) 100))
      | EXCLUSIVE \<Rightarrow> taxableAmount_x inp)"

definition tax_part :: "decimal_lib \<Rightarrow> decimal \<Rightarrow> rat \<Rightarrow> decimal" where
  "tax_part D amount pct = to_dp_half_up D 2 (d_div D (d_mul D amount pct) 100)"

definition calculateTax :: "decimal_lib \<Rightarrow> TaxCalculationInput \<Rightarrow> TaxCalculationResult" where
  "calculateTax D inp =
     (let taxable = tax_base D inp;
          halfGst = d_div D (gstRate_x inp) 2;
          igst = (if isInterState_x inp then tax_part D taxable (gstRate_x inp) else 0);
          cgst = (if isInterState_x inp then 0 else tax_part D taxable halfGst);
          sgst = (if isInterState_x inp then 0 else tax_part D taxable halfGst);
          cess = tax_part D taxable (cessRate_x inp);
          totalTax = d_plus D (d_plus D (d_plus D cgst sgst) igst) cess;
          finalTaxable = to_dp_half_up D 2 taxable
      in \<lparr>baseAmount_x = finalTaxable, totalAmount_x = d_plus D finalTaxable totalTax,
          cgstAmount_x = cgst, sgstAmount_x = sgst, igstAmount_x = igst, taxCess_x = cess,
          totalTaxAmount_x = totalTax\<rparr>)"

section \<open>Amounts in paise\<close>

text \<open>\<open>paise b x\<close>: a non-negative whole number of paise, at most \<open>b\<close>.\<close>

definition paise :: "rat \<Rightarrow> rat \<Rightarrow> bool" where
  "paise b x \<longleftrightarrow> on_grid 2 x \<and> 0 \<le> x \<and> x \<le> b"

lemma paiseD: "paise b x \<Longrightarrow> on_grid 2 x" "paise b x \<Longrightarrow> 0 \<le> x" "paise b x \<Longrightarrow> x \<le> b"
  by (simp_all add: paise_def)

lemma paise_0 [simp]: "0 \<le> b \<Longrightarrow> paise b 0"
  by (simp add: paise_def)

lemma paise_mono: "paise a x \<Longrightarrow> a \<le> b \<Longrightarrow> paise b x"
  by (simp add: paise_def)

lemma paise_add: "paise a x \<Longrightarrow> paise b y \<Longrightarrow> paise (a + b) (x + y)"
  by (auto simp: paise_def intro: grid_intros)

lemma paise_sum_list:
  "(\<And>x. x \<in> set xs \<Longrightarrow> on_grid 2 x \<and> 0 \<le> x) \<Longrightarrow> paise (sum_list xs) (sum_list xs)"
  by (auto simp: paise_def intro!: grid_intros sum_list_nonneg)

context decimal_arith
begin

lemma d_plus_paise:
  assumes "paise a x" and "paise b y" and "a + b < 10 ^ 18"
  shows "d_plus D x y = x + y"
  using assms by (intro d_plus_grid[of 2]) (auto simp: paise_def)

lemma d_minus_paise:
  assumes "paise a x" and "paise b y" and "a < 10 ^ 18" and "b < 10 ^ 18"
  shows "d_minus D x y = x - y"
  using assms by (intro d_minus_grid[of 2]) (auto simp: paise_def)

lemma ctx_paise: "paise b x \<Longrightarrow> b < 10 ^ 18 \<Longrightarrow> ctx_round D x = x"
  by (intro ctx_grid[of 2]) (auto simp: paise_def)

lemma half_rate_bounds:
  assumes "0 \<le> pct" and "pct \<le> 100"
  shows "0 \<le> d_div D pct 2" and "d_div D pct 2 \<le> 50"
  using assms unfolding d_div_def
  by (auto intro!: ctx_nonneg ctx_le fits_grid[of 0] simp: on_grid_def)

text \<open>A percentage up to \<open>100\<close> of an amount in paise: whole paise, between \<open>0\<close> and the amount.\<close>

lemma d_div_100_bounds:
  assumes a: "paise b a" and b: "b < 10 ^ 15" and pct: "0 \<le> pct" "pct \<le> of_nat k" "k \<le> 100"
  shows "0 \<le> d_div D (d_mul D a pct) 100" and "d_div D (d_mul D a pct) 100 \<le> a * of_nat k / 100"
proof -
  have a': "on_grid 2 a" "0 \<le> a" "a < 10 ^ 15" using a b by (auto simp: paise_def)
  have le: "a * of_nat k \<le> a * 100" using a' pct(3) by (intro mult_left_mono) simp_all
  have g: "on_grid 2 (a * of_nat k)"
    using on_grid_mult[OF a'(1), of 0 "of_nat k"] on_grid_of_int[of 0 "int k"] by simp
  have fk: "fits 20 (a * of_nat k)"
    using a' le g by (intro fits_grid[of 2]) (auto simp: abs_of_nonneg)
  have m: "0 \<le> d_mul D a pct" "d_mul D a pct \<le> a * of_nat k"
    unfolding d_mul_def using a' pct fk by (auto intro!: ctx_nonneg ctx_le mult_left_mono)
  then show "0 \<le> d_div D (d_mul D a pct) 100" unfolding d_div_def by (intro ctx_nonneg) simp
  obtain m :: int where "a * of_nat k = of_int m / 10 ^ 2" using g by (auto simp: on_grid_iff)
  then have "a * of_nat k / 100 = of_int m / 10 ^ 4" by simp
  then have "on_grid 4 (a * of_nat k / 100)" unfolding on_grid_iff by blast
  moreover have "a * of_nat k / 100 \<le> a" using le by simp
  ultimately have "fits 20 (a * of_nat k / 100)"
    using a' by (intro fits_grid[of 4]) (auto simp: abs_of_nonneg)
  then show "d_div D (d_mul D a pct) 100 \<le> a * of_nat k / 100"
    unfolding d_div_def using m(2) by (intro ctx_le) (simp_all add: divide_right_mono)
qed

lemma tax_part_paise:
  assumes "paise b a" and "b < 10 ^ 15" and "0 \<le> pct" and "pct \<le> 100"
  shows "paise a (tax_part D a pct)"
proof -
  have "0 \<le> d_div D (d_mul D a pct) 100" "d_div D (d_mul D a pct) 100 \<le> a"
    using d_div_100_bounds[of b a pct 100] assms by simp_all
  with assms(1) show ?thesis
    by (auto simp: tax_part_def to_dp_half_up paise_def intro!: half_up_nonneg half_up_le)
qed

lemma tax_part_mono:
  assumes "0 \<le> a" and "a \<le> a'" and "0 \<le> pct"
  shows "tax_part D a pct \<le> tax_part D a' pct"
  using assms unfolding tax_part_def d_div_def d_mul_def to_dp_half_up
  by (intro half_up_mono ctx_mono divide_right_mono mult_right_mono) simp_all

text \<open>The whole breakdown in exclusive mode, every sum of it exact.\<close>

lemma calculateTax_exclusive:
  assumes a: "paise b (taxableAmount_x inp)" and b: "b < 10 ^ 15" and m: "mode_x inp = EXCLUSIVE"
    and gst: "0 \<le> gstRate_x inp" "gstRate_x inp \<le> 100"
    and cess: "0 \<le> cessRate_x inp" "cessRate_x inp \<le> 100"
    and t: "t = calculateTax D inp"
  shows "paise b (cgstAmount_x t)" "paise b (sgstAmount_x t)" "paise b (igstAmount_x t)"
    "paise b (taxCess_x t)" "baseAmount_x t = taxableAmount_x inp"
    "totalTaxAmount_x t = cgstAmount_x t + sgstAmount_x t + igstAmount_x t + taxCess_x t"
    "totalAmount_x t = taxableAmount_x inp + totalTaxAmount_x t"
    "isInterState_x inp \<Longrightarrow> cgstAmount_x t = 0 \<and> sgstAmount_x t = 0"
    "\<not> isInterState_x inp \<Longrightarrow> igstAmount_x t = 0 \<and> cgstAmount_x t = sgstAmount_x t"
proof -
  have b0: "0 \<le> b" using a by (auto simp: paise_def)
  have base: "tax_base D inp = taxableAmount_x inp" by (simp add: tax_base_def m)
  have part: "paise b (tax_part D (taxableAmount_x inp) pct)" if "0 \<le> pct" "pct \<le> 100" for pct
    using tax_part_paise[OF a b that] paiseD(3)[OF a] by (rule paise_mono)
  have half: "0 \<le> d_div D (gstRate_x inp) 2" "d_div D (gstRate_x inp) 2 \<le> 100"
    using half_rate_bounds[OF gst] by simp_all
  have sel: "cgstAmount_x t = (if isInterState_x inp then 0 else tax_part D (taxableAmount_x inp) (d_div D (gstRate_x inp) 2))"
    "sgstAmount_x t = (if isInterState_x inp then 0 else tax_part D (taxableAmount_x inp) (d_div D (gstRate_x inp) 2))"
    "igstAmount_x t = (if isInterState_x inp then tax_part D (taxableAmount_x inp) (gstRate_x inp) else 0)"
    "taxCess_x t = tax_part D (taxableAmount_x inp) (cessRate_x inp)"
    "totalTaxAmount_x t = d_plus D (d_plus D (d_plus D (cgstAmount_x t) (sgstAmount_x t)) (igstAmount_x t)) (taxCess_x t)"
    "totalAmount_x t = d_plus D (baseAmount_x t) (totalTaxAmount_x t)"
    "baseAmount_x t = half_up 2 (taxableAmount_x inp)"
    by (simp_all add: t calculateTax_def Let_def base to_dp_half_up)
  show p: "paise b (cgstAmount_x t)" "paise b (sgstAmount_x t)" "paise b (igstAmount_x t)" "paise b (taxCess_x t)"
    using part half gst cess b0 by (simp_all add: sel(1-4))
  show bs: "baseAmount_x t = taxableAmount_x inp" using a by (simp add: sel(7) half_up_exact paise_def)
  have s1: "d_plus D (cgstAmount_x t) (sgstAmount_x t) = cgstAmount_x t + sgstAmount_x t"
    using p b by (intro d_plus_paise[of b _ b]) simp_all
  have s2: "d_plus D (cgstAmount_x t + sgstAmount_x t) (igstAmount_x t) = cgstAmount_x t + sgstAmount_x t + igstAmount_x t"
    using p b by (intro d_plus_paise[of "b + b" _ b] paise_add) simp_all
  have s3: "d_plus D (cgstAmount_x t + sgstAmount_x t + igstAmount_x t) (taxCess_x t)
      = cgstAmount_x t + sgstAmount_x t + igstAmount_x t + taxCess_x t"
    using p b by (intro d_plus_paise[of "b + b + b" _ b] paise_add) simp_all
  show tt: "totalTaxAmount_x t = cgstAmount_x t + sgstAmount_x t + igstAmount_x t + taxCess_x t"
    unfolding sel(5) s1 s2 s3 ..
  have "paise (b + b + b + b) (totalTaxAmount_x t)" unfolding tt by (intro paise_add p)
  then show "totalAmount_x t = taxableAmount_x inp + totalTaxAmount_x t"
    unfolding sel(6) bs using a b b0 by (intro d_plus_paise) (simp_all, linarith)
  show "isInterState_x inp \<Longrightarrow> cgstAmount_x t = 0 \<and> sgstAmount_x t = 0"
    "\<not> isInterState_x inp \<Longrightarrow> igstAmount_x t = 0 \<and> cgstAmount_x t = sgstAmount_x t"
    by (simp_all add: sel(1-3))
qed

end

text \<open>The billed total of an amount, as a function of it: what the customer pays for the line.\<close>

definition exclusive_total :: "decimal_lib \<Rightarrow> decimal \<Rightarrow> rat \<Rightarrow> rat \<Rightarrow> bool \<Rightarrow> decimal" where
  "exclusive_total D a gst cess interState =
     totalAmount_x (calculateTax D \<lparr>taxableAmount_x = a, gstRate_x = gst, cessRate_x = cess,
       isInterState_x = interState, mode_x = EXCLUSIVE\<rparr>)"

context decimal_arith
begin

lemma exclusive_total_eq:
  assumes "paise b a" and "b < 10 ^ 15" and "0 \<le> gst" "gst \<le> 100" "0 \<le> cess" "cess \<le> 100"
  shows "exclusive_total D a gst cess interState =
    a + ((if interState then tax_part D a gst
          else tax_part D a (d_div D gst 2) + tax_part D a (d_div D gst 2)) + tax_part D a cess)"
proof -
  let ?inp = "\<lparr>taxableAmount_x = a, gstRate_x = gst, cessRate_x = cess,
       isInterState_x = interState, mode_x = EXCLUSIVE\<rparr>"
  note c = calculateTax_exclusive[of b ?inp, OF _ assms(2) _ _ _ _ _ refl]
  have "totalAmount_x (calculateTax D ?inp) = a + totalTaxAmount_x (calculateTax D ?inp)"
    "totalTaxAmount_x (calculateTax D ?inp) = cgstAmount_x (calculateTax D ?inp)
       + sgstAmount_x (calculateTax D ?inp) + igstAmount_x (calculateTax D ?inp) + taxCess_x (calculateTax D ?inp)"
    using c(6,7) assms by simp_all
  then show ?thesis
    by (simp add: exclusive_total_def) (simp add: calculateTax_def Let_def tax_base_def)
qed

lemma exclusive_total_mono:
  assumes "paise b a'" and "paise b a" "a \<le> a'" "b < 10 ^ 15"
    and r: "0 \<le> gst" "gst \<le> 100" "0 \<le> cess" "cess \<le> 100"
  shows "exclusive_total D a gst cess interState \<le> exclusive_total D a' gst cess interState"
proof -
  have m: "tax_part D a pct \<le> tax_part D a' pct" if "0 \<le> pct" for pct
    using that assms(2,3) by (intro tax_part_mono) (simp_all add: paise_def)
  show ?thesis
    using m[of gst] m[of "d_div D gst 2"] m[of cess] r half_rate_bounds[OF r(1,2)] assms(3)
    by (simp add: exclusive_total_eq[OF assms(2,4) r] exclusive_total_eq[OF assms(1,4) r])
qed

lemma exclusive_total_bounds:
  assumes "paise b a" and "b < 10 ^ 15" and r: "0 \<le> gst" "gst \<le> 100" "0 \<le> cess" "cess \<le> 100"
  shows "a \<le> exclusive_total D a gst cess interState" and "on_grid 2 (exclusive_total D a gst cess interState)"
proof -
  have p: "paise a (tax_part D a pct)" if "0 \<le> pct" "pct \<le> 100" for pct
    using tax_part_paise[OF assms(1,2) that] .
  note ps = p[OF r(1,2)] p[OF r(3,4)] p[of "d_div D gst 2"] half_rate_bounds[OF r(1,2)]
  show "a \<le> exclusive_total D a gst cess interState"
    using ps by (simp add: exclusive_total_eq[OF assms] paise_def)
  show "on_grid 2 (exclusive_total D a gst cess interState)"
    using ps assms(1) unfolding exclusive_total_eq[OF assms] by (auto intro!: grid_intros simp: paise_def)
qed

end

end
