(* ===== verification/Numeric.thy ===== *)
theory Numeric
  imports Tax
begin

text \<open>
  The engine's reading of its inputs (\<open>invoice-math.engine.ts\<close>): \<open>toDecimal\<close>, \<open>money\<close>, the
  GST and cess rate of a line, and what \<open>JSON.parse(JSON.stringify(input))\<close> makes of a
  number. Decimal's \<open>isNegative\<close> reads the sign, which rounding keeps even where the
  rounded value is zero, so a negativity test on a rounded input is a test on the input.
  Negative zero as an input is not modelled: a Decimal is the rational it denotes.
\<close>

definition nullish :: "numeric_input \<Rightarrow> bool" where
  "nullish v \<longleftrightarrow> v = NUndefined \<or> v = NNull"

text \<open>
  A numeric field after the JSON round trip: \<open>NaN\<close> and the infinities become null; a
  Decimal becomes its text, which denotes the same value.
\<close>

fun json_num :: "numeric_input \<Rightarrow> numeric_input" where
  "json_num NNotFinite = NNull"
| "json_num v = v"

fun toDecimal :: "decimal_lib \<Rightarrow> numeric_input \<Rightarrow> thrown + decimal" where
  "toDecimal D NUndefined = Inr 0"
| "toDecimal D NNull = Inr 0"
| "toDecimal D (NNumber r) = Inr r"
| "toDecimal D NNotFinite = Inl ERR_INVALID_PAYMENT"
| "toDecimal D (NText s) =
     (if s = [] then Inr 0
      else case parse_decimal D s of None \<Rightarrow> Inl ERR_INVALID_PAYMENT | Some d \<Rightarrow> Inr d)"
| "toDecimal D (NDecimal d) = Inr d"

definition money :: "decimal_lib \<Rightarrow> decimal \<Rightarrow> decimal" where
  "money D x = to_dp_half_up D MONEY_DP x"

definition resolveGstRate :: "decimal_lib \<Rightarrow> numeric_input \<Rightarrow> string option \<Rightarrow> thrown + decimal" where
  "resolveGstRate D gstRate gstRateStr =
     (if \<not> nullish gstRate
      then bind_res (toDecimal D gstRate) (\<lambda>rate.
        if rate < 0 \<or> 100 < rate then Inl ERR_UNKNOWN_GST_RATE else Inr rate)
      else
        let key = (case gstRateStr of None \<Rightarrow> ''EIGHTEEN'' | Some k \<Rightarrow> k)
        in case GST_RATE_MAP key of
             Some r \<Rightarrow> Inr r
           | None \<Rightarrow> (if key \<in> set object_prototype_keys then Inl DecimalError
                     else Inl ERR_UNKNOWN_GST_RATE))"

definition resolveCessRate :: "decimal_lib \<Rightarrow> numeric_input \<Rightarrow> thrown + decimal" where
  "resolveCessRate D v =
     bind_res (toDecimal D v) (\<lambda>rate.
       if rate < 0 \<or> 100 < rate then Inl ERR_INVALID_CESS else Inr rate)"

lemma GST_RATE_MAP_range: "GST_RATE_MAP k = Some r \<Longrightarrow> 0 \<le> r \<and> r \<le> 100"
  by (auto simp: GST_RATE_MAP_def split: if_splits)

lemma resolveGstRate_range:
  "resolveGstRate D g s = Inr r \<Longrightarrow> 0 \<le> r \<and> r \<le> 100"
  by (auto simp: resolveGstRate_def bind_res_eq_Inr Let_def not_less
           dest: GST_RATE_MAP_range split: if_splits option.splits)

lemma resolveCessRate_range: "resolveCessRate D v = Inr r \<Longrightarrow> 0 \<le> r \<and> r \<le> 100"
  by (auto simp: resolveCessRate_def bind_res_eq_Inr split: if_splits)

lemma toDecimal_json: "v \<noteq> NNotFinite \<Longrightarrow> toDecimal D (json_num v) = toDecimal D v"
  by (cases v) simp_all

context decimal_arith
begin

lemma money_eq: "money D x = half_up 2 x"
  by (simp add: money_def to_dp_half_up invoice_constants)

lemma money_grid [simp, grid_intros]: "on_grid 2 (money D x)"
  by (simp add: money_eq)

lemma money_exact: "on_grid 2 x \<Longrightarrow> money D x = x"
  by (simp add: money_eq half_up_exact)

lemma money_nonneg: "0 \<le> x \<Longrightarrow> 0 \<le> money D x"
  by (simp add: money_eq half_up_nonneg)

lemma money_mono: "x \<le> y \<Longrightarrow> money D x \<le> money D y"
  by (simp add: money_eq half_up_mono)

lemma money_le: "x \<le> y \<Longrightarrow> on_grid 2 y \<Longrightarrow> money D x \<le> y"
  by (simp add: money_eq half_up_le)

lemma money_paise: "0 \<le> x \<Longrightarrow> money D x \<le> b \<Longrightarrow> paise b (money D x)"
  by (simp add: paise_def money_nonneg)

end

section \<open>Cost of goods\<close>

definition costOfGoodsSlice ::
  "decimal_lib \<Rightarrow> numeric_input \<Rightarrow> numeric_input \<Rightarrow> numeric_input \<Rightarrow> thrown + decimal" where
  "costOfGoodsSlice D unitCost before quantity =
     bind_res (toDecimal D unitCost) (\<lambda>cost.
     bind_res (toDecimal D before) (\<lambda>done.
     bind_res (toDecimal D quantity) (\<lambda>qty.
       Inr (d_minus D (money D (d_mul D cost (d_plus D done qty))) (money D (d_mul D cost done))))))"

text \<open>
  The slices of one line, movement after movement: each starts where the earlier ones
  ended, as the callers pass the quantity already moved.
\<close>

fun cogs_slices :: "decimal_lib \<Rightarrow> decimal \<Rightarrow> decimal \<Rightarrow> decimal list \<Rightarrow> (thrown + decimal) list" where
  "cogs_slices D cost done [] = []"
| "cogs_slices D cost done (q # qs) =
     costOfGoodsSlice D (NDecimal cost) (NDecimal done) (NDecimal q)
       # cogs_slices D cost (d_plus D done q) qs"

context decimal_arith
begin

text \<open>Costs in paise up to a million crore, quantities in thousandths, both as the columns hold them.\<close>

lemma cogs_product:
  assumes "on_grid 2 c" "0 \<le> c" "c \<le> 10 ^ 8" "on_grid 3 q" "0 \<le> q" "q < 10 ^ 7"
  shows "d_mul D c q = c * q" and "paise (10 ^ 15) (money D (c * q))"
proof -
  have lt: "c * q \<le> 10 ^ 8 * q" using assms by (intro mult_right_mono) simp_all
  have g: "on_grid 5 (c * q)" using on_grid_mult[OF assms(1,4)] by simp
  have "\<bar>c * q\<bar> * 10 ^ 5 < 10 ^ 20"
    using lt assms by (simp add: abs_of_nonneg)
  then show "d_mul D c q = c * q" unfolding d_mul_def by (intro ctx_grid[OF g])
  have "c * q \<le> 10 ^ 15" using lt assms by simp
  then show "paise (10 ^ 15) (money D (c * q))"
    using assms on_grid_of_int[of 2 "10 ^ 15"] by (intro money_paise money_le) simp_all
qed

lemma costOfGoodsSlice_eq:
  assumes "on_grid 2 c" "0 \<le> c" "c \<le> 10 ^ 8" "on_grid 3 d" "0 \<le> d" "on_grid 3 q" "0 \<le> q" "d + q < 10 ^ 7"
  shows "costOfGoodsSlice D (NDecimal c) (NDecimal d) (NDecimal q)
    = Inr (money D (c * (d + q)) - money D (c * d))"
proof -
  have dq: "d_plus D d q = d + q" using assms by (intro d_plus_grid[of 3]) simp_all
  have g: "on_grid 3 (d + q)" using assms by (intro grid_intros)
  note p1 = cogs_product[OF assms(1,2,3) g] and p2 = cogs_product[OF assms(1,2,3,4,5)]
  have "d_minus D (money D (c * (d + q))) (money D (c * d)) = money D (c * (d + q)) - money D (c * d)"
    using assms p1 p2 by (intro d_minus_paise[of "10 ^ 15" _ "10 ^ 15"]) simp_all
  then show ?thesis
    using assms p1(1) p2(1) by (simp add: costOfGoodsSlice_def dq)
qed

lemma cogs_slices_telescope:
  assumes "on_grid 2 c" "0 \<le> c" "c \<le> 10 ^ 8" "on_grid 3 d" "0 \<le> d"
    "\<And>q. q \<in> set qs \<Longrightarrow> on_grid 3 q \<and> 0 \<le> q" "d + sum_list qs < 10 ^ 7"
  shows "\<exists>xs. cogs_slices D c d qs = map Inr xs
    \<and> sum_list xs = money D (c * (d + sum_list qs)) - money D (c * d)"
  using assms(4-)
proof (induction qs arbitrary: d)
  case Nil
  then show ?case by (intro exI[of _ "[]"]) simp
next
  case (Cons q qs)
  have s: "0 \<le> sum_list qs" using Cons.prems(3) by (intro sum_list_nonneg) auto
  then have dq: "d_plus D d q = d + q" using Cons.prems by (intro d_plus_grid[of 3]) auto
  have one: "costOfGoodsSlice D (NDecimal c) (NDecimal d) (NDecimal q)
      = Inr (money D (c * (d + q)) - money D (c * d))"
    using Cons.prems s by (intro costOfGoodsSlice_eq assms(1-3)) auto
  obtain xs where "cogs_slices D c (d + q) qs = map Inr xs"
    "sum_list xs = money D (c * (d + q + sum_list qs)) - money D (c * (d + q))"
    using Cons.IH[of "d + q"] Cons.prems by (auto intro: grid_intros simp: add.assoc)
  then show ?case
    using one dq by (intro exI[of _ "(money D (c * (d + q)) - money D (c * d)) # xs"]) (simp add: add.assoc)
qed

end

end
