(* ===== verification/Allocation.thy ===== *)
theory Allocation
  imports Numeric
begin

text \<open>
  \<open>allocateProportionally\<close> of \<open>invoice-math.engine.ts\<close>: the proportional shares of a total,
  rounded to paise, and the pass from the last line back to the first that settles what
  the rounding left over. The shares always add up to the total, and no share is negative
  or exceeds its weight.
\<close>

section \<open>Definitions\<close>

definition initial_share :: "decimal_lib \<Rightarrow> decimal \<Rightarrow> decimal \<Rightarrow> decimal \<Rightarrow> decimal" where
  "initial_share D tot base w = min (money D (d_div D (d_mul D tot w) base)) w"

text \<open>
  The second loop, on the (weight, share) pairs from the last line to the first; it leaves
  the remaining shares alone once the remainder is zero.
\<close>

fun settle_remainder :: "decimal_lib \<Rightarrow> decimal \<Rightarrow> (decimal \<times> decimal) list \<Rightarrow> decimal list" where
  "settle_remainder D rem [] = []"
| "settle_remainder D rem ((w, s) # ps) =
     (if rem = 0 then s # map snd ps
      else if 0 < rem then
        (let room = d_minus D w s in
         if 0 < room then
           (let add = min room rem
            in d_plus D s add # settle_remainder D (d_minus D rem add) ps)
         else s # settle_remainder D rem ps)
      else if 0 < s then
        (let give = min s (- rem)
         in d_minus D s give # settle_remainder D (d_plus D rem give) ps)
      else s # settle_remainder D rem ps)"

definition allocateProportionally :: "decimal_lib \<Rightarrow> decimal \<Rightarrow> decimal list \<Rightarrow> decimal list" where
  "allocateProportionally D tot weights =
     (if \<not> 0 < tot then map (\<lambda>_. 0) weights
      else let base = d_sum D weights in
      if \<not> 0 < base then map (\<lambda>_. 0) weights
      else
        (let shares = map (initial_share D tot base) weights;
             remainder = d_minus D tot (d_sum D shares)
         in rev (settle_remainder D remainder (rev (zip weights shares)))))"

section \<open>Settling the remainder\<close>

text \<open>Pairs of a weight and a share in paise, the share at most the weight.\<close>

definition share_pairs :: "rat \<Rightarrow> (decimal \<times> decimal) list \<Rightarrow> bool" where
  "share_pairs b ps \<longleftrightarrow> (\<forall>(w, s) \<in> set ps. paise b w \<and> paise w s)"

lemma length_settle_remainder: "length (settle_remainder D rem ps) = length ps"
  by (induction D rem ps rule: settle_remainder.induct) (auto simp: Let_def)

lemma length_allocateProportionally [simp]: "length (allocateProportionally D tot ws) = length ws"
  by (simp add: allocateProportionally_def Let_def length_settle_remainder)

lemma share_pairs_sum_bounds:
  "share_pairs b ps \<Longrightarrow> 0 \<le> sum_list (map snd ps) \<and> sum_list (map snd ps) \<le> sum_list (map fst ps)"
  by (induction ps) (fastforce simp: share_pairs_def paise_def)+

context decimal_arith
begin

lemma settle_remainder_correct:
  assumes "share_pairs b ps" and "b < 10 ^ 15" and "on_grid 2 rem" and "\<bar>rem\<bar> < 10 ^ 15"
    and "- sum_list (map snd ps) \<le> rem" and "rem \<le> sum_list (map fst ps) - sum_list (map snd ps)"
  shows "sum_list (settle_remainder D rem ps) = sum_list (map snd ps) + rem
    \<and> list_all2 (\<lambda>(w, _) s. paise w s) ps (settle_remainder D rem ps)"
  using assms
proof (induction ps arbitrary: rem)
  case Nil
  then show ?case by simp
next
  case (Cons p ps)
  obtain w s where p: "p = (w, s)" by (cases p)
  note prems = Cons.prems[unfolded p] and IH = Cons.IH
  have w: "paise b w" and s: "paise w s" and ps: "share_pairs b ps"
    using prems(1) by (auto simp: share_pairs_def)
  have ws: "on_grid 2 w" "on_grid 2 s" "0 \<le> s" "s \<le> w" "w < 10 ^ 15"
    using w s prems(2) by (auto simp: paise_def)
  note sb = share_pairs_sum_bounds[OF ps]
  note bounds = prems(2-6)
  have all2: "list_all2 (\<lambda>(w, _) s. paise w s) ps (map snd ps)"
    using ps by (auto simp: list_all2_conv_all_nth share_pairs_def split: prod.splits)
      (metis nth_mem old.prod.case)
  have room: "d_minus D w s = w - s"
    using ws by (intro d_minus_grid[of 2]) auto
  consider (zero) "rem = 0" | (add) "0 < rem" "s < w" | (full) "0 < rem" "s = w"
    | (give) "rem < 0" "0 < s" | (none) "rem < 0" "s = 0"
    using ws by linarith
  then show ?case
  proof cases
    case zero
    then show ?thesis unfolding p using all2 s by simp
  next
    case add
    let ?a = "min (w - s) rem"
    have a: "on_grid 2 ?a" "0 \<le> ?a" "?a \<le> rem" "?a \<le> w - s"
      using ws bounds(2) add by (auto intro: grid_intros)
    have "d_plus D s y = s + y" if "on_grid 2 y" "0 \<le> y" "y \<le> w - s" for y
      using that ws by (intro d_plus_grid[of 2]) auto
    then have "d_plus D s ?a = s + ?a" using a by blast
    moreover have "d_minus D rem y = rem - y" if "on_grid 2 y" "0 \<le> y" "y \<le> rem" for y
      using that bounds by (intro d_minus_grid[of 2]) auto
    then have "d_minus D rem ?a = rem - ?a" using a by blast
    moreover have "sum_list (settle_remainder D (rem - ?a) ps) = sum_list (map snd ps) + (rem - ?a)
      \<and> list_all2 (\<lambda>(w, _) s. paise w s) ps (settle_remainder D (rem - ?a) ps)"
      using IH[of "rem - ?a"] add ps bounds a sb calculation room
      by (auto intro: grid_intros simp: min_def split: if_splits)
    moreover have "paise w (s + ?a)" using ws a by (auto simp: paise_def intro: grid_intros)
    ultimately show ?thesis unfolding p using add room by (simp add: Let_def)
  next
    case full
    then show ?thesis unfolding p using IH[of rem] ps bounds sb room s by (simp add: Let_def)
  next
    case give
    let ?g = "min s (- rem)"
    have g: "on_grid 2 ?g" "0 \<le> ?g" "?g \<le> s" "?g \<le> - rem"
      using ws bounds(2) give by (auto intro: grid_intros)
    have "d_minus D s y = s - y \<and> d_plus D rem y = rem + y" if "on_grid 2 y" "0 \<le> y" "y \<le> s" "y \<le> - rem" for y
      using that ws bounds by (auto intro!: d_minus_grid[of 2] d_plus_grid[of 2])
    then have "d_minus D s ?g = s - ?g \<and> d_plus D rem ?g = rem + ?g" using g by blast
    moreover have "sum_list (settle_remainder D (rem + ?g) ps) = sum_list (map snd ps) + (rem + ?g)
      \<and> list_all2 (\<lambda>(w, _) s. paise w s) ps (settle_remainder D (rem + ?g) ps)"
      using IH[of "rem + ?g"] give ps bounds g sb calculation
      by (auto intro: grid_intros simp: min_def split: if_splits)
    moreover have "paise w (s - ?g)" using ws g by (auto simp: paise_def intro: grid_intros)
    ultimately show ?thesis unfolding p using give by (simp add: Let_def)
  next
    case none
    then show ?thesis unfolding p using IH[of rem] ps bounds sb s by simp
  qed
qed

section \<open>The allocation\<close>

lemma initial_share_paise:
  assumes "paise b tot" and "paise b w" and "b < 10 ^ 15" and "0 < base"
  shows "paise w (initial_share D tot base w)"
proof -
  have "0 \<le> d_div D (d_mul D tot w) base"
    using assms unfolding d_div_def d_mul_def
    by (auto intro!: ctx_nonneg divide_nonneg_nonneg mult_nonneg_nonneg simp: paise_def)
  then show ?thesis
    using assms by (auto simp: initial_share_def paise_def money_nonneg intro: grid_intros)
qed

lemma allocateProportionally_correct:
  assumes tot: "on_grid 2 tot" "0 \<le> tot" "tot \<le> sum_list ws"
    and ws: "\<And>w. w \<in> set ws \<Longrightarrow> on_grid 2 w \<and> 0 \<le> w" and small: "sum_list ws < 10 ^ 15"
  shows "sum_list (allocateProportionally D tot ws) = tot"
    and "list_all2 paise ws (allocateProportionally D tot ws)"
proof -
  have base: "d_sum D ws = sum_list ws"
    using ws small by (intro d_sum_exact[of _ 2]) auto
  let ?P = "sum_list (allocateProportionally D tot ws) = tot \<and> list_all2 paise ws (allocateProportionally D tot ws)"
  have ?P
  proof (cases "0 < tot")
    case False
    then show ?thesis using tot ws
      by (auto simp: allocateProportionally_def list_all2_conv_all_nth paise_def)
  next
    case True
    let ?b = "sum_list ws"
    let ?sh = "map (initial_share D tot ?b) ws"
    let ?ps = "rev (zip ws ?sh)"
    have pb: "paise ?b w" if "w \<in> set ws" for w
      using that ws member_le_sum_list[of w ws] by (auto simp: paise_def)
    have pt: "paise ?b tot" using tot by (simp add: paise_def)
    have ini: "paise w (initial_share D tot ?b w)" if "w \<in> set ws" for w
      using True tot small pb[OF that] by (intro initial_share_paise[OF pt _ small]) auto
    have shp: "share_pairs ?b ?ps" using ini pb by (auto simp: share_pairs_def in_set_zip)
    have snds: "map snd ?ps = rev ?sh" "map fst ?ps = rev ws" by (simp_all add: rev_map [symmetric])
    have sums: "0 \<le> sum_list ?sh" "sum_list ?sh \<le> ?b"
      using share_pairs_sum_bounds[OF shp] unfolding snds by simp_all
    have dsh: "d_sum D ?sh = sum_list ?sh"
      using ini sums small by (intro d_sum_exact[of _ 2]) (auto simp: paise_def)
    have gsh: "on_grid 2 (sum_list ?sh)"
      using ini by (intro on_grid_sum_list) (auto simp: paise_def)
    have rm: "d_minus D tot (sum_list ?sh) = tot - sum_list ?sh"
      using tot gsh sums small by (intro d_minus_grid[of 2]) auto
    let ?r = "settle_remainder D (tot - sum_list ?sh) ?ps"
    have "sum_list ?r = sum_list (map snd ?ps) + (tot - sum_list ?sh)
        \<and> list_all2 (\<lambda>(w, _) s. paise w s) ?ps ?r"
      using tot sums small unfolding snds
      by (intro settle_remainder_correct[OF shp small, unfolded snds])
         (auto intro!: grid_intros gsh)
    then have r: "sum_list ?r = tot" "list_all2 (\<lambda>(w, _) s. paise w s) ?ps ?r"
      unfolding snds by simp_all
    have alloc: "allocateProportionally D tot ws = rev ?r"
      using True tot by (simp add: allocateProportionally_def base dsh rm Let_def)
    have "list_all2 (\<lambda>(w, _) s. paise w s) (zip ws ?sh) (rev ?r)"
      using r(2) list_all2_rev[of "\<lambda>(w, _) s. paise w s" "zip ws ?sh" "rev ?r"] by simp
    then have "list_all2 paise ws (rev ?r)"
      by (auto simp: list_all2_conv_all_nth)
    then show ?thesis unfolding alloc using r(1) by simp
  qed
  then show "sum_list (allocateProportionally D tot ws) = tot"
    "list_all2 paise ws (allocateProportionally D tot ws)" by blast+
qed

end

end
