(* ===== verification/Payment.thy ===== *)
theory Payment
  imports Numeric
begin

text \<open>
  Payment settlement of an invoice (\<open>normalisePayment\<close>, \<open>deriveInvoicePaymentMode\<close> and
  \<open>settlePayment\<close> of \<open>invoice-math.engine.ts\<close>): the tenders applied, the change, the credit
  and the payment mode derived from them.
\<close>

definition tender_of :: "string \<Rightarrow> TenderType option" where
  "tender_of s = map_of TENDER_TYPES s"

text \<open>The legacy \<open>paymentMode, amountPaid, udharAmount\<close> mapped onto tenders; \<open>None\<close> is a preview.\<close>

definition normalisePayment :: "decimal_lib \<Rightarrow> InvoiceMathInput \<Rightarrow> thrown + PaymentInput option" where
  "normalisePayment D input =
     (case payment_m input of
        Some p \<Rightarrow> Inr (Some p)
      | None \<Rightarrow>
          if nullish (amountPaid_m input) then Inr None
          else
            let mode = js_upper (case paymentMode_m input of None \<Rightarrow> ''CASH'' | Some m \<Rightarrow> m) in
            bind_res (toDecimal D (amountPaid_m input)) (\<lambda>paid.
            bind_res (toDecimal D (udharAmount_m input)) (\<lambda>udhar.
              let cash = (\<lambda>ty. if paid = 0 then []
                    else [\<lparr>type_ti = ty, amount_ti = NDecimal paid, tenderedAmount_ti = NUndefined,
                           reference_ti = None\<rparr>]) in
              if mode = ''UDHAR'' then
                Inr (Some \<lparr>tenders_pi = [], udharAmount_pi = NDecimal (if udhar = 0 then paid else udhar)\<rparr>)
              else if mode = ''SPLIT'' then
                Inr (Some \<lparr>tenders_pi = cash ''CASH'', udharAmount_pi = NDecimal udhar\<rparr>)
              else if tender_of mode \<noteq> None then
                Inr (Some \<lparr>tenders_pi = cash mode, udharAmount_pi = NDecimal udhar\<rparr>)
              else Inl ERR_UNKNOWN_PAYMENT_MODE)))"

definition deriveInvoicePaymentMode ::
  "(TenderType \<times> decimal) list \<Rightarrow> decimal \<Rightarrow> InvoicePaymentMode" where
  "deriveInvoicePaymentMode tenders udhar =
     (let nonZero = filter (\<lambda>(_, amount). 0 < amount) tenders in
      case nonZero of
        [] \<Rightarrow> if 0 < udhar then PM_UDHAR else PM_CASH
      | (t, _) # _ \<Rightarrow>
          if 0 < udhar then PM_SPLIT
          else if 1 < length (remdups (map fst nonZero)) then PM_SPLIT
          else TENDER_TO_PAYMENT_MODE t)"

definition tendered_amount :: "decimal_lib \<Rightarrow> TenderInput \<Rightarrow> decimal \<Rightarrow> thrown + decimal" where
  "tendered_amount D t amount =
     (if nullish (tenderedAmount_ti t) then Inr amount
      else bind_res (toDecimal D (tenderedAmount_ti t)) (\<lambda>x. Inr (money D x)))"

definition settle_tender :: "decimal_lib \<Rightarrow> TenderInput \<Rightarrow> thrown + TenderResult" where
  "settle_tender D t =
     (case tender_of (type_ti t) of
        None \<Rightarrow> Inl ERR_UNKNOWN_TENDER
      | Some ty \<Rightarrow>
          bind_res (toDecimal D (amount_ti t)) (\<lambda>a.
          let amount = money D a in
          if a < 0 then Inl ERR_NEGATIVE_PAYMENT else
          if MONEY_MAX < amount then Inl ERR_INVALID_PAYMENT else
          bind_res (tendered_amount D t amount) (\<lambda>tendered.
          if tendered < amount then Inl ERR_INVALID_PAYMENT else
          let change = d_minus D tendered amount in
          if 0 < change \<and> ty \<noteq> CASH then Inl ERR_CHANGE_NOT_ALLOWED else
          Inr \<lparr>type_t = ty, amount_t = amount, tenderedAmount_t = tendered,
               changeAmount_t = change, reference_t = reference_ti t\<rparr>)))"

definition settlePayment :: "decimal_lib \<Rightarrow> PaymentInput \<Rightarrow> decimal \<Rightarrow> thrown + PaymentResult" where
  "settlePayment D payment finalTotal =
     bind_res (toDecimal D (udharAmount_pi payment)) (\<lambda>u.
     let udhar = money D u in
     if u < 0 then Inl ERR_NEGATIVE_UDHAR else
     bind_res (map_res (settle_tender D) (tenders_pi payment)) (\<lambda>tenders.
     let paidAmount = d_sum D (map amount_t tenders);
         changeAmount = d_sum D (map changeAmount_t tenders) in
     if d_plus D paidAmount udhar \<noteq> finalTotal then Inl ERR_PAYMENT_MISMATCH else
     if finalTotal < udhar then Inl ERR_NEGATIVE_PAYMENT else
     Inr \<lparr>paidAmount_p = paidAmount, udharAmount_p = udhar, changeAmount_p = changeAmount,
          paymentMode_p = deriveInvoicePaymentMode (map (\<lambda>t. (type_t t, amount_t t)) tenders) udhar,
          tenders_p = tenders\<rparr>))"

section \<open>The payment mode\<close>

lemma deriveInvoicePaymentMode_cases:
  "deriveInvoicePaymentMode ts u =
    (let paying = {t. \<exists>a. (t, a) \<in> set ts \<and> 0 < a} in
     if paying = {} then (if 0 < u then PM_UDHAR else PM_CASH)
     else if 0 < u then PM_SPLIT
     else if card paying = 1 then TENDER_TO_PAYMENT_MODE (THE t. t \<in> paying)
     else PM_SPLIT)"
proof -
  let ?nz = "filter (\<lambda>(_, amount). 0 < amount) ts"
  let ?P = "{t. \<exists>a. (t, a) \<in> set ts \<and> 0 < a}"
  have P: "set (map fst ?nz) = ?P" by force
  then have c: "card ?P = length (remdups (map fst ?nz))" by (metis length_remdups_card_conv)
  show ?thesis
  proof (cases ?nz)
    case Nil
    then have "?P = {}" using P by simp
    then show ?thesis using Nil by (simp add: deriveInvoicePaymentMode_def)
  next
    case (Cons p ps)
    obtain t a where p: "p = (t, a)" by (cases p)
    have tP: "t \<in> ?P" using P Cons p by auto
    then have ne: "?P \<noteq> {}" by blast
    have "finite ?P" using P by (metis finite_set)
    then have pos: "1 \<le> card ?P" using ne by (simp add: Suc_leI card_gt_0_iff)
    have the: "(THE x. x \<in> ?P) = t" if "card ?P = 1"
      using that tP by (metis (no_types, lifting) card_1_singletonE singletonD the_elem_eq the_equality)
    show ?thesis
      using Cons p pos the c ne by (auto simp: deriveInvoicePaymentMode_def Let_def)
  qed
qed

section \<open>A settled payment\<close>

context decimal_arith
begin

lemma settle_tender_Inr:
  assumes "settle_tender D t = Inr r"
  shows "paise MONEY_MAX (amount_t r)" "amount_t r \<le> tenderedAmount_t r"
    "on_grid 2 (tenderedAmount_t r)" "0 \<le> changeAmount_t r"
    "changeAmount_t r = d_minus D (tenderedAmount_t r) (amount_t r)"
    "0 < changeAmount_t r \<Longrightarrow> type_t r = CASH" "tender_of (type_ti t) = Some (type_t r)"
proof -
  obtain ty where ty: "tender_of (type_ti t) = Some ty"
    using assms by (auto simp: settle_tender_def split: option.splits)
  have "\<exists>a tendered. toDecimal D (amount_ti t) = Inr a \<and> \<not> a < 0 \<and> \<not> MONEY_MAX < money D a
    \<and> tendered_amount D t (money D a) = Inr tendered \<and> \<not> tendered < money D a
    \<and> \<not> (0 < d_minus D tendered (money D a) \<and> ty \<noteq> CASH)
    \<and> \<lparr>type_t = ty, amount_t = money D a, tenderedAmount_t = tendered,
         changeAmount_t = d_minus D tendered (money D a), reference_t = reference_ti t\<rparr> = r"
    using assms unfolding settle_tender_def by (simp add: ty bind_res_eq_Inr Let_def)
  then obtain a tendered where a: "0 \<le> a" "money D a \<le> MONEY_MAX" "money D a \<le> tendered"
    and td: "tendered_amount D t (money D a) = Inr tendered"
    and ch: "0 < d_minus D tendered (money D a) \<Longrightarrow> ty = CASH"
    and r: "r = \<lparr>type_t = ty, amount_t = money D a, tenderedAmount_t = tendered,
               changeAmount_t = d_minus D tendered (money D a), reference_t = reference_ti t\<rparr>"
    by (metis not_less)
  have g: "on_grid 2 tendered"
    using td by (auto simp: tendered_amount_def bind_res_eq_Inr split: if_splits)
  show "paise MONEY_MAX (amount_t r)" "amount_t r \<le> tenderedAmount_t r" "on_grid 2 (tenderedAmount_t r)"
    "changeAmount_t r = d_minus D (tenderedAmount_t r) (amount_t r)"
    "0 < changeAmount_t r \<Longrightarrow> type_t r = CASH" "tender_of (type_ti t) = Some (type_t r)"
    using ty a g ch by (auto simp: r paise_def money_nonneg)
  then show "0 \<le> changeAmount_t r" by (simp add: d_minus_def ctx_nonneg)
qed

lemma settlePayment_Inr:
  assumes s: "settlePayment D p ft = Inr r" and ft: "paise MONEY_MAX ft"
  shows "sum_list (map amount_t (tenders_p r)) + udharAmount_p r = ft"
    and "paidAmount_p r = sum_list (map amount_t (tenders_p r))"
    and "paise ft (udharAmount_p r)"
    and "\<And>t. t \<in> set (tenders_p r) \<Longrightarrow> paise MONEY_MAX (amount_t t) \<and> amount_t t \<le> tenderedAmount_t t
          \<and> 0 \<le> changeAmount_t t \<and> (0 < changeAmount_t t \<longrightarrow> type_t t = CASH)"
    and "paymentMode_p r = deriveInvoicePaymentMode (map (\<lambda>t. (type_t t, amount_t t)) (tenders_p r)) (udharAmount_p r)"
    and "length (tenders_p r) = length (tenders_pi p)"
proof -
  obtain u ts where u: "toDecimal D (udharAmount_pi p) = Inr u" "0 \<le> u"
    and ts: "map_res (settle_tender D) (tenders_pi p) = Inr ts"
    and eq: "d_plus D (d_sum D (map amount_t ts)) (money D u) = ft" and le: "money D u \<le> ft"
    and r: "r = \<lparr>paidAmount_p = d_sum D (map amount_t ts), udharAmount_p = money D u,
          changeAmount_p = d_sum D (map changeAmount_t ts),
          paymentMode_p = deriveInvoicePaymentMode (map (\<lambda>t. (type_t t, amount_t t)) ts) (money D u),
          tenders_p = ts\<rparr>"
    using s by (auto simp: settlePayment_def bind_res_eq_Inr Let_def not_less split: if_splits)
  have t: "paise MONEY_MAX (amount_t x) \<and> amount_t x \<le> tenderedAmount_t x
          \<and> 0 \<le> changeAmount_t x \<and> (0 < changeAmount_t x \<longrightarrow> type_t x = CASH)" if "x \<in> set ts" for x
    using map_res_Inr_set[OF ts that] settle_tender_Inr[of _ x] by blast
  show pu: "paise ft (udharAmount_p r)" using u le by (simp add: r money_paise)
  let ?s = "d_sum D (map amount_t ts)"
  have "?s * 10 ^ 2 < 10 ^ 19"
  proof (rule ccontr)
    assume "\<not> ?s * 10 ^ 2 < 10 ^ 19"
    then have "10 ^ 17 \<le> ?s + money D u" using pu by (simp add: r paise_def)
    then have "10 ^ 17 \<le> d_plus D ?s (money D u)"
      unfolding d_plus_def by (intro ctx_ge fits_grid[of 0]) (simp_all add: on_grid_def)
    then show False using eq ft by (simp add: paise_def invoice_constants)
  qed
  then have s: "?s = sum_list (map amount_t ts)"
    using t by (intro d_sum_exact_small[of _ 2]) (auto simp: paise_def)
  have "on_grid 2 ?s" "0 \<le> ?s" unfolding s using t by (auto intro!: on_grid_sum_list sum_list_nonneg simp: paise_def)
  moreover have "?s < 10 ^ 17" using \<open>?s * 10 ^ 2 < 10 ^ 19\<close> by simp
  ultimately have "d_plus D ?s (money D u) = ?s + money D u"
    using pu ft by (intro d_plus_grid[of 2]) (auto simp: r paise_def invoice_constants)
  then show "sum_list (map amount_t (tenders_p r)) + udharAmount_p r = ft"
    using eq s by (simp add: r)
  show "paidAmount_p r = sum_list (map amount_t (tenders_p r))" using s by (simp add: r)
  show "\<And>t. t \<in> set (tenders_p r) \<Longrightarrow> paise MONEY_MAX (amount_t t) \<and> amount_t t \<le> tenderedAmount_t t
          \<and> 0 \<le> changeAmount_t t \<and> (0 < changeAmount_t t \<longrightarrow> type_t t = CASH)"
    using t by (simp add: r)
  show "paymentMode_p r = deriveInvoicePaymentMode (map (\<lambda>t. (type_t t, amount_t t)) (tenders_p r)) (udharAmount_p r)"
    by (simp add: r)
  show "length (tenders_p r) = length (tenders_pi p)" using map_res_Inr_length[OF ts] by (simp add: r)
qed

end

end
