(* ===== verification/Hash.thy ===== *)
theory Hash
  imports Prelude "HOL-Library.Word"
begin

text \<open>
  \<open>generateHash\<close> of \<open>invoice-math.engine.ts\<close>: a 32-bit rolling hash over the UTF-16 code
  units of the frozen input's JSON text, printed in base 16. \<open>(hash << 5) - hash + code\<close>
  followed by \<open>hash |= 0\<close> is arithmetic modulo \<open>2\<close> to the \<open>32\<close>, so the accumulator is a
  32-bit word.
\<close>

definition hash_step :: "32 word \<Rightarrow> 16 word \<Rightarrow> 32 word" where
  "hash_step hash code = push_bit 5 hash - hash + ucast code"

definition hash_units :: "16 word list \<Rightarrow> 32 word" where
  "hash_units str = foldl hash_step 0 str"

definition hex_digit :: "nat \<Rightarrow> char" where
  "hex_digit d = (if d < 10 then char_of (48 + d) else char_of (87 + d))"

fun to_hex_acc :: "nat \<Rightarrow> string \<Rightarrow> string" where
  "to_hex_acc n acc =
     (if n < 16 then hex_digit n # acc else to_hex_acc (n div 16) (hex_digit (n mod 16) # acc))"

declare to_hex_acc.simps [simp del]

definition generateHash :: "16 word list \<Rightarrow> string" where
  "generateHash str = to_hex_acc (unat (hash_units str)) []"

section \<open>The hash as a polynomial\<close>

text \<open>The reference: the value of the code units as digits in base 31, reduced at the end.\<close>

definition poly31 :: "16 word list \<Rightarrow> nat" where
  "poly31 str = foldl (\<lambda>acc c. 31 * acc + unat c) 0 str"

lemma hash_step_31: "hash_step h c = 31 * h + ucast c"
  by (simp add: hash_step_def push_bit_eq_mult)

lemma hash_units_poly31: "hash_units str = of_nat (poly31 str)"
proof (induction str rule: rev_induct)
  case Nil
  then show ?case by (simp add: hash_units_def poly31_def)
next
  case (snoc c str)
  have "(ucast c :: 32 word) = of_nat (unat c)" by (simp add: of_nat_unat)
  then show ?case using snoc by (simp add: hash_units_def poly31_def hash_step_31)
qed

section \<open>The printed form\<close>

definition hex_val :: "char \<Rightarrow> nat" where
  "hex_val c = (let k = of_char c :: nat in if k < 58 then k - 48 else k - 87)"

definition of_hex :: "string \<Rightarrow> nat" where
  "of_hex s = foldl (\<lambda>acc c. 16 * acc + hex_val c) 0 s"

lemma hex_val_digit: "d < 16 \<Longrightarrow> hex_val (hex_digit d) = d"
  by (auto simp: hex_val_def hex_digit_def Let_def of_char_of)

lemma foldl_hex: "foldl (\<lambda>acc c. 16 * acc + hex_val c) a s = a * 16 ^ length s + of_hex s"
proof (induction s arbitrary: a)
  case Nil
  then show ?case by (simp add: of_hex_def)
next
  case (Cons c s)
  show ?case
    using Cons[of "16 * a + hex_val c"] Cons[of "hex_val c"] by (simp add: of_hex_def algebra_simps)
qed

lemma of_hex_Cons: "of_hex (c # s) = hex_val c * 16 ^ length s + of_hex s"
  using foldl_hex[of "hex_val c" s] by (simp add: of_hex_def)

lemma of_hex_Nil: "of_hex [] = 0"
  by (simp add: of_hex_def)

lemma to_hex_acc_val: "of_hex (to_hex_acc n acc) = n * 16 ^ length acc + of_hex acc"
proof (induction n acc rule: to_hex_acc.induct)
  case (1 n acc)
  show ?case
  proof (cases "n < 16")
    case True
    then show ?thesis by (subst to_hex_acc.simps) (simp add: of_hex_Cons hex_val_digit)
  next
    case False
    then have "of_hex (to_hex_acc n acc)
        = n div 16 * 16 ^ Suc (length acc) + (n mod 16) * 16 ^ length acc + of_hex acc"
      using "1" by (subst to_hex_acc.simps) (simp add: of_hex_Cons hex_val_digit)
    also have "\<dots> = (n div 16 * 16 + n mod 16) * 16 ^ length acc + of_hex acc"
      by (simp only: power_Suc add_mult_distrib mult.assoc)
    finally show ?thesis by (simp only: div_mult_mod_eq)
  qed
qed

lemma generateHash_val: "of_hex (generateHash str) = poly31 str mod 2 ^ 32"
  by (simp add: generateHash_def to_hex_acc_val hash_units_poly31 unat_of_nat of_hex_Nil)

lemma length_to_hex_acc: "n < 16 ^ Suc k \<Longrightarrow> length (to_hex_acc n acc) \<le> Suc k + length acc"
proof (induction k arbitrary: n acc)
  case 0
  then show ?case by (subst to_hex_acc.simps) simp
next
  case (Suc k)
  have "n div 16 < 16 ^ Suc k" using Suc.prems by (simp add: less_mult_imp_div_less)
  then show ?case
    using Suc.IH[of "n div 16" "hex_digit (n mod 16) # acc"] by (subst to_hex_acc.simps) simp
qed

lemma length_generateHash: "length (generateHash str) \<le> 8"
  using length_to_hex_acc[of "unat (hash_units str)" 7 "[]"] unsigned_less[of "hash_units str"]
  by (simp add: generateHash_def)

end
