(* ===== verification/InvoiceCalc.thy ===== *)
theory InvoiceCalc
  imports Allocation Payment Hash
begin

text \<open>
  \<open>InvoiceMathEngine.calculate\<close> of \<open>invoice-math.engine.ts\<close>, in the order the code has it:
  the checked lines (\<open>pre_lines\<close>), the invoice discount (\<open>invoice_discount\<close>), its
  allocation, the taxed lines (\<open>taxed_line\<close>), the totals, the round-off and the payment.
  \<open>JSON.stringify\<close> of the frozen input only feeds the audit hash; it is the parameter \<open>J\<close>.
\<close>

section \<open>The frozen input\<close>

definition json_item :: "InvoiceItemMathInput \<Rightarrow> InvoiceItemMathInput" where
  "json_item i = i\<lparr>quantity_i := json_num (quantity_i i), unitPrice_i := json_num (unitPrice_i i),
     discountPercent_i := json_num (discountPercent_i i), gstRate_i := json_num (gstRate_i i),
     cessRate_i := json_num (cessRate_i i)\<rparr>"

definition json_tender :: "TenderInput \<Rightarrow> TenderInput" where
  "json_tender t = t\<lparr>amount_ti := json_num (amount_ti t),
     tenderedAmount_ti := json_num (tenderedAmount_ti t)\<rparr>"

definition json_payment :: "PaymentInput \<Rightarrow> PaymentInput" where
  "json_payment p = p\<lparr>tenders_pi := map json_tender (tenders_pi p),
     udharAmount_pi := json_num (udharAmount_pi p)\<rparr>"

definition json_input :: "InvoiceMathInput \<Rightarrow> InvoiceMathInput" where
  "json_input m = m\<lparr>items_m := map json_item (items_m m),
     discountAmount_m := json_num (discountAmount_m m),
     discountPercentage_m := json_num (discountPercentage_m m),
     payment_m := map_option json_payment (payment_m m),
     amountPaid_m := json_num (amountPaid_m m), udharAmount_m := json_num (udharAmount_m m)\<rparr>"

section \<open>Checked lines\<close>

record PreLine =
  item_pre :: InvoiceItemMathInput
  qty_pre :: decimal
  unitPrice_pre :: decimal
  gstRate_pre :: decimal
  cessRate_pre :: decimal
  lineSubtotal_pre :: decimal
  itemDiscount_pre :: decimal
  netSubtotal_pre :: decimal

definition check_item :: "decimal_lib \<Rightarrow> InvoiceItemMathInput \<Rightarrow> thrown + PreLine" where
  "check_item D item =
     bind_res (toDecimal D (quantity_i item)) (\<lambda>q.
     let qty = to_dp_half_up D QUANTITY_DP q in
     if \<not> 0 < qty then Inl ERR_INVALID_QUANTITY else
     if QUANTITY_MAX < qty then Inl ERR_INVALID_QUANTITY else
     bind_res (toDecimal D (unitPrice_i item)) (\<lambda>p.
     let unitPrice = money D p in
     if p < 0 then Inl ERR_INVALID_PRICE else
     if MONEY_MAX < unitPrice then Inl ERR_INVALID_PRICE else
     bind_res (toDecimal D (discountPercent_i item)) (\<lambda>discPct.
     if discPct < 0 \<or> 100 < discPct then Inl ERR_INVALID_LINE_DISCOUNT else
     bind_res (resolveGstRate D (gstRate_i item) (gstRateStr_i item)) (\<lambda>gstRate.
     bind_res (resolveCessRate D (cessRate_i item)) (\<lambda>cessRate.
     let lineSubtotal = money D (d_mul D unitPrice qty) in
     if MONEY_MAX < lineSubtotal then Inl ERR_AMOUNT_TOO_LARGE else
     let itemDiscount = money D (d_div D (d_mul D lineSubtotal discPct) 100) in
     Inr \<lparr>item_pre = item, qty_pre = qty, unitPrice_pre = unitPrice, gstRate_pre = gstRate,
          cessRate_pre = cessRate, lineSubtotal_pre = lineSubtotal, itemDiscount_pre = itemDiscount,
          netSubtotal_pre = d_minus D lineSubtotal itemDiscount\<rparr>)))))"

fun pre_lines :: "decimal_lib \<Rightarrow> string list \<Rightarrow> InvoiceItemMathInput list \<Rightarrow> thrown + PreLine list" where
  "pre_lines D seen [] = Inr []"
| "pre_lines D seen (item # items) =
     (if productId_i item \<in> set seen then Inl ERR_DUPLICATE_LINE
      else bind_res (check_item D item) (\<lambda>p.
           bind_res (pre_lines D (productId_i item # seen) items) (\<lambda>ps. Inr (p # ps))))"

section \<open>The invoice discount\<close>

definition discount_value :: "decimal_lib \<Rightarrow> InvoiceMathInput \<Rightarrow> decimal \<Rightarrow> thrown + decimal" where
  "discount_value D input netSubtotal =
     (let discountType = js_upper (case discountType_m input of None \<Rightarrow> '''' | Some t \<Rightarrow> t);
          percent = (\<lambda>pct. money D (d_div D (d_mul D netSubtotal pct) 100)) in
      if discountType = ''PERCENTAGE'' then
        bind_res (toDecimal D (discountPercentage_m input)) (\<lambda>pct.
          if pct < 0 then Inl ERR_NEGATIVE_DISCOUNT else
          if MAX_DISCOUNT_PERCENT < pct then Inl ERR_DISCOUNT_LIMIT else Inr (percent pct))
      else if \<not> nullish (discountAmount_m input) then
        bind_res (toDecimal D (discountAmount_m input)) (\<lambda>a.
          if a < 0 then Inl ERR_NEGATIVE_DISCOUNT else Inr (money D a))
      else if \<not> nullish (discountPercentage_m input) \<and> discountType = '''' then
        bind_res (toDecimal D (discountPercentage_m input)) (\<lambda>pct.
          if pct < 0 then Inl ERR_NEGATIVE_DISCOUNT else Inr (percent pct))
      else Inr 0)"

definition invoice_discount :: "decimal_lib \<Rightarrow> InvoiceMathInput \<Rightarrow> decimal \<Rightarrow> thrown + decimal" where
  "invoice_discount D input netSubtotal =
     bind_res (discount_value D input netSubtotal) (\<lambda>d.
     if d < 0 then Inl ERR_NEGATIVE_DISCOUNT else
     if MAX_DISCOUNT_AMOUNT < d then Inl ERR_DISCOUNT_LIMIT else
     if 0 < d then
       (if netSubtotal = 0 then Inl ERR_ZERO_SUBTOTAL_DISCOUNT else
        if netSubtotal < d then Inl ERR_DISCOUNT_EXCEEDS_SUBTOTAL else
        if js_trim (case discountReason_m input of None \<Rightarrow> '''' | Some r \<Rightarrow> r) = ''''
        then Inl ERR_MISSING_DISCOUNT_REASON else Inr d)
     else Inr d)"

section \<open>Taxed lines\<close>

definition taxed_line :: "decimal_lib \<Rightarrow> PreLine \<Rightarrow> decimal \<Rightarrow> InvoiceLineResult" where
  "taxed_line D l share =
     (let discountAmount = d_plus D (itemDiscount_pre l) share;
          taxableAmount = money D (d_minus D (lineSubtotal_pre l) discountAmount);
          tax = calculateTax D
            \<lparr>taxableAmount_x = taxableAmount, gstRate_x = via_number D (gstRate_pre l),
             cessRate_x = via_number D (cessRate_pre l),
             isInterState_x = isInterState_i (item_pre l), mode_x = EXCLUSIVE\<rparr>
      in \<lparr>productId_l = productId_i (item_pre l), quantity_l = qty_pre l, unitPrice_l = unitPrice_pre l,
          lineSubtotal_l = lineSubtotal_pre l, discountAmount_l = discountAmount,
          itemDiscountAmount_l = itemDiscount_pre l, invoiceDiscountShare_l = share,
          taxableAmount_l = taxableAmount, gstRate_l = gstRate_pre l,
          cgstAmount_l = cgstAmount_x tax, sgstAmount_l = sgstAmount_x tax,
          igstAmount_l = igstAmount_x tax, cessAmount_l = taxCess_x tax,
          taxAmount_l = totalTaxAmount_x tax, lineTotal_l = totalAmount_x tax\<rparr>)"

section \<open>The calculation\<close>

definition totals ::
  "decimal_lib \<Rightarrow> string \<Rightarrow> decimal \<Rightarrow> decimal \<Rightarrow> InvoiceLineResult list \<Rightarrow> InvoiceCalculationResultV1" where
  "totals D hash totalItemDiscount invoiceDiscount ls =
     (let s = (\<lambda>f. d_sum D (map f ls));
          grandTotal = d_plus D (s taxableAmount_l) (s taxAmount_l);
          roundedTotal = to_dp_half_up D 0 grandTotal;
          roundOff = money D (d_minus D roundedTotal grandTotal)
      in \<lparr>schemaVersion_r = 2, engineVersion_r = ''2.0.0'', calculationHash_r = hash, lines_r = ls,
          subtotal_r = s lineSubtotal_l, totalItemDiscount_r = totalItemDiscount,
          invoiceDiscount_r = invoiceDiscount, totalDiscount_r = s discountAmount_l,
          taxableTotal_r = s taxableAmount_l, totalCgst_r = s cgstAmount_l,
          totalSgst_r = s sgstAmount_l, totalIgst_r = s igstAmount_l, totalCess_r = s cessAmount_l,
          totalTax_r = s taxAmount_l, grandTotal_r = grandTotal, roundOff_r = roundOff,
          finalTotal_r = d_plus D grandTotal roundOff, payment_r = None\<rparr>)"

definition calculate ::
  "decimal_lib \<Rightarrow> (InvoiceMathInput \<Rightarrow> 16 word list) \<Rightarrow> InvoiceMathInput \<Rightarrow> thrown + InvoiceCalculationResultV1" where
  "calculate D J rawInput =
     (let input = json_input rawInput in
      if items_m input = [] then Inl ERR_EMPTY_INVOICE else
      bind_res (pre_lines D [] (items_m input)) (\<lambda>pre.
      let rawSubtotal = d_sum D (map lineSubtotal_pre pre);
          totalItemDiscount = d_sum D (map itemDiscount_pre pre);
          netSubtotal = d_minus D rawSubtotal totalItemDiscount in
      bind_res (invoice_discount D input netSubtotal) (\<lambda>invoiceDiscount.
      let shares = allocateProportionally D invoiceDiscount (map netSubtotal_pre pre);
          ls = map2 (taxed_line D) pre shares;
          r = totals D (generateHash (J input)) totalItemDiscount invoiceDiscount ls in
      if MONEY_MAX < subtotal_r r \<or> MONEY_MAX < finalTotal_r r then Inl ERR_AMOUNT_TOO_LARGE else
      bind_res (normalisePayment D input) (\<lambda>paymentInput.
      case paymentInput of
        None \<Rightarrow> Inr r
      | Some p \<Rightarrow> bind_res (settlePayment D p (finalTotal_r r)) (\<lambda>pay. Inr (r\<lparr>payment_r := Some pay\<rparr>))))))"

section \<open>What a checked line guarantees\<close>

definition pre_ok :: "decimal_lib \<Rightarrow> PreLine \<Rightarrow> bool" where
  "pre_ok D p \<longleftrightarrow>
     on_grid 3 (qty_pre p) \<and> 0 < qty_pre p \<and> qty_pre p \<le> QUANTITY_MAX \<and>
     paise MONEY_MAX (unitPrice_pre p) \<and> paise MONEY_MAX (lineSubtotal_pre p) \<and>
     lineSubtotal_pre p = half_up 2 (unitPrice_pre p * qty_pre p) \<and>
     paise (lineSubtotal_pre p) (itemDiscount_pre p) \<and>
     netSubtotal_pre p = lineSubtotal_pre p - itemDiscount_pre p \<and>
     0 \<le> gstRate_pre p \<and> gstRate_pre p \<le> 100 \<and> 0 \<le> cessRate_pre p \<and> cessRate_pre p \<le> 100"

context decimal_arith
begin

lemma price_times_qty:
  assumes "paise MONEY_MAX u" and "on_grid 3 q" "0 \<le> q" "q \<le> QUANTITY_MAX"
  shows "d_mul D u q = u * q"
proof -
  have "u * q \<le> MONEY_MAX * QUANTITY_MAX"
    using assms by (intro mult_mono) (auto simp: paise_def invoice_constants)
  moreover have "\<bar>u * q\<bar> = u * q" using assms by (simp add: paise_def)
  ultimately have "\<bar>u * q\<bar> * 10 ^ 5 \<le> MONEY_MAX * QUANTITY_MAX * 10 ^ 5" by simp
  also have "\<dots> < 10 ^ 20" by (simp add: invoice_constants)
  finally have "\<bar>u * q\<bar> * 10 ^ 5 < 10 ^ 20" .
  moreover have "on_grid 5 (u * q)" using on_grid_mult[of 2 u 3 q] assms by (simp add: paise_def)
  ultimately show ?thesis unfolding d_mul_def by (intro ctx_grid[of 5])
qed

lemma percent_paise:
  assumes "paise b a" and "b < 10 ^ 15" and "0 \<le> pct" and "pct \<le> 100"
  shows "paise a (money D (d_div D (d_mul D a pct) 100))"
  using tax_part_paise[OF assms] by (simp add: tax_part_def money_def invoice_constants)

lemma check_item_Inr:
  assumes "check_item D item = Inr p"
  shows "pre_ok D p" and "item_pre p = item"
proof -
  obtain q u discPct where q: "0 < half_up 3 q" "half_up 3 q \<le> QUANTITY_MAX"
    and u: "0 \<le> u" "money D u \<le> MONEY_MAX" and pct: "0 \<le> discPct" "discPct \<le> 100"
    and rates: "0 \<le> gstRate_pre p" "gstRate_pre p \<le> 100" "0 \<le> cessRate_pre p" "cessRate_pre p \<le> 100"
    and sub: "money D (d_mul D (money D u) (half_up 3 q)) \<le> MONEY_MAX"
    and sel: "qty_pre p = half_up 3 q" "unitPrice_pre p = money D u"
      "lineSubtotal_pre p = money D (d_mul D (money D u) (half_up 3 q))"
      "itemDiscount_pre p = money D (d_div D (d_mul D (lineSubtotal_pre p) discPct) 100)"
      "netSubtotal_pre p = d_minus D (lineSubtotal_pre p) (itemDiscount_pre p)"
    and item: "item_pre p = item"
    using assms unfolding check_item_def
    by (clarsimp simp: bind_res_eq_Inr Let_def not_less to_dp_half_up QUANTITY_DP_def)
       (metis resolveGstRate_range resolveCessRate_range)
  show "item_pre p = item" by (rule item)
  have up: "paise MONEY_MAX (unitPrice_pre p)" using u sel by (simp add: money_paise)
  have mul: "d_mul D (unitPrice_pre p) (qty_pre p) = unitPrice_pre p * qty_pre p"
    using up q sel by (intro price_times_qty) simp_all
  have "0 \<le> unitPrice_pre p * qty_pre p" using up q sel by (simp add: paise_def)
  then have lp: "paise MONEY_MAX (lineSubtotal_pre p)"
    using sub mul sel(1-3) by (simp add: paise_def money_nonneg)
  have ip: "paise (lineSubtotal_pre p) (itemDiscount_pre p)"
    unfolding sel(4) using pct by (intro percent_paise[OF lp]) simp_all
  have "netSubtotal_pre p = lineSubtotal_pre p - itemDiscount_pre p"
    unfolding sel(5) using lp ip by (intro d_minus_paise[of MONEY_MAX _ MONEY_MAX])
      (auto simp: paise_def invoice_constants)
  then show "pre_ok D p"
    using up lp ip q rates sel mul by (simp add: pre_ok_def money_eq)
qed

lemma pre_lines_Inr:
  assumes "pre_lines D seen items = Inr ps"
  shows "map item_pre ps = items" and "\<And>p. p \<in> set ps \<Longrightarrow> pre_ok D p"
    and "distinct (map productId_i items)" and "set (map productId_i items) \<inter> set seen = {}"
proof -
  have "map item_pre ps = items \<and> (\<forall>p \<in> set ps. pre_ok D p) \<and>
      distinct (map productId_i items) \<and> set (map productId_i items) \<inter> set seen = {}"
    using assms
  proof (induction items arbitrary: seen ps)
    case Nil
    then show ?case by simp
  next
    case (Cons item items)
    then obtain p qs where p: "productId_i item \<notin> set seen" "check_item D item = Inr p"
      and qs: "pre_lines D (productId_i item # seen) items = Inr qs" "ps = p # qs"
      by (auto simp: bind_res_eq_Inr)
    from Cons.IH[OF qs(1)] check_item_Inr[OF p(2)] p(1) qs(2) show ?case by auto
  qed
  then show "map item_pre ps = items" "\<And>p. p \<in> set ps \<Longrightarrow> pre_ok D p"
    "distinct (map productId_i items)" "set (map productId_i items) \<inter> set seen = {}" by blast+
qed

end

section \<open>What a taxed line guarantees\<close>

definition line_ok :: "InvoiceLineResult \<Rightarrow> bool" where
  "line_ok l \<longleftrightarrow>
     paise MONEY_MAX (lineSubtotal_l l) \<and>
     discountAmount_l l = itemDiscountAmount_l l + invoiceDiscountShare_l l \<and>
     paise (lineSubtotal_l l) (itemDiscountAmount_l l) \<and>
     paise (lineSubtotal_l l) (invoiceDiscountShare_l l) \<and>
     taxableAmount_l l = lineSubtotal_l l - discountAmount_l l \<and>
     paise (lineSubtotal_l l) (taxableAmount_l l) \<and>
     paise (taxableAmount_l l) (cgstAmount_l l) \<and> paise (taxableAmount_l l) (sgstAmount_l l) \<and>
     paise (taxableAmount_l l) (igstAmount_l l) \<and> paise (taxableAmount_l l) (cessAmount_l l) \<and>
     taxAmount_l l = cgstAmount_l l + sgstAmount_l l + igstAmount_l l + cessAmount_l l \<and>
     lineTotal_l l = taxableAmount_l l + taxAmount_l l"

lemma line_ok_discount: "line_ok l \<Longrightarrow> paise (lineSubtotal_l l) (discountAmount_l l)"
  unfolding line_ok_def by (auto simp: paise_def intro: grid_intros)

lemma line_ok_tax: "line_ok l \<Longrightarrow> paise (4 * taxableAmount_l l) (taxAmount_l l)"
  unfolding line_ok_def by (auto simp: paise_def intro!: grid_intros)

context decimal_arith
begin

lemma taxed_line_ok:
  assumes p: "pre_ok D p" and sh: "paise (netSubtotal_pre p) share"
  shows "line_ok (taxed_line D p share)"
    and "isInterState_i (item_pre p) \<Longrightarrow>
      cgstAmount_l (taxed_line D p share) = 0 \<and> sgstAmount_l (taxed_line D p share) = 0"
    and "\<not> isInterState_i (item_pre p) \<Longrightarrow> igstAmount_l (taxed_line D p share) = 0
      \<and> cgstAmount_l (taxed_line D p share) = sgstAmount_l (taxed_line D p share)"
proof -
  let ?l = "taxed_line D p share"
  have ls: "paise MONEY_MAX (lineSubtotal_pre p)" and it: "paise (lineSubtotal_pre p) (itemDiscount_pre p)"
    and net: "netSubtotal_pre p = lineSubtotal_pre p - itemDiscount_pre p"
    using p unfolding pre_ok_def by blast+
  have small: "lineSubtotal_pre p < 10 ^ 15" using ls by (auto simp: paise_def invoice_constants)
  have disc: "d_plus D (itemDiscount_pre p) share = itemDiscount_pre p + share"
    using it sh net small by (intro d_plus_paise[of "lineSubtotal_pre p" _ "netSubtotal_pre p"])
      (auto simp: paise_def)
  have dp: "paise (lineSubtotal_pre p) (itemDiscount_pre p + share)"
    using it sh net by (auto simp: paise_def intro: grid_intros)
  have minus: "d_minus D (lineSubtotal_pre p) (itemDiscount_pre p + share)
      = lineSubtotal_pre p - (itemDiscount_pre p + share)"
    using ls dp small by (intro d_minus_paise[of MONEY_MAX _ "lineSubtotal_pre p"]) (auto simp: invoice_constants)
  have g: "on_grid 2 (lineSubtotal_pre p - (itemDiscount_pre p + share))"
    using ls dp by (auto simp: paise_def intro: grid_intros)
  let ?t = "lineSubtotal_pre p - (itemDiscount_pre p + share)"
  have tp: "paise ?t ?t" using g dp by (simp add: paise_def)
  let ?inp = "\<lparr>taxableAmount_x = ?t, gstRate_x = via_number D (gstRate_pre p),
     cessRate_x = via_number D (cessRate_pre p), isInterState_x = isInterState_i (item_pre p), mode_x = EXCLUSIVE\<rparr>"
  have ts: "?t < 10 ^ 15" using dp small by (simp add: paise_def)
  have r: "0 \<le> via_number D (gstRate_pre p)" "via_number D (gstRate_pre p) \<le> 100"
      "0 \<le> via_number D (cessRate_pre p)" "via_number D (cessRate_pre p) \<le> 100"
    using p via_nonneg via_le[of "gstRate_pre p" 100] via_le[of "cessRate_pre p" 100]
    by (simp_all add: pre_ok_def)
  note tax = calculateTax_exclusive[of ?t ?inp, OF _ ts _ _ _ _ _ refl, simplified, OF tp r]
  have sel: "taxableAmount_l ?l = ?t" "lineSubtotal_l ?l = lineSubtotal_pre p"
    "itemDiscountAmount_l ?l = itemDiscount_pre p" "invoiceDiscountShare_l ?l = share"
    "discountAmount_l ?l = itemDiscount_pre p + share"
    "cgstAmount_l ?l = cgstAmount_x (calculateTax D ?inp)" "sgstAmount_l ?l = sgstAmount_x (calculateTax D ?inp)"
    "igstAmount_l ?l = igstAmount_x (calculateTax D ?inp)" "cessAmount_l ?l = taxCess_x (calculateTax D ?inp)"
    "taxAmount_l ?l = totalTaxAmount_x (calculateTax D ?inp)" "lineTotal_l ?l = totalAmount_x (calculateTax D ?inp)"
    by (simp_all add: taxed_line_def Let_def disc minus money_exact g)
  have st: "paise (lineSubtotal_pre p) share" using sh net it by (auto simp: paise_def)
  have tl: "paise (lineSubtotal_pre p) ?t" using tp dp by (simp add: paise_def)
  show "line_ok ?l"
    unfolding line_ok_def sel using ls it st tl tax by simp
  show "isInterState_i (item_pre p) \<Longrightarrow> cgstAmount_l ?l = 0 \<and> sgstAmount_l ?l = 0"
    "\<not> isInterState_i (item_pre p) \<Longrightarrow> igstAmount_l ?l = 0 \<and> cgstAmount_l ?l = sgstAmount_l ?l"
    unfolding sel using tax by simp_all
qed

text \<open>Totals of well-formed lines: exact sums, once the subtotal is within the limit.\<close>

lemma totals_exact:
  assumes ok: "\<And>l. l \<in> set ls \<Longrightarrow> line_ok l" and r: "r = totals D h td d ls"
    and small: "subtotal_r r \<le> MONEY_MAX"
  shows "subtotal_r r = sum_list (map lineSubtotal_l ls)"
    and "totalDiscount_r r = sum_list (map discountAmount_l ls)"
    and "taxableTotal_r r = sum_list (map taxableAmount_l ls)"
    and "totalTax_r r = sum_list (map taxAmount_l ls)"
    and "totalCgst_r r = sum_list (map cgstAmount_l ls)"
    and "totalSgst_r r = sum_list (map sgstAmount_l ls)"
    and "totalIgst_r r = sum_list (map igstAmount_l ls)"
    and "totalCess_r r = sum_list (map cessAmount_l ls)"
    and "grandTotal_r r = taxableTotal_r r + totalTax_r r"
    and "finalTotal_r r = half_up 0 (grandTotal_r r)"
    and "roundOff_r r = finalTotal_r r - grandTotal_r r"
    and "paise (5 * MONEY_MAX) (grandTotal_r r)"
proof -
  let ?s = "\<lambda>f. sum_list (map f ls)"
  have sel: "lines_r r = ls" "subtotal_r r = d_sum D (map lineSubtotal_l ls)"
    "totalDiscount_r r = d_sum D (map discountAmount_l ls)" "taxableTotal_r r = d_sum D (map taxableAmount_l ls)"
    "totalTax_r r = d_sum D (map taxAmount_l ls)" "totalCgst_r r = d_sum D (map cgstAmount_l ls)"
    "totalSgst_r r = d_sum D (map sgstAmount_l ls)" "totalIgst_r r = d_sum D (map igstAmount_l ls)"
    "totalCess_r r = d_sum D (map cessAmount_l ls)"
    "grandTotal_r r = d_plus D (taxableTotal_r r) (totalTax_r r)"
    "roundOff_r r = money D (d_minus D (half_up 0 (grandTotal_r r)) (grandTotal_r r))"
    "finalTotal_r r = d_plus D (grandTotal_r r) (roundOff_r r)"
    by (simp_all add: r totals_def Let_def to_dp_half_up)
  have sub: "subtotal_r r = ?s lineSubtotal_l"
    unfolding sel using small ok by (intro d_sum_exact_small[of _ 2])
      (auto simp: line_ok_def paise_def sel(2) invoice_constants)
  then show "subtotal_r r = ?s lineSubtotal_l" .
  have S: "?s lineSubtotal_l \<le> MONEY_MAX" using sub small by simp
  have exact: "d_sum D (map f ls) = ?s f \<and> paise b (?s f)"
    if f: "\<And>l. l \<in> set ls \<Longrightarrow> on_grid 2 (f l) \<and> 0 \<le> f l" and le: "?s f \<le> b" "b \<le> 5 * MONEY_MAX" for f b
  proof
    show "d_sum D (map f ls) = ?s f"
      using f le by (intro d_sum_exact[of _ 2]) (auto simp: invoice_constants)
    show "paise b (?s f)" using f le by (auto simp: paise_def intro!: on_grid_sum_list sum_list_nonneg)
  qed
  have okD: "\<And>l. l \<in> set ls \<Longrightarrow> paise (lineSubtotal_l l) (discountAmount_l l)"
    "\<And>l. l \<in> set ls \<Longrightarrow> paise (lineSubtotal_l l) (taxableAmount_l l)"
    "\<And>l. l \<in> set ls \<Longrightarrow> paise (4 * taxableAmount_l l) (taxAmount_l l)"
    using ok line_ok_discount apply blast
    using ok unfolding line_ok_def apply blast
    using ok line_ok_tax by blast
  have comp: "\<And>l. l \<in> set ls \<Longrightarrow> paise (taxableAmount_l l) (cgstAmount_l l)"
    "\<And>l. l \<in> set ls \<Longrightarrow> paise (taxableAmount_l l) (sgstAmount_l l)"
    "\<And>l. l \<in> set ls \<Longrightarrow> paise (taxableAmount_l l) (igstAmount_l l)"
    "\<And>l. l \<in> set ls \<Longrightarrow> paise (taxableAmount_l l) (cessAmount_l l)"
    using ok unfolding line_ok_def by blast+
  have T: "?s taxableAmount_l \<le> MONEY_MAX"
    using order_trans[OF sum_list_mono S] okD(2) by (auto simp: paise_def)
  have le: "?s f \<le> MONEY_MAX" if "\<And>l. l \<in> set ls \<Longrightarrow> paise (taxableAmount_l l) (f l)" for f
    using order_trans[OF sum_list_mono T] that by (auto simp: paise_def)
  have X: "?s taxAmount_l \<le> 4 * MONEY_MAX"
  proof -
    have "?s taxAmount_l \<le> ?s (\<lambda>l. 4 * taxableAmount_l l)"
      using okD(3) by (intro sum_list_mono) (auto simp: paise_def)
    then show ?thesis using T by (simp add: sum_list_const_mult)
  qed
  have discount: "?s discountAmount_l \<le> MONEY_MAX"
    using order_trans[OF sum_list_mono S] okD(1) by (auto simp: paise_def)
  show "totalDiscount_r r = ?s discountAmount_l"
    using exact[of discountAmount_l MONEY_MAX] okD(1) discount sel by (auto simp: paise_def)
  have tx: "taxableTotal_r r = ?s taxableAmount_l" "paise MONEY_MAX (taxableTotal_r r)"
    using exact[of taxableAmount_l MONEY_MAX] okD(2) T sel by (auto simp: paise_def)
  show "taxableTotal_r r = ?s taxableAmount_l" by (rule tx(1))
  have tt: "totalTax_r r = ?s taxAmount_l" "paise (4 * MONEY_MAX) (totalTax_r r)"
    using exact[of taxAmount_l "4 * MONEY_MAX"] okD(3) X sel by (auto simp: paise_def)
  show "totalTax_r r = ?s taxAmount_l" by (rule tt(1))
  show "totalCgst_r r = ?s cgstAmount_l" "totalSgst_r r = ?s sgstAmount_l"
    "totalIgst_r r = ?s igstAmount_l" "totalCess_r r = ?s cessAmount_l"
    using exact[of cgstAmount_l MONEY_MAX] exact[of sgstAmount_l MONEY_MAX] exact[of igstAmount_l MONEY_MAX]
      exact[of cessAmount_l MONEY_MAX] comp le[of cgstAmount_l] le[of sgstAmount_l] le[of igstAmount_l]
      le[of cessAmount_l] sel by (auto simp: paise_def)
  show g: "grandTotal_r r = taxableTotal_r r + totalTax_r r"
  proof -
    have "5 * MONEY_MAX < 10 ^ 18" by (simp add: invoice_constants)
    then have "MONEY_MAX + 4 * MONEY_MAX < 10 ^ 18" by linarith
    then show ?thesis unfolding sel(10) by (intro d_plus_paise[OF tx(2) tt(2)])
  qed
  have "paise (MONEY_MAX + 4 * MONEY_MAX) (grandTotal_r r)" unfolding g by (intro paise_add tx tt)
  then show gp: "paise (5 * MONEY_MAX) (grandTotal_r r)" by simp
  have ru: "on_grid 2 (half_up 0 (grandTotal_r r))" "0 \<le> half_up 0 (grandTotal_r r)"
    "half_up 0 (grandTotal_r r) \<le> 10 ^ 10"
    using on_grid_mono[of 0 "half_up 0 (grandTotal_r r)" 2] gp
    by (auto simp: paise_def invoice_constants intro!: half_up_nonneg half_up_le simp flip: on_grid_def)
       (simp_all add: on_grid_def)
  have "d_minus D (half_up 0 (grandTotal_r r)) (grandTotal_r r) = half_up 0 (grandTotal_r r) - grandTotal_r r"
    using ru gp by (intro d_minus_paise[of "10 ^ 10" _ "5 * MONEY_MAX"]) (simp_all add: paise_def invoice_constants)
  then have ro: "roundOff_r r = half_up 0 (grandTotal_r r) - grandTotal_r r"
    unfolding sel(11) using ru gp by (auto simp: paise_def intro!: money_exact grid_intros)
  show f: "finalTotal_r r = half_up 0 (grandTotal_r r)"
    unfolding sel(12) d_plus_def ro using ru by (auto intro!: ctx_paise[of "10 ^ 10"] simp: paise_def)
  show "roundOff_r r = finalTotal_r r - grandTotal_r r" unfolding f ro ..
qed

text \<open>What a returned result was computed from.\<close>

lemma calculate_InrE:
  assumes "calculate D J raw = Inr r"
  obtains pre d pay where
    "items_m raw \<noteq> []" "pre_lines D [] (map json_item (items_m raw)) = Inr pre"
    "invoice_discount D (json_input raw)
       (d_minus D (d_sum D (map lineSubtotal_pre pre)) (d_sum D (map itemDiscount_pre pre))) = Inr d"
    "r = (totals D (generateHash (J (json_input raw))) (d_sum D (map itemDiscount_pre pre)) d
       (map2 (taxed_line D) pre (allocateProportionally D d (map netSubtotal_pre pre))))\<lparr>payment_r := pay\<rparr>"
    "subtotal_r r \<le> MONEY_MAX" "finalTotal_r r \<le> MONEY_MAX"
    "(normalisePayment D (json_input raw) = Inr None \<and> pay = None) \<or>
     (\<exists>p x. normalisePayment D (json_input raw) = Inr (Some p) \<and>
        settlePayment D p (finalTotal_r r) = Inr x \<and> pay = Some x)"
proof -
  have none: "t\<lparr>payment_r := None\<rparr> = t" if "payment_r t = None" for t :: InvoiceCalculationResultV1
    using that by (cases t) simp
  let ?k = "\<lambda>pre d. totals D (generateHash (J (json_input raw))) (d_sum D (map itemDiscount_pre pre)) d
       (map2 (taxed_line D) pre (allocateProportionally D d (map netSubtotal_pre pre)))"
  have pn: "payment_r (?k pre d) = None" for pre d by (simp add: totals_def Let_def)
  have items: "items_m (json_input raw) = map json_item (items_m raw)" by (simp add: json_input_def)
  from assms obtain pre d q where a: "items_m raw \<noteq> []" "pre_lines D [] (map json_item (items_m raw)) = Inr pre"
    "invoice_discount D (json_input raw)
       (d_minus D (d_sum D (map lineSubtotal_pre pre)) (d_sum D (map itemDiscount_pre pre))) = Inr d"
    "subtotal_r (?k pre d) \<le> MONEY_MAX" "finalTotal_r (?k pre d) \<le> MONEY_MAX"
    "normalisePayment D (json_input raw) = Inr q"
    and b: "(case q of None \<Rightarrow> Inr (?k pre d)
      | Some p \<Rightarrow> bind_res (settlePayment D p (finalTotal_r (?k pre d))) (\<lambda>pay. Inr ((?k pre d)\<lparr>payment_r := Some pay\<rparr>)))
      = (Inr r :: thrown + InvoiceCalculationResultV1)"
    unfolding calculate_def Let_def items
    by (simp add: bind_res_eq_Inr not_less del: split_paired_Ex) blast
  show thesis
  proof (cases q)
    case None
    with b have "r = ?k pre d" by simp
    then show thesis using a None none[OF pn] by (intro that[of pre d None]) simp_all
  next
    case (Some p)
    with b obtain x where "settlePayment D p (finalTotal_r (?k pre d)) = Inr x"
      and "r = (?k pre d)\<lparr>payment_r := Some x\<rparr>" by (auto simp: bind_res_eq_Inr)
    then show thesis using a Some by (intro that[of pre d "Some x"]) simp_all
  qed
qed

lemma discount_value_grid:
  assumes "discount_value D input net = Inr d"
  shows "on_grid 2 d"
  using assms
  by (auto simp: discount_value_def Let_def bind_res_eq_Inr money_eq split: if_splits intro: grid_intros)

lemma invoice_discount_Inr:
  assumes "invoice_discount D input net = Inr d"
  shows "on_grid 2 d" and "0 \<le> d" and "d \<le> MAX_DISCOUNT_AMOUNT"
    and "0 < d \<Longrightarrow> net \<noteq> 0 \<and> d \<le> net \<and> (\<exists>why. discountReason_m input = Some why \<and> js_trim why \<noteq> [])"
proof -
  from assms have d: "discount_value D input net = Inr d" "0 \<le> d" "d \<le> MAX_DISCOUNT_AMOUNT"
    and pos: "0 < d \<Longrightarrow> net \<noteq> 0 \<and> d \<le> net \<and>
      js_trim (case discountReason_m input of None \<Rightarrow> [] | Some r \<Rightarrow> r) \<noteq> []"
    by (auto simp: invoice_discount_def bind_res_eq_Inr not_less split: if_splits)
  show "on_grid 2 d" by (rule discount_value_grid[OF d(1)])
  show "0 \<le> d" "d \<le> MAX_DISCOUNT_AMOUNT" by (rule d)+
  assume "0 < d"
  from pos[OF this] show "net \<noteq> 0 \<and> d \<le> net \<and> (\<exists>why. discountReason_m input = Some why \<and> js_trim why \<noteq> [])"
    by (cases "discountReason_m input") (auto simp: js_trim_def)
qed

end

text \<open>The stages of a returned calculation: what the lines of the result were taxed from.\<close>

definition stages :: "decimal_lib \<Rightarrow> InvoiceMathInput \<Rightarrow> PreLine list \<Rightarrow> decimal list \<Rightarrow> InvoiceCalculationResultV1 \<Rightarrow> bool" where
  "stages D raw pre shares r \<longleftrightarrow>
     pre \<noteq> [] \<and> map item_pre pre = map json_item (items_m raw) \<and>
     distinct (map productId_i (items_m raw)) \<and> (\<forall>p \<in> set pre. pre_ok D p) \<and>
     list_all2 paise (map netSubtotal_pre pre) shares \<and> sum_list shares = invoiceDiscount_r r \<and>
     lines_r r = map2 (taxed_line D) pre shares \<and> subtotal_r r \<le> MONEY_MAX \<and> finalTotal_r r \<le> MONEY_MAX"

context decimal_arith
begin

lemma calculate_stages:
  assumes "calculate D J raw = Inr r"
  shows "\<exists>pre shares. stages D raw pre shares r \<and> sum_list (map netSubtotal_pre pre) \<le> MONEY_MAX \<and>
    invoice_discount D (json_input raw) (sum_list (map netSubtotal_pre pre)) = Inr (invoiceDiscount_r r) \<and>
    totalItemDiscount_r r = sum_list (map itemDiscount_pre pre)"
proof -
  obtain pre d pay where ne: "items_m raw \<noteq> []"
    and pre: "pre_lines D [] (map json_item (items_m raw)) = Inr pre"
    and d: "invoice_discount D (json_input raw)
       (d_minus D (d_sum D (map lineSubtotal_pre pre)) (d_sum D (map itemDiscount_pre pre))) = Inr d"
    and r: "r = (totals D (generateHash (J (json_input raw))) (d_sum D (map itemDiscount_pre pre)) d
       (map2 (taxed_line D) pre (allocateProportionally D d (map netSubtotal_pre pre))))\<lparr>payment_r := pay\<rparr>"
    and lim: "subtotal_r r \<le> MONEY_MAX" "finalTotal_r r \<le> MONEY_MAX"
    using calculate_InrE[OF assms] by metis
  let ?nets = "map netSubtotal_pre pre"
  define shares where "shares = allocateProportionally D d ?nets"
  have len: "length shares = length pre" by (simp add: shares_def)
  note P = pre_lines_Inr[OF pre]
  have ok: "paise MONEY_MAX (lineSubtotal_pre p)" "paise (lineSubtotal_pre p) (itemDiscount_pre p)"
    "netSubtotal_pre p = lineSubtotal_pre p - itemDiscount_pre p" if "p \<in> set pre" for p
    using P(2)[OF that] unfolding pre_ok_def by blast+
  have sel: "lines_r r = map2 (taxed_line D) pre shares" "invoiceDiscount_r r = d"
    "subtotal_r r = d_sum D (map lineSubtotal_l (lines_r r))"
    "totalItemDiscount_r r = d_sum D (map itemDiscount_pre pre)"
    by (simp_all add: r totals_def Let_def shares_def)
  have "map lineSubtotal_l (map2 (taxed_line D) pre sh) = map lineSubtotal_pre pre"
    if "length sh = length pre" for sh :: "decimal list"
    using that by (induction pre sh rule: list_induct2') (simp_all add: taxed_line_def Let_def)
  from this[OF len] have subs: "subtotal_r r = d_sum D (map lineSubtotal_pre pre)" by (simp add: sel)
  have raw_exact: "d_sum D (map lineSubtotal_pre pre) = sum_list (map lineSubtotal_pre pre)"
    using lim(1) ok(1) unfolding subs by (intro d_sum_exact_small[of _ 2]) (auto simp: paise_def invoice_constants)
  then have S: "sum_list (map lineSubtotal_pre pre) \<le> MONEY_MAX" using subs lim(1) by simp
  have di: "on_grid 2 (itemDiscount_pre p) \<and> 0 \<le> itemDiscount_pre p \<and> itemDiscount_pre p \<le> lineSubtotal_pre p"
    if "p \<in> set pre" for p using ok[OF that] by (simp add: paise_def)
  have I: "sum_list (map itemDiscount_pre pre) \<le> sum_list (map lineSubtotal_pre pre)"
    using di by (intro sum_list_mono) blast
  have item_exact: "d_sum D (map itemDiscount_pre pre) = sum_list (map itemDiscount_pre pre)"
    using I S di by (intro d_sum_exact[of _ 2]) (auto simp: invoice_constants)
  have nets: "sum_list ?nets = sum_list (map lineSubtotal_pre pre) - sum_list (map itemDiscount_pre pre)"
    using ok(3) by (simp add: sum_list_subtractf [symmetric] cong: map_cong)
  have net: "d_minus D (d_sum D (map lineSubtotal_pre pre)) (d_sum D (map itemDiscount_pre pre)) = sum_list ?nets"
    unfolding raw_exact item_exact nets using S I di ok(1)
    by (intro d_minus_paise[of MONEY_MAX _ MONEY_MAX])
       (auto simp: paise_def invoice_constants intro!: grid_intros sum_list_nonneg)
  have w: "on_grid 2 n \<and> 0 \<le> n" if "n \<in> set ?nets" for n
    using that ok di by (auto simp: paise_def intro!: grid_intros)
  have "0 \<le> sum_list (map itemDiscount_pre pre)" using di by (intro sum_list_nonneg) auto
  then have N: "0 \<le> sum_list ?nets" "sum_list ?nets \<le> MONEY_MAX"
    using nets S w sum_list_nonneg[of ?nets] by (blast, linarith)
  note D' = invoice_discount_Inr[OF d, unfolded net]
  have "d \<le> sum_list ?nets" using D'(2,4) N(1) by (cases "0 < d") auto
  moreover have "sum_list ?nets < 10 ^ 15" using N(2) by (simp add: invoice_constants)
  ultimately have sh: "sum_list shares = d" "list_all2 paise ?nets shares"
    using allocateProportionally_correct[of d ?nets] D' w by (simp_all add: shares_def)
  have ids: "distinct (map productId_i (items_m raw))" using P(3) by (simp add: comp_def json_item_def)
  have "pre \<noteq> []" using P(1) ne by auto
  have sum: "sum_list shares = invoiceDiscount_r r" using sh(1) sel(2) by simp
  have "stages D raw pre shares r"
    unfolding stages_def using P(1,2) \<open>pre \<noteq> []\<close> sh(2) sum sel(1) lim ids by blast
  moreover have "totalItemDiscount_r r = sum_list (map itemDiscount_pre pre)" using sel item_exact by simp
  ultimately show ?thesis using N(2) d unfolding net sel(2) by blast
qed

lemma stages_lines:
  assumes st: "stages D raw pre shares r"
  shows "\<And>l. l \<in> set (lines_r r) \<Longrightarrow> line_ok l"
    and "map productId_l (lines_r r) = map productId_i (items_m raw)"
    and "list_all2 (\<lambda>i l. if isInterState_i i then cgstAmount_l l = 0 \<and> sgstAmount_l l = 0
           else igstAmount_l l = 0 \<and> cgstAmount_l l = sgstAmount_l l) (items_m raw) (lines_r r)"
    and "map invoiceDiscountShare_l (lines_r r) = shares"
    and "map itemDiscountAmount_l (lines_r r) = map itemDiscount_pre pre"
    and "map lineSubtotal_l (lines_r r) = map lineSubtotal_pre pre"
proof -
  have ls: "lines_r r = map2 (taxed_line D) pre shares" and P: "\<forall>p \<in> set pre. pre_ok D p"
    and sh: "list_all2 paise (map netSubtotal_pre pre) shares"
    and it: "map item_pre pre = map json_item (items_m raw)"
    using st unfolding stages_def by blast+
  have len: "length shares = length pre" "length (items_m raw) = length pre"
    using list_all2_lengthD[OF sh] arg_cong[OF it, of length] by simp_all
  have nth: "paise (netSubtotal_pre (pre ! k)) (shares ! k)" "pre_ok D (pre ! k)"
    "lines_r r ! k = taxed_line D (pre ! k) (shares ! k)"
    "item_pre (pre ! k) = json_item (items_m raw ! k)" if "k < length pre" for k
    using that list_all2_nthD[OF sh, of k] P len ls arg_cong[OF it, of "\<lambda>xs. xs ! k"] by simp_all
  show "line_ok l" if "l \<in> set (lines_r r)" for l
  proof -
    from that obtain k where "k < length pre" "l = lines_r r ! k"
      using len ls by (auto simp: in_set_conv_nth)
    then show ?thesis using taxed_line_ok(1)[OF nth(2,1)] nth(3) by simp
  qed
  show "map productId_l (lines_r r) = map productId_i (items_m raw)"
    using len nth(3,4) ls
    by (intro nth_equalityI) (simp_all add: taxed_line_def Let_def json_item_def)
  show "list_all2 (\<lambda>i l. if isInterState_i i then cgstAmount_l l = 0 \<and> sgstAmount_l l = 0
           else igstAmount_l l = 0 \<and> cgstAmount_l l = sgstAmount_l l) (items_m raw) (lines_r r)"
  proof (rule list_all2_all_nthI)
    show "length (items_m raw) = length (lines_r r)" using len ls by simp
  next
    fix k assume "k < length (items_m raw)"
    then have k: "k < length pre" using len by simp
    have inter: "isInterState_i (item_pre (pre ! k)) = isInterState_i (items_m raw ! k)"
      unfolding nth(4)[OF k] by (simp add: json_item_def)
    show "if isInterState_i (items_m raw ! k) then cgstAmount_l (lines_r r ! k) = 0 \<and> sgstAmount_l (lines_r r ! k) = 0
           else igstAmount_l (lines_r r ! k) = 0 \<and> cgstAmount_l (lines_r r ! k) = sgstAmount_l (lines_r r ! k)"
      using taxed_line_ok(2,3)[OF nth(2)[OF k] nth(1)[OF k]] unfolding nth(3)[OF k] inter by simp
  qed
  have "map invoiceDiscountShare_l (map2 (taxed_line D) pre sh) = sh"
    "map itemDiscountAmount_l (map2 (taxed_line D) pre sh) = map itemDiscount_pre pre"
    "map lineSubtotal_l (map2 (taxed_line D) pre sh) = map lineSubtotal_pre pre"
    if "length sh = length pre" for sh
    using that by (induction pre sh rule: list_induct2') (simp_all add: taxed_line_def Let_def)
  from this[OF len(1)] show "map invoiceDiscountShare_l (lines_r r) = shares"
    "map itemDiscountAmount_l (lines_r r) = map itemDiscount_pre pre"
    "map lineSubtotal_l (lines_r r) = map lineSubtotal_pre pre"
    by (simp_all only: ls)
qed

text \<open>The totals of a returned result are the exact sums over its lines.\<close>

lemma calculate_totals:
  assumes "calculate D J raw = Inr r"
  obtains h td d where
    "\<And>l. l \<in> set (lines_r r) \<Longrightarrow> line_ok l"
    "r\<lparr>payment_r := None\<rparr> = totals D h td d (lines_r r)" "subtotal_r r \<le> MONEY_MAX"
proof -
  from calculate_stages[OF assms] obtain pre shares where st: "stages D raw pre shares r" by blast
  from calculate_InrE[OF assms] obtain pre' d pay where
    r: "r = (totals D (generateHash (J (json_input raw))) (d_sum D (map itemDiscount_pre pre')) d
       (map2 (taxed_line D) pre' (allocateProportionally D d (map netSubtotal_pre pre'))))\<lparr>payment_r := pay\<rparr>"
    (is "r = ?t\<lparr>payment_r := pay\<rparr>") and "subtotal_r r \<le> MONEY_MAX" by metis
  have none: "t\<lparr>payment_r := None\<rparr> = t" if "payment_r t = None" for t :: InvoiceCalculationResultV1
    using that by (cases t) simp
  have "r\<lparr>payment_r := None\<rparr> = totals D (generateHash (J (json_input raw)))
      (d_sum D (map itemDiscount_pre pre')) d (lines_r r)"
    using none[of ?t] by (simp add: r) (simp add: totals_def Let_def)
  from that[OF stages_lines(1)[OF st] this \<open>subtotal_r r \<le> MONEY_MAX\<close>] show thesis .
qed

end

end
