(* ===== verification/Samples.thy ===== *)
theory Samples
  imports InvoiceCalc
begin

text \<open>
  One invoice, worked through the stages of \<open>calculate\<close> with the concrete decimal arithmetic
  \<open>decimal_js\<close>: two lines (one within the state, one to another state), an invoice discount
  and a payment split over cash, UPI and credit. The witnesses of the invoice properties use it.
\<close>

definition sample_items :: "InvoiceItemMathInput list" where
  "sample_items =
     [\<lparr>productId_i = ''a'', quantity_i = NNumber 2, unitPrice_i = NText ''10.05'',
       discountPercent_i = NNumber 10, gstRateStr_i = Some ''EIGHTEEN'', gstRate_i = NUndefined,
       cessRate_i = NUndefined, isInterState_i = False\<rparr>,
      \<lparr>productId_i = ''b'', quantity_i = NNumber (5 / 2), unitPrice_i = NText ''33.33'',
       discountPercent_i = NUndefined, gstRateStr_i = None, gstRate_i = NNumber 5,
       cessRate_i = NNumber 1, isInterState_i = True\<rparr>]"

definition sample_payment :: PaymentInput where
  "sample_payment = \<lparr>tenders_pi =
     [\<lparr>type_ti = ''CASH'', amount_ti = NNumber 50, tenderedAmount_ti = NNumber 100, reference_ti = None\<rparr>,
      \<lparr>type_ti = ''UPI'', amount_ti = NNumber 40, tenderedAmount_ti = NUndefined, reference_ti = None\<rparr>],
     udharAmount_pi = NNumber 12\<rparr>"

definition sample_input :: InvoiceMathInput where
  "sample_input =
     \<lparr>items_m = sample_items, discountAmount_m = NNumber 7, discountPercentage_m = NUndefined,
      discountType_m = None, discountReason_m = Some ''festival'', payment_m = Some sample_payment,
      paymentMode_m = None, amountPaid_m = NUndefined, udharAmount_m = NUndefined\<rparr>"

definition sample_pre :: "PreLine list" where
  "sample_pre =
     [\<lparr>item_pre = hd sample_items, qty_pre = 2, unitPrice_pre = 201 / 20, gstRate_pre = 18,
       cessRate_pre = 0, lineSubtotal_pre = 201 / 10, itemDiscount_pre = 201 / 100,
       netSubtotal_pre = 1809 / 100\<rparr>,
      \<lparr>item_pre = sample_items ! 1, qty_pre = 5 / 2, unitPrice_pre = 3333 / 100, gstRate_pre = 5,
       cessRate_pre = 1, lineSubtotal_pre = 8333 / 100, itemDiscount_pre = 0,
       netSubtotal_pre = 8333 / 100\<rparr>]"

definition sample_lines :: "InvoiceLineResult list" where
  "sample_lines =
     [\<lparr>productId_l = ''a'', quantity_l = 2, unitPrice_l = 201 / 20,
       lineSubtotal_l = 201 / 10, discountAmount_l = 163 / 50, itemDiscountAmount_l = 201 / 100,
       invoiceDiscountShare_l = 5 / 4, taxableAmount_l = 421 / 25, gstRate_l = 18,
       cgstAmount_l = 38 / 25, sgstAmount_l = 38 / 25, igstAmount_l = 0, cessAmount_l = 0,
       taxAmount_l = 76 / 25, lineTotal_l = 497 / 25\<rparr>,
      \<lparr>productId_l = ''b'', quantity_l = 5 / 2, unitPrice_l = 3333 / 100,
       lineSubtotal_l = 8333 / 100, discountAmount_l = 23 / 4, itemDiscountAmount_l = 0,
       invoiceDiscountShare_l = 23 / 4, taxableAmount_l = 3879 / 50, gstRate_l = 5,
       cgstAmount_l = 0, sgstAmount_l = 0, igstAmount_l = 97 / 25, cessAmount_l = 39 / 50,
       taxAmount_l = 233 / 50, lineTotal_l = 2056 / 25\<rparr>]"

definition sample_paid :: PaymentResult where
  "sample_paid =
     \<lparr>paidAmount_p = 90, udharAmount_p = 12, changeAmount_p = 50, paymentMode_p = PM_SPLIT,
      tenders_p =
        [\<lparr>type_t = CASH, amount_t = 50, tenderedAmount_t = 100, changeAmount_t = 50, reference_t = None\<rparr>,
         \<lparr>type_t = UPI, amount_t = 40, tenderedAmount_t = 40, changeAmount_t = 0, reference_t = None\<rparr>]\<rparr>"

definition sample_result :: InvoiceCalculationResultV1 where
  "sample_result =
     \<lparr>schemaVersion_r = 2, engineVersion_r = ''2.0.0'', calculationHash_r = ''0'', lines_r = sample_lines,
      subtotal_r = 10343 / 100, totalItemDiscount_r = 201 / 100, invoiceDiscount_r = 7,
      totalDiscount_r = 901 / 100, taxableTotal_r = 4721 / 50, totalCgst_r = 38 / 25,
      totalSgst_r = 38 / 25, totalIgst_r = 97 / 25, totalCess_r = 39 / 50, totalTax_r = 77 / 10,
      grandTotal_r = 2553 / 25, roundOff_r = - (3 / 25), finalTotal_r = 102,
      payment_r = Some sample_paid\<rparr>"

lemma sample_pre_lines:
  "pre_lines decimal_js [] (items_m (json_input sample_input)) = Inr sample_pre"
  by code_simp

lemma sample_discount: "invoice_discount decimal_js (json_input sample_input)
    (d_minus decimal_js (d_sum decimal_js (map lineSubtotal_pre sample_pre))
      (d_sum decimal_js (map itemDiscount_pre sample_pre))) = Inr 7"
  by code_simp

lemma sample_shares:
  "allocateProportionally decimal_js 7 (map netSubtotal_pre sample_pre) = [5 / 4, 23 / 4]"
  by code_simp

lemma sample_taxed_0: "taxed_line decimal_js (hd sample_pre) (5 / 4) = hd sample_lines"
  by code_simp

lemma sample_taxed_1: "taxed_line decimal_js (sample_pre ! 1) (23 / 4) = sample_lines ! 1"
  by code_simp

lemma sample_taxed: "map2 (taxed_line decimal_js) sample_pre
    (allocateProportionally decimal_js 7 (map netSubtotal_pre sample_pre)) = sample_lines"
  using sample_taxed_0 sample_taxed_1
  by (simp only: sample_shares) (simp add: sample_pre_def sample_lines_def)

lemma sample_totals: "totals decimal_js (generateHash [])
    (d_sum decimal_js (map itemDiscount_pre sample_pre)) 7 sample_lines = sample_result\<lparr>payment_r := None\<rparr>"
  by code_simp

lemma sample_settled: "settlePayment decimal_js sample_payment 102 = Inr sample_paid"
  by code_simp

lemma sample_normalised:
  "normalisePayment decimal_js (json_input sample_input) = Inr (Some sample_payment)"
  by code_simp

lemma sample_calculate: "calculate decimal_js (\<lambda>_. []) sample_input = Inr sample_result"
  using sample_pre_lines sample_discount sample_taxed sample_totals sample_settled sample_normalised
  by (simp add: calculate_def Let_def)
     (simp add: sample_input_def sample_items_def json_input_def sample_result_def MONEY_MAX_def)

end
