(* ===== verification/Pricing.thy ===== *)
theory Pricing
  imports Numeric
begin

text \<open>
  Unit prices with and without tax, and what a percentage discount limit yields
  (\<open>inclusiveUnitPrice\<close>, \<open>exclusiveUnitPrice\<close>, \<open>discountLimitAmounts\<close> of
  \<open>invoice-math.engine.ts\<close>). The two correction loops of \<open>exclusiveUnitPrice\<close> are partial
  functions into \<open>option\<close>; \<open>exclusiveUnitPrice_spec\<close> shows they always stop.
\<close>

section \<open>Definitions\<close>

text \<open>The test \<open>/^\s*\d+(\.\d+)?\s*$/\<close> for a percentage typed as text.\<close>

definition is_digit :: "char \<Rightarrow> bool" where
  "is_digit c = (digit_val c \<noteq> None)"

definition numeral_text :: "string \<Rightarrow> bool" where
  "numeral_text s =
     (let t = js_trim s; w = takeWhile is_digit t; r = drop (length w) t
      in w \<noteq> [] \<and>
         (case r of [] \<Rightarrow> True | c # f \<Rightarrow> c = CHR ''.'' \<and> f \<noteq> [] \<and> list_all is_digit f))"

definition resolve_rate_arg :: "decimal_lib \<Rightarrow> numeric_input \<Rightarrow> thrown + decimal" where
  "resolve_rate_arg D gstRate =
     (case gstRate of
        NText s \<Rightarrow> (if \<not> numeral_text s then resolveGstRate D NUndefined (Some (js_trim s))
                   else resolveGstRate D gstRate None)
      | _ \<Rightarrow> resolveGstRate D gstRate None)"

definition inclusiveUnitPrice ::
  "decimal_lib \<Rightarrow> numeric_input \<Rightarrow> numeric_input \<Rightarrow> numeric_input \<Rightarrow> thrown + decimal" where
  "inclusiveUnitPrice D price gstRate cessPercent =
     bind_res (toDecimal D price) (\<lambda>p.
     let unitPrice = money D p in
     if p < 0 \<or> MONEY_MAX < unitPrice then Inl ERR_INVALID_PRICE else
     bind_res (resolve_rate_arg D gstRate) (\<lambda>rate.
     bind_res (resolveCessRate D cessPercent) (\<lambda>cess.
       let total = (\<lambda>interState. exclusive_total D unitPrice (via_number D rate) (via_number D cess) interState)
       in Inr (max (total False) (total True)))))"

definition paisa :: decimal where "paisa = 1 / 100"

text \<open>\<open>while (inclusiveUnitPrice(price.plus(paisa)) <= target) price = price.plus(paisa)\<close>\<close>

partial_function (option) raise_price ::
  "decimal_lib \<Rightarrow> numeric_input \<Rightarrow> numeric_input \<Rightarrow> decimal \<Rightarrow> decimal \<Rightarrow> (thrown + decimal) option" where
  "raise_price D gstRate cess target price =
     (case inclusiveUnitPrice D (NDecimal (d_plus D price paisa)) gstRate cess of
        Inl e \<Rightarrow> Some (Inl e)
      | Inr t \<Rightarrow> if t \<le> target then raise_price D gstRate cess target (d_plus D price paisa)
                else Some (Inr price))"

text \<open>\<open>while (price > 0 && inclusiveUnitPrice(price) > target) price = price.minus(paisa)\<close>\<close>

partial_function (option) lower_price ::
  "decimal_lib \<Rightarrow> numeric_input \<Rightarrow> numeric_input \<Rightarrow> decimal \<Rightarrow> decimal \<Rightarrow> (thrown + decimal) option" where
  "lower_price D gstRate cess target price =
     (if \<not> 0 < price then Some (Inr price)
      else case inclusiveUnitPrice D (NDecimal price) gstRate cess of
        Inl e \<Rightarrow> Some (Inl e)
      | Inr t \<Rightarrow> if target < t then lower_price D gstRate cess target (d_minus D price paisa)
                else Some (Inr price))"

definition exclusiveUnitPrice ::
  "decimal_lib \<Rightarrow> numeric_input \<Rightarrow> numeric_input \<Rightarrow> numeric_input \<Rightarrow> (thrown + decimal) option" where
  "exclusiveUnitPrice D inclusivePrice gstRate cessPercent =
     (case bind_res (toDecimal D inclusivePrice) (\<lambda>p.
            let target = money D p in
            if p < 0 \<or> MONEY_MAX < target then Inl ERR_INVALID_PRICE else
            bind_res (resolve_rate_arg D gstRate) (\<lambda>rate.
            bind_res (resolveCessRate D cessPercent) (\<lambda>cess.
              Inr (target, to_dp_down D 2
                (d_div D target (d_plus D 1 (d_div D (d_plus D rate cess) 100))))))) of
        Inl e \<Rightarrow> Some (Inl e)
      | Inr (target, price) \<Rightarrow>
          (case raise_price D gstRate cessPercent target price of
             None \<Rightarrow> None
           | Some (Inl e) \<Rightarrow> Some (Inl e)
           | Some (Inr price') \<Rightarrow> lower_price D gstRate cessPercent target price'))"

declare raise_price.simps [code] and lower_price.simps [code]

text \<open>The two limits of \<open>discountLimitAmounts\<close>: (\<open>invoice\<close>, \<open>effective\<close>).\<close>

definition discountLimitAmounts ::
  "decimal_lib \<Rightarrow> InvoiceCalculationResultV1 \<Rightarrow> numeric_input \<Rightarrow> thrown + (decimal \<times> decimal)" where
  "discountLimitAmounts D r limitPercent =
     bind_res (toDecimal D limitPercent) (\<lambda>limit.
       let share = (\<lambda>amount. money D (d_div D (d_mul D amount limit) 100));
           invoice = share (d_minus D (subtotal_r r) (totalItemDiscount_r r));
           perLine = d_sum D (map (\<lambda>l. share (lineSubtotal_l l)) (lines_r r))
       in Inr (invoice, max (share (subtotal_r r)) perLine))"

lemma trunc_dp_bounds:
  assumes "0 \<le> x"
  shows "on_grid n (trunc_dp n x)" and "0 \<le> trunc_dp n x" and "trunc_dp n x \<le> x"
proof -
  have eq: "trunc_dp n x = of_int \<lfloor>x * 10 ^ n\<rfloor> / 10 ^ n"
    using assms by (cases "x = 0") (simp_all add: trunc_dp_def)
  then show "on_grid n (trunc_dp n x)" unfolding on_grid_iff by blast
  show "0 \<le> trunc_dp n x" using assms by (simp add: eq)
  show "trunc_dp n x \<le> x" unfolding eq by (simp add: divide_le_eq)
qed

section \<open>The tax-inclusive price\<close>

lemma resolve_rate_arg_range: "resolve_rate_arg D g = Inr r \<Longrightarrow> 0 \<le> r \<and> r \<le> 100"
  by (auto simp: resolve_rate_arg_def dest: resolveGstRate_range split: numeric_input.splits if_splits)

text \<open>What \<open>inclusiveUnitPrice\<close> computes once its inputs are read.\<close>

definition billed :: "decimal_lib \<Rightarrow> rat \<Rightarrow> rat \<Rightarrow> decimal \<Rightarrow> decimal" where
  "billed D rate cess u =
     max (exclusive_total D u (via_number D rate) (via_number D cess) False)
         (exclusive_total D u (via_number D rate) (via_number D cess) True)"

context decimal_arith
begin

lemma via_rate: "0 \<le> r \<Longrightarrow> r \<le> 100 \<Longrightarrow> 0 \<le> via_number D r \<and> via_number D r \<le> 100"
  using via_nonneg[of r] via_le[of r 100] by simp

lemma inclusiveUnitPrice_paise:
  assumes "paise MONEY_MAX u" and "resolve_rate_arg D g = Inr rate" and "resolveCessRate D c = Inr cess"
  shows "inclusiveUnitPrice D (NDecimal u) g c = Inr (billed D rate cess u)"
  using assms by (simp add: inclusiveUnitPrice_def billed_def money_exact paise_def not_less Let_def)

lemma billed_mono:
  assumes "paise MONEY_MAX u" "paise MONEY_MAX v" "u \<le> v" "0 \<le> rate" "rate \<le> 100" "0 \<le> cess" "cess \<le> 100"
  shows "billed D rate cess u \<le> billed D rate cess v"
  using assms via_rate[of rate] via_rate[of cess] unfolding billed_def
  by (intro max.mono exclusive_total_mono[OF assms(2,1,3)]) (simp_all add: MONEY_MAX_small)

lemma billed_ge:
  assumes "paise MONEY_MAX u" "0 \<le> rate" "rate \<le> 100" "0 \<le> cess" "cess \<le> 100"
  shows "u \<le> billed D rate cess u" and "on_grid 2 (billed D rate cess u)"
  using assms via_rate[of rate] via_rate[of cess] unfolding billed_def
  by (auto intro!: on_grid_max exclusive_total_bounds MONEY_MAX_small le_max_iff_disj[THEN iffD2] disjI1)

lemma billed_0:
  assumes "0 \<le> rate" "rate \<le> 100" "0 \<le> cess" "cess \<le> 100"
  shows "billed D rate cess 0 = 0"
proof -
  have "exclusive_total D 0 (via_number D rate) (via_number D cess) i = 0" for i
    using assms via_rate[of rate] via_rate[of cess]
    by (subst exclusive_total_eq[of 0])
       (simp_all add: tax_part_def d_mul_def d_div_def to_dp_half_up)
  then show ?thesis by (simp add: billed_def)
qed

section \<open>The loops stop, and where\<close>

lemma step_paisa:
  assumes "paise MONEY_MAX u" and "u < v" and "paise MONEY_MAX v"
  shows "u + paisa \<le> v" and "paise MONEY_MAX (u + paisa)"
proof -
  show "u + paisa \<le> v"
    using on_grid_less_iff[of 2 u v] assms by (simp add: paise_def paisa_def)
  then show "paise MONEY_MAX (u + paisa)"
    using assms on_grid_add[of 2 u paisa] by (auto simp: paise_def paisa_def on_grid_iff)
qed

lemma d_plus_paisa: "paise MONEY_MAX u \<Longrightarrow> d_plus D u paisa = u + paisa"
  by (intro d_plus_paise[of MONEY_MAX _ 1]) (simp_all add: paise_def paisa_def on_grid_iff invoice_constants)

lemma paisa_grid: "on_grid 2 paisa"
  by (simp add: paisa_def on_grid_iff)

lemma d_minus_paisa:
  assumes "paise MONEY_MAX u" and "0 < u"
  shows "d_minus D u paisa = u - paisa" and "paise MONEY_MAX (u - paisa)"
proof -
  show "d_minus D u paisa = u - paisa"
    using assms(1) paisa_grid
    by (intro d_minus_paise[of MONEY_MAX _ 1]) (simp_all add: paise_def paisa_def invoice_constants)
  have "paisa \<le> u" using on_grid_less_iff[of 2 0 u] assms by (simp add: paise_def paisa_def)
  then show "paise MONEY_MAX (u - paisa)"
    using assms(1) paisa_grid by (auto simp: paise_def paisa_def intro!: on_grid_diff)
qed

lemma inclusive_too_large:
  assumes "paise MONEY_MAX u" and "\<not> paise MONEY_MAX (u + paisa)"
  shows "inclusiveUnitPrice D (NDecimal (u + paisa)) g c = Inl ERR_INVALID_PRICE"
proof -
  have g: "on_grid 2 (u + paisa)" using assms(1) paisa_grid by (auto simp: paise_def intro: grid_intros)
  then have "MONEY_MAX < u + paisa" using assms by (auto simp: paise_def paisa_def not_le)
  then show ?thesis using g by (simp add: inclusiveUnitPrice_def money_exact)
qed

lemma raise_price_spec:
  assumes g: "resolve_rate_arg D g = Inr rate" and c: "resolveCessRate D c = Inr cess"
  shows "paise MONEY_MAX u \<Longrightarrow>
    (\<exists>q. raise_price D g c target u = Some (Inr q) \<and> paise MONEY_MAX (q + paisa) \<and> paise MONEY_MAX q
       \<and> target < billed D rate cess (q + paisa)) \<or>
    (raise_price D g c target u = Some (Inl ERR_INVALID_PRICE) \<and>
       (u = MONEY_MAX \<or> billed D rate cess MONEY_MAX \<le> target))"
proof (induction "nat \<lfloor>(MONEY_MAX - u) * 100\<rfloor>" arbitrary: u rule: less_induct)
  case less
  note u = \<open>paise MONEY_MAX u\<close>
  note step = raise_price.simps[of D g c target u]
  show ?case
  proof (cases "paise MONEY_MAX (u + paisa)")
    case False
    then have "MONEY_MAX - u < paisa" using u paisa_grid
      by (auto simp: paise_def paisa_def not_le intro: grid_intros)
    then have "u = MONEY_MAX" using u step_paisa(1)[of u MONEY_MAX] by (auto simp: paise_def order.order_iff_strict)
    then show ?thesis using step inclusive_too_large[OF u False] d_plus_paisa[OF u] by simp
  next
    case True
    note inc = inclusiveUnitPrice_paise[OF True g c]
    show ?thesis
    proof (cases "billed D rate cess (u + paisa) \<le> target")
      case False
      then show ?thesis using step inc True u d_plus_paisa[OF u] by simp
    next
      case le: True
      have "(MONEY_MAX - (u + paisa)) * 100 = (MONEY_MAX - u) * 100 - 1" by (simp add: paisa_def algebra_simps)
      moreover have "1 \<le> (MONEY_MAX - u) * 100" using True by (simp add: paise_def paisa_def)
      ultimately have "nat \<lfloor>(MONEY_MAX - (u + paisa)) * 100\<rfloor> < nat \<lfloor>(MONEY_MAX - u) * 100\<rfloor>" by linarith
      from less.hyps[OF this True] show ?thesis
        using step inc le u d_plus_paisa[OF u] by auto
    qed
  qed
qed

lemma lower_price_spec:
  assumes g: "resolve_rate_arg D g = Inr rate" and c: "resolveCessRate D c = Inr cess" and t: "0 \<le> target"
  shows "paise MONEY_MAX u \<Longrightarrow>
    \<exists>q. lower_price D g c target u = Some (Inr q) \<and> paise MONEY_MAX q
       \<and> billed D rate cess q \<le> target \<and> (q = u \<or> target < billed D rate cess (q + paisa))"
proof (induction "nat \<lfloor>u * 100\<rfloor>" arbitrary: u rule: less_induct)
  case less
  note u = \<open>paise MONEY_MAX u\<close>
  note step = lower_price.simps[of D g c target u]
  show ?case
  proof (cases "0 < u")
    case False
    then have "u = 0" using u by (simp add: paise_def)
    moreover have "billed D rate cess 0 = 0"
      using resolve_rate_arg_range[OF g] resolveCessRate_range[OF c] by (intro billed_0) auto
    ultimately show ?thesis using step t u by simp
  next
    case pos: True
    note inc = inclusiveUnitPrice_paise[OF u g c]
    show ?thesis
    proof (cases "target < billed D rate cess u")
      case False
      then show ?thesis using step inc u pos by simp
    next
      case True
      note m = d_minus_paisa[OF u pos]
      have "(u - paisa) * 100 = u * 100 - 1" by (simp add: paisa_def algebra_simps)
      moreover have "1 \<le> u * 100" using m(2) by (simp add: paise_def paisa_def)
      ultimately have "nat \<lfloor>(u - paisa) * 100\<rfloor> < nat \<lfloor>u * 100\<rfloor>" by linarith
      from less.hyps[OF this m(2)] show ?thesis
        using step inc True pos m(1) by auto
    qed
  qed
qed

text \<open>
  The whole function: it stops, and returns the greatest price in paise whose billed
  amount does not exceed the typed one, or refuses the one typed price \<open>MONEY_MAX\<close>.
\<close>

lemma exclusive_start:
  assumes "paise MONEY_MAX t" and "0 \<le> rate" "0 \<le> cess"
  shows "paise t (to_dp_down D 2 (d_div D t (d_plus D 1 (d_div D (d_plus D rate cess) 100))))"
proof -
  have t: "0 \<le> t" "on_grid 2 t" using assms(1) by (simp_all add: paise_def)
  have "0 \<le> d_div D (d_plus D rate cess) 100"
    using assms(2,3) unfolding d_div_def d_plus_def by (auto intro!: ctx_nonneg divide_nonneg_nonneg)
  then have one: "1 \<le> d_plus D 1 (d_div D (d_plus D rate cess) 100)"
    unfolding d_plus_def[of D 1] by (intro ctx_ge fits_grid[of 0]) (simp_all add: on_grid_def)
  have ft: "fits 20 t" using assms(1) by (intro fits_grid[of 2]) (auto simp: paise_def invoice_constants)
  let ?q = "d_div D t (d_plus D 1 (d_div D (d_plus D rate cess) 100))"
  have q: "0 \<le> ?q" "?q \<le> t"
    unfolding d_div_def[of D t] using one t ft
    by (auto intro!: ctx_nonneg ctx_le divide_nonneg_nonneg simp: divide_le_eq mult_le_cancel_left1)
  show ?thesis using q trunc_dp_bounds[OF q(1), of 2] by (simp add: paise_def to_dp_down)
qed

lemma exclusiveUnitPrice_spec:
  assumes p: "toDecimal D p = Inr v" "0 \<le> v" and le: "money D v \<le> MONEY_MAX"
    and g: "resolve_rate_arg D g = Inr rate" and c: "resolveCessRate D c = Inr cess"
  shows "(\<exists>q. exclusiveUnitPrice D p g c = Some (Inr q) \<and> paise MONEY_MAX q
            \<and> billed D rate cess q \<le> money D v
            \<and> (\<forall>u. paise MONEY_MAX u \<longrightarrow> q < u \<longrightarrow> money D v < billed D rate cess u)) \<or>
         (exclusiveUnitPrice D p g c = Some (Inl ERR_INVALID_PRICE) \<and> money D v = MONEY_MAX)"
proof -
  note r = resolve_rate_arg_range[OF g] and s = resolveCessRate_range[OF c]
  have t: "paise MONEY_MAX (money D v)" using p(2) le by (intro money_paise)
  let ?u = "to_dp_down D 2 (d_div D (money D v) (d_plus D 1 (d_div D (d_plus D rate cess) 100)))"
  have start: "paise (money D v) ?u" using t r s by (intro exclusive_start) auto
  then have u: "paise MONEY_MAX ?u" using le by (rule paise_mono)
  have eq: "exclusiveUnitPrice D p g c =
      (case raise_price D g c (money D v) ?u of None \<Rightarrow> None | Some (Inl e) \<Rightarrow> Some (Inl e)
       | Some (Inr price') \<Rightarrow> lower_price D g c (money D v) price')"
    using p le g c by (simp add: exclusiveUnitPrice_def Let_def not_less)
  from raise_price_spec[OF g c u, of "money D v"]
  consider (ok) q where "raise_price D g c (money D v) ?u = Some (Inr q)" "paise MONEY_MAX (q + paisa)"
      "paise MONEY_MAX q" "money D v < billed D rate cess (q + paisa)"
    | (err) "raise_price D g c (money D v) ?u = Some (Inl ERR_INVALID_PRICE)"
      "?u = MONEY_MAX \<or> billed D rate cess MONEY_MAX \<le> money D v" by blast
  then show ?thesis
  proof cases
    case q: ok
    obtain w where w: "lower_price D g c (money D v) q = Some (Inr w)" "paise MONEY_MAX w"
      "billed D rate cess w \<le> money D v" "w = q \<or> money D v < billed D rate cess (w + paisa)"
      using lower_price_spec[OF g c _ q(3)] t by (auto simp: paise_def)
    have "money D v < billed D rate cess x" if x: "paise MONEY_MAX x" "w < x" for x
    proof -
      note wp = step_paisa[OF w(2) x(2,1)]
      have "billed D rate cess (w + paisa) \<le> billed D rate cess x"
        using r s by (intro billed_mono wp x(1)) auto
      moreover have "money D v < billed D rate cess (w + paisa)" using w(4) q(4) by blast
      ultimately show ?thesis by linarith
    qed
    then show ?thesis using eq q(1) w by auto
  next
    case e: err
    have "MONEY_MAX \<le> billed D rate cess MONEY_MAX"
      using r s by (intro billed_ge) (simp_all add: paise_def)
    then have "MONEY_MAX \<le> money D v" using e(2) start by (auto simp: paise_def)
    then show ?thesis using eq e(1) le by simp
  qed
qed

end

end
