(* ===== verification/ReturnCalc.thy ===== *)
theory ReturnCalc
  imports InvoiceCalc
begin

text \<open>
  \<open>InvoiceMathEngine.calculateReturn\<close> of \<open>invoice-math.engine.ts\<close>: each line refunds the slice
  between two cumulative shares of the stored amounts, so the returns of a line add up to
  what the sale stored, and the settlement caps the refunds of a sale at its total.
\<close>

section \<open>Definitions\<close>

definition json_return_line :: "ReturnLineMathInput \<Rightarrow> ReturnLineMathInput" where
  "json_return_line l = l\<lparr>originalQuantity_ri := json_num (originalQuantity_ri l),
     returnedQuantity_ri := json_num (returnedQuantity_ri l), quantity_ri := json_num (quantity_ri l),
     unitPrice_ri := json_num (unitPrice_ri l), discountAmount_ri := json_num (discountAmount_ri l),
     taxableAmount_ri := json_num (taxableAmount_ri l), cgstAmount_ri := json_num (cgstAmount_ri l),
     sgstAmount_ri := json_num (sgstAmount_ri l), igstAmount_ri := json_num (igstAmount_ri l),
     cessAmount_ri := json_num (cessAmount_ri l), totalAmount_ri := json_num (totalAmount_ri l)\<rparr>"

definition json_settlement :: "ReturnSettlementInput \<Rightarrow> ReturnSettlementInput" where
  "json_settlement s = s\<lparr>invoiceTotal_s := json_num (invoiceTotal_s s),
     refundedTotal_s := json_num (refundedTotal_s s)\<rparr>"

definition json_return :: "ReturnMathInput \<Rightarrow> ReturnMathInput" where
  "json_return m = m\<lparr>lines_rm := map json_return_line (lines_rm m),
     settlement_rm := map_option json_settlement (settlement_rm m)\<rparr>"

text \<open>\<open>cum(q)\<close>: the amount refunded once \<open>q\<close> units of the line have gone back.\<close>

definition cumulative :: "decimal_lib \<Rightarrow> decimal \<Rightarrow> decimal \<Rightarrow> decimal \<Rightarrow> decimal" where
  "cumulative D originalQty stored q =
     (if q = 0 then 0
      else if q = originalQty then stored
      else money D (d_div D (d_mul D stored q) originalQty))"

definition return_slice ::
  "decimal_lib \<Rightarrow> decimal \<Rightarrow> decimal \<Rightarrow> decimal \<Rightarrow> numeric_input \<Rightarrow> thrown + decimal" where
  "return_slice D originalQty before after v =
     bind_res (toDecimal D v) (\<lambda>x.
       Inr (d_minus D (cumulative D originalQty (money D x) after)
                      (cumulative D originalQty (money D x) before)))"

definition return_line :: "decimal_lib \<Rightarrow> ReturnLineMathInput \<Rightarrow> thrown + ReturnLineResult" where
  "return_line D l =
     bind_res (toDecimal D (originalQuantity_ri l)) (\<lambda>originalQty.
     bind_res (toDecimal D (returnedQuantity_ri l)) (\<lambda>b.
     bind_res (toDecimal D (quantity_ri l)) (\<lambda>q.
     let before = to_dp_half_up D QUANTITY_DP b; qty = to_dp_half_up D QUANTITY_DP q in
     if \<not> 0 < originalQty then Inl ERR_INVALID_RETURN_LINE else
     if b < 0 \<or> originalQty < before then Inl ERR_INVALID_RETURN_LINE else
     if \<not> 0 < qty then Inl ERR_INVALID_QUANTITY else
     let after = d_plus D before qty in
     if originalQty < after then Inl ERR_RETURN_QTY_EXCEEDS else
     let slice = return_slice D originalQty before after in
     bind_res (toDecimal D (unitPrice_ri l)) (\<lambda>price.
     bind_res (slice (discountAmount_ri l)) (\<lambda>discountAmount.
     bind_res (slice (taxableAmount_ri l)) (\<lambda>taxableAmount.
     bind_res (slice (cgstAmount_ri l)) (\<lambda>cgstAmount.
     bind_res (slice (sgstAmount_ri l)) (\<lambda>sgstAmount.
     bind_res (slice (igstAmount_ri l)) (\<lambda>igstAmount.
     bind_res (slice (cessAmount_ri l)) (\<lambda>cessAmount.
     let taxAmount = d_plus D (d_plus D (d_plus D cgstAmount sgstAmount) igstAmount) cessAmount in
     Inr \<lparr>lineRef_rl = lineRef_ri l, quantity_rl = qty, unitPrice_rl = money D price,
          lineSubtotal_rl = d_plus D taxableAmount discountAmount,
          discountAmount_rl = discountAmount, taxableAmount_rl = taxableAmount,
          cgstAmount_rl = cgstAmount, sgstAmount_rl = sgstAmount, igstAmount_rl = igstAmount,
          cessAmount_rl = cessAmount, taxAmount_rl = taxAmount,
          lineTotal_rl = d_plus D taxableAmount taxAmount\<rparr>))))))))))"

definition return_total :: "decimal_lib \<Rightarrow> ReturnSettlementInput option \<Rightarrow> decimal \<Rightarrow> thrown + decimal" where
  "return_total D settlement grandTotal =
     (case settlement of
        None \<Rightarrow> Inr grandTotal
      | Some s \<Rightarrow>
          bind_res (toDecimal D (invoiceTotal_s s)) (\<lambda>i.
          bind_res (toDecimal D (refundedTotal_s s)) (\<lambda>f.
          if i < 0 \<or> f < 0 then Inl ERR_INVALID_RETURN_LINE else
          let remaining = max (d_minus D (money D i) (money D f)) 0 in
          Inr (if completesInvoice_s s then remaining else min grandTotal remaining))))"

definition calculateReturn :: "decimal_lib \<Rightarrow> ReturnMathInput \<Rightarrow> thrown + ReturnCalculationResult" where
  "calculateReturn D rawInput =
     (let input = json_return rawInput in
      if lines_rm input = [] then Inl ERR_EMPTY_INVOICE else
      bind_res (map_res (return_line D) (lines_rm input)) (\<lambda>ls.
      let s = (\<lambda>f. d_sum D (map f ls));
          grandTotal = d_plus D (s taxableAmount_rl) (s taxAmount_rl) in
      bind_res (return_total D (settlement_rm input) grandTotal) (\<lambda>finalTotal.
      Inr \<lparr>lines_rr = ls, subtotal_rr = s lineSubtotal_rl, totalDiscount_rr = s discountAmount_rl,
           taxableTotal_rr = s taxableAmount_rl, totalCgst_rr = s cgstAmount_rl,
           totalSgst_rr = s sgstAmount_rl, totalIgst_rr = s igstAmount_rl,
           totalCess_rr = s cessAmount_rl, totalTax_rr = s taxAmount_rl, grandTotal_rr = grandTotal,
           roundOff_rr = money D (d_minus D finalTotal grandTotal), finalTotal_rr = finalTotal\<rparr>)))"

section \<open>The cumulative share\<close>

context decimal_arith
begin

lemma cumulative_full [simp]: "0 < orig \<Longrightarrow> cumulative D orig a orig = a"
  by (simp add: cumulative_def)

lemma cumulative_0 [simp]: "cumulative D orig a 0 = 0"
  by (simp add: cumulative_def)

text \<open>Between \<open>0\<close> and the stored amount, in whole paise, and monotone in the quantity.\<close>

lemma cumulative_part:
  assumes a: "paise MONEY_MAX a" and o: "0 < orig" "orig \<le> QUANTITY_MAX"
    and q: "on_grid 3 q" "0 \<le> q" "q \<le> orig"
  shows "0 \<le> d_div D (d_mul D a q) orig" and "d_div D (d_mul D a q) orig \<le> a"
proof -
  have m: "d_mul D a q = a * q" using a o q by (intro price_times_qty) simp_all
  have nn: "0 \<le> a * q" using a q by (simp add: paise_def)
  show "0 \<le> d_div D (d_mul D a q) orig" unfolding m d_div_def using nn o by (intro ctx_nonneg) simp
  have fa: "fits 20 a" using a by (intro fits_grid[of 2]) (auto simp: paise_def invoice_constants)
  have "a * q \<le> a * orig" using a q by (intro mult_left_mono) (simp_all add: paise_def)
  then have "a * q / orig \<le> a" using o by (simp add: divide_le_eq)
  then show "d_div D (d_mul D a q) orig \<le> a" unfolding m d_div_def by (intro ctx_le fa)
qed

lemma cumulative_paise:
  assumes a: "paise MONEY_MAX a" and o: "0 < orig" "orig \<le> QUANTITY_MAX"
    and q: "on_grid 3 q" "0 \<le> q" "q \<le> orig"
  shows "paise a (cumulative D orig a q)"
  using cumulative_part[OF assms] a
  by (auto simp: cumulative_def paise_def intro: money_nonneg money_le)

lemma cumulative_mono:
  assumes a: "paise MONEY_MAX a" and o: "0 < orig" "orig \<le> QUANTITY_MAX"
    and q: "on_grid 3 p" "0 \<le> p" "p \<le> q" "on_grid 3 q" "q \<le> orig"
  shows "cumulative D orig a p \<le> cumulative D orig a q"
proof -
  have a0: "0 \<le> a" using a by (simp add: paise_def)
  have q0: "0 \<le> q" and p: "p \<le> orig" using q by simp_all
  note P = cumulative_paise[OF a o q(1,2) p] and Q = cumulative_paise[OF a o q(4) q0 q(5)]
  show ?thesis
  proof (cases "p = 0 \<or> q = orig \<or> p = q")
    case True
    then show ?thesis using P Q o by (auto simp: paise_def)
  next
    case False
    have "d_mul D a p = a * p" "d_mul D a q = a * q"
      using a o q by (auto intro!: price_times_qty)
    moreover have "a * p / orig \<le> a * q / orig"
      using a0 q o by (intro divide_right_mono mult_left_mono) simp_all
    ultimately have "d_div D (d_mul D a p) orig \<le> d_div D (d_mul D a q) orig"
      unfolding d_div_def by (simp add: ctx_mono)
    with False q show ?thesis by (auto simp: cumulative_def intro!: money_mono)
  qed
qed

lemma return_slice_eq:
  assumes v: "toDecimal D v = Inr a" and a: "paise MONEY_MAX a" and o: "0 < orig" "orig \<le> QUANTITY_MAX"
    and q: "on_grid 3 p" "0 \<le> p" "p \<le> q" "on_grid 3 q" "q \<le> orig"
  shows "return_slice D orig p q v = Inr (cumulative D orig a q - cumulative D orig a p)"
    and "paise a (cumulative D orig a q - cumulative D orig a p)"
proof -
  have m: "money D a = a" using a by (simp add: paise_def money_exact)
  have p: "p \<le> orig" "0 \<le> q" using q by simp_all
  note P = cumulative_paise[OF a o q(1,2) p(1)] and Q = cumulative_paise[OF a o q(4) p(2) q(5)]
  have b: "a < 10 ^ 18" using a by (auto simp: paise_def invoice_constants)
  have "d_minus D (cumulative D orig a q) (cumulative D orig a p) = cumulative D orig a q - cumulative D orig a p"
    using P Q b by (intro d_minus_paise[of a _ a]) simp_all
  then show "return_slice D orig p q v = Inr (cumulative D orig a q - cumulative D orig a p)"
    by (simp add: return_slice_def v m)
  show "paise a (cumulative D orig a q - cumulative D orig a p)"
    using P Q cumulative_mono[OF a o q] by (auto simp: paise_def intro: grid_intros)
qed

end

section \<open>The returns of one line\<close>

text \<open>
  A stored line of a sale: its quantity and its amounts, as the columns hold them. The
  amounts a return refunds are listed by their selectors.
\<close>

definition amount :: "decimal_lib \<Rightarrow> numeric_input \<Rightarrow> decimal" where
  "amount D v = (case toDecimal D v of Inr a \<Rightarrow> a | Inl _ \<Rightarrow> 0)"

definition stored_amounts :: "ReturnLineMathInput \<Rightarrow> numeric_input list" where
  "stored_amounts l = [discountAmount_ri l, taxableAmount_ri l, cgstAmount_ri l, sgstAmount_ri l,
     igstAmount_ri l, cessAmount_ri l]"

definition stored_line :: "decimal_lib \<Rightarrow> ReturnLineMathInput \<Rightarrow> bool" where
  "stored_line D l \<longleftrightarrow>
     (\<exists>x. toDecimal D (unitPrice_ri l) = Inr x) \<and>
     (\<exists>x. toDecimal D (originalQuantity_ri l) = Inr x \<and> 0 < x \<and> x \<le> QUANTITY_MAX) \<and>
     (\<forall>v \<in> set (stored_amounts l). \<exists>a. toDecimal D v = Inr a \<and> paise MONEY_MAX a)"

text \<open>\<open>q\<close> units of the line go back after \<open>done\<close> units already did.\<close>

definition return_of :: "ReturnLineMathInput \<Rightarrow> decimal \<Rightarrow> decimal \<Rightarrow> ReturnLineMathInput" where
  "return_of l done q = l\<lparr>returnedQuantity_ri := NDecimal done, quantity_ri := NDecimal q\<rparr>"

fun line_returns :: "decimal_lib \<Rightarrow> ReturnLineMathInput \<Rightarrow> decimal \<Rightarrow> decimal list \<Rightarrow> (thrown + ReturnLineResult) list" where
  "line_returns D l done [] = []"
| "line_returns D l done (q # qs) = return_line D (return_of l done q) # line_returns D l (done + q) qs"

definition line_part :: "decimal_lib \<Rightarrow> ReturnLineMathInput \<Rightarrow> decimal \<Rightarrow> decimal \<Rightarrow> numeric_input \<Rightarrow> decimal" where
  "line_part D l p q v =
     cumulative D (amount D (originalQuantity_ri l)) (amount D v) q
     - cumulative D (amount D (originalQuantity_ri l)) (amount D v) p"

context decimal_arith
begin

lemma line_part_paise:
  assumes l: "stored_line D l" and v: "v \<in> set (stored_amounts l)"
    and q: "on_grid 3 p" "0 \<le> p" "p \<le> q" "on_grid 3 q" "q \<le> amount D (originalQuantity_ri l)"
  shows "return_slice D (amount D (originalQuantity_ri l)) p q v = Inr (line_part D l p q v)"
    and "paise MONEY_MAX (line_part D l p q v)" and "paise (amount D v) (line_part D l p q v)"
proof -
  from l v obtain x a where x: "toDecimal D (originalQuantity_ri l) = Inr x" "0 < x" "x \<le> QUANTITY_MAX"
    and a: "toDecimal D v = Inr a" "paise MONEY_MAX a" unfolding stored_line_def by blast
  have am: "amount D (originalQuantity_ri l) = x" "amount D v = a" using x a by (simp_all add: amount_def)
  note s = return_slice_eq[OF a x(2,3) q(1-4) q(5)[unfolded am]]
  show "return_slice D (amount D (originalQuantity_ri l)) p q v = Inr (line_part D l p q v)"
    "paise (amount D v) (line_part D l p q v)"
    using s by (simp_all add: line_part_def am)
  then show "paise MONEY_MAX (line_part D l p q v)"
    using a(2) am(2) by (auto simp: paise_def)
qed

lemma return_line_Inr:
  assumes l: "stored_line D l"
    and q: "on_grid 3 p" "0 \<le> p" "on_grid 3 q" "0 < q" "p + q \<le> amount D (originalQuantity_ri l)"
  shows "\<exists>r. return_line D (return_of l p q) = Inr r \<and> quantity_rl r = q \<and>
     discountAmount_rl r = line_part D l p (p + q) (discountAmount_ri l) \<and>
     taxableAmount_rl r = line_part D l p (p + q) (taxableAmount_ri l) \<and>
     cgstAmount_rl r = line_part D l p (p + q) (cgstAmount_ri l) \<and>
     sgstAmount_rl r = line_part D l p (p + q) (sgstAmount_ri l) \<and>
     igstAmount_rl r = line_part D l p (p + q) (igstAmount_ri l) \<and>
     cessAmount_rl r = line_part D l p (p + q) (cessAmount_ri l) \<and>
     lineSubtotal_rl r = taxableAmount_rl r + discountAmount_rl r \<and>
     taxAmount_rl r = cgstAmount_rl r + sgstAmount_rl r + igstAmount_rl r + cessAmount_rl r \<and>
     lineTotal_rl r = taxableAmount_rl r + taxAmount_rl r"
proof -
  from l obtain x u where x: "toDecimal D (originalQuantity_ri l) = Inr x" "0 < x" "x \<le> QUANTITY_MAX"
    and u: "toDecimal D (unitPrice_ri l) = Inr u" unfolding stored_line_def by blast
  have am: "amount D (originalQuantity_ri l) = x" using x by (simp add: amount_def)
  have le: "p \<le> p + q" "on_grid 3 (p + q)" using q by (auto intro: grid_intros)
  have plus: "d_plus D p q = p + q"
    using q x am by (intro d_plus_grid[of 3]) (auto simp: invoice_constants)
  have parts: "return_slice D x p (p + q) v = Inr (line_part D l p (p + q) v)"
    "paise MONEY_MAX (line_part D l p (p + q) v)" if "v \<in> set (stored_amounts l)" for v
    using line_part_paise[OF l that q(1,2) le q(5)] am by simp_all
  have in6: "discountAmount_ri l \<in> set (stored_amounts l)" "taxableAmount_ri l \<in> set (stored_amounts l)"
    "cgstAmount_ri l \<in> set (stored_amounts l)" "sgstAmount_ri l \<in> set (stored_amounts l)"
    "igstAmount_ri l \<in> set (stored_amounts l)" "cessAmount_ri l \<in> set (stored_amounts l)"
    by (simp_all add: stored_amounts_def)
  let ?v = "line_part D l p (p + q)"
  note P = in6[THEN parts(2)] and S = in6[THEN parts(1)]
  have a1: "d_plus D (?v (taxableAmount_ri l)) (?v (discountAmount_ri l)) = ?v (taxableAmount_ri l) + ?v (discountAmount_ri l)"
    by (intro d_plus_paise[OF P(2,1)]) (simp add: invoice_constants)
  have a2: "d_plus D (?v (cgstAmount_ri l)) (?v (sgstAmount_ri l)) = ?v (cgstAmount_ri l) + ?v (sgstAmount_ri l)"
    by (intro d_plus_paise[OF P(3,4)]) (simp add: invoice_constants)
  have a3: "d_plus D (?v (cgstAmount_ri l) + ?v (sgstAmount_ri l)) (?v (igstAmount_ri l))
      = ?v (cgstAmount_ri l) + ?v (sgstAmount_ri l) + ?v (igstAmount_ri l)"
    by (intro d_plus_paise[OF paise_add[OF P(3,4)] P(5)]) (simp add: invoice_constants)
  have a4: "d_plus D (?v (cgstAmount_ri l) + ?v (sgstAmount_ri l) + ?v (igstAmount_ri l)) (?v (cessAmount_ri l))
      = ?v (cgstAmount_ri l) + ?v (sgstAmount_ri l) + ?v (igstAmount_ri l) + ?v (cessAmount_ri l)"
    by (intro d_plus_paise[OF paise_add[OF paise_add[OF P(3,4)] P(5)] P(6)]) (simp add: invoice_constants)
  have a5: "d_plus D (?v (taxableAmount_ri l))
        (?v (cgstAmount_ri l) + ?v (sgstAmount_ri l) + ?v (igstAmount_ri l) + ?v (cessAmount_ri l))
      = ?v (taxableAmount_ri l) + (?v (cgstAmount_ri l) + ?v (sgstAmount_ri l) + ?v (igstAmount_ri l) + ?v (cessAmount_ri l))"
    by (intro d_plus_paise[OF P(2) paise_add[OF paise_add[OF paise_add[OF P(3,4)] P(5)] P(6)]])
       (simp add: invoice_constants)
  have r: "half_up 3 p = p" "half_up 3 q = q" "0 < x" "\<not> p < 0" "\<not> x < p" "0 < q" "\<not> x < p + q"
    using q x am by (simp_all add: half_up_exact)
  show ?thesis
    by (simp add: return_line_def return_of_def x(1) u Let_def to_dp_half_up QUANTITY_DP_def r plus S
        a1 a2 a3 a4 a5)
qed

lemma line_part_telescope: "line_part D l p q v + line_part D l q r v = line_part D l p r v"
  by (simp add: line_part_def)

lemma line_returns_Inr:
  assumes l: "stored_line D l" and d: "on_grid 3 p" "0 \<le> p"
    and qs: "\<And>q. q \<in> set qs \<Longrightarrow> on_grid 3 q \<and> 0 < q" "p + sum_list qs \<le> amount D (originalQuantity_ri l)"
  shows "\<exists>rs. line_returns D l p qs = map Inr rs \<and>
     sum_list (map discountAmount_rl rs) = line_part D l p (p + sum_list qs) (discountAmount_ri l) \<and>
     sum_list (map taxableAmount_rl rs) = line_part D l p (p + sum_list qs) (taxableAmount_ri l) \<and>
     sum_list (map cgstAmount_rl rs) = line_part D l p (p + sum_list qs) (cgstAmount_ri l) \<and>
     sum_list (map sgstAmount_rl rs) = line_part D l p (p + sum_list qs) (sgstAmount_ri l) \<and>
     sum_list (map igstAmount_rl rs) = line_part D l p (p + sum_list qs) (igstAmount_ri l) \<and>
     sum_list (map cessAmount_rl rs) = line_part D l p (p + sum_list qs) (cessAmount_ri l)"
  using d qs
proof (induction qs arbitrary: p)
  case Nil
  then show ?case by (intro exI[of _ "[]"]) (simp add: line_part_def)
next
  case (Cons q qs)
  have s: "0 \<le> sum_list qs" using Cons.prems(3) by (intro sum_list_nonneg) (auto intro: less_imp_le)
  from Cons.prems s obtain r where "return_line D (return_of l p q) = Inr r \<and>
     discountAmount_rl r = line_part D l p (p + q) (discountAmount_ri l) \<and>
     taxableAmount_rl r = line_part D l p (p + q) (taxableAmount_ri l) \<and>
     cgstAmount_rl r = line_part D l p (p + q) (cgstAmount_ri l) \<and>
     sgstAmount_rl r = line_part D l p (p + q) (sgstAmount_ri l) \<and>
     igstAmount_rl r = line_part D l p (p + q) (igstAmount_ri l) \<and>
     cessAmount_rl r = line_part D l p (p + q) (cessAmount_ri l)"
    using return_line_Inr[OF l, of p q] by auto
  moreover from Cons.IH[of "p + q"] Cons.prems
  obtain rs where "line_returns D l (p + q) qs = map Inr rs \<and>
     sum_list (map discountAmount_rl rs) = line_part D l (p + q) (p + q + sum_list qs) (discountAmount_ri l) \<and>
     sum_list (map taxableAmount_rl rs) = line_part D l (p + q) (p + q + sum_list qs) (taxableAmount_ri l) \<and>
     sum_list (map cgstAmount_rl rs) = line_part D l (p + q) (p + q + sum_list qs) (cgstAmount_ri l) \<and>
     sum_list (map sgstAmount_rl rs) = line_part D l (p + q) (p + q + sum_list qs) (sgstAmount_ri l) \<and>
     sum_list (map igstAmount_rl rs) = line_part D l (p + q) (p + q + sum_list qs) (igstAmount_ri l) \<and>
     sum_list (map cessAmount_rl rs) = line_part D l (p + q) (p + q + sum_list qs) (cessAmount_ri l)"
    by (auto intro: grid_intros simp: add.assoc less_imp_le)
  ultimately show ?case
    by (intro exI[of _ "r # rs"]) (simp add: line_part_telescope add.assoc)
qed

end

section \<open>A whole return document\<close>

definition return_line_ok :: "ReturnLineResult \<Rightarrow> bool" where
  "return_line_ok r \<longleftrightarrow>
     paise MONEY_MAX (discountAmount_rl r) \<and> paise MONEY_MAX (taxableAmount_rl r) \<and>
     paise MONEY_MAX (cgstAmount_rl r) \<and> paise MONEY_MAX (sgstAmount_rl r) \<and>
     paise MONEY_MAX (igstAmount_rl r) \<and> paise MONEY_MAX (cessAmount_rl r) \<and>
     lineSubtotal_rl r = taxableAmount_rl r + discountAmount_rl r \<and>
     taxAmount_rl r = cgstAmount_rl r + sgstAmount_rl r + igstAmount_rl r + cessAmount_rl r \<and>
     lineTotal_rl r = taxableAmount_rl r + taxAmount_rl r"

context decimal_arith
begin

text \<open>A line that was accepted reads as a return of grid quantities within the line.\<close>

lemma return_line_normal:
  assumes r: "return_line D l = Inr r" and l: "stored_line D l"
  shows "\<exists>p q. return_line D (return_of l p q) = Inr r \<and> on_grid 3 p \<and> 0 \<le> p \<and> on_grid 3 q \<and> 0 < q
    \<and> p + q \<le> amount D (originalQuantity_ri l)"
proof -
  from l obtain x where x: "toDecimal D (originalQuantity_ri l) = Inr x" "0 < x" "x \<le> QUANTITY_MAX"
    unfolding stored_line_def by blast
  from r x obtain b q where bq: "toDecimal D (returnedQuantity_ri l) = Inr b" "toDecimal D (quantity_ri l) = Inr q"
    and c: "\<not> b < 0" "\<not> x < half_up 3 b" "0 < half_up 3 q" "\<not> x < d_plus D (half_up 3 b) (half_up 3 q)"
    by (auto simp: return_line_def bind_res_eq_Inr Let_def to_dp_half_up QUANTITY_DP_def split: if_splits)
  let ?p = "half_up 3 b" and ?q = "half_up 3 q"
  have p0: "0 \<le> ?p" using c by (intro half_up_nonneg) simp
  have g: "on_grid 3 (?p + ?q)" by (intro grid_intros)
  have le: "?p + ?q < 10 ^ 17"
  proof (rule ccontr)
    assume "\<not> ?p + ?q < 10 ^ 17"
    then have "10 ^ 17 \<le> d_plus D ?p ?q"
      unfolding d_plus_def by (intro ctx_ge fits_grid[of 0]) (simp_all add: on_grid_def)
    then show False using c x by (simp add: invoice_constants)
  qed
  then have plus: "d_plus D ?p ?q = ?p + ?q" using p0 c by (intro d_plus_grid[of 3]) simp_all
  have idem: "half_up 3 ?p = ?p" "half_up 3 ?q = ?q" "\<not> ?p < 0" using p0 by (simp_all add: half_up_exact)
  have "return_line D (return_of l ?p ?q) = return_line D l"
    using bq c idem by (simp add: return_line_def return_of_def Let_def to_dp_half_up QUANTITY_DP_def x)
  with r p0 c plus x show ?thesis
    by (intro exI[of _ ?p] exI[of _ ?q]) (simp add: amount_def)
qed

lemma return_line_ok:
  assumes r: "return_line D l = Inr r" and l: "stored_line D l"
  shows "return_line_ok r"
proof -
  from return_line_normal[OF assms] obtain p q where n: "return_line D (return_of l p q) = Inr r"
    and q: "on_grid 3 p" "0 \<le> p" "on_grid 3 q" "0 < q" "p + q \<le> amount D (originalQuantity_ri l)" by blast
  have le: "p \<le> p + q" "on_grid 3 (p + q)" using q by (auto intro: grid_intros)
  note pp = line_part_paise(2)[OF l _ q(1,2) le q(5)]
  show ?thesis
    using return_line_Inr[OF l q] n pp unfolding return_line_ok_def
    by (auto simp: stored_amounts_def)
qed

lemma return_total_settled:
  assumes t: "return_total D (Some s) g = Inr t" and I: "toDecimal D (invoiceTotal_s s) = Inr i" "paise MONEY_MAX i"
    and R: "toDecimal D (refundedTotal_s s) = Inr f" "paise i f" and g: "0 \<le> g"
  shows "t = (if completesInvoice_s s then i - f else min g (i - f))" and "0 \<le> t" and "f + t \<le> i"
    and "on_grid 2 g \<Longrightarrow> on_grid 2 t"
proof -
  have m: "money D i = i" "money D f = f" using I R by (simp_all add: paise_def money_exact)
  have minus: "d_minus D i f = i - f"
    using I R by (intro d_minus_paise[of MONEY_MAX _ i]) (auto simp: paise_def invoice_constants)
  show eq: "t = (if completesInvoice_s s then i - f else min g (i - f))"
    using t I R m minus by (auto simp: return_total_def paise_def Let_def max_def split: if_splits)
  show "0 \<le> t" "f + t \<le> i" using eq g R by (auto simp: paise_def)
  show "on_grid 2 g \<Longrightarrow> on_grid 2 t" using eq I R by (auto simp: paise_def intro: grid_intros)
qed

text \<open>What is left of the invoice, whatever was refunded before; the grand total is capped by it.\<close>

lemma return_total_read:
  assumes t: "return_total D (Some s) g = Inr t" and I: "\<And>i. toDecimal D (invoiceTotal_s s) = Inr i \<Longrightarrow> i \<le> MONEY_MAX"
    and g: "paise (10 ^ 15) g"
  obtains i f where "toDecimal D (invoiceTotal_s s) = Inr i" "toDecimal D (refundedTotal_s s) = Inr f"
    "t = (if completesInvoice_s s then max (half_up 2 i - half_up 2 f) 0 else min g (max (half_up 2 i - half_up 2 f) 0))"
    "paise (10 ^ 15) t"
proof -
  obtain i f where r: "toDecimal D (invoiceTotal_s s) = Inr i" "toDecimal D (refundedTotal_s s) = Inr f" and nn: "0 \<le> i" "0 \<le> f"
    and eq: "t = (if completesInvoice_s s then max (d_minus D (money D i) (money D f)) 0
       else min g (max (d_minus D (money D i) (money D f)) 0))"
    using t by (auto simp: return_total_def bind_res_eq_Inr Let_def not_less split: if_splits)
  have m: "money D i = half_up 2 i" "money D f = half_up 2 f" by (simp_all add: money_def MONEY_DP_def to_dp_half_up)
  have "half_up 2 i \<le> half_up 2 MONEY_MAX" using I[OF r(1)] by (rule half_up_mono)
  moreover have "half_up 2 MONEY_MAX = MONEY_MAX" by (rule half_up_exact) (auto simp: invoice_constants on_grid_iff intro: exI[of _ 9999999999])
  ultimately have pi: "paise MONEY_MAX (half_up 2 i)" using nn by (simp add: paise_def half_up_nonneg)
  have f0: "0 \<le> half_up 2 f" using nn by (simp add: half_up_nonneg)
  have rem: "max (d_minus D (half_up 2 i) (half_up 2 f)) 0 = max (half_up 2 i - half_up 2 f) 0"
  proof (cases "half_up 2 f \<le> half_up 2 i")
    case True
    then have "d_minus D (half_up 2 i) (half_up 2 f) = half_up 2 i - half_up 2 f"
      using pi f0 by (intro d_minus_paise[of MONEY_MAX _ MONEY_MAX]) (auto simp: paise_def invoice_constants)
    then show ?thesis by simp
  next
    case False
    then have "d_minus D (half_up 2 i) (half_up 2 f) \<le> 0" unfolding d_minus_def by (intro ctx_le fits_grid[of 0]) simp_all
    then show ?thesis using False by simp
  qed
  have "paise (10 ^ 15) (max (half_up 2 i - half_up 2 f) 0)"
    using pi f0 by (auto simp: paise_def invoice_constants max_def intro: grid_intros)
  then have "paise (10 ^ 15) t" using g unfolding eq m rem by (auto simp: min_def)
  with that[OF r] show thesis unfolding eq m rem by simp
qed

lemma return_total_defined:
  assumes "toDecimal D (invoiceTotal_s s) = Inr i" "0 \<le> i" "toDecimal D (refundedTotal_s s) = Inr f" "0 \<le> f"
  shows "\<exists>t. return_total D (Some s) g = Inr t"
  using assms by (simp add: return_total_def Let_def)

end

text \<open>
  The returns of one sale, document after document: each is settled against the sum of the
  refunds before it. A document is given by its grand total and whether it completes the sale.
\<close>

fun refunds :: "decimal_lib \<Rightarrow> decimal \<Rightarrow> decimal \<Rightarrow> (decimal \<times> bool) list \<Rightarrow> (thrown + decimal) list" where
  "refunds D invoiceTotal done [] = []"
| "refunds D invoiceTotal done ((g, completes) # docs) =
     (let t = return_total D (Some \<lparr>invoiceTotal_s = NDecimal invoiceTotal, refundedTotal_s = NDecimal done,
                completesInvoice_s = completes\<rparr>) g
      in t # (case t of Inl _ \<Rightarrow> [] | Inr x \<Rightarrow> refunds D invoiceTotal (done + x) docs))"

context decimal_arith
begin

lemma refunds_Inr:
  assumes i: "paise MONEY_MAX i" and "paise i f"
    and "\<And>g c. (g, c) \<in> set docs \<Longrightarrow> on_grid 2 g \<and> 0 \<le> g"
  shows "\<exists>ts. refunds D i f docs = map Inr ts \<and> f + sum_list ts \<le> i \<and> (\<forall>t \<in> set ts. 0 \<le> t) \<and>
    ((\<exists>g. (g, True) \<in> set docs) \<longrightarrow> f + sum_list ts = i)"
  using assms(2-)
proof (induction docs arbitrary: f)
  case Nil
  then show ?case by (intro exI[of _ "[]"]) (simp add: paise_def)
next
  case (Cons doc docs)
  obtain g c where doc: "doc = (g, c)" by (cases doc)
  let ?s = "\<lparr>invoiceTotal_s = NDecimal i, refundedTotal_s = NDecimal f, completesInvoice_s = c\<rparr>"
  from return_total_defined[of ?s i f g] i Cons.prems(1)
  obtain t where t: "return_total D (Some ?s) g = Inr t" by (auto simp: paise_def)
  have g: "on_grid 2 g" "0 \<le> g" using Cons.prems(2)[of g c] doc by simp_all
  note T = return_total_settled[OF t, of i f] i Cons.prems(1) g
  have ft: "paise i (f + t)" using T by (auto simp: paise_def intro: grid_intros)
  from Cons.IH[OF this] Cons.prems(2) obtain ts where ts: "refunds D i (f + t) docs = map Inr ts"
    "f + t + sum_list ts \<le> i" "\<forall>t \<in> set ts. 0 \<le> t"
    "(\<exists>g. (g, True) \<in> set docs) \<longrightarrow> f + t + sum_list ts = i" by auto
  have "f + t + sum_list ts = i" if "c"
    using T that ts(2,3) sum_list_nonneg[of ts] by simp
  with ts T show ?case
    by (intro exI[of _ "t # ts"]) (auto simp: doc t add.assoc)
qed

lemma calculateReturn_InrE:
  assumes "calculateReturn D raw = Inr r"
  obtains ls where "ls \<noteq> []" "map_res (return_line D) (map json_return_line (lines_rm raw)) = Inr ls" "lines_rr r = ls"
    "subtotal_rr r = d_sum D (map lineSubtotal_rl ls)" "totalDiscount_rr r = d_sum D (map discountAmount_rl ls)"
    "taxableTotal_rr r = d_sum D (map taxableAmount_rl ls)" "totalTax_rr r = d_sum D (map taxAmount_rl ls)"
    "totalCgst_rr r = d_sum D (map cgstAmount_rl ls)" "totalSgst_rr r = d_sum D (map sgstAmount_rl ls)"
    "totalIgst_rr r = d_sum D (map igstAmount_rl ls)" "totalCess_rr r = d_sum D (map cessAmount_rl ls)"
    "grandTotal_rr r = d_plus D (taxableTotal_rr r) (totalTax_rr r)"
    "return_total D (map_option json_settlement (settlement_rm raw)) (grandTotal_rr r) = Inr (finalTotal_rr r)"
    "roundOff_rr r = money D (d_minus D (finalTotal_rr r) (grandTotal_rr r))"
proof -
  from assms obtain ls f where a: "lines_rm raw \<noteq> []"
    "map_res (return_line D) (map json_return_line (lines_rm raw)) = Inr ls"
    "return_total D (map_option json_settlement (settlement_rm raw))
      (d_plus D (d_sum D (map taxableAmount_rl ls)) (d_sum D (map taxAmount_rl ls))) = Inr f"
    and r: "r = \<lparr>lines_rr = ls, subtotal_rr = d_sum D (map lineSubtotal_rl ls),
           totalDiscount_rr = d_sum D (map discountAmount_rl ls),
           taxableTotal_rr = d_sum D (map taxableAmount_rl ls), totalCgst_rr = d_sum D (map cgstAmount_rl ls),
           totalSgst_rr = d_sum D (map sgstAmount_rl ls), totalIgst_rr = d_sum D (map igstAmount_rl ls),
           totalCess_rr = d_sum D (map cessAmount_rl ls), totalTax_rr = d_sum D (map taxAmount_rl ls),
           grandTotal_rr = d_plus D (d_sum D (map taxableAmount_rl ls)) (d_sum D (map taxAmount_rl ls)),
           roundOff_rr = money D (d_minus D f (d_plus D (d_sum D (map taxableAmount_rl ls)) (d_sum D (map taxAmount_rl ls)))),
           finalTotal_rr = f\<rparr>"
    unfolding calculateReturn_def Let_def json_return_def
    by (simp add: bind_res_eq_Inr split: if_splits) blast
  have "ls \<noteq> []" using map_res_Inr_length[OF a(2)] a(1) by auto
  with a r that show thesis by simp
qed

text \<open>Documents of up to a million lines: every total is the exact sum over the lines.\<close>

lemma calculateReturn_totals:
  assumes c: "calculateReturn D raw = Inr r" and n: "length (lines_rm raw) \<le> 10 ^ 6"
    and l: "\<And>l. l \<in> set (lines_rm raw) \<Longrightarrow> stored_line D (json_return_line l)"
  shows "\<And>x. x \<in> set (lines_rr r) \<Longrightarrow> return_line_ok x"
    and "subtotal_rr r = sum_list (map lineSubtotal_rl (lines_rr r))"
    and "totalDiscount_rr r = sum_list (map discountAmount_rl (lines_rr r))"
    and "taxableTotal_rr r = sum_list (map taxableAmount_rl (lines_rr r))"
    and "totalTax_rr r = sum_list (map taxAmount_rl (lines_rr r))"
    and "grandTotal_rr r = taxableTotal_rr r + totalTax_rr r"
    and "paise (10 ^ 15) (grandTotal_rr r)"
    and "totalCgst_rr r = sum_list (map cgstAmount_rl (lines_rr r))"
    and "totalSgst_rr r = sum_list (map sgstAmount_rl (lines_rr r))"
    and "totalIgst_rr r = sum_list (map igstAmount_rl (lines_rr r))"
    and "totalCess_rr r = sum_list (map cessAmount_rl (lines_rr r))"
proof -
  obtain ls where ls: "map_res (return_line D) (map json_return_line (lines_rm raw)) = Inr ls" "lines_rr r = ls"
    "subtotal_rr r = d_sum D (map lineSubtotal_rl ls)" "totalDiscount_rr r = d_sum D (map discountAmount_rl ls)"
    "taxableTotal_rr r = d_sum D (map taxableAmount_rl ls)" "totalTax_rr r = d_sum D (map taxAmount_rl ls)"
    "grandTotal_rr r = d_plus D (taxableTotal_rr r) (totalTax_rr r)"
    and parts: "totalCgst_rr r = d_sum D (map cgstAmount_rl ls)" "totalSgst_rr r = d_sum D (map sgstAmount_rl ls)"
    "totalIgst_rr r = d_sum D (map igstAmount_rl ls)" "totalCess_rr r = d_sum D (map cessAmount_rl ls)"
    by (rule calculateReturn_InrE[OF c])
  have len: "length ls \<le> 10 ^ 6" using map_res_Inr_length[OF ls(1)] n by simp
  have ok: "return_line_ok x" if "x \<in> set ls" for x
    using map_res_Inr_set[OF ls(1) that] l return_line_ok by auto
  then show "\<And>x. x \<in> set (lines_rr r) \<Longrightarrow> return_line_ok x" using ls by simp
  have amounts: "paise (4 * 10 ^ 8) (lineSubtotal_rl x)" "paise (4 * 10 ^ 8) (discountAmount_rl x)"
    "paise (4 * 10 ^ 8) (taxableAmount_rl x)" "paise (4 * 10 ^ 8) (taxAmount_rl x)"
    "paise (4 * 10 ^ 8) (cgstAmount_rl x)" "paise (4 * 10 ^ 8) (sgstAmount_rl x)"
    "paise (4 * 10 ^ 8) (igstAmount_rl x)" "paise (4 * 10 ^ 8) (cessAmount_rl x)" if "x \<in> set ls" for x
    using ok[OF that] unfolding return_line_ok_def
    by (auto simp: paise_def invoice_constants intro!: grid_intros)
  have S: "d_sum D (map f ls) = sum_list (map f ls) \<and> paise (4 * 10 ^ 14) (sum_list (map f ls))"
    if f: "\<And>x. x \<in> set ls \<Longrightarrow> paise (4 * 10 ^ 8) (f x)" for f
  proof -
    have "sum_list (map f ls) \<le> sum_list (map (\<lambda>_. 4 * 10 ^ 8) ls)"
      using f by (intro sum_list_mono) (simp add: paise_def)
    also have "\<dots> = of_nat (length ls) * (4 * 10 ^ 8)" by (simp add: sum_list_triv)
    also have "\<dots> \<le> of_nat (10 ^ 6) * (4 * 10 ^ 8)"
      using len by (intro mult_right_mono) (simp_all only: of_nat_le_iff, simp)
    finally have le: "sum_list (map f ls) \<le> 4 * 10 ^ 14" by simp
    have g: "\<And>x. x \<in> set (map f ls) \<Longrightarrow> on_grid 2 x \<and> 0 \<le> x" using f by (auto simp: paise_def)
    have "d_sum D (map f ls) = sum_list (map f ls)"
      using le by (intro d_sum_exact[of _ 2] g) simp_all
    with le g show ?thesis by (auto simp: paise_def intro!: on_grid_sum_list sum_list_nonneg)
  qed
  note T = S[of lineSubtotal_rl, OF amounts(1)] S[of discountAmount_rl, OF amounts(2)]
    S[of taxableAmount_rl, OF amounts(3)] S[of taxAmount_rl, OF amounts(4)]
  show "totalCgst_rr r = sum_list (map cgstAmount_rl (lines_rr r))" "totalSgst_rr r = sum_list (map sgstAmount_rl (lines_rr r))"
    "totalIgst_rr r = sum_list (map igstAmount_rl (lines_rr r))" "totalCess_rr r = sum_list (map cessAmount_rl (lines_rr r))"
    using S[of cgstAmount_rl, OF amounts(5)] S[of sgstAmount_rl, OF amounts(6)] S[of igstAmount_rl, OF amounts(7)]
      S[of cessAmount_rl, OF amounts(8)] parts ls(2) by simp_all
  show "subtotal_rr r = sum_list (map lineSubtotal_rl (lines_rr r))"
    "totalDiscount_rr r = sum_list (map discountAmount_rl (lines_rr r))"
    and tx: "taxableTotal_rr r = sum_list (map taxableAmount_rl (lines_rr r))"
    and tt: "totalTax_rr r = sum_list (map taxAmount_rl (lines_rr r))"
    using T ls by simp_all
  have p: "paise (4 * 10 ^ 14) (taxableTotal_rr r)" "paise (4 * 10 ^ 14) (totalTax_rr r)"
    using T tx tt ls by simp_all
  show g: "grandTotal_rr r = taxableTotal_rr r + totalTax_rr r"
    unfolding ls(7) by (intro d_plus_paise[OF p]) simp
  show "paise (10 ^ 15) (grandTotal_rr r)"
    unfolding g by (rule paise_mono[OF paise_add[OF p]]) simp
qed

end

end
