(* ===== verification/InvoiceProperties.thy ===== *)
theory InvoiceProperties
  imports Samples Pricing ReturnCalc
begin

text \<open>
  The correctness properties of the money engine (\<open>packages/invoice-math/src\<close>), over any
  decimal package that satisfies \<open>decimal_arith\<close>, each with a witness on \<open>decimal_js\<close>.
\<close>

lemma decimal_js [simp]: "decimal_arith decimal_js"
  by (rule js.decimal_arith_axioms)

text \<open>The selectors of the sample result, for the witnesses.\<close>

lemmas sample_simps = sample_result_def sample_lines_def sample_paid_def

section \<open>Sales\<close>

lemma sum_list_add: "sum_list (map (\<lambda>l. f l + g l) ls) = sum_list (map f ls) + (sum_list (map g ls) :: rat)"
  by (rule sum_list_addf)

lemma sum_list_cong: "(\<And>l. l \<in> set ls \<Longrightarrow> f l = g l) \<Longrightarrow> sum_list (map f ls) = sum_list (map g ls)"
  by (simp cong: map_cong)

lemma calculate_itemDiscount:
  assumes "decimal_arith D" and "calculate D J raw = Inr r"
  shows "totalItemDiscount_r r = sum_list (map itemDiscountAmount_l (lines_r r))"
    and "subtotal_r r = sum_list (map lineSubtotal_l (lines_r r))"
proof -
  obtain pre shares where st: "stages D raw pre shares r"
    and item: "totalItemDiscount_r r = sum_list (map itemDiscount_pre pre)"
    using decimal_arith.calculate_stages[OF assms] by blast
  then show "totalItemDiscount_r r = sum_list (map itemDiscountAmount_l (lines_r r))"
    using decimal_arith.stages_lines(5)[OF assms(1) st] by simp
  obtain h td d where ok: "\<And>l. l \<in> set (lines_r r) \<Longrightarrow> line_ok l"
    and t: "r\<lparr>payment_r := None\<rparr> = totals D h td d (lines_r r)" and small: "subtotal_r r \<le> MONEY_MAX"
    using decimal_arith.calculate_totals[OF assms] by metis
  show "subtotal_r r = sum_list (map lineSubtotal_l (lines_r r))"
    using decimal_arith.totals_exact(1)[OF assms(1) ok t] small by simp
qed

lemma calculate_final_paise:
  assumes "decimal_arith D" and "calculate D J raw = Inr r"
  shows "paise MONEY_MAX (finalTotal_r r)"
proof -
  obtain pre shares where "stages D raw pre shares r"
    using decimal_arith.calculate_stages[OF assms] by blast
  then have fin: "finalTotal_r r \<le> MONEY_MAX" unfolding stages_def by blast
  obtain h td d where ok: "\<And>l. l \<in> set (lines_r r) \<Longrightarrow> line_ok l"
    and t: "r\<lparr>payment_r := None\<rparr> = totals D h td d (lines_r r)" and small: "subtotal_r r \<le> MONEY_MAX"
    using decimal_arith.calculate_totals[OF assms] by metis
  have T: "finalTotal_r r = half_up 0 (grandTotal_r r)" "paise (5 * MONEY_MAX) (grandTotal_r r)"
    using decimal_arith.totals_exact[OF assms(1) ok t] small by simp_all
  then show ?thesis
    using fin on_grid_mono[of 0 "finalTotal_r r" 2] by (simp add: paise_def half_up_nonneg)
qed

lemma calculate_balance:
  assumes "decimal_arith D" and "calculate D J raw = Inr r"
  shows "subtotal_r r - totalDiscount_r r = taxableTotal_r r
    \<and> taxableTotal_r r + totalTax_r r + roundOff_r r = finalTotal_r r
    \<and> totalDiscount_r r = totalItemDiscount_r r + invoiceDiscount_r r
    \<and> totalTax_r r = totalCgst_r r + totalSgst_r r + totalIgst_r r + totalCess_r r
    \<and> subtotal_r r = sum_list (map lineSubtotal_l (lines_r r))
    \<and> totalDiscount_r r = sum_list (map discountAmount_l (lines_r r))
    \<and> finalTotal_r r = sum_list (map lineTotal_l (lines_r r)) + roundOff_r r"
proof -
  note D = assms(1)
  let ?s = "\<lambda>f. sum_list (map f (lines_r r))"
  obtain pre shares where st: "stages D raw pre shares r"
    and item: "totalItemDiscount_r r = sum_list (map itemDiscount_pre pre)"
    using decimal_arith.calculate_stages[OF assms] by blast
  note L = decimal_arith.stages_lines[OF D st]
  obtain h td d where ok: "\<And>l. l \<in> set (lines_r r) \<Longrightarrow> line_ok l"
    and t: "r\<lparr>payment_r := None\<rparr> = totals D h td d (lines_r r)" and small: "subtotal_r r \<le> MONEY_MAX"
    using decimal_arith.calculate_totals[OF assms] by metis
  have T: "subtotal_r r = ?s lineSubtotal_l" "totalDiscount_r r = ?s discountAmount_l"
    "taxableTotal_r r = ?s taxableAmount_l" "totalTax_r r = ?s taxAmount_l"
    "totalCgst_r r = ?s cgstAmount_l" "totalSgst_r r = ?s sgstAmount_l"
    "totalIgst_r r = ?s igstAmount_l" "totalCess_r r = ?s cessAmount_l"
    "grandTotal_r r = taxableTotal_r r + totalTax_r r" "roundOff_r r = finalTotal_r r - grandTotal_r r"
    using decimal_arith.totals_exact[OF D ok t] small by simp_all
  have l: "discountAmount_l l = itemDiscountAmount_l l + invoiceDiscountShare_l l"
    "taxableAmount_l l = lineSubtotal_l l - discountAmount_l l"
    "taxAmount_l l = cgstAmount_l l + sgstAmount_l l + igstAmount_l l + cessAmount_l l"
    "lineTotal_l l = taxableAmount_l l + taxAmount_l l" if "l \<in> set (lines_r r)" for l
    using ok[OF that] unfolding line_ok_def by blast+
  have "?s taxableAmount_l = ?s lineSubtotal_l - ?s discountAmount_l"
    using sum_list_cong[OF l(2)] by (simp add: sum_list_subtractf)
  moreover have "?s discountAmount_l = ?s itemDiscountAmount_l + ?s invoiceDiscountShare_l"
    using sum_list_cong[OF l(1)] by (simp add: sum_list_add)
  moreover have "?s taxAmount_l = ?s cgstAmount_l + ?s sgstAmount_l + ?s igstAmount_l + ?s cessAmount_l"
    using sum_list_cong[OF l(3)] by (simp add: sum_list_add)
  moreover have "?s lineTotal_l = ?s taxableAmount_l + ?s taxAmount_l"
    using sum_list_cong[OF l(4)] by (simp add: sum_list_add)
  moreover have "?s invoiceDiscountShare_l = invoiceDiscount_r r"
    using L(4) st unfolding stages_def by simp
  moreover have "?s itemDiscountAmount_l = totalItemDiscount_r r" using L(5) item by simp
  ultimately show ?thesis using T by simp
qed

text \<open>C1: the books of a calculated invoice balance to the paisa, whatever decimal rounding
  happens in between: subtotal less discounts is the taxable total, taxable plus tax plus the
  round-off is the final total, the discounts are the line discounts plus the invoice discount,
  the tax is its four components, and the lines as stored add up to the document.\<close>

theorem calculate_books:
  assumes "decimal_arith D" and "calculate D J raw = Inr r"
  shows "subtotal_r r - totalDiscount_r r = taxableTotal_r r
    \<and> taxableTotal_r r + totalTax_r r + roundOff_r r = finalTotal_r r
    \<and> totalDiscount_r r = totalItemDiscount_r r + invoiceDiscount_r r
    \<and> totalTax_r r = totalCgst_r r + totalSgst_r r + totalIgst_r r + totalCess_r r
    \<and> subtotal_r r = sum_list (map lineSubtotal_l (lines_r r))
    \<and> totalDiscount_r r = sum_list (map discountAmount_l (lines_r r))
    \<and> finalTotal_r r = sum_list (map lineTotal_l (lines_r r)) + roundOff_r r"
  by (rule calculate_balance[OF assms])

theorem calculate_books_witness:
  "subtotal_r sample_result - totalDiscount_r sample_result = taxableTotal_r sample_result
    \<and> finalTotal_r sample_result = sum_list (map lineTotal_l (lines_r sample_result)) + roundOff_r sample_result
    \<and> finalTotal_r sample_result = 102"
  using calculate_books[OF decimal_js sample_calculate] by (simp add: sample_simps)

text \<open>A returned invoice is for a whole number of rupees, within 50 paise of the exact
  total, the round-off is that difference, and both the subtotal and the final total fit the
  Decimal(10,2) columns.\<close>

theorem calculate_whole_rupees:
  assumes "decimal_arith D" and "calculate D J raw = Inr r"
  shows "on_grid 0 (finalTotal_r r) \<and> finalTotal_r r = half_up 0 (grandTotal_r r)
    \<and> roundOff_r r = finalTotal_r r - grandTotal_r r \<and> \<bar>roundOff_r r\<bar> \<le> 1 / 2
    \<and> 0 \<le> finalTotal_r r \<and> finalTotal_r r \<le> MONEY_MAX \<and> paise MONEY_MAX (subtotal_r r)"
proof -
  note D = assms(1)
  obtain pre shares where st: "stages D raw pre shares r"
    using decimal_arith.calculate_stages[OF assms] by blast
  then have fin: "finalTotal_r r \<le> MONEY_MAX" unfolding stages_def by blast
  obtain h td d where ok: "\<And>l. l \<in> set (lines_r r) \<Longrightarrow> line_ok l"
    and t: "r\<lparr>payment_r := None\<rparr> = totals D h td d (lines_r r)" and small: "subtotal_r r \<le> MONEY_MAX"
    using decimal_arith.calculate_totals[OF assms] by metis
  have T: "finalTotal_r r = half_up 0 (grandTotal_r r)" "roundOff_r r = finalTotal_r r - grandTotal_r r"
    "paise (5 * MONEY_MAX) (grandTotal_r r)" "subtotal_r r = sum_list (map lineSubtotal_l (lines_r r))"
    using decimal_arith.totals_exact[OF D ok t] small by simp_all
  have "paise MONEY_MAX (subtotal_r r)"
    using small ok unfolding T(4)
    by (auto simp: paise_def line_ok_def intro!: grid_intros sum_list_nonneg)
  moreover have "0 \<le> finalTotal_r r" using T(1,3) by (simp add: paise_def half_up_nonneg)
  moreover have "\<bar>roundOff_r r\<bar> \<le> 1 / 2" using half_up_error[of 0 "grandTotal_r r"] T by simp
  ultimately show ?thesis using T(1,2) fin by simp
qed

theorem calculate_whole_rupees_witness:
  "on_grid 0 (finalTotal_r sample_result) \<and> \<bar>roundOff_r sample_result\<bar> \<le> 1 / 2
    \<and> roundOff_r sample_result = - (3 / 25)"
  using calculate_whole_rupees[OF decimal_js sample_calculate] by (simp add: sample_simps)

text \<open>C16: the lines of a returned invoice are its items, in order and without a repeated
  product; every amount of a line is a non-negative number of paise, its discounts never
  exceed its subtotal and its total is what is left plus the tax; a line within the state
  carries equal CGST and SGST and no IGST, one to another state only IGST.\<close>

theorem calculate_lines:
  assumes "decimal_arith D" and "calculate D J raw = Inr r"
  shows "items_m raw \<noteq> [] \<and> distinct (map productId_i (items_m raw))
    \<and> map productId_l (lines_r r) = map productId_i (items_m raw)
    \<and> (\<forall>l \<in> set (lines_r r). line_ok l)
    \<and> list_all2 (\<lambda>i l. if isInterState_i i then cgstAmount_l l = 0 \<and> sgstAmount_l l = 0
         else igstAmount_l l = 0 \<and> cgstAmount_l l = sgstAmount_l l) (items_m raw) (lines_r r)"
proof -
  obtain pre shares where st: "stages D raw pre shares r"
    using decimal_arith.calculate_stages[OF assms] by blast
  then have "items_m raw \<noteq> []" "distinct (map productId_i (items_m raw))" unfolding stages_def by auto
  with decimal_arith.stages_lines[OF assms(1) st] show ?thesis by blast
qed

theorem calculate_lines_witness:
  "line_ok (hd sample_lines) \<and> map productId_l (lines_r sample_result) = [''a'', ''b'']
    \<and> sgstAmount_l (hd sample_lines) = cgstAmount_l (hd sample_lines)"
  using calculate_lines[OF decimal_js sample_calculate]
  by (simp add: sample_input_def sample_items_def sample_result_def sample_lines_def)

text \<open>C14: the invoice discount is shared out exactly: the shares of the lines add up to it, no
  line gets more than what its own discount left of it, and there is one only where a reason
  was given.\<close>

theorem calculate_discount_shares:
  assumes "decimal_arith D" and "calculate D J raw = Inr r"
  shows "sum_list (map invoiceDiscountShare_l (lines_r r)) = invoiceDiscount_r r
    \<and> (\<forall>l \<in> set (lines_r r). paise (lineSubtotal_l l - itemDiscountAmount_l l) (invoiceDiscountShare_l l))
    \<and> invoiceDiscount_r r \<le> subtotal_r r - totalItemDiscount_r r
    \<and> (0 < invoiceDiscount_r r \<longrightarrow> (\<exists>why. discountReason_m raw = Some why \<and> js_trim why \<noteq> []))"
proof -
  note D = assms(1)
  obtain pre shares where st: "stages D raw pre shares r"
    and N: "sum_list (map netSubtotal_pre pre) \<le> MONEY_MAX"
    and d: "invoice_discount D (json_input raw) (sum_list (map netSubtotal_pre pre)) = Inr (invoiceDiscount_r r)"
    using decimal_arith.calculate_stages[OF assms] by blast
  note L = decimal_arith.stages_lines[OF D st]
  note I = decimal_arith.invoice_discount_Inr[OF D d]
  have sum: "sum_list (map invoiceDiscountShare_l (lines_r r)) = invoiceDiscount_r r"
    using L(4) st unfolding stages_def by simp
  have ok: "line_ok l" if "l \<in> set (lines_r r)" for l using L(1)[OF that] .
  have sh: "paise (lineSubtotal_l l - itemDiscountAmount_l l) (invoiceDiscountShare_l l)"
    if "l \<in> set (lines_r r)" for l
    using ok[OF that] unfolding line_ok_def by (auto simp: paise_def)
  have "sum_list (map invoiceDiscountShare_l (lines_r r))
      \<le> sum_list (map (\<lambda>l. lineSubtotal_l l - itemDiscountAmount_l l) (lines_r r))"
    using sh by (intro sum_list_mono) (auto simp: paise_def)
  moreover have "totalItemDiscount_r r = sum_list (map itemDiscountAmount_l (lines_r r))"
    "subtotal_r r = sum_list (map lineSubtotal_l (lines_r r))"
    using calculate_itemDiscount[OF assms] by simp_all
  ultimately have "invoiceDiscount_r r \<le> subtotal_r r - totalItemDiscount_r r"
    unfolding sum by (simp add: sum_list_subtractf)
  moreover have "discountReason_m (json_input raw) = discountReason_m raw" by (simp add: json_input_def)
  ultimately show ?thesis using sum sh I(4) by auto
qed

theorem calculate_discount_shares_witness:
  "sum_list (map invoiceDiscountShare_l (lines_r sample_result)) = 7"
  using calculate_discount_shares[OF decimal_js sample_calculate] by (simp add: sample_simps)

text \<open>C15: the payment of a returned invoice settles it exactly: with a payment the applied
  tenders plus the credit are the final total, the credit is at most the total, change is given
  on cash only, and the mode stored is the one the tenders and the credit imply; without one
  the result carries none.\<close>

theorem calculate_payment:
  assumes "decimal_arith D" and "calculate D J raw = Inr r"
  shows "case payment_r r of
      None \<Rightarrow> normalisePayment D (json_input raw) = Inr None
    | Some p \<Rightarrow> sum_list (map amount_t (tenders_p p)) + udharAmount_p p = finalTotal_r r
        \<and> paidAmount_p p = sum_list (map amount_t (tenders_p p))
        \<and> paise (finalTotal_r r) (udharAmount_p p)
        \<and> (\<forall>t \<in> set (tenders_p p). paise MONEY_MAX (amount_t t) \<and> amount_t t \<le> tenderedAmount_t t
             \<and> (0 < changeAmount_t t \<longrightarrow> type_t t = CASH))
        \<and> paymentMode_p p = deriveInvoicePaymentMode
             (map (\<lambda>t. (type_t t, amount_t t)) (tenders_p p)) (udharAmount_p p)"
proof -
  note D = assms(1)
  have q: "(normalisePayment D (json_input raw) = Inr None \<and> payment_r r = None) \<or>
     (\<exists>p x. normalisePayment D (json_input raw) = Inr (Some p) \<and>
        settlePayment D p (finalTotal_r r) = Inr x \<and> payment_r r = Some x)"
    by (rule decimal_arith.calculate_InrE[OF assms]) simp
  have "paise MONEY_MAX (finalTotal_r r)"
    using calculate_final_paise[OF assms] .
  then show ?thesis
    using q decimal_arith.settlePayment_Inr[OF D] by (auto split: option.split)
qed

theorem calculate_payment_witness:
  "sum_list (map amount_t (tenders_p sample_paid)) + udharAmount_p sample_paid = 102"
  using calculate_payment[OF decimal_js sample_calculate] by (simp add: sample_result_def)

text \<open>The allocation never loses or invents a paisa: the shares of a total over non-negative
  weights in paise add up to the total, and every share is between zero and its weight.\<close>

theorem allocate_exact:
  assumes "decimal_arith D" and "on_grid 2 tot" "0 \<le> tot" "tot \<le> sum_list ws" "sum_list ws < 10 ^ 15"
    and "\<forall>w \<in> set ws. on_grid 2 w \<and> 0 \<le> w"
  shows "sum_list (allocateProportionally D tot ws) = tot
    \<and> list_all2 (\<lambda>w s. on_grid 2 s \<and> 0 \<le> s \<and> s \<le> w) ws (allocateProportionally D tot ws)"
  using decimal_arith.allocateProportionally_correct[OF assms(1-4) _ assms(5)] assms(6)
  by (simp add: paise_def[abs_def])

lemma allocate_overshoot:
  "allocateProportionally decimal_js (1 / 50) [1 / 100, 1 / 100, 1 / 100] = [1 / 100, 1 / 100, 0]"
  by code_simp

theorem allocate_exact_witness:
  "sum_list (allocateProportionally decimal_js (1 / 50) [1 / 100, 1 / 100, 1 / 100]) = 1 / 50
    \<and> allocateProportionally decimal_js (1 / 50) [1 / 100, 1 / 100, 1 / 100] = [1 / 100, 1 / 100, 0]"
  using allocate_exact[OF decimal_js, of "1 / 50" "[1 / 100, 1 / 100, 1 / 100]"] allocate_overshoot
  by (simp add: on_grid_def)

lemma pre_lines_prefix:
  "pre_lines D seen good = Inr ps \<Longrightarrow>
   pre_lines D seen (good @ rest) =
     bind_res (pre_lines D (rev (map productId_i good) @ seen) rest) (\<lambda>qs. Inr (ps @ qs))"
proof (induction good arbitrary: seen ps)
  case Nil
  then show ?case by (cases "pre_lines D seen rest") simp_all
next
  case (Cons i good)
  from Cons.prems obtain p qs where "productId_i i \<notin> set seen" "check_item D i = Inr p"
    "pre_lines D (productId_i i # seen) good = Inr qs" "ps = p # qs"
    by (auto simp: bind_res_eq_Inr)
  with Cons.IH[of "productId_i i # seen" qs] show ?case
    by (cases "pre_lines D (rev (map productId_i good) @ productId_i i # seen) rest") simp_all
qed

text \<open>Lines are checked in order and the first faulty one decides the error: whatever comes
  after it, its error is the result of the calculation.\<close>

theorem calculate_first_error:
  assumes "items_m raw = good @ bad # rest" and "pre_lines D [] (map json_item good) = Inr ps"
    and "productId_i bad \<notin> productId_i ` set good \<Longrightarrow> check_item D (json_item bad) = Inl e"
  shows "calculate D J raw
    = Inl (if productId_i bad \<in> productId_i ` set good then ERR_DUPLICATE_LINE else e)"
proof -
  have id: "productId_i (json_item x) = productId_i x" for x by (simp add: json_item_def)
  have "pre_lines D [] (items_m (json_input raw)) =
      bind_res (pre_lines D (rev (map productId_i good)) (map json_item (bad # rest))) (\<lambda>qs. Inr (ps @ qs))"
    using pre_lines_prefix[OF assms(2), of "map json_item (bad # rest)"] assms(1)
    by (simp add: json_input_def comp_def id)
  moreover have "items_m (json_input raw) \<noteq> []" by (simp add: json_input_def assms(1))
  ultimately show ?thesis using assms(3) by (simp add: calculate_def Let_def id)
qed

definition faulty_item :: "string \<Rightarrow> InvoiceItemMathInput" where
  "faulty_item i = (hd sample_items)\<lparr>productId_i := i, quantity_i := NNumber (1 / 4000)\<rparr>"

lemma faulty_item_check: "check_item decimal_js (json_item (faulty_item ''c'')) = Inl ERR_INVALID_QUANTITY"
  by code_simp

lemma sample_items_pre: "pre_lines decimal_js [] (map json_item sample_items) = Inr sample_pre"
  using sample_pre_lines by (simp add: json_input_def sample_input_def)

text \<open>A quarter of a thousandth rounds to no quantity at all; the sample items before it are sound.\<close>

theorem calculate_first_error_witness:
  "calculate decimal_js (\<lambda>_. []) (sample_input\<lparr>items_m := sample_items @ [faulty_item ''c'', faulty_item ''a'']\<rparr>)
    = Inl ERR_INVALID_QUANTITY"
  using calculate_first_error[of "sample_input\<lparr>items_m := sample_items @ [faulty_item ''c'', faulty_item ''a'']\<rparr>"
      sample_items "faulty_item ''c''" "[faulty_item ''a'']" decimal_js sample_pre ERR_INVALID_QUANTITY "\<lambda>_. []"]
    sample_items_pre faulty_item_check
  by (simp add: faulty_item_def sample_items_def)

section \<open>Prices\<close>

text \<open>C37: the price before tax of a tax-inclusive one always comes back: it is the greatest
  price in paise that does not bill more than the typed price, or the call is refused, and that
  only for the one price that already fills the column.\<close>

theorem exclusive_price_greatest:
  assumes "decimal_arith D" and "toDecimal D p = Inr v" and "0 \<le> v" and "money D v \<le> MONEY_MAX"
    and "resolve_rate_arg D g = Inr rate" and "resolveCessRate D c = Inr cess"
  shows "(\<exists>q. exclusiveUnitPrice D p g c = Some (Inr q) \<and> paise MONEY_MAX q
            \<and> billed D rate cess q \<le> money D v
            \<and> (\<forall>u. paise MONEY_MAX u \<longrightarrow> q < u \<longrightarrow> money D v < billed D rate cess u)) \<or>
         (exclusiveUnitPrice D p g c = Some (Inl ERR_INVALID_PRICE) \<and> money D v = MONEY_MAX)"
  by (rule decimal_arith.exclusiveUnitPrice_spec[OF assms])

lemma ten_rupees:
  "toDecimal decimal_js (NNumber 10) = Inr 10" "money decimal_js 10 = 10"
  "resolve_rate_arg decimal_js (NNumber 18) = Inr 18" "resolveCessRate decimal_js (NNumber 0) = Inr 0"
  by (code_simp, code_simp, code_simp, code_simp)

lemma billed_847: "billed decimal_js 18 0 (847 / 100) = 999 / 100"
  by code_simp

lemma billed_848: "billed decimal_js 18 0 (212 / 25) = 1001 / 100"
  by code_simp

text \<open>Ten rupees at 18 percent: 8.47 bills 9.99, and 8.48 would bill 10.01.\<close>

theorem exclusive_price_greatest_witness:
  "exclusiveUnitPrice decimal_js (NNumber 10) (NNumber 18) (NNumber 0) = Some (Inr (847 / 100))"
proof -
  have g: "paise MONEY_MAX (847 / 100)" "paise MONEY_MAX (848 / 100)"
    by (auto simp: paise_def invoice_constants on_grid_iff intro: exI[of _ 847] exI[of _ 848])
  have "money decimal_js 10 \<le> MONEY_MAX" "MONEY_MAX \<noteq> 10" by (simp_all add: ten_rupees invoice_constants)
  with exclusive_price_greatest[OF decimal_js ten_rupees(1) _ _ ten_rupees(3,4)]
  obtain q where q: "exclusiveUnitPrice decimal_js (NNumber 10) (NNumber 18) (NNumber 0) = Some (Inr q)"
    "paise MONEY_MAX q" "billed decimal_js 18 0 q \<le> 10"
    and above: "\<And>u. paise MONEY_MAX u \<Longrightarrow> q < u \<Longrightarrow> 10 < billed decimal_js 18 0 u"
    by (auto simp: ten_rupees)
  have "\<not> q < 847 / 100" using above[OF g(1)] by (auto simp: billed_847)
  moreover have "\<not> 848 / 100 \<le> q"
    using js.billed_mono[OF g(2) q(2), of 18 0] q(3) by (auto simp: billed_848)
  moreover have "q < 848 / 100 \<longleftrightarrow> q + 1 / 10 ^ 2 \<le> 848 / 100"
    using q(2) g(2) by (intro on_grid_less_iff) (simp_all add: paise_def)
  ultimately show ?thesis using q(1) by simp
qed

text \<open>a dearer unit never bills less, whatever the rounding of the tax, and never less than
  its price before tax.\<close>

theorem inclusive_price_monotone:
  assumes "decimal_arith D" and "paise MONEY_MAX u" and "paise MONEY_MAX v" and "u \<le> v"
    and "resolve_rate_arg D g = Inr rate" and "resolveCessRate D c = Inr cess"
  shows "\<exists>a b. inclusiveUnitPrice D (NDecimal u) g c = Inr a \<and> inclusiveUnitPrice D (NDecimal v) g c = Inr b
    \<and> a \<le> b \<and> u \<le> a \<and> on_grid 2 a"
proof -
  note D = assms(1) and r = resolve_rate_arg_range[OF assms(5)] and s = resolveCessRate_range[OF assms(6)]
  have "billed D rate cess u \<le> billed D rate cess v" "u \<le> billed D rate cess u"
    "on_grid 2 (billed D rate cess u)"
    using decimal_arith.billed_mono[OF D assms(2-4)] decimal_arith.billed_ge[OF D assms(2)] r s by simp_all
  then show ?thesis
    using decimal_arith.inclusiveUnitPrice_paise[OF D _ assms(5,6)] assms(2,3) by blast
qed

theorem inclusive_price_monotone_witness:
  "inclusiveUnitPrice decimal_js (NDecimal (847 / 100)) (NNumber 18) (NNumber 0) = Inr (999 / 100)
    \<and> (999 / 100 :: rat) \<le> 1001 / 100"
proof -
  have g: "paise MONEY_MAX (847 / 100)" "paise MONEY_MAX (848 / 100)"
    by (auto simp: paise_def invoice_constants on_grid_iff intro: exI[of _ 847] exI[of _ 848])
  from inclusive_price_monotone[OF decimal_js g _ ten_rupees(3,4)]
  show ?thesis
    by (simp add: js.inclusiveUnitPrice_paise[OF g(1) ten_rupees(3,4)] billed_847)
qed

section \<open>Cost of goods and the audit hash\<close>

text \<open>however a line goes out, the costs booked for its movements add up to the rounded cost
  of the whole quantity: the slices telescope, so returns give back exactly what the sale booked.\<close>

theorem cogs_telescope:
  assumes "decimal_arith D" and "on_grid 2 c" "0 \<le> c" "c \<le> 10 ^ 8" "on_grid 3 d" "0 \<le> d"
    and "\<forall>q \<in> set qs. on_grid 3 q \<and> 0 \<le> q" and "d + sum_list qs < 10 ^ 7"
  shows "\<exists>xs. cogs_slices D c d qs = map Inr xs
    \<and> sum_list xs = money D (c * (d + sum_list qs)) - money D (c * d)"
  using assms(7) by (intro decimal_arith.cogs_slices_telescope[OF assms(1-6) _ assms(8)]) blast

theorem cogs_telescope_witness:
  "\<exists>xs. cogs_slices decimal_js (333 / 100) 0 [1 / 2, 1 / 4, 1 / 4] = map Inr xs \<and> sum_list xs = 333 / 100"
proof -
  have "on_grid 2 (333 / 100)" by (auto simp: on_grid_iff intro: exI[of _ 333])
  moreover have "on_grid 3 (1 / 2)" "on_grid 3 (1 / 4)"
    by (auto simp: on_grid_iff intro: exI[of _ 500] exI[of _ 250])
  moreover have "money decimal_js 0 = 0" by code_simp
  ultimately have "\<exists>xs. cogs_slices decimal_js (333 / 100) 0 [1 / 2, 1 / 4, 1 / 4] = map Inr xs
      \<and> sum_list xs = money decimal_js (333 / 100)"
    using cogs_telescope[OF decimal_js, of "333 / 100" 0 "[1 / 2, 1 / 4, 1 / 4]"] by simp
  moreover have "money decimal_js (333 / 100) = 333 / 100" by code_simp
  ultimately show ?thesis by (simp only:)
qed

text \<open>the audit hash of the input is the base-31 polynomial of its code units, modulo two to
  the 32, in hexadecimal: shifting, subtracting and truncating in signed 32-bit arithmetic loses
  nothing, and the text has at most eight digits.\<close>

theorem audit_hash_value:
  "of_hex (generateHash s) = poly31 s mod 2 ^ 32 \<and> length (generateHash s) \<le> 8"
  by (simp add: generateHash_val length_generateHash)

section \<open>A refusal at the limit\<close>

text \<open>The one price that fills the column: it bills itself at no tax, but the search for its price
  before tax looks one paisa further and is refused.\<close>

theorem exclusive_price_refused_at_limit:
  "exclusiveUnitPrice decimal_js (NText ''99999999.99'') (NText ''ZERO'') (NNumber 0) = Some (Inl ERR_INVALID_PRICE)
    \<and> billed decimal_js 0 0 MONEY_MAX = MONEY_MAX"
  by (intro conjI) (code_simp, code_simp)

end
