(* ===== verification/ReturnProperties.thy ===== *)
theory ReturnProperties
  imports InvoiceProperties
begin

text \<open>
  The correctness properties of \<open>calculateReturn\<close>, of the discount limits a role may grant,
  and of the agreement between the unit price a product is stored with and what a sale bills.
\<close>

section \<open>Returns\<close>

text \<open>C34: however many returns a stored line is split over, they succeed and refund exactly the
  fraction of every stored amount that belongs to the quantity returned so far; once the whole
  quantity is back they add up to the stored amounts themselves, to the paisa.\<close>

theorem returns_telescope:
  assumes "decimal_arith D" and "stored_line D l" and "\<forall>q \<in> set qs. on_grid 3 q \<and> 0 < q"
    and "sum_list qs = amount D (originalQuantity_ri l)"
  shows "\<exists>rs. line_returns D l 0 qs = map Inr rs
     \<and> sum_list (map discountAmount_rl rs) = amount D (discountAmount_ri l)
     \<and> sum_list (map taxableAmount_rl rs) = amount D (taxableAmount_ri l)
     \<and> sum_list (map cgstAmount_rl rs) = amount D (cgstAmount_ri l)
     \<and> sum_list (map sgstAmount_rl rs) = amount D (sgstAmount_ri l)
     \<and> sum_list (map igstAmount_rl rs) = amount D (igstAmount_ri l)
     \<and> sum_list (map cessAmount_rl rs) = amount D (cessAmount_ri l)"
proof -
  note D = assms(1)
  from assms(2) have o: "0 < amount D (originalQuantity_ri l)"
    by (auto simp: stored_line_def amount_def)
  then have full: "line_part D l 0 (amount D (originalQuantity_ri l)) v = amount D v" for v
    by (simp add: line_part_def decimal_arith.cumulative_full[OF D] decimal_arith.cumulative_0[OF D])
  from decimal_arith.line_returns_Inr[OF D assms(2), of 0 qs] assms(3,4)
  show ?thesis by (simp add: full)
qed

definition sample_stored :: ReturnLineMathInput where
  "sample_stored =
     \<lparr>lineRef_ri = ''x'', originalQuantity_ri = NNumber 3, returnedQuantity_ri = NUndefined,
      quantity_ri = NNumber 1, unitPrice_ri = NNumber 10, discountAmount_ri = NNumber 1,
      taxableAmount_ri = NNumber 29, cgstAmount_ri = NNumber 2, sgstAmount_ri = NNumber 2,
      igstAmount_ri = NNumber 0, cessAmount_ri = NUndefined, totalAmount_ri = NNumber 33\<rparr>"

lemma paise_sample: "paise MONEY_MAX 1" "paise MONEY_MAX 29" "paise MONEY_MAX 2"
  by (auto simp: paise_def invoice_constants on_grid_iff intro: exI[of _ 100] exI[of _ 2900] exI[of _ 200])

lemma sample_stored_line: "stored_line decimal_js sample_stored"
  using paise_sample
  by (simp add: stored_line_def stored_amounts_def sample_stored_def) (simp add: invoice_constants)

text \<open>Three units for 29 rupees: two separate returns of one and of two units.\<close>

theorem returns_telescope_witness:
  "\<exists>rs. line_returns decimal_js sample_stored 0 [1, 2] = map Inr rs
    \<and> sum_list (map taxableAmount_rl rs) = 29 \<and> sum_list (map cgstAmount_rl rs) = 2"
proof -
  have a: "amount decimal_js (originalQuantity_ri sample_stored) = 3"
    "amount decimal_js (taxableAmount_ri sample_stored) = 29"
    "amount decimal_js (cgstAmount_ri sample_stored) = 2"
    by (simp_all add: amount_def sample_stored_def)
  have "\<forall>q \<in> set [1, 2]. on_grid 3 q \<and> 0 < q"
    using on_grid_of_int[of 3 1] on_grid_of_int[of 3 2] by simp
  with returns_telescope[OF decimal_js sample_stored_line, of "[1, 2]"] a
  show ?thesis by (simp del: line_returns.simps) metis
qed

text \<open>C35: the refunds of one sale never exceed what the customer paid, and no refund is negative,
  whatever the totals of the documents; a document that completes the sale leaves exactly
  nothing, so the round-off of the sale is refunded once.\<close>

theorem refunds_capped:
  assumes "decimal_arith D" and "paise MONEY_MAX i" and "paise i f"
    and "\<forall>(g, c) \<in> set docs. on_grid 2 g \<and> 0 \<le> g"
  shows "\<exists>ts. refunds D i f docs = map Inr ts \<and> f + sum_list ts \<le> i \<and> (\<forall>t \<in> set ts. 0 \<le> t)
    \<and> ((\<exists>g. (g, True) \<in> set docs) \<longrightarrow> f + sum_list ts = i)"
  using assms(4) by (intro decimal_arith.refunds_Inr[OF assms(1-3)]) blast

text \<open>Four returns of 50 paise each against a sale of one rupee.\<close>

theorem refunds_capped_witness:
  "\<exists>ts. refunds decimal_js 1 0 [(1 / 2, False), (1 / 2, False), (1 / 2, False), (1 / 2, True)] = map Inr ts
    \<and> sum_list ts = 1"
proof -
  define h :: rat where "h = 1 / 2"
  have "on_grid 2 h" "0 \<le> h" unfolding h_def by (auto simp: on_grid_iff intro: exI[of _ 50])
  with refunds_capped[OF decimal_js paise_sample(1), of 0 "[(h, False), (h, False), (h, False), (h, True)]"]
  show ?thesis unfolding h_def[symmetric] by (simp del: refunds.simps) metis
qed

text \<open>How a document of exact lines is settled.\<close>

lemma return_settled:
  assumes D: "decimal_arith D" and run: "calculateReturn D raw = Inr r" and g: "paise (10 ^ 15) (grandTotal_rr r)"
    and I: "\<forall>s i. settlement_rm raw = Some s \<longrightarrow> toDecimal D (json_num (invoiceTotal_s s)) = Inr i \<longrightarrow> i \<le> MONEY_MAX"
  shows "grandTotal_rr r + roundOff_rr r = finalTotal_rr r" (is ?round)
    and "case settlement_rm raw of
         None \<Rightarrow> finalTotal_rr r = grandTotal_rr r
       | Some s \<Rightarrow> \<exists>i f. toDecimal D (json_num (invoiceTotal_s s)) = Inr i \<and> toDecimal D (json_num (refundedTotal_s s)) = Inr f \<and>
           (let left = max (half_up 2 i - half_up 2 f) 0
            in finalTotal_rr r = (if completesInvoice_s s then left else min (grandTotal_rr r) left))" (is ?final)
proof -
  have t: "return_total D (map_option json_settlement (settlement_rm raw)) (grandTotal_rr r) = Inr (finalTotal_rr r)"
    "roundOff_rr r = money D (d_minus D (finalTotal_rr r) (grandTotal_rr r))"
    by (rule decimal_arith.calculateReturn_InrE[OF D run], simp)+
  have "?final \<and> paise (10 ^ 15) (finalTotal_rr r)"
  proof (cases "settlement_rm raw")
    case None
    then show ?thesis using t(1) g by (simp add: return_total_def)
  next
    case (Some s)
    have "return_total D (Some (json_settlement s)) (grandTotal_rr r) = Inr (finalTotal_rr r)" using t(1) Some by simp
    moreover have "i \<le> MONEY_MAX" if "toDecimal D (invoiceTotal_s (json_settlement s)) = Inr i" for i
      using I Some that by (simp add: json_settlement_def)
    ultimately show ?thesis using Some g
      by (rule_tac decimal_arith.return_total_read[OF D]) (auto simp: json_settlement_def Let_def)
  qed
  then show ?final and ?round
  proof -
    assume a: "?final \<and> paise (10 ^ 15) (finalTotal_rr r)"
    then show ?final ..
    have "money D (finalTotal_rr r - grandTotal_rr r) = finalTotal_rr r - grandTotal_rr r"
      using a g by (intro decimal_arith.money_exact[OF D] on_grid_diff) (simp_all add: paise_def)
    then show ?round
      using t(2) a g decimal_arith.d_minus_paise[OF D, of "10 ^ 15" "finalTotal_rr r" "10 ^ 15" "grandTotal_rr r"] by simp
  qed
qed

text \<open>C36: the books of a return document balance. Every total is the exact sum over the lines; the gross
  less the discount is the taxable amount; the tax is the sum of its four components, line by line and in
  total; taxable amount and tax make the grand total; and that with the round-off makes the final total.
  Without a settlement the final total is the grand total; with one it is what the invoice has left, or,
  when the return does not complete it, the grand total up to what is left.\<close>

theorem calculateReturn_books:
  assumes "decimal_arith D" and "calculateReturn D raw = Inr r" and "length (lines_rm raw) \<le> 10 ^ 6"
    and "\<forall>l \<in> set (lines_rm raw). stored_line D (json_return_line l)"
    and "\<forall>s i. settlement_rm raw = Some s \<longrightarrow> toDecimal D (json_num (invoiceTotal_s s)) = Inr i \<longrightarrow> i \<le> MONEY_MAX"
  shows "(let total = (\<lambda>f. sum_list (map f (lines_rr r))) in
      subtotal_rr r = total lineSubtotal_rl \<and> totalDiscount_rr r = total discountAmount_rl \<and>
      taxableTotal_rr r = total taxableAmount_rl \<and> totalCgst_rr r = total cgstAmount_rl \<and>
      totalSgst_rr r = total sgstAmount_rl \<and> totalIgst_rr r = total igstAmount_rl \<and>
      totalCess_rr r = total cessAmount_rl \<and> totalTax_rr r = total taxAmount_rl \<and> grandTotal_rr r = total lineTotal_rl)
    \<and> (\<forall>l \<in> set (lines_rr r). taxAmount_rl l = cgstAmount_rl l + sgstAmount_rl l + igstAmount_rl l + cessAmount_rl l)
    \<and> subtotal_rr r - totalDiscount_rr r = taxableTotal_rr r
    \<and> totalCgst_rr r + totalSgst_rr r + totalIgst_rr r + totalCess_rr r = totalTax_rr r
    \<and> taxableTotal_rr r + totalTax_rr r = grandTotal_rr r
    \<and> grandTotal_rr r + roundOff_rr r = finalTotal_rr r
    \<and> (case settlement_rm raw of
         None \<Rightarrow> finalTotal_rr r = grandTotal_rr r
       | Some s \<Rightarrow> \<exists>i f. toDecimal D (json_num (invoiceTotal_s s)) = Inr i \<and> toDecimal D (json_num (refundedTotal_s s)) = Inr f \<and>
           (let left = max (half_up 2 i - half_up 2 f) 0
            in finalTotal_rr r = (if completesInvoice_s s then left else min (grandTotal_rr r) left)))"
proof -
  note D = assms(1)
  have l: "\<And>l. l \<in> set (lines_rm raw) \<Longrightarrow> stored_line D (json_return_line l)" using assms(4) by blast
  note T = decimal_arith.calculateReturn_totals[OF D assms(2,3)]
  let ?s = "\<lambda>f. sum_list (map f (lines_rr r))"
  have ok: "lineSubtotal_rl x - discountAmount_rl x = taxableAmount_rl x"
    "taxAmount_rl x = cgstAmount_rl x + sgstAmount_rl x + igstAmount_rl x + cessAmount_rl x"
    "lineTotal_rl x = taxableAmount_rl x + taxAmount_rl x" if "x \<in> set (lines_rr r)" for x
    using T(1)[OF l that] unfolding return_line_ok_def by simp_all
  have "?s lineSubtotal_rl - ?s discountAmount_rl = ?s taxableAmount_rl"
    using sum_list_cong[OF ok(1)] by (simp add: sum_list_subtractf)
  moreover have "?s taxAmount_rl = ?s cgstAmount_rl + ?s sgstAmount_rl + ?s igstAmount_rl + ?s cessAmount_rl"
    using sum_list_cong[OF ok(2)] by (simp add: sum_list_add)
  moreover have "?s lineTotal_rl = ?s taxableAmount_rl + ?s taxAmount_rl"
    using sum_list_cong[OF ok(3)] by (simp add: sum_list_add)
  moreover note return_settled[OF D assms(2) T(7)[OF l] assms(5)]
  ultimately show ?thesis using T(2-6,8-11) l ok(2) by (simp add: Let_def)
qed

text \<open>One unit of the three comes back, and the sale has eleven rupees left.\<close>

definition sample_return :: ReturnMathInput where
  "sample_return = \<lparr>lines_rm = [return_of sample_stored 0 1],
     settlement_rm = Some \<lparr>invoiceTotal_s = NNumber 33, refundedTotal_s = NNumber 22, completesInvoice_s = False\<rparr>\<rparr>"

lemma sample_json: "json_return sample_return = sample_return"
  "json_return_line (return_of sample_stored 0 1) = return_of sample_stored 0 1"
  by (simp_all add: json_return_def json_return_line_def json_settlement_def sample_return_def sample_stored_def return_of_def)

lemma sample_return_stored: "stored_line decimal_js (return_of sample_stored 0 1)"
  using sample_stored_line by (simp add: stored_line_def stored_amounts_def return_of_def)

lemma sample_return_run: "\<exists>r. calculateReturn decimal_js sample_return = Inr r"
proof -
  have "on_grid 3 1" "1 \<le> amount decimal_js (originalQuantity_ri sample_stored)"
    using on_grid_of_int[of 3 1] by (simp_all add: amount_def sample_stored_def)
  then obtain x where x: "return_line decimal_js (return_of sample_stored 0 1) = Inr x"
    using js.return_line_Inr[OF sample_stored_line, of 0 1] by auto
  have "map_res (return_line decimal_js) (lines_rm sample_return) = Inr [x]"
    by (simp add: sample_return_def x)
  then show ?thesis
    by (simp add: calculateReturn_def sample_json Let_def) (simp add: sample_return_def return_total_def Let_def)
qed

theorem calculateReturn_books_witness:
  "\<exists>r. calculateReturn decimal_js sample_return = Inr r
    \<and> totalCgst_rr r + totalSgst_rr r + totalIgst_rr r + totalCess_rr r = totalTax_rr r
    \<and> grandTotal_rr r + roundOff_rr r = finalTotal_rr r \<and> finalTotal_rr r = min (grandTotal_rr r) 11"
proof -
  obtain r where r: "calculateReturn decimal_js sample_return = Inr r" using sample_return_run by blast
  have "length (lines_rm sample_return) \<le> 10 ^ 6"
    "\<forall>l \<in> set (lines_rm sample_return). stored_line decimal_js (json_return_line l)"
    "\<forall>s i. settlement_rm sample_return = Some s \<longrightarrow> toDecimal decimal_js (json_num (invoiceTotal_s s)) = Inr i \<longrightarrow> i \<le> MONEY_MAX"
    by (simp_all add: sample_return_def sample_json sample_return_stored) (simp add: invoice_constants)
  note books = calculateReturn_books[OF decimal_js r this]
  have "half_up 2 33 = (33 :: rat)" "half_up 2 22 = (22 :: rat)" using on_grid_of_int[of 2 33] on_grid_of_int[of 2 22] by (simp_all add: half_up_exact)
  then show ?thesis using books r by (auto simp: sample_return_def Let_def)
qed

section \<open>Discount limits\<close>

text \<open>A percentage in the engine's own rounding.\<close>

definition percent_of :: "decimal_lib \<Rightarrow> rat \<Rightarrow> decimal \<Rightarrow> decimal" where
  "percent_of D pct a = money D (d_div D (d_mul D a pct) 100)"

lemma percent_of_mono:
  assumes "decimal_arith D" and "0 \<le> a" and "p \<le> q"
  shows "percent_of D p a \<le> percent_of D q a"
  using assms unfolding percent_of_def d_div_def d_mul_def
  by (intro decimal_arith.money_mono decimal_arith.ctx_mono divide_right_mono mult_left_mono) simp_all

lemma check_item_discount:
  "check_item D item = Inr p \<Longrightarrow> toDecimal D (discountPercent_i item) = Inr x \<Longrightarrow>
   itemDiscount_pre p = percent_of D x (lineSubtotal_pre p)"
  unfolding check_item_def percent_of_def by (auto simp: bind_res_eq_Inr Let_def)

lemma pre_lines_check: "pre_lines D seen items = Inr ps \<Longrightarrow> list_all2 (\<lambda>i p. check_item D i = Inr p) items ps"
  by (induction items arbitrary: seen ps) (auto simp: bind_res_eq_Inr split: if_splits)

lemma line_from_item:
  assumes "decimal_arith D" and "calculate D J raw = Inr r" and "l \<in> set (lines_r r)"
  shows "\<exists>i p. i \<in> set (items_m raw) \<and> check_item D (json_item i) = Inr p
    \<and> itemDiscountAmount_l l = itemDiscount_pre p \<and> lineSubtotal_l l = lineSubtotal_pre p"
proof -
  obtain pre d where pre: "pre_lines D [] (map json_item (items_m raw)) = Inr pre"
    and ls: "lines_r r = map2 (taxed_line D) pre (allocateProportionally D d (map netSubtotal_pre pre))"
    by (rule decimal_arith.calculate_InrE[OF assms(1,2)]) (auto simp: totals_def Let_def)
  from assms(3) obtain p s where p: "p \<in> set pre" "l = taxed_line D p s"
    unfolding ls by (auto dest: set_zip_leftD)
  have "list_all2 (\<lambda>i p. check_item D (json_item i) = Inr p) (items_m raw) pre"
    using pre_lines_check[OF pre] by (simp add: list_all2_map1)
  moreover from p(1) obtain k where "k < length pre" "pre ! k = p" by (auto simp: in_set_conv_nth)
  ultimately have "items_m raw ! k \<in> set (items_m raw)" "check_item D (json_item (items_m raw ! k)) = Inr p"
    using list_all2_nthD2[of _ "items_m raw" pre k] by (auto dest: list_all2_lengthD)
  moreover have "itemDiscountAmount_l l = itemDiscount_pre p" "lineSubtotal_l l = lineSubtotal_pre p"
    by (simp_all add: p(2) taxed_line_def Let_def)
  ultimately show ?thesis by blast
qed

lemma calculate_limit:
  assumes "decimal_arith D" and "calculate D J raw = Inr r"
  shows "subtotal_r r \<le> MONEY_MAX"
  using decimal_arith.calculate_stages[OF assms] unfolding stages_def by blast

text \<open>The discount-authority check never refuses what the limit itself yields: an invoice whose
  lines are discounted by at most the limit, and by nothing else, stays within the effective
  limit computed from its own result, to the paisa.\<close>

theorem line_discounts_within_limit:
  assumes "decimal_arith D" and "calculate D J raw = Inr r" and "invoiceDiscount_r r = 0"
    and "toDecimal D limit = Inr L" and "0 \<le> L" and "L \<le> 100"
    and "\<forall>i \<in> set (items_m raw). \<exists>x. toDecimal D (json_num (discountPercent_i i)) = Inr x \<and> x \<le> L"
  shows "\<exists>inv eff. discountLimitAmounts D r limit = Inr (inv, eff) \<and> totalDiscount_r r \<le> eff"
proof -
  note D = assms(1) and bal = calculate_balance[OF assms(1,2)]
  have disc: "totalDiscount_r r = sum_list (map itemDiscountAmount_l (lines_r r))"
    using bal assms(3) calculate_itemDiscount(1)[OF D assms(2)] by simp
  have sub: "subtotal_r r = sum_list (map lineSubtotal_l (lines_r r))" "subtotal_r r \<le> MONEY_MAX"
    using bal calculate_limit[OF assms(1,2)] by simp_all
  let ?share = "\<lambda>l. percent_of D L (lineSubtotal_l l)"
  have line: "itemDiscountAmount_l l \<le> ?share l \<and> paise (lineSubtotal_l l) (?share l)"
    if l: "l \<in> set (lines_r r)" for l
  proof -
    obtain i p where i: "i \<in> set (items_m raw)" and p: "check_item D (json_item i) = Inr p"
      and eq: "itemDiscountAmount_l l = itemDiscount_pre p" "lineSubtotal_l l = lineSubtotal_pre p"
      using line_from_item[OF assms(1,2) l] by blast
    have ls: "paise MONEY_MAX (lineSubtotal_pre p)"
      using decimal_arith.check_item_Inr(1)[OF D p] unfolding pre_ok_def by blast
    from assms(7) i obtain x where "toDecimal D (discountPercent_i (json_item i)) = Inr x" "x \<le> L"
      by (auto simp: json_item_def)
    with check_item_discount[OF p] percent_of_mono[OF D, of "lineSubtotal_pre p" x L] ls
    have "itemDiscount_pre p \<le> percent_of D L (lineSubtotal_pre p)" by (simp add: paise_def)
    moreover have "paise (lineSubtotal_pre p) (percent_of D L (lineSubtotal_pre p))"
      unfolding percent_of_def using assms(5,6) by (intro decimal_arith.percent_paise[OF D ls]) simp_all
    ultimately show ?thesis by (simp add: eq)
  qed
  have small: "sum_list (map ?share (lines_r r)) \<le> MONEY_MAX"
  proof -
    have "sum_list (map ?share (lines_r r)) \<le> sum_list (map lineSubtotal_l (lines_r r))"
      using line by (intro sum_list_mono) (simp add: paise_def)
    then show ?thesis using sub by simp
  qed
  have exact: "d_sum D (map ?share (lines_r r)) = sum_list (map ?share (lines_r r))"
    using small line by (intro decimal_arith.d_sum_exact[OF D, of _ 2]) (auto simp: paise_def invoice_constants)
  have "totalDiscount_r r \<le> sum_list (map ?share (lines_r r))"
    unfolding disc using line by (intro sum_list_mono) blast
  then show ?thesis
    by (simp add: discountLimitAmounts_def assms(4) Let_def percent_of_def[symmetric] exact le_max_iff_disj)
qed

definition plain_input :: InvoiceMathInput where
  "plain_input = sample_input\<lparr>items_m := [hd sample_items], discountAmount_m := NUndefined,
     discountReason_m := None, payment_m := None\<rparr>"

definition plain_line :: InvoiceLineResult where
  "plain_line = (hd sample_lines)\<lparr>discountAmount_l := 201 / 100, invoiceDiscountShare_l := 0,
     taxableAmount_l := 1809 / 100, cgstAmount_l := 163 / 100, sgstAmount_l := 163 / 100,
     taxAmount_l := 163 / 50, lineTotal_l := 427 / 20\<rparr>"

lemma plain_pre: "pre_lines decimal_js [] (items_m (json_input plain_input)) = Inr [hd sample_pre]"
  by code_simp

lemma plain_taxed: "map2 (taxed_line decimal_js) [hd sample_pre]
    (allocateProportionally decimal_js 0 (map netSubtotal_pre [hd sample_pre])) = [plain_line]"
  by code_simp

lemma plain_discount: "invoice_discount decimal_js (json_input plain_input) x = Inr 0"
  by (simp add: invoice_discount_def discount_value_def json_input_def plain_input_def sample_input_def
      nullish_def js_upper_def invoice_constants)

lemma plain_limits:
  "subtotal_r (totals decimal_js (generateHash []) td 0 [plain_line]) = 201 / 10"
  "finalTotal_r (totals decimal_js (generateHash []) td 0 [plain_line]) = 21"
  "discountAmount_l plain_line = 201 / 100"
  by (code_simp, code_simp, code_simp)

text \<open>Ten percent of 20.10 rounds to 2.01, which is more than ten percent; it is within the limit.\<close>

theorem line_discounts_within_limit_witness:
  "\<exists>r inv eff. calculate decimal_js (\<lambda>_. []) plain_input = Inr r \<and> lines_r r = [plain_line]
    \<and> discountLimitAmounts decimal_js r (NNumber 10) = Inr (inv, eff) \<and> totalDiscount_r r \<le> eff"
proof -
  have n: "normalisePayment decimal_js (json_input plain_input) = Inr None" "items_m (json_input plain_input) \<noteq> []"
    by (simp_all add: normalisePayment_def json_input_def plain_input_def sample_input_def nullish_def)
  obtain r where r: "calculate decimal_js (\<lambda>_. []) plain_input = Inr r" "lines_r r = [plain_line]"
      "invoiceDiscount_r r = 0"
    using plain_taxed
    by (simp add: calculate_def Let_def n plain_pre plain_discount plain_limits)
       (simp add: MONEY_MAX_def totals_def Let_def)
  have "\<forall>i \<in> set (items_m plain_input). \<exists>x. toDecimal decimal_js (json_num (discountPercent_i i)) = Inr x \<and> x \<le> 10"
    by (simp add: plain_input_def sample_items_def)
  from line_discounts_within_limit[OF decimal_js r(1,3) _ _ _ this, of "NNumber 10"] r
  show ?thesis by auto
qed

section \<open>The price of one unit\<close>

lemma line_of_item:
  assumes "decimal_arith D" and "calculate D J raw = Inr r" and "l \<in> set (lines_r r)"
    and "i \<in> set (items_m raw)" and "productId_l l = productId_i i" and "invoiceDiscount_r r = 0"
  shows "\<exists>p. check_item D (json_item i) = Inr p \<and> l = taxed_line D p 0"
proof -
  note D = assms(1)
  obtain pre d where pre: "pre_lines D [] (map json_item (items_m raw)) = Inr pre"
    and ls: "lines_r r = map2 (taxed_line D) pre (allocateProportionally D d (map netSubtotal_pre pre))"
    and d: "invoiceDiscount_r r = d"
    by (rule decimal_arith.calculate_InrE[OF assms(1,2)]) (auto simp: totals_def Let_def)
  from d assms(6) have zero: "allocateProportionally D d ws = map (\<lambda>_. 0) ws" for ws
    by (simp add: allocateProportionally_def)
  from assms(3) obtain p where p: "p \<in> set pre" "l = taxed_line D p 0"
    unfolding ls zero by (auto simp: set_zip) (use nth_mem in blast)
  have "list_all2 (\<lambda>i p. check_item D (json_item i) = Inr p) (items_m raw) pre"
    using pre_lines_check[OF pre] by (simp add: list_all2_map1)
  moreover from p(1) obtain k where "k < length pre" "pre ! k = p" by (auto simp: in_set_conv_nth)
  ultimately have k: "items_m raw ! k \<in> set (items_m raw)" "check_item D (json_item (items_m raw ! k)) = Inr p"
    using list_all2_nthD2[of _ "items_m raw" pre k] by (auto dest: list_all2_lengthD)
  have "productId_l l = productId_i (items_m raw ! k)"
    using decimal_arith.check_item_Inr(2)[OF D k(2)] by (simp add: p(2) taxed_line_def Let_def json_item_def)
  moreover have "distinct (map productId_i (items_m raw))"
    using decimal_arith.pre_lines_Inr(3)[OF D pre] by (simp add: comp_def json_item_def)
  ultimately have "items_m raw ! k = i" using assms(4,5) k(1) by (simp add: distinct_map inj_on_def)
  with k(2) p(2) show ?thesis by blast
qed

lemma check_item_unit:
  assumes "decimal_arith D" and "check_item D item = Inr p"
    and "quantity_i item = NNumber 1" and "discountPercent_i item = NUndefined"
  shows "\<exists>v. toDecimal D (unitPrice_i item) = Inr v \<and> 0 \<le> v \<and> money D v \<le> MONEY_MAX
    \<and> lineSubtotal_pre p = money D v \<and> itemDiscount_pre p = 0 \<and> item_pre p = item
    \<and> resolveGstRate D (gstRate_i item) (gstRateStr_i item) = Inr (gstRate_pre p)
    \<and> resolveCessRate D (cessRate_i item) = Inr (cessRate_pre p)"
proof -
  note D = assms(1)
  have q: "half_up 3 1 = 1" using half_up_exact[of 3 1] on_grid_of_int[of 3 1] by simp
  obtain v where v: "toDecimal D (unitPrice_i item) = Inr v" "0 \<le> v" "money D v \<le> MONEY_MAX"
    and r: "resolveGstRate D (gstRate_i item) (gstRateStr_i item) = Inr (gstRate_pre p)"
      "resolveCessRate D (cessRate_i item) = Inr (cessRate_pre p)" "item_pre p = item"
    and sub: "lineSubtotal_pre p = money D (d_mul D (money D v) 1)"
    and disc: "itemDiscount_pre p = money D (d_div D (d_mul D (lineSubtotal_pre p) 0) 100)"
    using assms(2) unfolding check_item_def assms(3,4)
    by (auto simp: bind_res_eq_Inr Let_def decimal_arith.to_dp_half_up[OF D] QUANTITY_DP_def q not_less)
  have "paise MONEY_MAX (money D v)" using decimal_arith.money_paise[OF D v(2,3)] .
  then have "d_mul D (money D v) 1 = money D v \<and> on_grid 2 (money D v)"
    using decimal_arith.ctx_paise[OF D, of MONEY_MAX "money D v"]
    by (simp add: d_mul_def paise_def invoice_constants)
  moreover have "ctx_round D 0 = 0"
    using decimal_arith.ctx_exact[OF D] by (simp add: fits_def)
  ultimately show ?thesis
    using v r sub disc decimal_arith.money_exact[OF D]
    by (intro exI[of _ v]) (simp add: d_mul_def d_div_def)
qed

text \<open>A sale bills one undiscounted unit of a product at exactly the tax-inclusive price of its
  kind of supply, so never above what \<open>inclusiveUnitPrice\<close> gives for the same price and rates:
  the figure the MRP check compares with is the figure the customer pays.\<close>

theorem unit_billed_at_inclusive_price:
  assumes "decimal_arith D" and "calculate D J raw = Inr r" and "invoiceDiscount_r r = 0"
    and "i \<in> set (items_m raw)" and "l \<in> set (lines_r r)" and "productId_l l = productId_i i"
    and "quantity_i i = NNumber 1" and "discountPercent_i i = NUndefined"
    and "resolve_rate_arg D g = resolveGstRate D (json_num (gstRate_i i)) (gstRateStr_i i)"
  shows "\<exists>t. inclusiveUnitPrice D (json_num (unitPrice_i i)) g (json_num (cessRate_i i)) = Inr t
    \<and> lineTotal_l l \<le> t"
proof -
  note D = assms(1)
  obtain p where p: "check_item D (json_item i) = Inr p" and l: "l = taxed_line D p 0"
    using line_of_item[OF assms(1,2,5,4,6,3)] by blast
  have sel: "quantity_i (json_item i) = NNumber 1" "discountPercent_i (json_item i) = NUndefined"
    using assms(7,8) by (simp_all add: json_item_def)
  obtain v where v: "toDecimal D (json_num (unitPrice_i i)) = Inr v" "0 \<le> v" "money D v \<le> MONEY_MAX"
    and sub: "lineSubtotal_pre p = money D v" "itemDiscount_pre p = 0"
    and r: "resolveGstRate D (json_num (gstRate_i i)) (gstRateStr_i i) = Inr (gstRate_pre p)"
      "resolveCessRate D (json_num (cessRate_i i)) = Inr (cessRate_pre p)"
    using check_item_unit[OF D p sel] by (auto simp: json_item_def)
  have g: "on_grid 2 (money D v)" using decimal_arith.money_grid[OF D] .
  have "paise MONEY_MAX (money D v)" using decimal_arith.money_paise[OF D v(2,3)] .
  then have "ctx_round D (money D v) = money D v"
    by (rule decimal_arith.ctx_paise[OF D]) (simp add: invoice_constants)
  moreover have "ctx_round D 0 = 0"
    using decimal_arith.ctx_exact[OF D] by (simp add: fits_def)
  ultimately have tot: "lineTotal_l l = exclusive_total D (money D v) (via_number D (gstRate_pre p))
      (via_number D (cessRate_pre p)) (isInterState_i (item_pre p))"
    using decimal_arith.money_exact[OF D g]
    by (simp add: l taxed_line_def Let_def exclusive_total_def sub d_plus_def d_minus_def)
  show ?thesis
    using v r assms(9) tot
    by (cases "isInterState_i (item_pre p)")
       (auto simp: inclusiveUnitPrice_def Let_def not_less)
qed

definition unit_item :: InvoiceItemMathInput where
  "unit_item = (hd sample_items)\<lparr>quantity_i := NNumber 1, unitPrice_i := NText ''8.47'',
     discountPercent_i := NUndefined\<rparr>"

definition unit_input :: InvoiceMathInput where
  "unit_input = plain_input\<lparr>items_m := [unit_item]\<rparr>"

definition unit_pre :: PreLine where
  "unit_pre = \<lparr>item_pre = unit_item, qty_pre = 1, unitPrice_pre = 847 / 100, gstRate_pre = 18,
     cessRate_pre = 0, lineSubtotal_pre = 847 / 100, itemDiscount_pre = 0, netSubtotal_pre = 847 / 100\<rparr>"

lemma unit_pre_lines: "pre_lines decimal_js [] (items_m (json_input unit_input)) = Inr [unit_pre]"
  by code_simp

lemma unit_limits:
  "subtotal_r (totals decimal_js h td 0 [taxed_line decimal_js unit_pre 0]) = 847 / 100"
  "finalTotal_r (totals decimal_js h td 0 [taxed_line decimal_js unit_pre 0]) = 10"
  "lineTotal_l (taxed_line decimal_js unit_pre 0) = 999 / 100"
  by (code_simp, code_simp, code_simp)

lemma unit_discount: "invoice_discount decimal_js (json_input unit_input) x = Inr 0"
  by (simp add: invoice_discount_def discount_value_def json_input_def unit_input_def plain_input_def
      sample_input_def nullish_def js_upper_def invoice_constants)

text \<open>8.47 at 18 percent: one unit is billed at 9.99, and that is the inclusive price.\<close>

theorem unit_billed_at_inclusive_price_witness:
  "\<exists>t. inclusiveUnitPrice decimal_js (NText ''8.47'') (NText ''EIGHTEEN'') NUndefined = Inr t \<and> 999 / 100 \<le> t"
proof -
  have n: "normalisePayment decimal_js (json_input unit_input) = Inr None" "items_m (json_input unit_input) \<noteq> []"
    by (simp_all add: normalisePayment_def json_input_def unit_input_def plain_input_def sample_input_def nullish_def)
  have a: "map2 (taxed_line decimal_js) [unit_pre]
      (allocateProportionally decimal_js 0 (map netSubtotal_pre [unit_pre])) = [taxed_line decimal_js unit_pre 0]"
    by (simp add: allocateProportionally_def)
  obtain r where r: "calculate decimal_js (\<lambda>_. []) unit_input = Inr r"
      "lines_r r = [taxed_line decimal_js unit_pre 0]" "invoiceDiscount_r r = 0"
    using a by (simp add: calculate_def Let_def n unit_pre_lines unit_discount unit_limits)
      (simp add: MONEY_MAX_def totals_def Let_def)
  have g: "resolve_rate_arg decimal_js (NText ''EIGHTEEN'')
      = resolveGstRate decimal_js (json_num (gstRate_i unit_item)) (gstRateStr_i unit_item)"
    by code_simp
  have sel: "unit_item \<in> set (items_m unit_input)" "quantity_i unit_item = NNumber 1"
    "discountPercent_i unit_item = NUndefined"
    "productId_l (taxed_line decimal_js unit_pre 0) = productId_i unit_item"
    "json_num (unitPrice_i unit_item) = NText ''8.47''" "json_num (cessRate_i unit_item) = NUndefined"
    by (simp_all add: unit_input_def unit_item_def sample_items_def taxed_line_def Let_def unit_pre_def)
  have "taxed_line decimal_js unit_pre 0 \<in> set (lines_r r)" using r(2) by simp
  from unit_billed_at_inclusive_price[OF decimal_js r(1,3) sel(1) this sel(4,2,3) g]
  show ?thesis by (simp add: sel unit_limits(3))
qed

end
