(* ===== verification/Effects.thy ===== *)
theory Effects
  imports Prelude
begin

text \<open>
  Service methods that read and write the database and may throw: a state transformer whose
  outcome is an error (\<open>Inl\<close>) or a value (\<open>Inr\<close>). What was written before an error stays in the
  state; the transaction the method runs in decides whether it survives (see \<open>transaction\<close> in
  the database theories). \<open>eff_simps\<close> unfolds a run, \<open>keeps_intros\<close> proves that a method keeps an
  invariant whatever its outcome.
\<close>

named_theorems eff_simps \<open>running effects\<close>
named_theorems keeps_intros \<open>invariants kept by effects\<close>

type_synonym ('s, 'e, 'a) eff = "'s \<Rightarrow> 's \<times> ('e + 'a)"

definition return_eff :: "'a \<Rightarrow> ('s, 'e, 'a) eff" where
  "return_eff x = (\<lambda>s. (s, Inr x))"

definition throw_eff :: "'e \<Rightarrow> ('s, 'e, 'a) eff" where
  "throw_eff e = (\<lambda>s. (s, Inl e))"

definition bind_eff :: "('s, 'e, 'a) eff \<Rightarrow> ('a \<Rightarrow> ('s, 'e, 'b) eff) \<Rightarrow> ('s, 'e, 'b) eff" where
  "bind_eff m f = (\<lambda>s. case m s of (s', Inl e) \<Rightarrow> (s', Inl e) | (s', Inr x) \<Rightarrow> f x s')"

definition read_eff :: "('s \<Rightarrow> 'a) \<Rightarrow> ('s, 'e, 'a) eff" where
  "read_eff f = (\<lambda>s. (s, Inr (f s)))"

definition write_eff :: "('s \<Rightarrow> 's) \<Rightarrow> ('s, 'e, unit) eff" where
  "write_eff g = (\<lambda>s. (g s, Inr ()))"

text \<open>\<open>if (\<not> b) throw e\<close>\<close>

definition require_eff :: "bool \<Rightarrow> 'e \<Rightarrow> ('s, 'e, unit) eff" where
  "require_eff b e = (if b then return_eff () else throw_eff e)"

lemma return_eff_run [simp, eff_simps]: "return_eff x s = (s, Inr x)"
  by (simp add: return_eff_def)

lemma throw_eff_run [simp, eff_simps]: "throw_eff e s = (s, Inl e)"
  by (simp add: throw_eff_def)

lemma read_eff_run [simp, eff_simps]: "read_eff f s = (s, Inr (f s))"
  by (simp add: read_eff_def)

lemma write_eff_run [simp, eff_simps]: "write_eff g s = (g s, Inr ())"
  by (simp add: write_eff_def)

lemma require_eff_run [simp, eff_simps]: "require_eff b e s = (s, if b then Inr () else Inl e)"
  by (simp add: require_eff_def)

lemma bind_eff_Inr [eff_simps]:
  "bind_eff m f s = (s', Inr y) \<longleftrightarrow> (\<exists>t x. m s = (t, Inr x) \<and> f x t = (s', Inr y))"
  by (auto simp: bind_eff_def split: prod.splits sum.splits)

lemma bind_eff_Inl [eff_simps]:
  "bind_eff m f s = (s', Inl e) \<longleftrightarrow>
     m s = (s', Inl e) \<or> (\<exists>t x. m s = (t, Inr x) \<and> f x t = (s', Inl e))"
  by (auto simp: bind_eff_def split: prod.splits sum.splits)

lemma bind_eff_run: "m s = (t, Inr x) \<Longrightarrow> bind_eff m f s = f x t"
  by (simp add: bind_eff_def)

lemma bind_eff_fail: "m s = (t, Inl e) \<Longrightarrow> bind_eff m f s = (t, Inl e)"
  by (simp add: bind_eff_def)

lemma bind_return_eff [simp]: "bind_eff (return_eff x) f = f x"
  by (simp add: bind_eff_def return_eff_def)

lemma bind_throw_eff [simp]: "bind_eff (throw_eff e) f = throw_eff e"
  by (simp add: bind_eff_def throw_eff_def)

lemma bind_read_eff [simp]: "bind_eff (read_eff g) f s = f (g s) s"
  by (simp add: bind_eff_def read_eff_def)

lemma bind_write_eff [simp]: "bind_eff (write_eff g) f s = f () (g s)"
  by (simp add: bind_eff_def write_eff_def)

lemma bind_require_eff [simp]: "bind_eff (require_eff b e) f s = (if b then f () s else (s, Inl e))"
  by (simp add: require_eff_def)

section \<open>Invariants kept whatever the outcome\<close>

text \<open>\<open>R\<close> relates the state before to the state after, error or not.\<close>

definition keeps :: "('s \<Rightarrow> 's \<Rightarrow> bool) \<Rightarrow> ('s, 'e, 'a) eff \<Rightarrow> bool" where
  "keeps R m \<longleftrightarrow> (\<forall>s. R s (fst (m s)))"

lemma keepsD: "keeps R m \<Longrightarrow> m s = (s', r) \<Longrightarrow> R s s'"
  unfolding keeps_def by (metis fst_conv)

lemma keeps_return [keeps_intros]: "reflp R \<Longrightarrow> keeps R (return_eff x)"
  by (simp add: keeps_def reflp_def)

lemma keeps_throw [keeps_intros]: "reflp R \<Longrightarrow> keeps R (throw_eff e)"
  by (simp add: keeps_def reflp_def)

lemma keeps_read [keeps_intros]: "reflp R \<Longrightarrow> keeps R (read_eff f)"
  by (simp add: keeps_def reflp_def)

lemma keeps_require [keeps_intros]: "reflp R \<Longrightarrow> keeps R (require_eff b e)"
  by (simp add: keeps_def reflp_def)

lemma keeps_write [keeps_intros]: "(\<And>s. R s (g s)) \<Longrightarrow> keeps R (write_eff g)"
  by (simp add: keeps_def)

lemma keeps_bind [keeps_intros]:
  assumes "transp R" and "keeps R m" and "\<And>x. keeps R (f x)"
  shows "keeps R (bind_eff m f)"
  unfolding keeps_def
proof
  fix s
  have 1: "R s (fst (m s))" using assms(2) by (simp add: keeps_def)
  show "R s (fst (bind_eff m f s))"
  proof (cases "m s")
    case (Pair t r)
    show ?thesis
    proof (cases r)
      case (Inl e)
      then show ?thesis using 1 Pair by (simp add: bind_eff_def)
    next
      case (Inr x)
      have "R t (fst (f x t))" using assms(3) by (simp add: keeps_def)
      then show ?thesis using 1 Pair Inr assms(1) by (simp add: bind_eff_def) (metis transpE)
    qed
  qed
qed

lemma keeps_if [keeps_intros]: "keeps R m \<Longrightarrow> keeps R m' \<Longrightarrow> keeps R (if b then m else m')"
  by simp

lemma keeps_option [keeps_intros]:
  "keeps R m \<Longrightarrow> (\<And>x. keeps R (f x)) \<Longrightarrow> keeps R (case v of None \<Rightarrow> m | Some x \<Rightarrow> f x)"
  by (cases v) simp_all

section \<open>Rows of a table\<close>

text \<open>\<open>UPDATE ... WHERE\<close>: the rows it matched and the table after it.\<close>

definition update_rows :: "('r \<Rightarrow> bool) \<Rightarrow> ('r \<Rightarrow> 'r) \<Rightarrow> 'r list \<Rightarrow> 'r list" where
  "update_rows P g rows = map (\<lambda>r. if P r then g r else r) rows"

definition count_rows :: "('r \<Rightarrow> bool) \<Rightarrow> 'r list \<Rightarrow> nat" where
  "count_rows P rows = length (filter P rows)"

lemma count_rows_0 [simp]: "count_rows P rows = 0 \<longleftrightarrow> (\<forall>r \<in> set rows. \<not> P r)"
  by (auto simp: count_rows_def filter_empty_conv)

lemma map_update_rows: "(\<And>r. f (g r) = f r) \<Longrightarrow> map f (update_rows P g rows) = map f rows"
  by (simp add: update_rows_def)

lemma set_update_rows: "set (update_rows P g rows) = (\<lambda>r. if P r then g r else r) ` set rows"
  by (simp add: update_rows_def)

lemma find_SomeD: "find P xs = Some x \<Longrightarrow> x \<in> set xs \<and> P x"
  by (induction xs) (auto split: if_splits)

lemma find_NoneD: "find P xs = None \<Longrightarrow> x \<in> set xs \<Longrightarrow> \<not> P x"
  by (auto simp: find_None_iff)

text \<open>With a key that identifies rows, the row found is the one row with that key.\<close>

lemma find_unique:
  "distinct (map k rows) \<Longrightarrow> x \<in> set rows \<Longrightarrow> (\<And>y. P y \<Longrightarrow> k y = k x) \<Longrightarrow> P x \<Longrightarrow> find P rows = Some x"
proof (induction rows)
  case (Cons a rows)
  show ?case
  proof (cases "P a")
    case True
    then have "k a = k x" using Cons.prems(3) by blast
    then have "a = x" using Cons.prems(1,2) by (force simp: image_iff)
    with True show ?thesis by simp
  next
    case False
    with Cons.prems(2,4) have "x \<in> set rows" by auto
    moreover have "distinct (map k rows)" using Cons.prems(1) by simp
    ultimately have "find P rows = Some x" using Cons.IH Cons.prems(3,4) by blast
    with False show ?thesis by simp
  qed
qed simp

lemma find_snoc: "(\<And>x. x \<in> set xs \<Longrightarrow> \<not> P x) \<Longrightarrow> P y \<Longrightarrow> find P (xs @ [y]) = Some y"
  by (induction xs) auto

text \<open>Updating the one row with a given key moves a sum over the rows by that row's change.\<close>

lemma update_rows_other:
  "k i \<notin> k ` set rows \<Longrightarrow> update_rows (\<lambda>r. k r = k i) g rows = rows"
  by (induction rows) (auto simp: update_rows_def)

lemma sum_list_update_rows:
  fixes f :: "'r \<Rightarrow> rat"
  assumes "distinct (map k rows)" and "i \<in> set rows"
  shows "sum_list (map f (update_rows (\<lambda>r. k r = k i) g rows)) = sum_list (map f rows) + (f (g i) - f i)"
  using assms
proof (induction rows)
  case (Cons a rows)
  show ?case
  proof (cases "k a = k i")
    case True
    with Cons.prems have "a = i" by force
    moreover have "update_rows (\<lambda>r. k r = k i) g rows = rows"
      using Cons.prems(1) True by (intro update_rows_other) auto
    ultimately show ?thesis by (simp add: update_rows_def)
  next
    case False
    with Cons show ?thesis by (auto simp: update_rows_def)
  qed
qed simp

lemma update_rows_cong:
  "(\<And>r. r \<in> set rows \<Longrightarrow> P r = Q r) \<Longrightarrow> update_rows P g rows = update_rows Q g rows"
  by (simp add: update_rows_def)

lemma keeps_bind_read:
  "(\<And>s. R s (fst (f (g s) s))) \<Longrightarrow> keeps R (bind_eff (read_eff g) f)"
  by (simp add: keeps_def)

section \<open>Services as step systems\<close>

text \<open>
  What the callers of a service rely on: every allowed call keeps the invariant, whether it
  succeeds or is refused. Then every history of calls keeps it.
\<close>

locale step_system =
  fixes run :: "'c \<Rightarrow> 's \<Rightarrow> 's" and allowed :: "'c \<Rightarrow> bool" and invariant :: "'s \<Rightarrow> bool"
  assumes step: "allowed c \<Longrightarrow> invariant s \<Longrightarrow> invariant (run c s)"
begin

lemma history: "list_all allowed cs \<Longrightarrow> invariant s \<Longrightarrow> invariant (fold run cs s)"
  by (induction cs arbitrary: s) (auto intro: step)

lemma history_prefix: "list_all allowed (cs @ ds) \<Longrightarrow> invariant s \<Longrightarrow> invariant (fold run cs s)"
  by (intro history) simp_all

end

end
