(* ===== verification/InventoryDb.thy ===== *)
theory InventoryDb
  imports Effects
begin

text \<open>
  The tables the inventory services read and write, with the columns they use
  (\<open>apps/api/prisma/schema.prisma\<close>), the errors of \<open>inventory.errors.ts\<close>, and the caches of the
  location service, which live in the process and not in the database. Tables are lists in
  creation order, so that the oldest matching row is the first. A store into a
  \<open>Decimal(12, 3)\<close> column rounds to three places (\<open>col\<close>); its range is not modelled, nor are
  the timestamps.
\<close>

datatype inventory_error =
    LOCATION_REQUIRED | INVALID_QUANTITY | LOCATION_INVALID | RECORDER_REQUIRED
  | INSUFFICIENT_STOCK | INVENTORY_NOT_FOUND | OPTIMISTIC_LOCK_CONFLICT | TENANT_VIOLATION
  | GENERIC_ERROR

datatype ProductType =
    SIMPLE | VARIABLE | BUNDLE | COMBO | SERVICE | DIGITAL | SERIALIZED | BATCH_MANAGED
  | PERISHABLE | RAW_MATERIAL | SEMI_FINISHED | FINISHED_GOODS

datatype StockMovementType =
    SM_PURCHASE | SM_SALE | SM_SALE_RETURN | SM_PURCHASE_RETURN | SM_TRANSFER_OUT | SM_TRANSFER_IN
  | SM_ADJUSTMENT_IN | SM_ADJUSTMENT_OUT | SM_OPENING_BALANCE | SM_RESERVATION
  | SM_RESERVATION_RELEASE | SM_DAMAGE | SM_LOSS | SM_EXPIRY

datatype InventoryChangeType =
    IC_SALE | IC_PURCHASE | IC_RETURN_IN | IC_RETURN_OUT | IC_ADJUSTMENT | IC_TRANSFER_IN
  | IC_TRANSFER_OUT | IC_DAMAGE | IC_OPENING

record Shop =
  id_sh :: string
  ownerId_sh :: "string option"
  state_shop :: "string option"

record Warehouse =
  id_wh :: string
  shopId_wh :: string
  code_wh :: string
  isDeleted_wh :: bool

record Location =
  id_loc :: string
  shopId_loc :: string
  warehouseId_loc :: string
  code_loc :: string
  isDeleted_loc :: bool

record Product =
  id_pr :: string
  shopId_pr :: string
  name_pr :: string
  sku_pr :: string
  unit_pr :: string
  type_pr :: ProductType
  sellingPrice_pr :: rat
  costPrice_pr :: rat
  mrp_pr :: rat
  gstRate_pr :: string
  cessRate_pr :: rat
  isActive_pr :: bool
  currentStock_pr :: rat
  stockVersion_pr :: int
  isDeleted_pr :: bool

record InventoryItem =
  id_it :: string
  shopId_it :: string
  productId_it :: string
  variantKey_it :: string
  locationId_it :: string
  onHand_it :: rat
  reserved_it :: rat
  version_it :: int
  isNegativeAllowed_it :: bool
  isDeleted_it :: bool

record StockLedgerEntry =
  shopId_le :: string
  inventoryItemId_le :: string
  movementType_le :: StockMovementType
  quantity_le :: rat
  balanceAfter_le :: rat
  referenceId_le :: string
  referenceType_le :: string
  correlationId_le :: "string option"
  createdBy_le :: string

record InventoryLog =
  shopId_lg :: string
  productId_lg :: string
  type_lg :: InventoryChangeType
  quantityBefore_lg :: rat
  quantityChange_lg :: rat
  quantityAfter_lg :: rat
  invoiceId_lg :: "string option"
  recordedById_lg :: string
  notes_lg :: string

record ProductEventLog =
  shopId_ev :: string
  entityId_ev :: string
  productId_ev :: string
  locationId_ev :: string
  mutationType_ev :: string
  quantityChange_ev :: rat
  balanceAfter_ev :: rat
  referenceId_ev :: string
  performedBy_ev :: string

record world =
  shops :: "Shop list"
  warehouses :: "Warehouse list"
  locations :: "Location list"
  products :: "Product list"
  items :: "InventoryItem list"
  ledger :: "StockLedgerEntry list"
  logs :: "InventoryLog list"
  events :: "ProductEventLog list"
  saleLocationCache :: "string \<rightharpoonup> string"
  warehouseBinCache :: "string \<rightharpoonup> string"

type_synonym 'a inv = "(world, inventory_error, 'a) eff"

text \<open>A store into a quantity column.\<close>

definition col :: "rat \<Rightarrow> rat" where
  "col x = half_up 3 x"

lemma col_grid [simp, grid_intros]: "on_grid 3 (col x)"
  by (simp add: col_def)

lemma col_exact: "on_grid 3 x \<Longrightarrow> col x = x"
  by (simp add: col_def half_up_exact)

lemma col_nonneg: "0 \<le> x \<Longrightarrow> 0 \<le> col x"
  by (simp add: col_def half_up_nonneg)

text \<open>
  The identifiers of rows are drawn by the database (\<open>cuid()\<close>), which is not part of the
  repository: a parameter \<open>G\<close> of the operations that create rows. They rely on it being new.
\<close>

definition used_ids :: "world \<Rightarrow> string set" where
  "used_ids w = id_it ` set (items w) \<union> id_loc ` set (locations w) \<union> id_wh ` set (warehouses w)"

definition fresh_ids :: "(world \<Rightarrow> string) \<Rightarrow> bool" where
  "fresh_ids G \<longleftrightarrow> (\<forall>w. G w \<notin> used_ids w)"

text \<open>
  A transaction that fails rolls the tables back. The caches are in the memory of the
  process: they keep what was written to them.
\<close>

definition transaction :: "'a inv \<Rightarrow> 'a inv" where
  "transaction m = (\<lambda>w. case m w of
     (w', Inl e) \<Rightarrow> (w\<lparr>saleLocationCache := saleLocationCache w', warehouseBinCache := warehouseBinCache w'\<rparr>, Inl e)
   | (w', Inr x) \<Rightarrow> (w', Inr x))"

text \<open>Rows are only ever added to the three journals.\<close>

definition appends :: "world \<Rightarrow> world \<Rightarrow> bool" where
  "appends w w' \<longleftrightarrow>
     (\<exists>l g e. ledger w' = ledger w @ l \<and> logs w' = logs w @ g \<and> events w' = events w @ e)"

lemma reflp_appends [simp, intro]: "reflp appends"
  by (auto simp: reflp_def appends_def)

lemma transp_appends [simp, intro]: "transp appends"
  by (auto simp: transp_def appends_def)

text \<open>What belongs to a shop other than \<open>s\<close> is untouched.\<close>

definition others_kept :: "string \<Rightarrow> world \<Rightarrow> world \<Rightarrow> bool" where
  "others_kept s w w' \<longleftrightarrow>
     shops w' = shops w \<and>
     filter (\<lambda>x. shopId_wh x \<noteq> s) (warehouses w') = filter (\<lambda>x. shopId_wh x \<noteq> s) (warehouses w) \<and>
     filter (\<lambda>x. shopId_loc x \<noteq> s) (locations w') = filter (\<lambda>x. shopId_loc x \<noteq> s) (locations w) \<and>
     filter (\<lambda>x. shopId_pr x \<noteq> s) (products w') = filter (\<lambda>x. shopId_pr x \<noteq> s) (products w) \<and>
     filter (\<lambda>x. shopId_it x \<noteq> s) (items w') = filter (\<lambda>x. shopId_it x \<noteq> s) (items w) \<and>
     filter (\<lambda>x. shopId_le x \<noteq> s) (ledger w') = filter (\<lambda>x. shopId_le x \<noteq> s) (ledger w) \<and>
     filter (\<lambda>x. shopId_lg x \<noteq> s) (logs w') = filter (\<lambda>x. shopId_lg x \<noteq> s) (logs w) \<and>
     filter (\<lambda>x. shopId_ev x \<noteq> s) (events w') = filter (\<lambda>x. shopId_ev x \<noteq> s) (events w)"

lemma reflp_others_kept [simp, intro]: "reflp (others_kept s)"
  by (simp add: reflp_def others_kept_def)

lemma transp_others_kept [simp, intro]: "transp (others_kept s)"
  by (simp add: transp_def others_kept_def)

lemma filter_update_rows:
  "(\<And>r. Q (g r) = Q r) \<Longrightarrow> (\<And>r. P r \<Longrightarrow> \<not> Q r) \<Longrightarrow> filter Q (update_rows P g rows) = filter Q rows"
  by (induction rows) (auto simp: update_rows_def)

end
