(* ===== verification/InventoryLocation.thy ===== *)
theory InventoryLocation
  imports InventoryDb
begin

text \<open>
  \<open>InventoryLocationService\<close> (\<open>inventory-location.service.ts\<close>): where a shop's stock lives. The
  default bin of the default warehouse is found, or created under the shop's row lock, and
  remembered in a cache of the process. Row locks are not modelled: a run is one transaction
  after another.
\<close>

definition DEFAULT_WAREHOUSE_CODE :: string where "DEFAULT_WAREHOUSE_CODE = ''DEFAULT''"

definition DEFAULT_BIN_CODE :: string where "DEFAULT_BIN_CODE = ''DEFAULT_BIN''"

definition live_location :: "world \<Rightarrow> string \<Rightarrow> string \<Rightarrow> bool" where
  "live_location w shop loc \<longleftrightarrow>
     find (\<lambda>l. id_loc l = loc \<and> shopId_loc l = shop \<and> \<not> isDeleted_loc l) (locations w) \<noteq> None"

definition findBin :: "world \<Rightarrow> string \<Rightarrow> string \<Rightarrow> string \<Rightarrow> string option" where
  "findBin w shop warehouse code =
     map_option id_loc (find (\<lambda>l. shopId_loc l = shop \<and> warehouseId_loc l = warehouse \<and>
        code_loc l = code \<and> \<not> isDeleted_loc l) (locations w))"

definition find_default_warehouse :: "world \<Rightarrow> string \<Rightarrow> string option" where
  "find_default_warehouse w shop =
     map_option id_wh (find (\<lambda>x. shopId_wh x = shop \<and> code_wh x = DEFAULT_WAREHOUSE_CODE \<and>
        \<not> isDeleted_wh x) (warehouses w))"

definition findDefaultBin :: "world \<Rightarrow> string \<Rightarrow> string option" where
  "findDefaultBin w shop =
     (case find_default_warehouse w shop of
        None \<Rightarrow> None | Some wh \<Rightarrow> findBin w shop wh DEFAULT_BIN_CODE)"

definition ensureDefaultWarehouse :: "(world \<Rightarrow> string) \<Rightarrow> string \<Rightarrow> string inv" where
  "ensureDefaultWarehouse G shop = bind_eff (read_eff id) (\<lambda>w.
     case find_default_warehouse w shop of
       Some wh \<Rightarrow> return_eff wh
     | None \<Rightarrow>
         bind_eff (write_eff (\<lambda>w. w\<lparr>warehouses := warehouses w @
           [\<lparr>id_wh = G w, shopId_wh = shop, code_wh = DEFAULT_WAREHOUSE_CODE, isDeleted_wh = False\<rparr>]\<rparr>))
           (\<lambda>_. return_eff (G w)))"

definition ensureBin :: "(world \<Rightarrow> string) \<Rightarrow> string \<Rightarrow> string \<Rightarrow> string \<Rightarrow> string inv" where
  "ensureBin G shop warehouse code = bind_eff (read_eff id) (\<lambda>w.
     case findBin w shop warehouse code of
       Some loc \<Rightarrow> return_eff loc
     | None \<Rightarrow>
         bind_eff (write_eff (\<lambda>w. w\<lparr>locations := locations w @
           [\<lparr>id_loc = G w, shopId_loc = shop, warehouseId_loc = warehouse, code_loc = code,
             isDeleted_loc = False\<rparr>]\<rparr>))
           (\<lambda>_. return_eff (G w)))"

definition withShopLock :: "string \<Rightarrow> 'a inv \<Rightarrow> 'a inv" where
  "withShopLock shop f = bind_eff (read_eff (\<lambda>w. find (\<lambda>s. id_sh s = shop) (shops w))) (\<lambda>s.
     bind_eff (require_eff (s \<noteq> None) GENERIC_ERROR) (\<lambda>_. f))"

definition resolveSaleLocation :: "(world \<Rightarrow> string) \<Rightarrow> string \<Rightarrow> string inv" where
  "resolveSaleLocation G shop =
     (let remember = (\<lambda>loc. bind_eff (write_eff (\<lambda>w. w\<lparr>saleLocationCache := (saleLocationCache w)(shop \<mapsto> loc)\<rparr>))
            (\<lambda>_. return_eff loc));
          slow = bind_eff (read_eff (\<lambda>w. findDefaultBin w shop)) (\<lambda>existing.
            case existing of
              Some loc \<Rightarrow> remember loc
            | None \<Rightarrow>
                bind_eff (withShopLock shop
                  (bind_eff (read_eff (\<lambda>w. findDefaultBin w shop)) (\<lambda>again.
                    case again of
                      Some loc \<Rightarrow> return_eff loc
                    | None \<Rightarrow> bind_eff (ensureDefaultWarehouse G shop)
                        (\<lambda>wh. ensureBin G shop wh DEFAULT_BIN_CODE)))) remember)
      in bind_eff (read_eff id) (\<lambda>w.
         case saleLocationCache w shop of
           Some cached \<Rightarrow>
             if live_location w shop cached then return_eff cached
             else bind_eff (write_eff (\<lambda>w. w\<lparr>saleLocationCache := (saleLocationCache w)(shop := None)\<rparr>)) (\<lambda>_. slow)
         | None \<Rightarrow> slow))"

definition findSaleLocation :: "string \<Rightarrow> string option inv" where
  "findSaleLocation shop = read_eff (\<lambda>w. findDefaultBin w shop)"

definition bin_key :: "string \<Rightarrow> string \<Rightarrow> string" where
  "bin_key shop warehouse = shop @ '':'' @ warehouse"

definition resolveWarehouseBin :: "(world \<Rightarrow> string) \<Rightarrow> string \<Rightarrow> string option \<Rightarrow> string inv" where
  "resolveWarehouseBin G shop warehouseId =
     (case warehouseId of
        None \<Rightarrow> resolveSaleLocation G shop
      | Some wid \<Rightarrow>
          if wid = '''' then resolveSaleLocation G shop else
          bind_eff (read_eff id) (\<lambda>w.
            case warehouseBinCache w (bin_key shop wid) of
              Some cached \<Rightarrow> return_eff cached
            | None \<Rightarrow>
                if find (\<lambda>x. id_wh x = wid \<and> shopId_wh x = shop \<and> \<not> isDeleted_wh x) (warehouses w) = None
                then resolveSaleLocation G shop
                else bind_eff
                  (case findBin w shop wid DEFAULT_BIN_CODE of
                     Some loc \<Rightarrow> return_eff loc
                   | None \<Rightarrow> withShopLock shop (ensureBin G shop wid DEFAULT_BIN_CODE))
                  (\<lambda>loc. bind_eff
                    (write_eff (\<lambda>w. w\<lparr>warehouseBinCache := (warehouseBinCache w)(bin_key shop wid \<mapsto> loc)\<rparr>))
                    (\<lambda>_. return_eff loc))))"

definition isValidLocation :: "string \<Rightarrow> string \<Rightarrow> bool inv" where
  "isValidLocation shop loc = read_eff (\<lambda>w. live_location w shop loc)"

section \<open>What resolving a location may touch\<close>

text \<open>No stock and no journal changes; warehouses and locations are only added.\<close>

definition places_only :: "string \<Rightarrow> world \<Rightarrow> world \<Rightarrow> bool" where
  "places_only s w w' \<longleftrightarrow>
     shops w' = shops w \<and> products w' = products w \<and> items w' = items w \<and>
     ledger w' = ledger w \<and> logs w' = logs w \<and> events w' = events w \<and>
     (\<exists>a. warehouses w' = warehouses w @ a \<and> (\<forall>x \<in> set a. shopId_wh x = s)) \<and>
     (\<exists>b. locations w' = locations w @ b \<and> (\<forall>x \<in> set b. shopId_loc x = s))"

lemma reflp_places_only [simp, intro]: "reflp (places_only s)"
  by (simp add: reflp_def places_only_def)

lemma transp_places_only [simp, intro]: "transp (places_only s)"
  by (auto simp: transp_def places_only_def)

lemma places_only_others: "places_only s w w' \<Longrightarrow> others_kept s w w'"
  by (auto simp: places_only_def others_kept_def filter_empty_conv)

lemma places_only_appends: "places_only s w w' \<Longrightarrow> appends w w'"
  by (auto simp: places_only_def appends_def)

lemma keeps_mono: "keeps R m \<Longrightarrow> (\<And>s s'. R s s' \<Longrightarrow> S s s') \<Longrightarrow> keeps S m"
  by (simp add: keeps_def)

lemma places_only_write [simp]:
  "places_only s w (w\<lparr>saleLocationCache := c\<rparr>)" "places_only s w (w\<lparr>warehouseBinCache := c\<rparr>)"
  "shopId_wh x = s \<Longrightarrow> places_only s w (w\<lparr>warehouses := warehouses w @ [x]\<rparr>)"
  "shopId_loc y = s \<Longrightarrow> places_only s w (w\<lparr>locations := locations w @ [y]\<rparr>)"
  by (simp_all add: places_only_def)

lemma ensureDefaultWarehouse_keeps: "keeps (places_only s) (ensureDefaultWarehouse G s)"
  unfolding ensureDefaultWarehouse_def by (intro keeps_intros) simp_all

lemma ensureBin_keeps: "keeps (places_only s) (ensureBin G s wh code)"
  unfolding ensureBin_def by (intro keeps_intros) simp_all

lemma withShopLock_keeps [keeps_intros]: "reflp R \<Longrightarrow> transp R \<Longrightarrow> keeps R m \<Longrightarrow> keeps R (withShopLock s m)"
  unfolding withShopLock_def by (intro keeps_intros) simp_all

lemma resolveSaleLocation_keeps: "keeps (places_only s) (resolveSaleLocation G s)"
  unfolding resolveSaleLocation_def Let_def
  by (intro keeps_intros ensureDefaultWarehouse_keeps ensureBin_keeps) simp_all

lemma resolveWarehouseBin_keeps: "keeps (places_only s) (resolveWarehouseBin G s wh)"
  unfolding resolveWarehouseBin_def
  by (intro keeps_intros resolveSaleLocation_keeps ensureBin_keeps) simp_all

section \<open>The sale location\<close>

lemma live_location_mem:
  "live_location w s loc \<longleftrightarrow> (\<exists>l \<in> set (locations w). id_loc l = loc \<and> shopId_loc l = s \<and> \<not> isDeleted_loc l)"
  by (auto simp: live_location_def find_None_iff)

lemma findBin_live: "findBin w s wh code = Some loc \<Longrightarrow> live_location w s loc"
  by (auto simp: findBin_def live_location_mem dest: find_SomeD)

lemma findDefaultBin_live: "findDefaultBin w s = Some loc \<Longrightarrow> live_location w s loc"
  by (auto simp: findDefaultBin_def dest: findBin_live split: option.splits)

lemma ensureBin_live: "ensureBin G s wh code w = (w', Inr loc) \<Longrightarrow> live_location w' s loc"
  by (auto simp: ensureBin_def eff_simps live_location_mem split: option.splits
        dest: findBin_live[unfolded live_location_mem])

lemma live_location_cache [simp]:
  "live_location (w\<lparr>saleLocationCache := c\<rparr>) s loc = live_location w s loc"
  "live_location (w\<lparr>warehouseBinCache := c\<rparr>) s loc = live_location w s loc"
  by (simp_all add: live_location_def)

text \<open>The resolved location is a live one of the shop, and it is the remembered one.\<close>

lemma resolveSaleLocation_Inr:
  assumes "resolveSaleLocation G s w = (w', Inr loc)"
  shows "live_location w' s loc" and "saleLocationCache w' s = Some loc"
  using assms
  by (auto simp: resolveSaleLocation_def Let_def eff_simps withShopLock_def
        split: option.splits if_splits dest: findDefaultBin_live ensureBin_live)

lemma resolveSaleLocation_again:
  "saleLocationCache w s = Some loc \<Longrightarrow> live_location w s loc \<Longrightarrow> resolveSaleLocation G s w = (w, Inr loc)"
  by (simp add: resolveSaleLocation_def Let_def)

end
