(* ===== verification/InventoryMutation.thy ===== *)
theory InventoryMutation
  imports InventoryLocation "HOL-Library.List_Lexorder" "HOL-Library.Char_ord"
begin

text \<open>
  \<open>InventoryMutationEngine\<close> (\<open>inventory-mutation.engine.ts\<close>): the one authority that changes
  stock. Each definition is a step of \<open>mutateStock\<close> or \<open>ensureItem\<close>, in the code's order. The
  recursion of \<open>ensureItem\<close> (a first row away from the sale location makes sure the sale
  location has one) runs on fuel; two levels are enough (\<open>ensureItem_fuel\<close>).
\<close>

section \<open>Requests and results\<close>

datatype MutationType =
    SALE | RETURN | PURCHASE | PURCHASE_RETURN | ADJUSTMENT | DAMAGE | EXPIRED | LOSS
  | TRANSFER_OUT | TRANSFER_IN | RESERVATION | RESERVATION_RELEASE | OPENING

text \<open>The directions \<open>1\<close> and \<open>-1\<close>.\<close>

datatype direction = Inward | Outward

record InventoryMutationRequest =
  shopId_q :: string
  locationId_q :: string
  productId_q :: string
  quantity_q :: "rat option"  \<comment> \<open>\<open>None\<close> where the number is not finite\<close>
  mutationType_q :: MutationType
  reason_q :: "string option"
  referenceId_q :: string
  variantId_q :: "string option"
  performedBy_q :: string
  allowNegative_q :: bool
  direction_q :: "direction option"
  expectedProductVersion_q :: "int option"
  expectedInventoryItemVersion_q :: "int option"
  idempotencyKey_q :: "string option"

record InventoryMutationResult =
  bypassed_rs :: bool
  idempotent_rs :: bool
  inventoryItemId_rs :: "string option"
  locationId_rs :: "string option"
  balanceAfter_rs :: rat
  availableAfter_rs :: rat
  productStockAfter_rs :: rat

fun mutation_name :: "MutationType \<Rightarrow> string" where
  "mutation_name SALE = ''SALE''"
| "mutation_name RETURN = ''RETURN''"
| "mutation_name PURCHASE = ''PURCHASE''"
| "mutation_name PURCHASE_RETURN = ''PURCHASE_RETURN''"
| "mutation_name ADJUSTMENT = ''ADJUSTMENT''"
| "mutation_name DAMAGE = ''DAMAGE''"
| "mutation_name EXPIRED = ''EXPIRED''"
| "mutation_name LOSS = ''LOSS''"
| "mutation_name TRANSFER_OUT = ''TRANSFER_OUT''"
| "mutation_name TRANSFER_IN = ''TRANSFER_IN''"
| "mutation_name RESERVATION = ''RESERVATION''"
| "mutation_name RESERVATION_RELEASE = ''RESERVATION_RELEASE''"
| "mutation_name OPENING = ''OPENING''"

fun MOVEMENT_TYPE :: "MutationType \<Rightarrow> direction \<Rightarrow> StockMovementType" where
  "MOVEMENT_TYPE SALE d = SM_SALE"
| "MOVEMENT_TYPE RETURN d = SM_SALE_RETURN"
| "MOVEMENT_TYPE PURCHASE d = SM_PURCHASE"
| "MOVEMENT_TYPE PURCHASE_RETURN d = SM_PURCHASE_RETURN"
| "MOVEMENT_TYPE ADJUSTMENT d = (if d = Outward then SM_ADJUSTMENT_OUT else SM_ADJUSTMENT_IN)"
| "MOVEMENT_TYPE DAMAGE d = SM_DAMAGE"
| "MOVEMENT_TYPE EXPIRED d = SM_EXPIRY"
| "MOVEMENT_TYPE LOSS d = SM_LOSS"
| "MOVEMENT_TYPE TRANSFER_OUT d = SM_TRANSFER_OUT"
| "MOVEMENT_TYPE TRANSFER_IN d = SM_TRANSFER_IN"
| "MOVEMENT_TYPE RESERVATION d = SM_RESERVATION"
| "MOVEMENT_TYPE RESERVATION_RELEASE d = SM_RESERVATION_RELEASE"
| "MOVEMENT_TYPE OPENING d = SM_OPENING_BALANCE"

fun CHANGE_TYPE :: "MutationType \<Rightarrow> direction \<Rightarrow> InventoryChangeType" where
  "CHANGE_TYPE SALE d = IC_SALE"
| "CHANGE_TYPE RETURN d = IC_RETURN_IN"
| "CHANGE_TYPE PURCHASE d = IC_PURCHASE"
| "CHANGE_TYPE PURCHASE_RETURN d = IC_RETURN_OUT"
| "CHANGE_TYPE ADJUSTMENT d = IC_ADJUSTMENT"
| "CHANGE_TYPE DAMAGE d = IC_DAMAGE"
| "CHANGE_TYPE EXPIRED d = IC_DAMAGE"
| "CHANGE_TYPE LOSS d = IC_ADJUSTMENT"
| "CHANGE_TYPE TRANSFER_OUT d = IC_TRANSFER_OUT"
| "CHANGE_TYPE TRANSFER_IN d = IC_TRANSFER_IN"
| "CHANGE_TYPE RESERVATION d = IC_ADJUSTMENT"
| "CHANGE_TYPE RESERVATION_RELEASE d = IC_ADJUSTMENT"
| "CHANGE_TYPE OPENING d = IC_OPENING"

definition getDirection :: "InventoryMutationRequest \<Rightarrow> direction" where
  "getDirection req =
     (case direction_q req of
        Some d \<Rightarrow> d
      | None \<Rightarrow>
          if mutationType_q req \<in> {RETURN, PURCHASE, TRANSFER_IN, RESERVATION_RELEASE, OPENING}
          then Inward else Outward)"

definition is_reservation :: "InventoryMutationRequest \<Rightarrow> bool" where
  "is_reservation req \<longleftrightarrow> mutationType_q req = RESERVATION \<or> mutationType_q req = RESERVATION_RELEASE"

definition signed :: "direction \<Rightarrow> rat \<Rightarrow> rat" where
  "signed d q = (if d = Outward then - q else q)"

text \<open>A string that is present and not empty.\<close>

definition truthy :: "string option \<Rightarrow> bool" where
  "truthy s \<longleftrightarrow> s \<noteq> None \<and> s \<noteq> Some ''''"

section \<open>Recorder and locks\<close>

definition system_actor :: "string \<Rightarrow> bool" where
  "system_actor s \<longleftrightarrow> js_upper (take 6 s) = ''SYSTEM''"

definition recorderFor :: "string \<Rightarrow> string option \<Rightarrow> string inv" where
  "recorderFor shop performedBy =
     (if truthy performedBy \<and> \<not> system_actor (the performedBy) then return_eff (the performedBy)
      else bind_eff (read_eff (\<lambda>w. find (\<lambda>s. id_sh s = shop) (shops w))) (\<lambda>s.
        let ow = (case s of None \<Rightarrow> None | Some s \<Rightarrow> ownerId_sh s)
        in bind_eff (require_eff (truthy ow) RECORDER_REQUIRED) (\<lambda>_. return_eff (the ow))))"

text \<open>The locks of \<open>lockProducts\<close>, in the order they are taken: the value is the list of locked rows.\<close>

fun lock_each :: "string \<Rightarrow> string list \<Rightarrow> string list inv" where
  "lock_each shop [] = return_eff []"
| "lock_each shop (p # ps) =
     bind_eff (read_eff (\<lambda>w. find (\<lambda>r. id_pr r = p \<and> shopId_pr r = shop) (products w))) (\<lambda>locked.
     bind_eff (read_eff (\<lambda>w. find (\<lambda>r. id_pr r = p) (products w))) (\<lambda>elsewhere.
       if locked \<noteq> None then bind_eff (lock_each shop ps) (\<lambda>ls. return_eff (p # ls))
       else if elsewhere \<noteq> None then throw_eff TENANT_VIOLATION
       else throw_eff INVENTORY_NOT_FOUND))"

definition lockProducts :: "string \<Rightarrow> string list \<Rightarrow> string list inv" where
  "lockProducts shop productIds = lock_each shop (sort (remdups productIds))"

section \<open>The inventory item of a request\<close>

definition variant_key :: "string option \<Rightarrow> string" where
  "variant_key v = (case v of None \<Rightarrow> ''-'' | Some x \<Rightarrow> x)"

definition same_slot :: "string \<Rightarrow> string \<Rightarrow> string \<Rightarrow> string \<Rightarrow> InventoryItem \<Rightarrow> bool" where
  "same_slot shop product loc vkey i \<longleftrightarrow>
     shopId_it i = shop \<and> productId_it i = product \<and> locationId_it i = loc \<and> variantKey_it i = vkey"

definition live_of :: "string \<Rightarrow> string \<Rightarrow> InventoryItem \<Rightarrow> bool" where
  "live_of shop product i \<longleftrightarrow> shopId_it i = shop \<and> productId_it i = product \<and> \<not> isDeleted_it i"

definition live_stock :: "world \<Rightarrow> string \<Rightarrow> string \<Rightarrow> rat" where
  "live_stock w shop product = sum_list (map onHand_it (filter (live_of shop product) (items w)))"

definition create_item :: "(world \<Rightarrow> string) \<Rightarrow> string \<Rightarrow> string \<Rightarrow> string \<Rightarrow> string option \<Rightarrow> rat \<Rightarrow> string inv" where
  "create_item G shop product loc variant qty =
     bind_eff (read_eff G) (\<lambda>new.
     bind_eff (write_eff (\<lambda>w. w\<lparr>items := items w @
         [\<lparr>id_it = new, shopId_it = shop, productId_it = product, variantKey_it = variant_key variant,
           locationId_it = loc, onHand_it = col qty, reserved_it = 0, version_it = 0,
           isNegativeAllowed_it = False, isDeleted_it = False\<rparr>]\<rparr>)) (\<lambda>_.
     return_eff new))"

definition record_bootstrap :: "string \<Rightarrow> string \<Rightarrow> string \<Rightarrow> rat \<Rightarrow> string \<Rightarrow> unit inv" where
  "record_bootstrap shop product item qty recordedBy =
     write_eff (\<lambda>w. w\<lparr>
       ledger := ledger w @ [\<lparr>shopId_le = shop, inventoryItemId_le = item, movementType_le = SM_OPENING_BALANCE,
         quantity_le = col qty, balanceAfter_le = col qty, referenceId_le = product,
         referenceType_le = ''LEGACY_STOCK_BOOTSTRAP'', correlationId_le = None, createdBy_le = recordedBy\<rparr>],
       logs := logs w @ [\<lparr>shopId_lg = shop, productId_lg = product, type_lg = IC_OPENING,
         quantityBefore_lg = 0, quantityChange_lg = col qty, quantityAfter_lg = col qty, invoiceId_lg = None,
         recordedById_lg = recordedBy, notes_lg = ''Opening balance migrated from Product.currentStock''\<rparr>]\<rparr>)"

text \<open>The id of the row and whether it may go negative.\<close>

primrec ensureItem ::
  "nat \<Rightarrow> (world \<Rightarrow> string) \<Rightarrow> string \<Rightarrow> string \<Rightarrow> string \<Rightarrow> string option \<Rightarrow> string option \<Rightarrow> rat \<Rightarrow> (string \<times> bool) inv" where
  "ensureItem 0 G shop product loc variant performedBy currentStock = throw_eff GENERIC_ERROR"
| "ensureItem (Suc n) G shop product loc variant performedBy currentStock =
     bind_eff (read_eff id) (\<lambda>w.
     case find (same_slot shop product loc (variant_key variant)) (items w) of
       Some i \<Rightarrow>
         bind_eff (if isDeleted_it i
             then write_eff (\<lambda>w. w\<lparr>items := update_rows (\<lambda>r. id_it r = id_it i) (\<lambda>r. r\<lparr>isDeleted_it := False\<rparr>) (items w)\<rparr>)
             else return_eff ())
           (\<lambda>_. return_eff (id_it i, isNegativeAllowed_it i))
     | None \<Rightarrow>
         let gap = currentStock - live_stock w shop product in
         bind_eff
           (if variant = None \<and> 0 < gap then
              bind_eff (resolveSaleLocation G shop) (\<lambda>saleLocationId.
                if saleLocationId = loc then return_eff gap
                else bind_eff (ensureItem n G shop product saleLocationId None performedBy currentStock)
                       (\<lambda>_. return_eff 0))
            else return_eff 0) (\<lambda>bootstrapQty.
         bind_eff (create_item G shop product loc variant bootstrapQty) (\<lambda>new.
         if 0 < bootstrapQty then
           bind_eff (recorderFor shop performedBy) (\<lambda>recordedBy.
           bind_eff (record_bootstrap shop product new bootstrapQty recordedBy) (\<lambda>_.
           return_eff (new, False)))
         else return_eff (new, False))))"

definition ensureInventoryItem ::
  "(world \<Rightarrow> string) \<Rightarrow> string \<Rightarrow> string \<Rightarrow> string \<Rightarrow> string option \<Rightarrow> string option \<Rightarrow> (string \<times> bool) inv" where
  "ensureInventoryItem G shop product loc variant performedBy =
     bind_eff (lockProducts shop [product]) (\<lambda>_.
     bind_eff (read_eff (\<lambda>w. find (\<lambda>r. id_pr r = product) (products w))) (\<lambda>p.
       case p of
         None \<Rightarrow> throw_eff INVENTORY_NOT_FOUND
       | Some p \<Rightarrow>
           if isDeleted_pr p then throw_eff INVENTORY_NOT_FOUND
           else bind_eff (recorderFor shop performedBy) (\<lambda>by.
             ensureItem 2 G shop product loc variant (Some by) (currentStock_pr p))))"

section \<open>The mutation\<close>

definition find_processed :: "InventoryMutationRequest \<Rightarrow> InventoryMutationResult option inv" where
  "find_processed req =
     (if \<not> truthy (idempotencyKey_q req) then return_eff None
      else bind_eff (read_eff id) (\<lambda>w.
        case find (\<lambda>e. shopId_le e = shopId_q req \<and> referenceId_le e = referenceId_q req \<and>
               correlationId_le e = idempotencyKey_q req) (ledger w) of
          None \<Rightarrow> return_eff None
        | Some e \<Rightarrow>
            (case find (\<lambda>i. id_it i = inventoryItemId_le e) (items w) of
               None \<Rightarrow> throw_eff GENERIC_ERROR
             | Some i \<Rightarrow>
                 return_eff (Some \<lparr>bypassed_rs = False, idempotent_rs = True,
                   inventoryItemId_rs = Some (id_it i), locationId_rs = Some (locationId_it i),
                   balanceAfter_rs = balanceAfter_le e, availableAfter_rs = onHand_it i - reserved_it i,
                   productStockAfter_rs = (case find (\<lambda>r. id_pr r = productId_q req) (products w) of
                      None \<Rightarrow> 0 | Some p \<Rightarrow> currentStock_pr p)\<rparr>))))"

definition check_target :: "InventoryMutationRequest \<Rightarrow> Product inv" where
  "check_target req = bind_eff (read_eff id) (\<lambda>w.
     bind_eff (require_eff (live_location w (shopId_q req) (locationId_q req)) LOCATION_INVALID) (\<lambda>_.
     case find (\<lambda>r. id_pr r = productId_q req) (products w) of
       None \<Rightarrow> throw_eff INVENTORY_NOT_FOUND
     | Some p \<Rightarrow>
         if isDeleted_pr p \<and> (mutationType_q req = SALE \<or> mutationType_q req = RESERVATION)
         then throw_eff INVENTORY_NOT_FOUND
         else if shopId_pr p \<noteq> shopId_q req then throw_eff TENANT_VIOLATION
         else return_eff p))"

definition version_ok :: "int option \<Rightarrow> int \<Rightarrow> bool" where
  "version_ok expected v \<longleftrightarrow> expected = None \<or> expected = Some v"

text \<open>The WHERE clause and the SET clause of the conditional update of the item.\<close>

definition item_matches :: "InventoryMutationRequest \<Rightarrow> rat \<Rightarrow> string \<times> bool \<Rightarrow> InventoryItem \<Rightarrow> bool" where
  "item_matches req qty target r \<longleftrightarrow>
     id_it r = fst target \<and> shopId_it r = shopId_q req \<and>
     version_ok (expectedInventoryItemVersion_q req) (version_it r) \<and>
     (if is_reservation req
      then mutationType_q req = RESERVATION \<and> \<not> allowNegative_q req \<longrightarrow> qty \<le> onHand_it r - reserved_it r
      else getDirection req = Outward \<and> \<not> (allowNegative_q req \<or> snd target) \<longrightarrow> qty \<le> onHand_it r - reserved_it r)"

definition item_set :: "InventoryMutationRequest \<Rightarrow> rat \<Rightarrow> InventoryItem \<Rightarrow> InventoryItem" where
  "item_set req qty r =
     (if is_reservation req then
        r\<lparr>reserved_it := col (if mutationType_q req = RESERVATION then reserved_it r + qty else max (reserved_it r - qty) 0),
          version_it := version_it r + 1\<rparr>
      else r\<lparr>onHand_it := col (onHand_it r + signed (getDirection req) qty), version_it := version_it r + 1\<rparr>)"

definition item_conflict :: "InventoryMutationRequest \<Rightarrow> InventoryItem option \<Rightarrow> inventory_error" where
  "item_conflict req current =
     (if is_reservation req then INSUFFICIENT_STOCK
      else if getDirection req = Outward then
        (if expectedInventoryItemVersion_q req \<noteq> None \<and>
            map_option version_it current \<noteq> expectedInventoryItemVersion_q req
         then OPTIMISTIC_LOCK_CONFLICT else INSUFFICIENT_STOCK)
      else OPTIMISTIC_LOCK_CONFLICT)"

definition update_item :: "InventoryMutationRequest \<Rightarrow> rat \<Rightarrow> string \<times> bool \<Rightarrow> unit inv" where
  "update_item req qty target = bind_eff (read_eff id) (\<lambda>w.
     if count_rows (item_matches req qty target) (items w) = 0
     then throw_eff (item_conflict req (find (\<lambda>i. id_it i = fst target) (items w)))
     else write_eff (\<lambda>w. w\<lparr>items := update_rows (item_matches req qty target) (item_set req qty) (items w)\<rparr>))"

definition product_matches :: "InventoryMutationRequest \<Rightarrow> Product \<Rightarrow> bool" where
  "product_matches req p \<longleftrightarrow>
     id_pr p = productId_q req \<and> shopId_pr p = shopId_q req \<and>
     (case expectedProductVersion_q req of
        None \<Rightarrow> True | Some v \<Rightarrow> stockVersion_pr p = v \<and> \<not> isDeleted_pr p)"

definition product_set :: "InventoryMutationRequest \<Rightarrow> rat \<Rightarrow> Product \<Rightarrow> Product" where
  "product_set req qty p =
     p\<lparr>currentStock_pr := col (currentStock_pr p + signed (getDirection req) qty),
       stockVersion_pr := stockVersion_pr p + 1\<rparr>"

definition sync_product :: "InventoryMutationRequest \<Rightarrow> rat \<Rightarrow> rat \<Rightarrow> rat inv" where
  "sync_product req qty stockBefore =
     (if is_reservation req then return_eff stockBefore
      else bind_eff (read_eff id) (\<lambda>w.
        if expectedProductVersion_q req \<noteq> None \<and> count_rows (product_matches req) (products w) = 0
        then (if find (\<lambda>r. id_pr r = productId_q req) (products w) = None
              then throw_eff INVENTORY_NOT_FOUND else throw_eff OPTIMISTIC_LOCK_CONFLICT)
        else bind_eff (write_eff (\<lambda>w. w\<lparr>products := update_rows (product_matches req) (product_set req qty) (products w)\<rparr>)) (\<lambda>_.
          bind_eff (read_eff (\<lambda>w. find (\<lambda>r. id_pr r = productId_q req) (products w))) (\<lambda>p.
            return_eff (case p of None \<Rightarrow> stockBefore | Some p \<Rightarrow> currentStock_pr p)))))"

definition movement_entry :: "InventoryMutationRequest \<Rightarrow> rat \<Rightarrow> InventoryItem \<Rightarrow> StockLedgerEntry" where
  "movement_entry req qty i =
     \<lparr>shopId_le = shopId_q req, inventoryItemId_le = id_it i,
      movementType_le = MOVEMENT_TYPE (mutationType_q req) (getDirection req),
      quantity_le = col (signed (getDirection req) qty), balanceAfter_le = col (onHand_it i),
      referenceId_le = referenceId_q req, referenceType_le = mutation_name (mutationType_q req),
      correlationId_le = (if truthy (idempotencyKey_q req) then idempotencyKey_q req else None),
      createdBy_le = performedBy_q req\<rparr>"

definition movement_log :: "InventoryMutationRequest \<Rightarrow> rat \<Rightarrow> InventoryItem \<Rightarrow> string \<Rightarrow> InventoryLog" where
  "movement_log req qty i recordedById =
     (let change = signed (getDirection req) qty in
      \<lparr>shopId_lg = shopId_q req, productId_lg = productId_q req,
       type_lg = CHANGE_TYPE (mutationType_q req) (getDirection req),
       quantityBefore_lg = col (onHand_it i - change), quantityChange_lg = col change,
       quantityAfter_lg = col (onHand_it i),
       invoiceId_lg = (if mutationType_q req = SALE \<or> mutationType_q req = RETURN
                       then Some (referenceId_q req) else None),
       recordedById_lg = recordedById,
       notes_lg = (if truthy (reason_q req) then the (reason_q req) else mutation_name (mutationType_q req))\<rparr>)"

definition movement_event :: "InventoryMutationRequest \<Rightarrow> rat \<Rightarrow> InventoryItem \<Rightarrow> ProductEventLog" where
  "movement_event req qty i =
     \<lparr>shopId_ev = shopId_q req, entityId_ev = id_it i, productId_ev = productId_q req,
      locationId_ev = locationId_it i, mutationType_ev = mutation_name (mutationType_q req),
      quantityChange_ev = signed (getDirection req) qty, balanceAfter_ev = onHand_it i,
      referenceId_ev = referenceId_q req, performedBy_ev = performedBy_q req\<rparr>"

definition record_movement :: "InventoryMutationRequest \<Rightarrow> rat \<Rightarrow> InventoryItem \<Rightarrow> string \<Rightarrow> unit inv" where
  "record_movement req qty i recordedById =
     bind_eff
       (if is_reservation req then return_eff ()
        else write_eff (\<lambda>w. w\<lparr>ledger := ledger w @ [movement_entry req qty i],
          logs := logs w @ [movement_log req qty i recordedById]\<rparr>))
       (\<lambda>_. write_eff (\<lambda>w. w\<lparr>events := events w @ [movement_event req qty i]\<rparr>))"

definition apply_mutation :: "(world \<Rightarrow> string) \<Rightarrow> InventoryMutationRequest \<Rightarrow> rat \<Rightarrow> Product \<Rightarrow> InventoryMutationResult inv" where
  "apply_mutation G req qty product =
     bind_eff (recorderFor (shopId_q req) (Some (performedBy_q req))) (\<lambda>recordedById.
     bind_eff (ensureItem 2 G (shopId_q req) (productId_q req) (locationId_q req) (variantId_q req)
                 (Some recordedById) (currentStock_pr product)) (\<lambda>target.
     bind_eff (update_item req qty target) (\<lambda>_.
     bind_eff (read_eff (\<lambda>w. find (\<lambda>i. id_it i = fst target) (items w))) (\<lambda>found.
       case found of
         None \<Rightarrow> throw_eff GENERIC_ERROR
       | Some i \<Rightarrow>
           bind_eff (sync_product req qty (currentStock_pr product)) (\<lambda>productStockAfter.
           bind_eff (record_movement req qty i recordedById) (\<lambda>_.
           return_eff \<lparr>bypassed_rs = False, idempotent_rs = False, inventoryItemId_rs = Some (id_it i),
             locationId_rs = Some (locationId_it i), balanceAfter_rs = onHand_it i,
             availableAfter_rs = onHand_it i - reserved_it i,
             productStockAfter_rs = productStockAfter\<rparr>))))))"

definition mutateStock :: "(world \<Rightarrow> string) \<Rightarrow> InventoryMutationRequest \<Rightarrow> InventoryMutationResult inv" where
  "mutateStock G req =
     bind_eff (require_eff (locationId_q req \<noteq> '''') LOCATION_REQUIRED) (\<lambda>_.
     case quantity_q req of
       None \<Rightarrow> throw_eff INVALID_QUANTITY
     | Some qty \<Rightarrow>
         bind_eff (require_eff (0 < qty) INVALID_QUANTITY) (\<lambda>_.
         bind_eff (lockProducts (shopId_q req) [productId_q req]) (\<lambda>_.
         bind_eff (find_processed req) (\<lambda>processed.
           case processed of
             Some result \<Rightarrow> return_eff result
           | None \<Rightarrow>
               bind_eff (check_target req) (\<lambda>product.
                 if type_pr product = SERVICE \<or> type_pr product = DIGITAL then
                   return_eff \<lparr>bypassed_rs = True, idempotent_rs = False, inventoryItemId_rs = None,
                     locationId_rs = None, balanceAfter_rs = 0, availableAfter_rs = 0,
                     productStockAfter_rs = currentStock_pr product\<rparr>
                 else apply_mutation G req qty product)))))"

end
