(* ===== verification/InventoryStock.thy ===== *)
theory InventoryStock
  imports InventoryMutation
begin

text \<open>
  The laws of \<open>mutateStock\<close>, step by step: what a found or created item is, what the
  conditional update does to the sums over the rows, and the invariants every completed
  mutation keeps.
\<close>

section \<open>Keys and stored values\<close>

definition stock_of :: "string \<Rightarrow> string \<Rightarrow> InventoryItem \<Rightarrow> rat" where
  "stock_of s p i = (if live_of s p i then onHand_it i else 0)"

lemma live_stock_sum: "live_stock w s p = sum_list (map (stock_of s p) (items w))"
proof -
  have "sum_list (map onHand_it (filter (live_of s p) rows)) = sum_list (map (stock_of s p) rows)" for rows
    by (induction rows) (simp_all add: stock_of_def)
  then show ?thesis by (simp add: live_stock_def)
qed

text \<open>Primary keys, values as the columns store them, and no stock on a soft-deleted row.\<close>

definition rows_ok :: "world \<Rightarrow> bool" where
  "rows_ok w \<longleftrightarrow>
     distinct (map id_it (items w)) \<and> distinct (map id_pr (products w)) \<and>
     (\<forall>i \<in> set (items w). on_grid 3 (onHand_it i) \<and> on_grid 3 (reserved_it i) \<and> (isDeleted_it i \<longrightarrow> onHand_it i = 0)) \<and>
     (\<forall>p \<in> set (products w). on_grid 3 (currentStock_pr p))"

lemma rows_ok_live_grid: "rows_ok w \<Longrightarrow> on_grid 3 (live_stock w s p)"
  unfolding rows_ok_def live_stock_sum
  by (intro on_grid_sum_list) (auto simp: stock_of_def intro: grid_intros)

lemma rows_ok_cong:
  "items w' = items w \<Longrightarrow> products w' = products w \<Longrightarrow> rows_ok w' = rows_ok w"
  by (simp add: rows_ok_def)

lemma live_stock_cong: "items w' = items w \<Longrightarrow> live_stock w' s p = live_stock w s p"
  by (simp add: live_stock_def)

text \<open>Replacing the one row with the id of \<open>i\<close>.\<close>

lemma rows_ok_update:
  assumes "rows_ok w" and "i \<in> set (items w)" and "id_it (g i) = id_it i"
    and "on_grid 3 (onHand_it (g i)) \<and> on_grid 3 (reserved_it (g i)) \<and> (isDeleted_it (g i) \<longrightarrow> onHand_it (g i) = 0)"
    and "items w' = update_rows (\<lambda>r. id_it r = id_it i) g (items w)" and "products w' = products w"
  shows "rows_ok w'"
    and "live_stock w' s p = live_stock w s p + (stock_of s p (g i) - stock_of s p i)"
    and "find (\<lambda>r. id_it r = id_it i) (items w') = Some (g i)"
proof -
  have d: "distinct (map id_it (items w))" using assms(1) by (simp add: rows_ok_def)
  have one: "r = i" if "r \<in> set (items w)" "id_it r = id_it i" for r
    using that assms(2) d by (simp add: distinct_map inj_on_def)
  have ids: "map id_it (items w') = map id_it (items w)"
    unfolding assms(5) update_rows_def using one assms(3) by (auto simp: comp_def)
  show "rows_ok w'"
    using assms(1,4,6) ids one unfolding rows_ok_def assms(5) by (auto simp: set_update_rows)
  show "live_stock w' s p = live_stock w s p + (stock_of s p (g i) - stock_of s p i)"
    unfolding live_stock_sum assms(5) by (rule sum_list_update_rows[OF d assms(2)])
  have "g i \<in> set (items w')" using assms(2) by (auto simp: assms(5) set_update_rows)
  then show "find (\<lambda>r. id_it r = id_it i) (items w') = Some (g i)"
    using d assms(3) by (intro find_unique[of id_it]) (simp_all add: ids)
qed

section \<open>The item\<close>

lemma create_item_run:
  "create_item G s p loc v q w = (w\<lparr>items := items w @
     [\<lparr>id_it = G w, shopId_it = s, productId_it = p, variantKey_it = variant_key v,
       locationId_it = loc, onHand_it = col q, reserved_it = 0, version_it = 0,
       isNegativeAllowed_it = False, isDeleted_it = False\<rparr>]\<rparr>, Inr (G w))"
  by (simp add: create_item_def)

lemma recorderFor_run: "\<exists>r. recorderFor s a w = (w, r)"
  by (auto simp: recorderFor_def Let_def)

lemma recorderFor_Inr: "recorderFor s a w = (w', r) \<Longrightarrow> w' = w"
  using recorderFor_run[of s a w] by auto

text \<open>
  What the item found or made guarantees: a live row of the slot; the stock of the product is
  as before, or a legacy gap has been opened; nothing else moves.
\<close>

definition item_ensured :: "string \<Rightarrow> string \<Rightarrow> string \<Rightarrow> rat \<Rightarrow> world \<Rightarrow> world \<Rightarrow> string \<times> bool \<Rightarrow> bool" where
  "item_ensured s p loc cs w w' t \<longleftrightarrow>
     rows_ok w' \<and> products w' = products w \<and> shops w' = shops w \<and>
     (\<exists>i. find (\<lambda>r. id_it r = fst t) (items w') = Some i \<and> live_of s p i \<and> locationId_it i = loc \<and>
        snd t = isNegativeAllowed_it i) \<and>
     (live_stock w' s p = live_stock w s p \<or> (live_stock w s p < cs \<and> live_stock w' s p = cs)) \<and>
     (\<forall>s' p'. (s', p') \<noteq> (s, p) \<longrightarrow> live_stock w' s' p' = live_stock w s' p')"

lemma resolveSaleLocation_frame:
  assumes "resolveSaleLocation G s w = (w', r)"
  shows "items w' = items w" and "products w' = products w" and "shops w' = shops w"
    and "ledger w' = ledger w" and "logs w' = logs w" and "events w' = events w"
  using keepsD[OF resolveSaleLocation_keeps assms] by (simp_all add: places_only_def)

lemma created_item_ok:
  assumes "rows_ok w" and "G w \<notin> used_ids w" and "on_grid 3 q"
    and w': "items w' = items w @
     [\<lparr>id_it = G w, shopId_it = s, productId_it = p, variantKey_it = vk,
       locationId_it = loc, onHand_it = col q, reserved_it = 0, version_it = 0,
       isNegativeAllowed_it = False, isDeleted_it = False\<rparr>]" "products w' = products w"
  shows "rows_ok w'"
    and "live_stock w' s' p' = live_stock w s' p' + (if s' = s \<and> p' = p then q else 0)"
    and "\<exists>i. find (\<lambda>r. id_it r = G w) (items w') = Some i \<and> live_of s p i \<and> locationId_it i = loc
      \<and> \<not> isNegativeAllowed_it i"
proof -
  let ?i = "\<lparr>id_it = G w, shopId_it = s, productId_it = p, variantKey_it = vk,
       locationId_it = loc, onHand_it = col q, reserved_it = 0, version_it = 0,
       isNegativeAllowed_it = False, isDeleted_it = False\<rparr>"
  have new: "G w \<notin> id_it ` set (items w)" using assms(2) by (simp add: used_ids_def)
  then show "rows_ok w'" using assms(1) by (auto simp: rows_ok_def w')
  show "live_stock w' s' p' = live_stock w s' p' + (if s' = s \<and> p' = p then q else 0)"
    by (auto simp: live_stock_sum w' stock_of_def live_of_def col_exact[OF assms(3)])
  have "find (\<lambda>r. id_it r = G w) (items w @ [?i]) = Some ?i"
    using new by (intro find_snoc) (metis imageI, simp)
  then show "\<exists>i. find (\<lambda>r. id_it r = G w) (items w') = Some i \<and> live_of s p i \<and> locationId_it i = loc
      \<and> \<not> isNegativeAllowed_it i"
    by (simp add: w' live_of_def)
qed

lemma found_item_ok:
  assumes ok: "rows_ok w" and i: "i \<in> set (items w)" "same_slot s p loc vk i"
    and w': "w' = (if isDeleted_it i
      then w\<lparr>items := update_rows (\<lambda>r. id_it r = id_it i) (\<lambda>r. r\<lparr>isDeleted_it := False\<rparr>) (items w)\<rparr> else w)"
  shows "item_ensured s p loc cs w w' (id_it i, isNegativeAllowed_it i)"
proof (cases "isDeleted_it i")
  case False
  have "find (\<lambda>r. id_it r = id_it i) (items w) = Some i"
    using ok i(1) by (intro find_unique[of id_it]) (simp_all add: rows_ok_def)
  with False i(2) show ?thesis
    by (auto simp: item_ensured_def w' ok live_of_def same_slot_def)
next
  case True
  let ?g = "\<lambda>r. r\<lparr>isDeleted_it := False\<rparr>"
  have "on_grid 3 (onHand_it i) \<and> on_grid 3 (reserved_it i)" "onHand_it i = 0"
    using ok i(1) True by (simp_all add: rows_ok_def)
  then have c: "on_grid 3 (onHand_it (?g i)) \<and> on_grid 3 (reserved_it (?g i)) \<and>
      (isDeleted_it (?g i) \<longrightarrow> onHand_it (?g i) = 0)" by simp
  have e: "items w' = update_rows (\<lambda>r. id_it r = id_it i) ?g (items w)" "products w' = products w"
    using True by (simp_all add: w')
  note u = rows_ok_update[OF ok i(1), of ?g, OF _ c e]
  have z: "stock_of s' p' (?g i) = 0" "stock_of s' p' i = 0" for s' p'
    using \<open>onHand_it i = 0\<close> by (simp_all add: stock_of_def)
  show ?thesis
    using u(1,3) u(2) i(2) True z by (simp add: item_ensured_def live_of_def same_slot_def w')
qed

lemma ensureItem_ok:
  assumes "ensureItem n G s p loc v by cs w = (w', Inr t)" and "rows_ok w" and "fresh_ids G" and "on_grid 3 cs"
  shows "item_ensured s p loc cs w w' t"
  using assms(1,2)
proof (induction n arbitrary: loc v w w' t)
  case 0
  then show ?case by simp
next
  case (Suc n)
  show ?case
  proof (cases "find (same_slot s p loc (variant_key v)) (items w)")
    case (Some i)
    then have "i \<in> set (items w)" "same_slot s p loc (variant_key v) i" by (auto dest: find_SomeD)
    from found_item_ok[OF Suc.prems(2) this refl] Suc.prems(1) Some show ?thesis
      by (auto simp: eff_simps split: if_splits)
  next
    case None
    let ?gap = "cs - live_stock w s p"
    from Suc.prems(1) None obtain w1 boot where
      pre: "(if v = None \<and> 0 < ?gap then
              bind_eff (resolveSaleLocation G s) (\<lambda>sl.
                if sl = loc then return_eff ?gap
                else bind_eff (ensureItem n G s p sl None by cs) (\<lambda>_. return_eff 0))
            else return_eff 0) w = (w1, Inr boot)"
      and post: "bind_eff (create_item G s p loc v boot) (\<lambda>new.
         if 0 < boot then
           bind_eff (recorderFor s by) (\<lambda>recordedBy.
           bind_eff (record_bootstrap s p new boot recordedBy) (\<lambda>_. return_eff (new, False)))
         else return_eff (new, False)) w1 = (w', Inr t)"
      by (auto simp: Let_def bind_eff_Inr)
    have g: "on_grid 3 ?gap" using assms(4) rows_ok_live_grid[OF Suc.prems(2)] by (intro grid_intros)
    have A: "rows_ok w1 \<and> products w1 = products w \<and> shops w1 = shops w \<and>
      (\<forall>s' p'. (s', p') \<noteq> (s, p) \<longrightarrow> live_stock w1 s' p' = live_stock w s' p') \<and>
      ((boot = 0 \<and> (live_stock w1 s p = live_stock w s p \<or> (live_stock w s p < cs \<and> live_stock w1 s p = cs))) \<or>
       (boot = ?gap \<and> 0 < ?gap \<and> live_stock w1 s p = live_stock w s p))"
    proof (cases "v = None \<and> 0 < ?gap")
      case False
      with pre Suc.prems(2) show ?thesis by auto
    next
      case True
      with pre obtain w2 sl where r: "resolveSaleLocation G s w = (w2, Inr sl)"
        and c: "(if sl = loc then return_eff ?gap
                else bind_eff (ensureItem n G s p sl None by cs) (\<lambda>_. return_eff 0)) w2 = (w1, Inr boot)"
        by (auto simp: bind_eff_Inr)
      note f = resolveSaleLocation_frame[OF r]
      have ok2: "rows_ok w2" using rows_ok_cong[OF f(1,2)] Suc.prems(2) by blast
      have same: "live_stock w2 s' p' = live_stock w s' p'" for s' p' by (rule live_stock_cong[OF f(1)])
      show ?thesis
      proof (cases "sl = loc")
        case True
        with c have "w1 = w2" "boot = ?gap" by simp_all
        then show ?thesis using ok2 f same \<open>v = None \<and> 0 < ?gap\<close> by simp
      next
        case False
        with c obtain t2 where e: "ensureItem n G s p sl None by cs w2 = (w1, Inr t2)" and "boot = 0"
          by (auto simp: bind_eff_Inr)
        from Suc.IH[OF e ok2] \<open>boot = 0\<close> f same show ?thesis by (simp add: item_ensured_def)
      qed
    qed
    then have ok1: "rows_ok w1" and gb: "on_grid 3 boot" using g by auto
    from post obtain w3 where w': "items w' = items w3" "products w' = products w3" "shops w' = shops w3"
      and w3: "create_item G s p loc v boot w1 = (w3, Inr (G w1))" and t: "t = (G w1, False)"
      by (auto simp: bind_eff_Inr create_item_run record_bootstrap_def split: if_splits dest!: recorderFor_Inr)
    have i3: "items w' = items w1 @
     [\<lparr>id_it = G w1, shopId_it = s, productId_it = p, variantKey_it = variant_key v,
       locationId_it = loc, onHand_it = col boot, reserved_it = 0, version_it = 0,
       isNegativeAllowed_it = False, isDeleted_it = False\<rparr>]" "products w' = products w1" "shops w' = shops w1"
      using w3 w' by (auto simp: create_item_run)
    have "G w1 \<notin> used_ids w1" using assms(3) by (simp add: fresh_ids_def)
    note C = created_item_ok[of w1 G boot w', OF ok1 this gb i3(1,2)]
    have s1: "live_stock w' s p = live_stock w1 s p + boot" using C(2)[of s p] by simp
    have s2: "live_stock w' s' p' = live_stock w s' p'" if "(s', p') \<noteq> (s, p)" for s' p'
      using C(2)[of s' p'] A that by auto
    have s3: "live_stock w' s p = live_stock w s p \<or> (live_stock w s p < cs \<and> live_stock w' s p = cs)"
      using A unfolding s1 by auto
    from C(3) obtain i where i: "find (\<lambda>r. id_it r = fst t) (items w') = Some i" "live_of s p i"
      "locationId_it i = loc" "snd t = isNegativeAllowed_it i" using t by auto
    show ?thesis unfolding item_ensured_def
    proof (intro conjI allI impI)
      show "rows_ok w'" by (rule C(1))
      show "products w' = products w" "shops w' = shops w" using i3 A by simp_all
      show "\<exists>i. find (\<lambda>r. id_it r = fst t) (items w') = Some i \<and> live_of s p i \<and> locationId_it i = loc \<and>
        snd t = isNegativeAllowed_it i" using i by blast
    qed (use s2 s3 in auto)
  qed
qed

section \<open>The conditional update\<close>

lemma update_item_Inr:
  assumes u: "update_item req q t w = (w', Inr x)" and ok: "rows_ok w"
    and i: "find (\<lambda>r. id_it r = fst t) (items w) = Some i"
  shows "item_matches req q t i"
    and "w' = w\<lparr>items := update_rows (\<lambda>r. id_it r = id_it i) (item_set req q) (items w)\<rparr>"
    and "i \<in> set (items w)" and "id_it i = fst t"
proof -
  show mem: "i \<in> set (items w)" and id: "id_it i = fst t" using find_SomeD[OF i] by simp_all
  have one: "r = i" if "r \<in> set (items w)" "id_it r = fst t" for r
    using that mem id ok by (simp add: rows_ok_def distinct_map inj_on_def)
  from u have ne: "\<not> (\<forall>r \<in> set (items w). \<not> item_matches req q t r)"
    and w': "w' = w\<lparr>items := update_rows (item_matches req q t) (item_set req q) (items w)\<rparr>"
    by (auto simp: update_item_def split: if_splits)
  then show m: "item_matches req q t i" using one by (auto simp: item_matches_def)
  have "update_rows (item_matches req q t) (item_set req q) (items w)
      = update_rows (\<lambda>r. id_it r = id_it i) (item_set req q) (items w)"
    using one m by (intro update_rows_cong) (auto simp: id item_matches_def)
  then show "w' = w\<lparr>items := update_rows (\<lambda>r. id_it r = id_it i) (item_set req q) (items w)\<rparr>"
    by (simp add: w')
qed

lemma item_set_sel [simp]:
  "id_it (item_set req q i) = id_it i" "shopId_it (item_set req q i) = shopId_it i"
  "productId_it (item_set req q i) = productId_it i" "locationId_it (item_set req q i) = locationId_it i"
  "variantKey_it (item_set req q i) = variantKey_it i" "isDeleted_it (item_set req q i) = isDeleted_it i"
  "isNegativeAllowed_it (item_set req q i) = isNegativeAllowed_it i"
  "live_of s p (item_set req q i) = live_of s p i"
  by (simp_all add: item_set_def live_of_def)

text \<open>What a movement of a grid quantity adds to a stock figure: nothing for a reservation.\<close>

definition moved :: "InventoryMutationRequest \<Rightarrow> rat \<Rightarrow> rat" where
  "moved req q = (if is_reservation req then 0 else signed (getDirection req) q)"

lemma moved_grid: "on_grid 3 q \<Longrightarrow> on_grid 3 (moved req q)"
  by (auto simp: moved_def signed_def intro: grid_intros)

lemma item_set_onHand:
  assumes "on_grid 3 (onHand_it i)" and "on_grid 3 q"
  shows "onHand_it (item_set req q i) = onHand_it i + moved req q"
  using assms by (auto simp: item_set_def moved_def signed_def intro!: col_exact grid_intros)

lemma item_set_grid:
  assumes "on_grid 3 (onHand_it i)" and "on_grid 3 (reserved_it i)"
  shows "on_grid 3 (onHand_it (item_set req q i))" and "on_grid 3 (reserved_it (item_set req q i))"
  using assms by (simp_all add: item_set_def)

section \<open>The product aggregate\<close>

lemma sync_product_Inr:
  assumes y: "sync_product req q s0 w = (w', Inr x)" and ok: "rows_ok w"
    and p: "pr \<in> set (products w)" "id_pr pr = productId_q req" "shopId_pr pr = shopId_q req"
    and q: "on_grid 3 q"
  shows "w' = (if is_reservation req then w
      else w\<lparr>products := update_rows (\<lambda>r. id_pr r = productId_q req) (product_set req q) (products w)\<rparr>)"
    and "\<forall>r \<in> set (products w'). \<exists>r' \<in> set (products w). id_pr r = id_pr r' \<and> shopId_pr r = shopId_pr r' \<and>
      type_pr r = type_pr r' \<and>
      currentStock_pr r = currentStock_pr r' + (if id_pr r = productId_q req then moved req q else 0)"
    and "rows_ok w'"
    and "map (\<lambda>r. (id_pr r, shopId_pr r)) (products w') = map (\<lambda>r. (id_pr r, shopId_pr r)) (products w)"
proof -
  have d: "distinct (map id_pr (products w))" using ok by (simp add: rows_ok_def)
  have one: "r = pr" if "r \<in> set (products w)" "id_pr r = productId_q req" for r
    using that p d by (simp add: distinct_map inj_on_def)
  show w': "w' = (if is_reservation req then w
      else w\<lparr>products := update_rows (\<lambda>r. id_pr r = productId_q req) (product_set req q) (products w)\<rparr>)"
  proof (cases "is_reservation req")
    case True
    with y show ?thesis by (simp add: sync_product_def)
  next
    case False
    with y have w: "w' = w\<lparr>products := update_rows (product_matches req) (product_set req q) (products w)\<rparr>"
      and c: "expectedProductVersion_q req \<noteq> None \<longrightarrow> \<not> (\<forall>r \<in> set (products w). \<not> product_matches req r)"
      by (auto simp: sync_product_def split: if_splits)
    have "product_matches req pr"
    proof (cases "expectedProductVersion_q req")
      case None
      with p show ?thesis by (simp add: product_matches_def)
    next
      case (Some v)
      with c obtain r where r: "r \<in> set (products w)" "product_matches req r" by blast
      then have "r = pr" by (intro one) (simp_all add: product_matches_def)
      with r show ?thesis by simp
    qed
    then have "update_rows (product_matches req) (product_set req q) (products w)
        = update_rows (\<lambda>r. id_pr r = productId_q req) (product_set req q) (products w)"
      using one by (intro update_rows_cong) (auto simp: product_matches_def)
    then show ?thesis using w False by simp
  qed
  have g: "on_grid 3 (currentStock_pr r)" if "r \<in> set (products w)" for r
    using ok that by (simp add: rows_ok_def)
  have set_stock: "currentStock_pr (product_set req q r) = currentStock_pr r + moved req q"
    if "\<not> is_reservation req" "r \<in> set (products w)" for r
    using that g[of r] moved_grid[OF q, of req] by (simp add: product_set_def moved_def col_exact on_grid_add)
  show "\<forall>r \<in> set (products w'). \<exists>r' \<in> set (products w). id_pr r = id_pr r' \<and> shopId_pr r = shopId_pr r' \<and>
      type_pr r = type_pr r' \<and>
      currentStock_pr r = currentStock_pr r' + (if id_pr r = productId_q req then moved req q else 0)"
  proof
    fix r assume r: "r \<in> set (products w')"
    show "\<exists>r' \<in> set (products w). id_pr r = id_pr r' \<and> shopId_pr r = shopId_pr r' \<and> type_pr r = type_pr r' \<and>
      currentStock_pr r = currentStock_pr r' + (if id_pr r = productId_q req then moved req q else 0)"
    proof (cases "is_reservation req")
      case True
      with r w' show ?thesis by (intro bexI[of _ r]) (simp_all add: moved_def)
    next
      case False
      with r w' obtain r' where r': "r' \<in> set (products w)"
        "r = (if id_pr r' = productId_q req then product_set req q r' else r')" by (auto simp: set_update_rows)
      then show ?thesis
        using set_stock[OF False r'(1)] by (intro bexI[of _ r']) (auto simp: product_set_def)
    qed
  qed
  show "map (\<lambda>r. (id_pr r, shopId_pr r)) (products w') = map (\<lambda>r. (id_pr r, shopId_pr r)) (products w)"
    unfolding w' by (auto simp: product_set_def intro!: map_update_rows)
  have ids: "map id_pr (products w') = map id_pr (products w)"
    unfolding w' by (auto simp: product_set_def intro!: map_update_rows)
  have "items w' = items w" unfolding w' by simp
  moreover have "on_grid 3 (currentStock_pr r)" if "r \<in> set (products w')" for r
    using that g unfolding w' by (auto simp: set_update_rows product_set_def split: if_splits)
  ultimately show "rows_ok w'" using ok ids unfolding rows_ok_def by simp
qed

section \<open>A whole mutation\<close>

text \<open>
  \<open>mutation_done\<close> relates the world after the item was ensured (\<open>w1\<close>, with the item \<open>i\<close>) to the
  world at the end.
\<close>

definition mutation_done ::
  "InventoryMutationRequest \<Rightarrow> rat \<Rightarrow> world \<Rightarrow> InventoryItem \<Rightarrow> world \<Rightarrow> InventoryMutationResult \<Rightarrow> bool" where
  "mutation_done req q w1 i w' rs \<longleftrightarrow>
     rows_ok w' \<and> shops w' = shops w1 \<and>
     map (\<lambda>r. (id_pr r, shopId_pr r)) (products w') = map (\<lambda>r. (id_pr r, shopId_pr r)) (products w1) \<and>
     items w' = update_rows (\<lambda>r. id_it r = id_it i) (item_set req q) (items w1) \<and>
     (\<forall>r \<in> set (products w'). \<exists>r' \<in> set (products w1). id_pr r = id_pr r' \<and> shopId_pr r = shopId_pr r' \<and>
        type_pr r = type_pr r' \<and>
        currentStock_pr r = currentStock_pr r' + (if id_pr r = productId_q req then moved req q else 0)) \<and>
     (\<exists>es. ledger w' = ledger w1 @ es \<and>
        (if is_reservation req then es = []
         else \<exists>e. es = [e] \<and> shopId_le e = shopId_q req \<and> inventoryItemId_le e = id_it i \<and>
           quantity_le e = moved req q \<and> balanceAfter_le e = onHand_it (item_set req q i) \<and>
           referenceId_le e = referenceId_q req \<and>
           (truthy (idempotencyKey_q req) \<longrightarrow> correlationId_le e = idempotencyKey_q req))) \<and>
     \<not> bypassed_rs rs \<and> inventoryItemId_rs rs = Some (id_it i) \<and>
     balanceAfter_rs rs = onHand_it (item_set req q i) \<and>
     availableAfter_rs rs = onHand_it (item_set req q i) - reserved_it (item_set req q i)"

lemma record_movement_run:
  "record_movement req q i recordedBy w =
     ((if is_reservation req then w
       else w\<lparr>ledger := ledger w @ [movement_entry req q i], logs := logs w @ [movement_log req q i recordedBy]\<rparr>)
      \<lparr>events := events w @ [movement_event req q i]\<rparr>, Inr ())"
  by (simp add: record_movement_def)

lemma apply_mutation_Inr:
  assumes a: "apply_mutation G req q pr w = (w', Inr rs)" and ok: "rows_ok w" and G: "fresh_ids G"
    and q: "on_grid 3 q" and p: "pr \<in> set (products w)" "id_pr pr = productId_q req" "shopId_pr pr = shopId_q req"
  obtains w1 t i actor where
    "ensureItem 2 G (shopId_q req) (productId_q req) (locationId_q req) (variantId_q req) (Some actor)
       (currentStock_pr pr) w = (w1, Inr t)"
    "item_ensured (shopId_q req) (productId_q req) (locationId_q req) (currentStock_pr pr) w w1 t"
    "find (\<lambda>r. id_it r = fst t) (items w1) = Some i" "i \<in> set (items w1)" "item_matches req q t i"
    "mutation_done req q w1 i w' rs"
proof -
  have gcs: "on_grid 3 (currentStock_pr pr)" using ok p(1) by (simp add: rows_ok_def)
  from a obtain actor w1 t w2 where
    e: "ensureItem 2 G (shopId_q req) (productId_q req) (locationId_q req) (variantId_q req) (Some actor)
         (currentStock_pr pr) w = (w1, Inr t)"
    and u: "update_item req q t w1 = (w2, Inr ())"
    and rest: "(case find (\<lambda>i. id_it i = fst t) (items w2) of
        None \<Rightarrow> throw_eff GENERIC_ERROR
      | Some i \<Rightarrow>
           bind_eff (sync_product req q (currentStock_pr pr)) (\<lambda>productStockAfter.
           bind_eff (record_movement req q i actor) (\<lambda>_.
           return_eff \<lparr>bypassed_rs = False, idempotent_rs = False, inventoryItemId_rs = Some (id_it i),
             locationId_rs = Some (locationId_it i), balanceAfter_rs = onHand_it i,
             availableAfter_rs = onHand_it i - reserved_it i,
             productStockAfter_rs = productStockAfter\<rparr>))) w2 = (w', Inr rs)"
    by (auto simp: apply_mutation_def bind_eff_Inr dest!: recorderFor_Inr)
  have E: "item_ensured (shopId_q req) (productId_q req) (locationId_q req) (currentStock_pr pr) w w1 t"
    by (rule ensureItem_ok[OF e ok G gcs])
  then have ok1: "rows_ok w1" and pr1: "products w1 = products w" by (simp_all add: item_ensured_def)
  from E obtain i where i: "find (\<lambda>r. id_it r = fst t) (items w1) = Some i" by (auto simp: item_ensured_def)
  note U = update_item_Inr[OF u ok1 i]
  let ?g = "item_set req q"
  have gi: "on_grid 3 (onHand_it i)" "on_grid 3 (reserved_it i)" "isDeleted_it i \<longrightarrow> onHand_it i = 0"
    using ok1 U(3) by (simp_all add: rows_ok_def)
  have live: "\<not> isDeleted_it i" using E i by (auto simp: item_ensured_def live_of_def)
  then have c: "on_grid 3 (onHand_it (?g i)) \<and> on_grid 3 (reserved_it (?g i)) \<and> (isDeleted_it (?g i) \<longrightarrow> onHand_it (?g i) = 0)"
    using item_set_grid[OF gi(1,2)] by simp
  have w2: "items w2 = update_rows (\<lambda>r. id_it r = id_it i) ?g (items w1)" "products w2 = products w1"
    "shops w2 = shops w1" "ledger w2 = ledger w1" by (simp_all add: U(2))
  note R = rows_ok_update[OF ok1 U(3) item_set_sel(1) c w2(1,2)]
  from rest R(3) U(4) obtain x w3 where
    y: "sync_product req q (currentStock_pr pr) w2 = (w3, Inr x)"
    and m: "record_movement req q (?g i) actor w3 = (w', Inr ())"
    and rs: "rs = \<lparr>bypassed_rs = False, idempotent_rs = False, inventoryItemId_rs = Some (id_it (?g i)),
             locationId_rs = Some (locationId_it (?g i)), balanceAfter_rs = onHand_it (?g i),
             availableAfter_rs = onHand_it (?g i) - reserved_it (?g i), productStockAfter_rs = x\<rparr>"
    by (auto simp: bind_eff_Inr)
  note Y = sync_product_Inr[OF y R(1) _ p(2,3) q]
  have mem: "pr \<in> set (products w2)" using p(1) w2(2) pr1 by simp
  have w': "items w' = items w3" "products w' = products w3" "shops w' = shops w3"
    "ledger w' = ledger w3 @ (if is_reservation req then [] else [movement_entry req q (?g i)])"
    using m by (simp_all add: record_movement_run split: if_splits) (auto split: if_splits)
  have w3: "items w3 = items w2" "ledger w3 = ledger w2" "shops w3 = shops w2" using Y(1)[OF mem] by simp_all
  have sg: "\<not> is_reservation req \<Longrightarrow> col (signed (getDirection req) q) = moved req q"
    "col (onHand_it (?g i)) = onHand_it (?g i)"
    using moved_grid[OF q, of req] c by (simp_all add: col_exact moved_def)
  have "mutation_done req q w1 i w' rs"
    unfolding mutation_done_def
  proof (intro conjI)
    show "rows_ok w'" using Y(3)[OF mem] using w' by (simp add: rows_ok_def)
    show "\<exists>es. ledger w' = ledger w1 @ es \<and>
        (if is_reservation req then es = []
         else \<exists>e. es = [e] \<and> shopId_le e = shopId_q req \<and> inventoryItemId_le e = id_it i \<and>
           quantity_le e = moved req q \<and> balanceAfter_le e = onHand_it (item_set req q i) \<and>
           referenceId_le e = referenceId_q req \<and>
           (truthy (idempotencyKey_q req) \<longrightarrow> correlationId_le e = idempotencyKey_q req))"
      using sg w3 w2 by (simp add: w' movement_entry_def)
    show "\<forall>r \<in> set (products w'). \<exists>r' \<in> set (products w1). id_pr r = id_pr r' \<and> shopId_pr r = shopId_pr r' \<and>
        type_pr r = type_pr r' \<and>
        currentStock_pr r = currentStock_pr r' + (if id_pr r = productId_q req then moved req q else 0)"
      using Y(2)[OF mem] w2(2) by (simp add: w')
    show "map (\<lambda>r. (id_pr r, shopId_pr r)) (products w') = map (\<lambda>r. (id_pr r, shopId_pr r)) (products w1)"
      using Y(4)[OF mem] w2(2) by (simp add: w')
  qed (simp_all add: w' w3 w2 rs)
  then show thesis using that[OF e E i U(3,1)] by blast
qed

section \<open>What ensuring an item adds\<close>

text \<open>
  A predicate on rows that survives reviving a row and holds of every fresh row (no
  reservation, a non-negative stock) survives \<open>ensureItem\<close>. The journal grows by the opening
  entries of the fresh rows.
\<close>

definition fresh_row :: "InventoryItem \<Rightarrow> bool" where
  "fresh_row i \<longleftrightarrow> reserved_it i = 0 \<and> 0 \<le> onHand_it i \<and> \<not> isNegativeAllowed_it i \<and> \<not> isDeleted_it i"

text \<open>\<open>Q\<close> relates rows and journal; it must survive the three writes of \<open>ensureItem\<close>.\<close>

lemma ensureItem_invariant:
  assumes e: "ensureItem n G s p loc v by cs w = (w', Inr t)" and Q: "Q (items w) (ledger w)" and G: "fresh_ids G"
    and revive: "\<And>rows es i. Q rows es \<Longrightarrow> i \<in> set rows \<Longrightarrow>
      Q (update_rows (\<lambda>r. id_it r = id_it i) (\<lambda>r. r\<lparr>isDeleted_it := False\<rparr>) rows) es"
    and empty: "\<And>rows es i. Q rows es \<Longrightarrow> fresh_row i \<Longrightarrow> onHand_it i = 0 \<Longrightarrow> id_it i \<notin> id_it ` set rows \<Longrightarrow>
      Q (rows @ [i]) es"
    and opened: "\<And>rows es i x. Q rows es \<Longrightarrow> fresh_row i \<Longrightarrow> id_it i \<notin> id_it ` set rows \<Longrightarrow>
      inventoryItemId_le x = id_it i \<Longrightarrow> quantity_le x = onHand_it i \<Longrightarrow> balanceAfter_le x = onHand_it i \<Longrightarrow>
      correlationId_le x = None \<Longrightarrow> Q (rows @ [i]) (es @ [x])"
  shows "Q (items w') (ledger w')"
  using e Q
proof (induction n arbitrary: loc v w w' t)
  case 0
  then show ?case by simp
next
  case (Suc n)
  show ?case
  proof (cases "find (same_slot s p loc (variant_key v)) (items w)")
    case (Some i)
    then have "i \<in> set (items w)" by (auto dest: find_SomeD)
    with Suc.prems Some revive show ?thesis by (auto split: if_splits)
  next
    case None
    let ?gap = "cs - live_stock w s p"
    from Suc.prems(1) None obtain w1 boot where
      pre: "(if v = None \<and> 0 < ?gap then
              bind_eff (resolveSaleLocation G s) (\<lambda>sl.
                if sl = loc then return_eff ?gap
                else bind_eff (ensureItem n G s p sl None by cs) (\<lambda>_. return_eff 0))
            else return_eff 0) w = (w1, Inr boot)"
      and post: "bind_eff (create_item G s p loc v boot) (\<lambda>new.
         if 0 < boot then
           bind_eff (recorderFor s by) (\<lambda>recordedBy.
           bind_eff (record_bootstrap s p new boot recordedBy) (\<lambda>_. return_eff (new, False)))
         else return_eff (new, False)) w1 = (w', Inr t)"
      by (auto simp: Let_def bind_eff_Inr)
    have A: "Q (items w1) (ledger w1) \<and> 0 \<le> boot"
    proof (cases "v = None \<and> 0 < ?gap")
      case False
      with pre Suc.prems(2) show ?thesis by auto
    next
      case True
      with pre obtain w2 sl where r: "resolveSaleLocation G s w = (w2, Inr sl)"
        and c: "(if sl = loc then return_eff ?gap
                else bind_eff (ensureItem n G s p sl None by cs) (\<lambda>_. return_eff 0)) w2 = (w1, Inr boot)"
        by (auto simp: bind_eff_Inr)
      note f = resolveSaleLocation_frame[OF r]
      have Q2: "Q (items w2) (ledger w2)" using Suc.prems(2) f by simp
      show ?thesis
      proof (cases "sl = loc")
        case True
        with c Q2 \<open>v = None \<and> 0 < ?gap\<close> show ?thesis by auto
      next
        case False
        with c obtain t2 where "ensureItem n G s p sl None by cs w2 = (w1, Inr t2)" and "boot = 0"
          by (auto simp: bind_eff_Inr)
        with Suc.IH Q2 show ?thesis by auto
      qed
    qed
    have new: "G w1 \<notin> id_it ` set (items w1)" using G by (auto simp: fresh_ids_def used_ids_def)
    let ?i = "\<lparr>id_it = G w1, shopId_it = s, productId_it = p, variantKey_it = variant_key v,
       locationId_it = loc, onHand_it = col boot, reserved_it = 0, version_it = 0,
       isNegativeAllowed_it = False, isDeleted_it = False\<rparr>"
    have fr: "fresh_row ?i" using A by (simp add: fresh_row_def col_nonneg)
    show ?thesis
    proof (cases "0 < boot")
      case False
      with A have z: "boot = 0" by simp
      then have "items w' = items w1 @ [?i]" "ledger w' = ledger w1"
        using post False by (auto simp: bind_eff_Inr create_item_run)
      moreover have "Q (items w1 @ [?i]) (ledger w1)"
        using A fr new z by (intro empty) (simp_all add: col_def)
      ultimately show ?thesis by simp
    next
      case True
      with post obtain rb where w': "items w' = items w1 @ [?i]"
        "ledger w' = ledger w1 @ [\<lparr>shopId_le = s, inventoryItemId_le = G w1, movementType_le = SM_OPENING_BALANCE,
         quantity_le = col boot, balanceAfter_le = col boot, referenceId_le = p,
         referenceType_le = ''LEGACY_STOCK_BOOTSTRAP'', correlationId_le = None, createdBy_le = rb\<rparr>]"
        by (auto simp: bind_eff_Inr create_item_run record_bootstrap_def dest!: recorderFor_Inr)
      show ?thesis unfolding w' using A fr new by (intro opened) simp_all
    qed
  qed
qed

end
