(* ===== verification/InventoryProperties.thy ===== *)
theory InventoryProperties
  imports InventoryStock
begin

text \<open>
  The invariants every stock mutation keeps and the guarantees around it: the aggregate, the
  floor, the journal, isolation between shops, idempotency, lock order, and the locations.
\<close>

section \<open>Runs of \<open>mutateStock\<close>\<close>

lemma lock_each_run: "\<exists>r. lock_each s ps w = (w, r)"
proof (induction ps)
  case (Cons p ps)
  then obtain r where "lock_each s ps w = (w, r)" by blast
  then show ?case by (cases r) (auto simp: bind_eff_def)
qed simp

lemma lock_each_Inr: "lock_each s ps w = (w', Inr ls) \<Longrightarrow> w' = w \<and> ls = ps"
  by (induction ps arbitrary: ls w') (auto simp: bind_eff_Inr split: if_splits)

lemma find_processed_run: "find_processed req w = (w', r) \<Longrightarrow> w' = w"
  by (auto simp: find_processed_def split: if_splits option.splits)

lemma check_target_Inr:
  "check_target req w = (w', Inr p) \<Longrightarrow> w' = w \<and> p \<in> set (products w) \<and> id_pr p = productId_q req \<and>
     shopId_pr p = shopId_q req \<and> live_location w (shopId_q req) (locationId_q req) \<and>
     \<not> (isDeleted_pr p \<and> (mutationType_q req = SALE \<or> mutationType_q req = RESERVATION))"
  by (auto simp: check_target_def split: if_splits option.splits dest: find_SomeD)

text \<open>A completed call was a replay, a product without stock, or a mutation.\<close>

lemma mutateStock_Inr:
  assumes "mutateStock G req w = (w', Inr rs)"
  obtains (replay) "w' = w" "find_processed req w = (w, Inr (Some rs))"
  | (bypass) "w' = w" "bypassed_rs rs"
  | (mutated) q p where "quantity_q req = Some q" "0 < q" "find_processed req w = (w, Inr None)"
      "check_target req w = (w, Inr p)" "type_pr p \<noteq> SERVICE" "type_pr p \<noteq> DIGITAL"
      "apply_mutation G req q p w = (w', Inr rs)"
proof -
  from assms obtain q where q: "quantity_q req = Some q" "0 < q"
    by (auto simp: mutateStock_def split: option.splits if_splits)
  from assms q obtain ls processed where
    f: "find_processed req w = (w, Inr processed)"
    and rest: "(case processed of
             Some result \<Rightarrow> return_eff result
           | None \<Rightarrow>
               bind_eff (check_target req) (\<lambda>product.
                 if type_pr product = SERVICE \<or> type_pr product = DIGITAL then
                   return_eff \<lparr>bypassed_rs = True, idempotent_rs = False, inventoryItemId_rs = None,
                     locationId_rs = None, balanceAfter_rs = 0, availableAfter_rs = 0,
                     productStockAfter_rs = currentStock_pr product\<rparr>
                 else apply_mutation G req q product)) w = (w', Inr rs)"
    by (auto simp: mutateStock_def lockProducts_def bind_eff_Inr split: if_splits
        dest!: lock_each_Inr) (metis find_processed_run)
  show thesis
  proof (cases processed)
    case (Some r)
    with f rest show thesis by (intro replay) simp_all
  next
    case None
    with rest obtain w1 p where c: "check_target req w = (w1, Inr p)"
      and r: "(if type_pr p = SERVICE \<or> type_pr p = DIGITAL then
                   return_eff \<lparr>bypassed_rs = True, idempotent_rs = False, inventoryItemId_rs = None,
                     locationId_rs = None, balanceAfter_rs = 0, availableAfter_rs = 0,
                     productStockAfter_rs = currentStock_pr p\<rparr>
                 else apply_mutation G req q p) w1 = (w', Inr rs)"
      by (auto simp: bind_eff_Inr)
    have "w1 = w" using check_target_Inr[OF c] by simp
    show thesis
    proof (cases "type_pr p = SERVICE \<or> type_pr p = DIGITAL")
      case True
      with r \<open>w1 = w\<close> show thesis by (intro bypass) auto
    next
      case False
      with r c f None q \<open>w1 = w\<close> show thesis by (intro mutated) simp_all
    qed
  qed
qed

lemma transaction_cases:
  assumes "transaction m w = (w', r)"
  obtains (failed) e where "r = Inl e" "items w' = items w" "products w' = products w" "ledger w' = ledger w"
      "shops w' = shops w" "locations w' = locations w"
  | (completed) x where "r = Inr x" "m w = (w', Inr x)"
  using assms by (auto simp: transaction_def split: prod.splits sum.splits)

section \<open>The aggregate\<close>

text \<open>Every product's \<open>currentStock\<close> is the stock on its live rows.\<close>

definition balanced :: "world \<Rightarrow> bool" where
  "balanced w \<longleftrightarrow> (\<forall>p \<in> set (products w). live_stock w (shopId_pr p) (id_pr p) = currentStock_pr p)"

definition grid_quantity :: "InventoryMutationRequest \<Rightarrow> bool" where
  "grid_quantity req \<longleftrightarrow> (case quantity_q req of None \<Rightarrow> True | Some q \<Rightarrow> on_grid 3 q)"

lemma stock_of_item_set:
  assumes "on_grid 3 (onHand_it i)" and "on_grid 3 q"
  shows "stock_of s p (item_set req q i) - stock_of s p i = (if live_of s p i then moved req q else 0)"
  using item_set_onHand[OF assms] by (simp add: stock_of_def)

lemma mutation_live_stock:
  assumes "mutation_done req q w1 i w' rs" and "rows_ok w1" and "i \<in> set (items w1)" and "on_grid 3 q"
  shows "live_stock w' s p = live_stock w1 s p + (if live_of s p i then moved req q else 0)"
proof -
  have d: "distinct (map id_it (items w1))" "on_grid 3 (onHand_it i)" using assms(2,3) by (simp_all add: rows_ok_def)
  have "live_stock w' s p = sum_list (map (stock_of s p)
      (update_rows (\<lambda>r. id_it r = id_it i) (item_set req q) (items w1)))"
    using assms(1) by (simp add: live_stock_sum mutation_done_def)
  also have "\<dots> = live_stock w1 s p + (stock_of s p (item_set req q i) - stock_of s p i)"
    unfolding live_stock_sum by (rule sum_list_update_rows[OF d(1) assms(3)])
  finally show ?thesis using stock_of_item_set[OF d(2) assms(4)] by simp
qed

lemma apply_mutation_balanced:
  assumes "apply_mutation G req q pr w = (w', Inr rs)" and "rows_ok w" and "balanced w" and "fresh_ids G"
    and "on_grid 3 q" and p: "pr \<in> set (products w)" "id_pr pr = productId_q req" "shopId_pr pr = shopId_q req"
  shows "rows_ok w' \<and> balanced w'"
proof -
  obtain w1 t i actor where
    E: "item_ensured (shopId_q req) (productId_q req) (locationId_q req) (currentStock_pr pr) w w1 t"
    and i: "find (\<lambda>r. id_it r = fst t) (items w1) = Some i" "i \<in> set (items w1)"
    and d: "mutation_done req q w1 i w' rs"
    using apply_mutation_Inr[OF assms(1,2,4-5) p] by metis
  have ok1: "rows_ok w1" and pr1: "products w1 = products w" using E by (simp_all add: item_ensured_def)
  have "live_stock w (shopId_q req) (productId_q req) = currentStock_pr pr"
    using assms(3) p by (auto simp: balanced_def)
  then have same: "live_stock w1 s' p' = live_stock w s' p'" for s' p'
    using E by (cases "(s', p') = (shopId_q req, productId_q req)") (auto simp: item_ensured_def)
  have live: "live_of s' p' i \<longleftrightarrow> s' = shopId_q req \<and> p' = productId_q req" for s' p'
    using E i(1) by (auto simp: item_ensured_def live_of_def)
  have ids: "distinct (map id_pr (products w))" using assms(2) by (simp add: rows_ok_def)
  have "live_stock w' (shopId_pr r) (id_pr r) = currentStock_pr r" if r: "r \<in> set (products w')" for r
  proof -
    from d r obtain r' where r': "r' \<in> set (products w1)" "id_pr r = id_pr r'" "shopId_pr r = shopId_pr r'"
      "currentStock_pr r = currentStock_pr r' + (if id_pr r = productId_q req then moved req q else 0)"
      unfolding mutation_done_def by blast
    have "live_stock w (shopId_pr r') (id_pr r') = currentStock_pr r'"
      using assms(3) r'(1) pr1 by (simp add: balanced_def)
    moreover have "shopId_pr r' = shopId_q req" if "id_pr r' = productId_q req"
    proof -
      have "r' = pr" using that r'(1) p ids pr1 by (simp add: distinct_map inj_on_def)
      with p show ?thesis by simp
    qed
    ultimately show ?thesis
      using mutation_live_stock[OF d ok1 i(2) assms(5)] same live r' by auto
  qed
  then show ?thesis using d by (simp add: balanced_def mutation_done_def)
qed

lemma transaction_balanced:
  assumes "transaction (mutateStock G req) w = (w', r)" and "rows_ok w" and "balanced w"
    and "fresh_ids G" and "grid_quantity req"
  shows "rows_ok w' \<and> balanced w'"
  using assms(1)
proof (cases rule: transaction_cases)
  case failed
  then show ?thesis
    using assms(2,3) rows_ok_cong[of w' w] live_stock_cong[of w' w] by (simp add: balanced_def)
next
  case (completed rs)
  from completed(2) show ?thesis
  proof (cases rule: mutateStock_Inr)
    case (mutated q p)
    note c = check_target_Inr[OF mutated(4)]
    have "on_grid 3 q" using assms(5) mutated(1) by (simp add: grid_quantity_def)
    with apply_mutation_balanced[OF mutated(7) assms(2,3,4)] c show ?thesis by simp
  qed (use assms(2,3) in simp_all)
qed

lemma transaction_rows:
  assumes "transaction (mutateStock G req) w = (w', r)" and "rows_ok w" and "fresh_ids G" and "grid_quantity req"
  shows "rows_ok w'"
  using assms(1)
proof (cases rule: transaction_cases)
  case failed
  then show ?thesis using assms(2) rows_ok_cong[of w' w] by simp
next
  case (completed rs)
  from completed(2) show ?thesis
  proof (cases rule: mutateStock_Inr)
    case (mutated q p)
    have "on_grid 3 q" using assms(4) mutated(1) by (simp add: grid_quantity_def)
    with check_target_Inr[OF mutated(4)] obtain w1 i where "mutation_done req q w1 i w' rs"
      using apply_mutation_Inr[OF mutated(7) assms(2,3)] by metis
    then show ?thesis by (simp add: mutation_done_def)
  qed (use assms(2) in simp_all)
qed

section \<open>The floor\<close>

text \<open>A row that may not go negative holds at least what is reserved on it.\<close>

definition floor_row :: "InventoryItem \<Rightarrow> bool" where
  "floor_row i \<longleftrightarrow> isNegativeAllowed_it i \<or> (0 \<le> reserved_it i \<and> reserved_it i \<le> onHand_it i)"

definition floor_ok :: "world \<Rightarrow> bool" where
  "floor_ok w \<longleftrightarrow> (\<forall>i \<in> set (items w). floor_row i)"

lemma floor_row_set:
  assumes i: "floor_row i" "on_grid 3 (onHand_it i)" "on_grid 3 (reserved_it i)" and q: "on_grid 3 q" "0 < q"
    and m: "item_matches req q t i" "\<not> allowNegative_q req" "snd t = isNegativeAllowed_it i"
  shows "floor_row (item_set req q i)"
proof (cases "isNegativeAllowed_it i")
  case True
  then show ?thesis by (simp add: floor_row_def)
next
  case False
  then have fl: "0 \<le> reserved_it i" "reserved_it i \<le> onHand_it i" using i(1) by (simp_all add: floor_row_def)
  have c: "col (reserved_it i + q) = reserved_it i + q" "col (max (reserved_it i - q) 0) = max (reserved_it i - q) 0"
    using i q by (auto intro!: col_exact grid_intros)
  have oh: "onHand_it (item_set req q i) = onHand_it i + moved req q" by (rule item_set_onHand[OF i(2) q(1)])
  show ?thesis
  proof (cases "is_reservation req")
    case True
    with m(1,2) fl q c oh show ?thesis
      by (auto simp: floor_row_def item_matches_def item_set_def moved_def)
  next
    case False
    have "reserved_it (item_set req q i) = reserved_it i" using False by (simp add: item_set_def)
    moreover have "reserved_it i \<le> onHand_it i + moved req q"
      using False m \<open>\<not> isNegativeAllowed_it i\<close> fl q
      by (cases "getDirection req") (auto simp: item_matches_def moved_def signed_def)
    ultimately show ?thesis using oh fl by (simp add: floor_row_def)
  qed
qed

lemma transaction_floor:
  assumes "transaction (mutateStock G req) w = (w', r)" and "rows_ok w" and "floor_ok w"
    and "fresh_ids G" and "grid_quantity req" and "\<not> allowNegative_q req"
  shows "floor_ok w'"
  using assms(1)
proof (cases rule: transaction_cases)
  case failed
  then show ?thesis using assms(3) by (simp add: floor_ok_def)
next
  case (completed rs)
  from completed(2) show ?thesis
  proof (cases rule: mutateStock_Inr)
    case (mutated q p)
    note c = check_target_Inr[OF mutated(4)]
    have g: "on_grid 3 q" using assms(5) mutated(1) by (simp add: grid_quantity_def)
    from c obtain w1 t i actor where
      e: "ensureItem 2 G (shopId_q req) (productId_q req) (locationId_q req) (variantId_q req) (Some actor)
         (currentStock_pr p) w = (w1, Inr t)"
      and E: "item_ensured (shopId_q req) (productId_q req) (locationId_q req) (currentStock_pr p) w w1 t"
      and i: "find (\<lambda>r. id_it r = fst t) (items w1) = Some i" "i \<in> set (items w1)" "item_matches req q t i"
      and d: "mutation_done req q w1 i w' rs"
      using apply_mutation_Inr[OF mutated(7) assms(2,4) g] by metis
    have fl: "\<forall>r \<in> set (items w1). floor_row r"
      using e assms(3)[unfolded floor_ok_def] assms(4)
      by (rule ensureItem_invariant[where Q = "\<lambda>rows es. \<forall>r \<in> set rows. floor_row r"])
         (auto simp: floor_row_def fresh_row_def set_update_rows)
    have "on_grid 3 (onHand_it i)" "on_grid 3 (reserved_it i)" "snd t = isNegativeAllowed_it i"
      using E i(1,2) by (auto simp: item_ensured_def rows_ok_def)
    then have "floor_row (item_set req q i)"
      using floor_row_set[of i q req t] fl i(2,3) g mutated(2) assms(6) by blast
    moreover have "x = i" if "x \<in> set (items w1)" "id_it x = id_it i" for x
      using E that i(2) by (auto simp: item_ensured_def rows_ok_def distinct_map inj_on_def)
    moreover have "items w' = update_rows (\<lambda>r. id_it r = id_it i) (item_set req q) (items w1)"
      using d by (simp add: mutation_done_def)
    ultimately show ?thesis using fl by (auto simp: floor_ok_def set_update_rows)
  qed (use assms(3) in simp_all)
qed

section \<open>The journal\<close>

definition entry_sum :: "StockLedgerEntry list \<Rightarrow> string \<Rightarrow> rat" where
  "entry_sum es item = sum_list (map quantity_le (filter (\<lambda>e. inventoryItemId_le e = item) es))"

definition running :: "StockLedgerEntry list \<Rightarrow> bool" where
  "running es \<longleftrightarrow> (\<forall>k < length es.
     balanceAfter_le (es ! k) = entry_sum (take (Suc k) es) (inventoryItemId_le (es ! k)))"

definition journal :: "InventoryItem list \<Rightarrow> StockLedgerEntry list \<Rightarrow> bool" where
  "journal rows es \<longleftrightarrow>
     distinct (map id_it rows) \<and> (\<forall>i \<in> set rows. onHand_it i = entry_sum es (id_it i)) \<and>
     (\<forall>e \<in> set es. inventoryItemId_le e \<in> id_it ` set rows) \<and> running es"

definition journal_ok :: "world \<Rightarrow> bool" where
  "journal_ok w \<longleftrightarrow> journal (items w) (ledger w)"

lemma entry_sum_snoc [simp]:
  "entry_sum (es @ [e]) item = entry_sum es item + (if inventoryItemId_le e = item then quantity_le e else 0)"
  by (simp add: entry_sum_def)

lemma entry_sum_none: "\<forall>e \<in> set es. inventoryItemId_le e \<noteq> item \<Longrightarrow> entry_sum es item = 0"
  by (simp add: entry_sum_def filter_False)

lemma running_snoc:
  "running (es @ [e]) \<longleftrightarrow> running es \<and> balanceAfter_le e = entry_sum es (inventoryItemId_le e) + quantity_le e"
proof -
  have "(\<forall>k < Suc (length es). P k) \<longleftrightarrow> (\<forall>k < length es. P k) \<and> P (length es)" for P
    using less_Suc_eq by auto
  then show ?thesis by (auto simp: running_def nth_append)
qed

lemma journal_add:
  assumes "journal rows es" and "id_it i \<notin> id_it ` set rows"
  shows "onHand_it i = 0 \<Longrightarrow> journal (rows @ [i]) es"
    and "inventoryItemId_le x = id_it i \<Longrightarrow> quantity_le x = onHand_it i \<Longrightarrow> balanceAfter_le x = onHand_it i
      \<Longrightarrow> journal (rows @ [i]) (es @ [x])"
proof -
  have z: "entry_sum es (id_it i) = 0"
    using assms unfolding journal_def by (intro entry_sum_none) metis
  show "journal (rows @ [i]) es" if "onHand_it i = 0"
    using assms z that by (auto simp: journal_def)
  show "journal (rows @ [i]) (es @ [x])"
    if "inventoryItemId_le x = id_it i" "quantity_le x = onHand_it i" "balanceAfter_le x = onHand_it i"
    using assms z that by (auto simp: journal_def running_snoc image_iff)
qed

lemma journal_update:
  assumes j: "journal rows es" and i: "i \<in> set rows" and g: "id_it (g i) = id_it i"
  shows "onHand_it (g i) = onHand_it i \<Longrightarrow> journal (update_rows (\<lambda>r. id_it r = id_it i) g rows) es"
    and "inventoryItemId_le e = id_it i \<Longrightarrow> onHand_it (g i) = onHand_it i + quantity_le e \<Longrightarrow>
      balanceAfter_le e = onHand_it (g i) \<Longrightarrow> journal (update_rows (\<lambda>r. id_it r = id_it i) g rows) (es @ [e])"
proof -
  let ?rows = "update_rows (\<lambda>r. id_it r = id_it i) g rows"
  have one: "r = i" if "r \<in> set rows" "id_it r = id_it i" for r
    using that i j by (simp add: journal_def distinct_map inj_on_def)
  have ids: "map id_it ?rows = map id_it rows"
    using one g by (auto simp: update_rows_def)
  then have im: "id_it ` set ?rows = id_it ` set rows" by (metis list.set_map)
  have r: "r \<in> set rows \<and> id_it r \<noteq> id_it i \<or> r = g i" if "r \<in> set ?rows" for r
    using that one by (auto simp: set_update_rows)
  have oi: "onHand_it i = entry_sum es (id_it i)" using j i by (simp add: journal_def)
  show "journal ?rows es" if "onHand_it (g i) = onHand_it i"
  proof -
    have "onHand_it x = entry_sum es (id_it x)" if "x \<in> set ?rows" for x
      using r[OF that] j oi g \<open>onHand_it (g i) = onHand_it i\<close> by (auto simp: journal_def)
    then show ?thesis using j ids im by (simp add: journal_def)
  qed
  show "journal ?rows (es @ [e])"
    if "inventoryItemId_le e = id_it i" "onHand_it (g i) = onHand_it i + quantity_le e"
      "balanceAfter_le e = onHand_it (g i)"
  proof -
    have "onHand_it x = entry_sum (es @ [e]) (id_it x)" if "x \<in> set ?rows" for x
      using r[OF that]
    proof
      assume x: "x \<in> set rows \<and> id_it x \<noteq> id_it i"
      then have "onHand_it x = entry_sum es (id_it x)" using j by (simp add: journal_def)
      with x \<open>inventoryItemId_le e = id_it i\<close> show ?thesis by auto
    next
      assume "x = g i"
      with oi g \<open>inventoryItemId_le e = id_it i\<close> \<open>onHand_it (g i) = onHand_it i + quantity_le e\<close>
      show ?thesis by simp
    qed
    moreover have "running (es @ [e])" using j oi that by (simp add: running_snoc journal_def)
    moreover have "id_it i \<in> id_it ` set rows" using i by blast
    ultimately show ?thesis using j ids im that(1) by (simp add: journal_def)
  qed
qed

lemma transaction_journal:
  assumes "transaction (mutateStock G req) w = (w', r)" and "rows_ok w" and "journal_ok w"
    and "fresh_ids G" and "grid_quantity req"
  shows "journal_ok w'"
  using assms(1)
proof (cases rule: transaction_cases)
  case failed
  then show ?thesis using assms(3) by (simp add: journal_ok_def)
next
  case (completed rs)
  from completed(2) show ?thesis
  proof (cases rule: mutateStock_Inr)
    case (mutated q p)
    note c = check_target_Inr[OF mutated(4)]
    have g: "on_grid 3 q" using assms(5) mutated(1) by (simp add: grid_quantity_def)
    from c obtain w1 t i actor where
      e: "ensureItem 2 G (shopId_q req) (productId_q req) (locationId_q req) (variantId_q req) (Some actor)
         (currentStock_pr p) w = (w1, Inr t)"
      and E: "item_ensured (shopId_q req) (productId_q req) (locationId_q req) (currentStock_pr p) w w1 t"
      and i: "i \<in> set (items w1)" and d: "mutation_done req q w1 i w' rs"
      using apply_mutation_Inr[OF mutated(7) assms(2,4) g] by metis
    have j1: "journal (items w1) (ledger w1)"
      using e assms(3)[unfolded journal_ok_def] assms(4)
      by (rule ensureItem_invariant[where Q = journal])
         (auto intro: journal_update(1) journal_add)
    have "on_grid 3 (onHand_it i)" using E i by (auto simp: item_ensured_def rows_ok_def)
    then have oh: "onHand_it (item_set req q i) = onHand_it i + moved req q" using g by (rule item_set_onHand)
    have items': "items w' = update_rows (\<lambda>r. id_it r = id_it i) (item_set req q) (items w1)"
      using d by (simp add: mutation_done_def)
    show ?thesis
    proof (cases "is_reservation req")
      case True
      then have "ledger w' = ledger w1" "moved req q = 0" using d by (auto simp: mutation_done_def moved_def)
      then show ?thesis
        using journal_update(1)[OF j1 i, of "item_set req q"] oh by (simp add: journal_ok_def items')
    next
      case False
      with d obtain x where "ledger w' = ledger w1 @ [x]" "inventoryItemId_le x = id_it i"
        "quantity_le x = moved req q" "balanceAfter_le x = onHand_it (item_set req q i)"
        by (auto simp: mutation_done_def)
      then show ?thesis
        using journal_update(2)[OF j1 i, of "item_set req q" x] oh by (simp add: journal_ok_def items')
    qed
  qed (use assms(3) in simp_all)
qed

section \<open>Isolation and append-only journals\<close>

text \<open>With a primary key on the rows; the identifiers drawn for new rows are new.\<close>

definition isolates :: "string \<Rightarrow> world \<Rightarrow> world \<Rightarrow> bool" where
  "isolates s w w' \<longleftrightarrow> appends w w' \<and>
     (distinct (map id_it (items w)) \<longrightarrow> distinct (map id_it (items w')) \<and> others_kept s w w')"

lemma reflp_isolates [simp, intro]: "reflp (isolates s)"
  using reflp_appends reflp_others_kept[of s] by (auto simp: reflp_def isolates_def)

lemma transp_isolates [simp, intro]: "transp (isolates s)"
  using transp_appends transp_others_kept[of s] unfolding transp_def isolates_def by blast

lemma keeps_same: "reflp R \<Longrightarrow> (\<And>w. fst (m w) = w) \<Longrightarrow> keeps R m"
  by (simp add: keeps_def reflp_def)

lemma places_only_isolates: "places_only s w w' \<Longrightarrow> isolates s w w'"
  using places_only_others[of s w w'] places_only_appends[of s w w']
  by (auto simp: isolates_def places_only_def)

lemma isolates_items:
  assumes "distinct (map id_it (items w)) \<Longrightarrow> distinct (map id_it (items w'))"
    and "distinct (map id_it (items w)) \<Longrightarrow> filter (\<lambda>x. shopId_it x \<noteq> s) (items w') = filter (\<lambda>x. shopId_it x \<noteq> s) (items w)"
    and "w' = w\<lparr>items := items w'\<rparr>"
  shows "isolates s w w'"
proof -
  have "shops w' = shops w" "warehouses w' = warehouses w" "locations w' = locations w" "products w' = products w"
    "ledger w' = ledger w" "logs w' = logs w" "events w' = events w"
    by (subst assms(3), simp)+
  then show ?thesis using assms(1,2) by (simp add: isolates_def others_kept_def appends_def)
qed

lemma create_item_keeps: "fresh_ids G \<Longrightarrow> keeps (isolates s) (create_item G s p loc v q)"
  unfolding keeps_def create_item_run
  by (intro allI isolates_items) (auto simp: fresh_ids_def used_ids_def)

lemma record_bootstrap_keeps: "keeps (isolates s) (record_bootstrap s p i q by)"
  by (auto simp: record_bootstrap_def keeps_def isolates_def others_kept_def appends_def)

lemma recorderFor_keeps: "keeps (isolates s) (recorderFor s' a)"
  by (intro keeps_same) (auto, metis fst_conv recorderFor_run)

lemma revive_keeps:
  assumes "i \<in> set (items w)" and "shopId_it i = s"
  shows "isolates s w (w\<lparr>items := update_rows (\<lambda>r. id_it r = id_it i) (\<lambda>r. r\<lparr>isDeleted_it := False\<rparr>) (items w)\<rparr>)"
proof (rule isolates_items)
  assume d: "distinct (map id_it (items w))"
  have "r = i" if "r \<in> set (items w)" "id_it r = id_it i" for r
    using that assms(1) d by (simp add: distinct_map inj_on_def)
  then have "update_rows (\<lambda>r. id_it r = id_it i) (\<lambda>r. r\<lparr>isDeleted_it := False\<rparr>) (items w)
      = update_rows (\<lambda>r. id_it r = id_it i \<and> shopId_it r = s) (\<lambda>r. r\<lparr>isDeleted_it := False\<rparr>) (items w)"
    using assms(2) by (intro update_rows_cong) auto
  then show "filter (\<lambda>x. shopId_it x \<noteq> s)
      (items (w\<lparr>items := update_rows (\<lambda>r. id_it r = id_it i) (\<lambda>r. r\<lparr>isDeleted_it := False\<rparr>) (items w)\<rparr>))
      = filter (\<lambda>x. shopId_it x \<noteq> s) (items w)"
    by simp (rule filter_update_rows, auto)
qed (simp_all add: map_update_rows)

lemma ensureItem_keeps: "fresh_ids G \<Longrightarrow> keeps (isolates s) (ensureItem n G s p loc v by cs)"
proof (induction n arbitrary: loc v)
  case 0
  show ?case unfolding ensureItem.simps by (intro keeps_throw reflp_isolates)
next
  case (Suc n)
  have r: "keeps (isolates s) (resolveSaleLocation G s)"
    by (rule keeps_mono[OF resolveSaleLocation_keeps places_only_isolates])
  have none: "keeps (isolates s) (let gap = cs - x in
         bind_eff
           (if v = None \<and> 0 < gap then
              bind_eff (resolveSaleLocation G s) (\<lambda>saleLocationId.
                if saleLocationId = loc then return_eff gap
                else bind_eff (ensureItem n G s p saleLocationId None by cs) (\<lambda>_. return_eff 0))
            else return_eff 0) (\<lambda>bootstrapQty.
         bind_eff (create_item G s p loc v bootstrapQty) (\<lambda>new.
         if 0 < bootstrapQty then
           bind_eff (recorderFor s by) (\<lambda>recordedBy.
           bind_eff (record_bootstrap s p new bootstrapQty recordedBy) (\<lambda>_. return_eff (new, False)))
         else return_eff (new, False))))" for x
    unfolding Let_def
    by (intro keeps_intros r Suc.IH[OF Suc.prems] create_item_keeps[OF Suc.prems] record_bootstrap_keeps recorderFor_keeps)
       simp_all
  show ?case
    unfolding ensureItem.simps
  proof (rule keeps_bind_read)
    fix w
    show "isolates s w (fst ((case find (same_slot s p loc (variant_key v)) (items (id w)) of
       Some i \<Rightarrow>
         bind_eff (if isDeleted_it i
             then write_eff (\<lambda>w. w\<lparr>items := update_rows (\<lambda>r. id_it r = id_it i) (\<lambda>r. r\<lparr>isDeleted_it := False\<rparr>) (items w)\<rparr>)
             else return_eff ())
           (\<lambda>_. return_eff (id_it i, isNegativeAllowed_it i))
     | None \<Rightarrow>
         let gap = cs - live_stock (id w) s p in
         bind_eff
           (if v = None \<and> 0 < gap then
              bind_eff (resolveSaleLocation G s) (\<lambda>saleLocationId.
                if saleLocationId = loc then return_eff gap
                else bind_eff (ensureItem n G s p saleLocationId None by cs) (\<lambda>_. return_eff 0))
            else return_eff 0) (\<lambda>bootstrapQty.
         bind_eff (create_item G s p loc v bootstrapQty) (\<lambda>new.
         if 0 < bootstrapQty then
           bind_eff (recorderFor s by) (\<lambda>recordedBy.
           bind_eff (record_bootstrap s p new bootstrapQty recordedBy) (\<lambda>_. return_eff (new, False)))
         else return_eff (new, False)))) w))"
    proof (cases "find (same_slot s p loc (variant_key v)) (items w)")
      case None
      then show ?thesis using none[of "live_stock w s p"] by (simp add: keeps_def)
    next
      case (Some i)
      then have "i \<in> set (items w)" "shopId_it i = s" by (auto dest: find_SomeD simp: same_slot_def)
      then show ?thesis using Some revive_keeps[of i w s] reflp_isolates[of s] by (simp add: reflp_def)
    qed
  qed
qed

lemma update_item_keeps: "keeps (isolates (shopId_q req)) (update_item req q t)"
  unfolding update_item_def
proof (rule keeps_bind_read)
  fix w :: world
  let ?w = "w\<lparr>items := update_rows (item_matches req q t) (item_set req q) (items w)\<rparr>"
  have "isolates (shopId_q req) w ?w"
  proof (rule isolates_items)
    show "filter (\<lambda>x. shopId_it x \<noteq> shopId_q req) (items ?w) = filter (\<lambda>x. shopId_it x \<noteq> shopId_q req) (items w)"
      by simp (rule filter_update_rows, auto simp: item_matches_def)
  qed (simp_all add: map_update_rows)
  then show "isolates (shopId_q req) w (fst ((if count_rows (item_matches req q t) (items (id w)) = 0
     then throw_eff (item_conflict req (find (\<lambda>i. id_it i = fst t) (items (id w))))
     else write_eff (\<lambda>w. w\<lparr>items := update_rows (item_matches req q t) (item_set req q) (items w)\<rparr>)) w))"
    using reflp_isolates[of "shopId_q req"] by (simp add: reflp_def)
qed

lemma sync_product_keeps: "keeps (isolates (shopId_q req)) (sync_product req q s0)"
proof -
  have w: "isolates (shopId_q req) (w :: world) (w\<lparr>products := update_rows (product_matches req) (product_set req q) (products w)\<rparr>)" for w
  proof -
    have "filter (\<lambda>x. shopId_pr x \<noteq> shopId_q req) (update_rows (product_matches req) (product_set req q) (products w))
        = filter (\<lambda>x. shopId_pr x \<noteq> shopId_q req) (products w)"
      by (rule filter_update_rows) (auto simp: product_matches_def product_set_def)
    then show ?thesis by (simp add: isolates_def others_kept_def appends_def)
  qed
  show ?thesis
    unfolding sync_product_def by (intro keeps_intros w) simp_all
qed

lemma record_movement_keeps: "keeps (isolates (shopId_q req)) (record_movement req q i by)"
  unfolding keeps_def record_movement_run
  by (auto simp: isolates_def others_kept_def appends_def movement_entry_def movement_log_def movement_event_def Let_def)

lemma mutateStock_keeps:
  assumes "fresh_ids G"
  shows "keeps (isolates (shopId_q req)) (mutateStock G req)"
proof -
  have lock: "keeps (isolates (shopId_q req)) (lockProducts s ps)" for s ps
    by (rule keeps_same[OF reflp_isolates]) (simp add: lockProducts_def, metis fst_conv lock_each_run)
  have find: "keeps (isolates (shopId_q req)) (find_processed req)"
    by (rule keeps_same[OF reflp_isolates]) (metis find_processed_run prod.collapse)
  have check: "keeps (isolates (shopId_q req)) (check_target req)"
    by (rule keeps_same[OF reflp_isolates]) (auto simp: check_target_def split: option.splits)
  have a: "keeps (isolates (shopId_q req)) (apply_mutation G req q p)" for q p
    unfolding apply_mutation_def
    by (intro keeps_intros recorderFor_keeps ensureItem_keeps[OF assms] update_item_keeps sync_product_keeps
        record_movement_keeps) simp_all
  show ?thesis
    unfolding mutateStock_def by (intro keeps_intros lock find check a) simp_all
qed

text \<open>C30: a mutation for one shop never touches another: whatever its outcome, the products, items,
  locations and journals of every other shop are exactly as before, and the three journals only
  grow at the end.\<close>

theorem shops_isolated:
  assumes "mutateStock G req w = (w', r)" and "fresh_ids G" and "distinct (map id_it (items w))"
  shows "others_kept (shopId_q req) w w' \<and> appends w w'"
  using keepsD[OF mutateStock_keeps[OF assms(2)] assms(1)] assms(3) by (simp add: isolates_def)

section \<open>Idempotency\<close>

lemma find_append_skip: "(\<And>x. x \<in> set xs \<Longrightarrow> \<not> P x) \<Longrightarrow> find P (xs @ ys) = find P ys"
  by (induction xs) auto

lemma lock_one:
  "p \<in> set (products w) \<Longrightarrow> id_pr p = pid \<Longrightarrow> shopId_pr p = s \<Longrightarrow> lockProducts s [pid] w = (w, Inr [pid])"
  by (auto simp: lockProducts_def find_None_iff)

lemma replay_run:
  assumes "locationId_q req \<noteq> []" and "quantity_q req = Some q" "0 < q"
    and p: "p \<in> set (products w)" "id_pr p = productId_q req" "shopId_pr p = shopId_q req"
    and "find_processed req w = (w, Inr (Some rs))"
  shows "mutateStock G req w = (w, Inr rs)"
  using assms by (simp add: mutateStock_def bind_eff_def lock_one[OF p])

lemma find_processed_own:
  assumes none: "find_processed req w = (w, Inr None)" and key: "truthy (idempotencyKey_q req)"
    and l: "ledger w' = ledger w @ l @ [x]" "\<forall>y \<in> set l. correlationId_le y = None"
    and x: "shopId_le x = shopId_q req" "referenceId_le x = referenceId_q req"
      "correlationId_le x = idempotencyKey_q req"
  shows "find (\<lambda>e. shopId_le e = shopId_q req \<and> referenceId_le e = referenceId_q req \<and>
     correlationId_le e = idempotencyKey_q req) (ledger w') = Some x"
proof -
  let ?P = "\<lambda>e. shopId_le e = shopId_q req \<and> referenceId_le e = referenceId_q req \<and>
     correlationId_le e = idempotencyKey_q req"
  have "find ?P (ledger w) = None"
    using none key by (auto simp: find_processed_def split: option.splits)
  then have "\<not> ?P y" if "y \<in> set (ledger w)" for y using that by (auto simp: find_None_iff)
  moreover have "\<not> ?P y" if "y \<in> set l" for y using l(2) that key by (auto simp: truthy_def)
  ultimately have "\<not> ?P y" if "y \<in> set (ledger w @ l)" for y using that by auto
  then have "find ?P ((ledger w @ l) @ [x]) = find ?P [x]" by (rule find_append_skip)
  then show ?thesis unfolding l(1) using x by simp
qed

text \<open>What a successful stock movement leaves for a repeated request to find.\<close>

lemma product_still_there:
  assumes "map (\<lambda>r. (id_pr r, shopId_pr r)) (products w') = map (\<lambda>r. (id_pr r, shopId_pr r)) (products w)"
    and "p \<in> set (products w)" and "id_pr p = i" and "shopId_pr p = s"
  obtains p' where "p' \<in> set (products w')" "id_pr p' = i" "shopId_pr p' = s"
proof -
  have "(i, s) \<in> set (map (\<lambda>r. (id_pr r, shopId_pr r)) (products w))" using assms(2-4) by force
  then have "(i, s) \<in> set (map (\<lambda>r. (id_pr r, shopId_pr r)) (products w'))" using assms(1) by simp
  then show thesis using that by auto
qed

lemma movement_trace:
  assumes none: "find_processed req w = (w, Inr None)" and key: "truthy (idempotencyKey_q req)" "\<not> is_reservation req"
    and l: "ledger w1 = ledger w @ l" "\<forall>y \<in> set l. correlationId_le y = None"
    and i: "i \<in> set (items w1)" and d: "mutation_done req q w1 i w' rs"
  shows "\<exists>rs'. find_processed req w' = (w', Inr (Some rs')) \<and> idempotent_rs rs' \<and>
     inventoryItemId_rs rs' = inventoryItemId_rs rs \<and> balanceAfter_rs rs' = balanceAfter_rs rs \<and>
     availableAfter_rs rs' = availableAfter_rs rs"
proof -
  let ?i = "item_set req q i"
  from d key obtain x where x: "ledger w' = ledger w1 @ [x]" "shopId_le x = shopId_q req"
    "inventoryItemId_le x = id_it i" "balanceAfter_le x = onHand_it ?i"
    "referenceId_le x = referenceId_q req" "correlationId_le x = idempotencyKey_q req"
    by (auto simp: mutation_done_def)
  have f: "find (\<lambda>e. shopId_le e = shopId_q req \<and> referenceId_le e = referenceId_q req \<and>
     correlationId_le e = idempotencyKey_q req) (ledger w') = Some x"
    using x l by (intro find_processed_own[OF none key(1), of w' l x]) simp_all
  have ok': "rows_ok w'" and items': "items w' = update_rows (\<lambda>r. id_it r = id_it i) (item_set req q) (items w1)"
    using d by (simp_all add: mutation_done_def)
  have "?i \<in> set (items w')" using i by (auto simp: items' set_update_rows)
  then have fi: "find (\<lambda>r. id_it r = id_it i) (items w') = Some ?i"
    using ok' by (intro find_unique[of id_it]) (simp_all add: rows_ok_def)
  show ?thesis using key(1) f x(3,4) fi d by (simp add: find_processed_def mutation_done_def)
qed

text \<open>C29: a repeated movement of stock with the same key is not applied twice: once a keyed movement of what
  is on hand (any mutation but a reservation or its release) has gone through, the same request finds
  its own ledger entry, reports the same item and balance, and leaves every table as it is. A
  reservation writes no ledger entry, so its key protects nothing (\<open>reservation_repeats\<close>).\<close>

theorem mutation_idempotent:
  assumes "mutateStock G req w = (w', Inr rs)" and "rows_ok w" and "fresh_ids G" and "grid_quantity req"
    and "truthy (idempotencyKey_q req)" and "\<not> is_reservation req" and "\<not> bypassed_rs rs" and "\<not> idempotent_rs rs"
  shows "\<exists>rs'. mutateStock G' req w' = (w', Inr rs') \<and> idempotent_rs rs' \<and>
    inventoryItemId_rs rs' = inventoryItemId_rs rs \<and> balanceAfter_rs rs' = balanceAfter_rs rs \<and>
    availableAfter_rs rs' = availableAfter_rs rs"
  using assms(1)
proof (cases rule: mutateStock_Inr)
  case replay
  then show ?thesis using assms(8) by (auto simp: find_processed_def split: if_splits option.splits)
next
  case bypass
  then show ?thesis using assms(7) by simp
next
  case (mutated q p)
  note c = check_target_Inr[OF mutated(4)]
  have g: "on_grid 3 q" using assms(4) mutated(1) by (simp add: grid_quantity_def)
  from c obtain w1 t i actor where
    e: "ensureItem 2 G (shopId_q req) (productId_q req) (locationId_q req) (variantId_q req) (Some actor)
       (currentStock_pr p) w = (w1, Inr t)"
    and E: "item_ensured (shopId_q req) (productId_q req) (locationId_q req) (currentStock_pr p) w w1 t"
    and i: "i \<in> set (items w1)" and d: "mutation_done req q w1 i w' rs"
    using apply_mutation_Inr[OF mutated(7) assms(2,3) g] by metis
  have "\<exists>l. ledger w1 = ledger w @ l \<and> (\<forall>x \<in> set l. correlationId_le x = None)"
    using e _ assms(3)
    by (rule ensureItem_invariant[where Q = "\<lambda>rows es. \<exists>l. es = ledger w @ l \<and> (\<forall>x \<in> set l. correlationId_le x = None)"])
       auto
  then obtain l where l: "ledger w1 = ledger w @ l" "\<forall>x \<in> set l. correlationId_le x = None" by blast
  obtain rs' where rs': "find_processed req w' = (w', Inr (Some rs'))" "idempotent_rs rs'"
      "inventoryItemId_rs rs' = inventoryItemId_rs rs" "balanceAfter_rs rs' = balanceAfter_rs rs"
      "availableAfter_rs rs' = availableAfter_rs rs"
    using movement_trace[OF mutated(3) assms(5,6) l i d] by blast
  have ids: "map (\<lambda>r. (id_pr r, shopId_pr r)) (products w') = map (\<lambda>r. (id_pr r, shopId_pr r)) (products w)"
    using d E by (simp add: mutation_done_def item_ensured_def)
  from c obtain p' where p': "p' \<in> set (products w')" "id_pr p' = productId_q req" "shopId_pr p' = shopId_q req"
    by (elim conjE product_still_there[OF ids, of p])
  have loc: "locationId_q req \<noteq> []" using assms(1) by (auto simp: mutateStock_def split: if_splits)
  from replay_run[OF loc mutated(1,2) p' rs'(1), of G'] rs' show ?thesis by blast
qed

section \<open>Termination of the bootstrap\<close>

lemma ensureItem_at_sale:
  assumes "saleLocationCache w s = Some loc" and "live_location w s loc"
  shows "ensureItem (Suc n) G s p loc v by cs w = ensureItem (Suc m) G s p loc v by cs w"
  using resolveSaleLocation_again[OF assms]
  by (simp add: bind_eff_run split: option.split)

lemma bind_eff_cong:
  "m s = m' s \<Longrightarrow> (\<And>t x. m s = (t, Inr x) \<Longrightarrow> f x t = f' x t) \<Longrightarrow> bind_eff m f s = bind_eff m' f' s"
  by (auto simp: bind_eff_def split: prod.splits sum.splits)

text \<open>the bootstrap recursion is at most two calls deep: a call for another location makes one
  for the sale location, and that one never calls again, so more fuel than two changes nothing.\<close>

theorem ensureItem_two_levels:
  "ensureItem (Suc (Suc n)) G s p loc v by cs = ensureItem 2 G s p loc v by cs"
proof
  fix w
  have two: "2 = Suc (Suc 0)" by simp
  have inner: "bind_eff (resolveSaleLocation G s) (\<lambda>sl.
                if sl = loc then return_eff gap
                else bind_eff (ensureItem (Suc n) G s p sl None by cs) (\<lambda>_. return_eff (0 :: rat))) w
      = bind_eff (resolveSaleLocation G s) (\<lambda>sl.
                if sl = loc then return_eff gap
                else bind_eff (ensureItem (Suc 0) G s p sl None by cs) (\<lambda>_. return_eff (0 :: rat))) w" for gap
  proof (rule bind_eff_cong[OF refl])
    fix t sl assume "resolveSaleLocation G s w = (t, Inr sl)"
    from ensureItem_at_sale[OF resolveSaleLocation_Inr(2)[OF this] resolveSaleLocation_Inr(1)[OF this]]
    have "ensureItem (Suc n) G s p sl None by cs t = ensureItem (Suc 0) G s p sl None by cs t" .
    then have "bind_eff (ensureItem (Suc n) G s p sl None by cs) (\<lambda>_. return_eff (0 :: rat)) t
      = bind_eff (ensureItem (Suc 0) G s p sl None by cs) (\<lambda>_. return_eff (0 :: rat)) t"
      by (simp add: bind_eff_def del: ensureItem.simps)
    then show "(if sl = loc then return_eff gap
                else bind_eff (ensureItem (Suc n) G s p sl None by cs) (\<lambda>_. return_eff (0 :: rat))) t
      = (if sl = loc then return_eff gap
                else bind_eff (ensureItem (Suc 0) G s p sl None by cs) (\<lambda>_. return_eff (0 :: rat))) t"
      by (simp del: ensureItem.simps)
  qed
  show "ensureItem (Suc (Suc n)) G s p loc v by cs w = ensureItem 2 G s p loc v by cs w"
    unfolding two ensureItem.simps(2)[of "Suc n"] ensureItem.simps(2)[of "Suc 0"]
    by (auto simp: Let_def simp del: ensureItem.simps split: option.split intro!: bind_eff_cong inner)
qed

section \<open>Lock order and locations\<close>

text \<open>the product locks of one call are taken one after another in strictly ascending order,
  each product once and all of them in the caller's shop, so two transactions that lock the same
  products never wait for each other in a circle.\<close>

theorem locks_ascending:
  assumes "lockProducts s pids w = (w', Inr ls)"
  shows "w' = w \<and> sorted_wrt (<) ls \<and> set ls = set pids
    \<and> (\<forall>p \<in> set ls. \<exists>r \<in> set (products w). id_pr r = p \<and> shopId_pr r = s)"
proof -
  have ls: "w' = w" "ls = sort (remdups pids)"
    using lock_each_Inr[OF assms[unfolded lockProducts_def]] by simp_all
  have "\<exists>r \<in> set (products w). id_pr r = p \<and> shopId_pr r = s"
    if "lock_each s ps w = (w', Inr xs)" "p \<in> set xs" for ps xs p
    using that by (induction ps arbitrary: xs) (auto simp: bind_eff_Inr split: if_splits dest!: find_SomeD)
  then have "\<forall>p \<in> set ls. \<exists>r \<in> set (products w). id_pr r = p \<and> shopId_pr r = s"
    using assms unfolding lockProducts_def by blast
  then show ?thesis using ls by (simp add: strict_sorted_iff)
qed

text \<open>The sale location is always usable: what \<open>resolveSaleLocation\<close> returns is a live location of
  the shop, remembered or not, even when the remembered one was lost to a rollback, and asking
  again gives the same one and changes nothing.\<close>

theorem sale_location_live:
  assumes "resolveSaleLocation G s w = (w', Inr loc)"
  shows "live_location w' s loc \<and> resolveSaleLocation G' s w' = (w', Inr loc) \<and>
    items w' = items w \<and> products w' = products w \<and> others_kept s w w'"
  using resolveSaleLocation_Inr[OF assms] resolveSaleLocation_again resolveSaleLocation_frame[OF assms]
    places_only_others[OF keepsD[OF resolveSaleLocation_keeps assms]] by blast

section \<open>A shop to run the operations on\<close>

text \<open>An identifier longer than all the others: a concrete source of new ones.\<close>

definition long_id :: "world \<Rightarrow> string" where
  "long_id w = replicate (Suc (sum_list (map length
     (map id_it (items w) @ map id_loc (locations w) @ map id_wh (warehouses w))))) CHR ''x''"

lemma long_id_fresh [simp]: "fresh_ids long_id"
proof -
  have "length x < length (long_id w)" if "x \<in> used_ids w" for x w
  proof -
    have "x \<in> set (map id_it (items w) @ map id_loc (locations w) @ map id_wh (warehouses w))"
      using that by (auto simp: used_ids_def)
    then have "length x \<le> sum_list (map length (map id_it (items w) @ map id_loc (locations w) @ map id_wh (warehouses w)))"
      by (intro member_le_sum_list) (auto simp: image_iff)
    then show ?thesis by (simp add: long_id_def)
  qed
  then show ?thesis unfolding fresh_ids_def by (metis less_irrefl)
qed

definition shop_world :: world where
  "shop_world = \<lparr>shops = [\<lparr>id_sh = ''s'', ownerId_sh = Some ''owner'', state_shop = Some ''Karnataka''\<rparr>],
     warehouses = [\<lparr>id_wh = ''W'', shopId_wh = ''s'', code_wh = ''DEFAULT'', isDeleted_wh = False\<rparr>,
       \<lparr>id_wh = ''B'', shopId_wh = ''s'', code_wh = ''BACK'', isDeleted_wh = False\<rparr>],
     locations = [\<lparr>id_loc = ''L'', shopId_loc = ''s'', warehouseId_loc = ''W'', code_loc = ''DEFAULT_BIN'', isDeleted_loc = False\<rparr>],
     products = [\<lparr>id_pr = ''p'', shopId_pr = ''s'', name_pr = ''Rice'', sku_pr = ''R1'', unit_pr = ''KG'',
       type_pr = SIMPLE, sellingPrice_pr = 50, costPrice_pr = 40, mrp_pr = 60, gstRate_pr = ''FIVE'', cessRate_pr = 0,
       isActive_pr = True, currentStock_pr = 5, stockVersion_pr = 0, isDeleted_pr = False\<rparr>],
     items = [\<lparr>id_it = ''i'', shopId_it = ''s'', productId_it = ''p'', variantKey_it = ''-'', locationId_it = ''L'',
       onHand_it = 5, reserved_it = 1, version_it = 0, isNegativeAllowed_it = False, isDeleted_it = False\<rparr>],
     ledger = [\<lparr>shopId_le = ''s'', inventoryItemId_le = ''i'', movementType_le = SM_OPENING_BALANCE, quantity_le = 5,
       balanceAfter_le = 5, referenceId_le = ''p'', referenceType_le = ''OPENING'', correlationId_le = None, createdBy_le = ''u''\<rparr>],
     logs = [], events = [], saleLocationCache = (\<lambda>_. None), warehouseBinCache = (\<lambda>_. None)\<rparr>"

definition sale_of :: "rat \<Rightarrow> InventoryMutationRequest" where
  "sale_of q = \<lparr>shopId_q = ''s'', locationId_q = ''L'', productId_q = ''p'', quantity_q = Some q,
     mutationType_q = SALE, reason_q = None, referenceId_q = ''inv'', variantId_q = None, performedBy_q = ''u'',
     allowNegative_q = False, direction_q = None, expectedProductVersion_q = None,
     expectedInventoryItemVersion_q = None, idempotencyKey_q = Some ''k''\<rparr>"

lemma grid_nums [simp]: "on_grid 3 1" "on_grid 3 (numeral n)"
  using on_grid_of_int[of 3 1] on_grid_of_int[of 3 "numeral n"] by simp_all

lemma shop_world_ok: "rows_ok shop_world" "balanced shop_world" "floor_ok shop_world" "journal_ok shop_world"
  by (simp_all add: rows_ok_def balanced_def floor_ok_def floor_row_def journal_ok_def journal_def shop_world_def
      live_stock_def live_of_def entry_sum_def running_def)

lemma sale_of_grid [simp]: "grid_quantity (sale_of (numeral n))" "\<not> allowNegative_q (sale_of q)"
  by (simp_all add: grid_quantity_def sale_of_def)

lemma sale_2_stock: "map onHand_it (items (fst (transaction (mutateStock long_id (sale_of 2)) shop_world))) = [3]"
  by code_simp

lemma sale_5_refused: "snd (transaction (mutateStock long_id (sale_of 5)) shop_world) = Inl INSUFFICIENT_STOCK"
  by code_simp





theorem shops_isolated_witness:
  "others_kept ''s'' shop_world (fst (mutateStock long_id (sale_of 2) shop_world))"
  using shops_isolated[of long_id "sale_of 2" shop_world, OF surjective_pairing long_id_fresh]
  by (simp add: shop_world_def sale_of_def)

section \<open>Histories\<close>

text \<open>The two calls that write stock; each runs in a transaction of its own.\<close>

datatype inventory_call =
    Mutate InventoryMutationRequest
  | Ensure string string string "string option" "string option"

fun run_call :: "(world \<Rightarrow> string) \<times> inventory_call \<Rightarrow> world \<Rightarrow> world" where
  "run_call (G, Mutate req) w = fst (transaction (mutateStock G req) w)"
| "run_call (G, Ensure s p loc v by) w = fst (transaction (ensureInventoryItem G s p loc v by) w)"

definition history :: "(world \<Rightarrow> string) \<Rightarrow> inventory_call list \<Rightarrow> world \<Rightarrow> world" where
  "history G calls w = fold run_call (map (Pair G) calls) w"

fun call_allowed :: "(world \<Rightarrow> string) \<times> inventory_call \<Rightarrow> bool" where
  "call_allowed (G, Mutate req) \<longleftrightarrow> fresh_ids G \<and> grid_quantity req"
| "call_allowed (G, Ensure s p loc v by) \<longleftrightarrow> fresh_ids G"

fun call_guarded :: "(world \<Rightarrow> string) \<times> inventory_call \<Rightarrow> bool" where
  "call_guarded (G, Mutate req) \<longleftrightarrow> fresh_ids G \<and> grid_quantity req \<and> \<not> allowNegative_q req"
| "call_guarded (G, Ensure s p loc v by) \<longleftrightarrow> fresh_ids G"

lemma ensureInventoryItem_Inr:
  assumes "ensureInventoryItem G s p loc v by w = (w', Inr t)" and ok: "rows_ok w"
  obtains r actor where "r \<in> set (products w)" "id_pr r = p" "shopId_pr r = s"
    "ensureItem 2 G s p loc v (Some actor) (currentStock_pr r) w = (w', Inr t)"
proof -
  from assms(1) obtain ls r actor where l: "lockProducts s [p] w = (w, Inr ls)"
    and r: "find (\<lambda>r. id_pr r = p) (products w) = Some r"
    and e: "ensureItem 2 G s p loc v (Some actor) (currentStock_pr r) w = (w', Inr t)"
    by (auto simp: ensureInventoryItem_def lockProducts_def bind_eff_Inr split: option.splits if_splits
        dest!: lock_each_Inr recorderFor_Inr)
  from l obtain r' where r': "find (\<lambda>r. id_pr r = p \<and> shopId_pr r = s) (products w) = Some r'"
    by (auto simp: lockProducts_def split: if_splits)
  have "r \<in> set (products w)" "id_pr r = p" "r' \<in> set (products w)" "id_pr r' = p" "shopId_pr r' = s"
    using find_SomeD[OF r] find_SomeD[OF r'] by simp_all
  moreover from this ok have "r' = r" by (simp add: rows_ok_def distinct_map inj_on_def)
  ultimately show thesis using that[OF _ _ _ e] by simp
qed

lemma run_call_cases:
  assumes "rows_ok w" and "call_allowed c"
  obtains (kept) "items (run_call c w) = items w" "products (run_call c w) = products w" "ledger (run_call c w) = ledger w"
  | (mutated) G req rs where "c = (G, Mutate req)" "transaction (mutateStock G req) w = (run_call c w, Inr rs)"
  | (ensured) G r actor s p loc v t where "c = (G, Ensure s p loc v actor)" "fresh_ids G"
      "r \<in> set (products w)" "id_pr r = p" "shopId_pr r = s"
      "\<exists>actor. ensureItem 2 G s p loc v (Some actor) (currentStock_pr r) w = (run_call c w, Inr t)"
proof (cases "(c, w)" rule: run_call.cases)
  case (1 G req w')
  then have e: "transaction (mutateStock G req) w = (run_call c w, snd (transaction (mutateStock G req) w))" by simp
  then show thesis
  proof (cases rule: transaction_cases)
    case failed
    then show thesis by (intro kept)
  next
    case (completed x)
    have "c = (G, Mutate req)" using 1 by simp
    moreover have "transaction (mutateStock G req) w = (run_call c w, Inr x)" using e completed(1) by simp
    ultimately show thesis by (rule mutated)
  qed
next
  case (2 G s p loc v actor w')
  then have e: "transaction (ensureInventoryItem G s p loc v actor) w
      = (run_call c w, snd (transaction (ensureInventoryItem G s p loc v actor) w))" by simp
  then show thesis
  proof (cases rule: transaction_cases)
    case failed
    then show thesis by (intro kept)
  next
    case (completed t)
    from ensureInventoryItem_Inr[OF completed(2) assms(1)] obtain r a where
      "r \<in> set (products w)" "id_pr r = p" "shopId_pr r = s"
      "ensureItem 2 G s p loc v (Some a) (currentStock_pr r) w = (run_call c w, Inr t)" by metis
    with 2 assms(2) show thesis by (intro ensured[of G s p loc v actor r t]) auto
  qed
qed

lemma run_call_balanced:
  assumes "call_allowed c" and "rows_ok w \<and> balanced w"
  shows "rows_ok (run_call c w) \<and> balanced (run_call c w)"
proof -
  have ok: "rows_ok w" using assms(2) by simp
  from ok assms(1) show ?thesis
  proof (cases rule: run_call_cases)
    case kept
    then show ?thesis
      using assms(2) rows_ok_cong[of "run_call c w" w] live_stock_cong[of "run_call c w" w] by (simp add: balanced_def)
  next
    case (mutated G req rs)
    then show ?thesis using transaction_balanced[OF mutated(2)] assms by simp
  next
    case (ensured G r actor s p loc v t)
    then obtain a where e: "ensureItem 2 G s p loc v (Some a) (currentStock_pr r) w = (run_call c w, Inr t)" by blast
    have "on_grid 3 (currentStock_pr r)" using ok ensured(3) by (simp add: rows_ok_def)
    from ensureItem_ok[OF e ok ensured(2) this]
    have E: "item_ensured s p loc (currentStock_pr r) w (run_call c w) t" .
    have "live_stock w s p = currentStock_pr r" using assms(2) ensured(3-5) by (auto simp: balanced_def)
    then have "live_stock (run_call c w) s' p' = live_stock w s' p'" for s' p'
      using E by (cases "(s', p') = (s, p)") (auto simp: item_ensured_def)
    then show ?thesis using E assms(2) by (simp add: item_ensured_def balanced_def)
  qed
qed

lemma run_call_floor:
  assumes "call_guarded c" and "rows_ok w \<and> floor_ok w"
  shows "rows_ok (run_call c w) \<and> floor_ok (run_call c w)"
proof -
  have ok: "rows_ok w" and al: "call_allowed c" using assms by (simp, cases c rule: call_guarded.cases, simp_all)
  from ok al show ?thesis
  proof (cases rule: run_call_cases)
    case kept
    then show ?thesis using assms(2) rows_ok_cong[of "run_call c w" w] by (simp add: floor_ok_def)
  next
    case (mutated G req rs)
    then show ?thesis using transaction_floor[OF mutated(2)] transaction_rows[OF mutated(2)] assms by simp
  next
    case (ensured G r actor s p loc v t)
    then obtain a where e: "ensureItem 2 G s p loc v (Some a) (currentStock_pr r) w = (run_call c w, Inr t)" by blast
    have "on_grid 3 (currentStock_pr r)" using ok ensured(3) by (simp add: rows_ok_def)
    from ensureItem_ok[OF e ok ensured(2) this] have "rows_ok (run_call c w)" by (simp add: item_ensured_def)
    moreover have "\<forall>r \<in> set (items (run_call c w)). floor_row r"
      using e assms(2)[unfolded floor_ok_def, THEN conjunct2] ensured(2)
      by (rule ensureItem_invariant[where Q = "\<lambda>rows es. \<forall>r \<in> set rows. floor_row r"])
         (auto simp: floor_row_def fresh_row_def set_update_rows)
    ultimately show ?thesis by (simp add: floor_ok_def)
  qed
qed

lemma run_call_journal:
  assumes "call_allowed c" and "rows_ok w \<and> journal_ok w"
  shows "rows_ok (run_call c w) \<and> journal_ok (run_call c w)"
proof -
  have ok: "rows_ok w" using assms(2) by simp
  from ok assms(1) show ?thesis
  proof (cases rule: run_call_cases)
    case kept
    then show ?thesis using assms(2) rows_ok_cong[of "run_call c w" w] by (simp add: journal_ok_def)
  next
    case (mutated G req rs)
    then show ?thesis using transaction_journal[OF mutated(2)] transaction_rows[OF mutated(2)] assms by simp
  next
    case (ensured G r actor s p loc v t)
    then obtain a where e: "ensureItem 2 G s p loc v (Some a) (currentStock_pr r) w = (run_call c w, Inr t)" by blast
    have "on_grid 3 (currentStock_pr r)" using ok ensured(3) by (simp add: rows_ok_def)
    from ensureItem_ok[OF e ok ensured(2) this] have "rows_ok (run_call c w)" by (simp add: item_ensured_def)
    moreover have "journal (items (run_call c w)) (ledger (run_call c w))"
      using e assms(2)[unfolded journal_ok_def, THEN conjunct2] ensured(2)
      by (rule ensureItem_invariant[where Q = journal]) (auto intro: journal_update(1) journal_add)
    ultimately show ?thesis by (simp add: journal_ok_def)
  qed
qed

interpretation aggregate: step_system run_call call_allowed "\<lambda>w. rows_ok w \<and> balanced w"
  by unfold_locales (rule run_call_balanced)

interpretation shelf: step_system run_call call_guarded "\<lambda>w. rows_ok w \<and> floor_ok w"
  by unfold_locales (rule run_call_floor)

interpretation bookkeeping: step_system run_call call_allowed "\<lambda>w. rows_ok w \<and> journal_ok w"
  by unfold_locales (rule run_call_journal)

text \<open>C17: stock is conserved: after any history of mutations and item creations, completed or
  refused, every product's aggregate \<open>currentStock\<close> equals the sum of \<open>onHand\<close> over its live rows,
  and the primary keys and the column grid still hold.\<close>

theorem stock_conserved:
  assumes "rows_ok w" and "balanced w" and "fresh_ids G" and "list_all (\<lambda>c. call_allowed (G, c)) calls"
  shows "rows_ok (history G calls w) \<and> balanced (history G calls w)"
  using aggregate.history[of "map (Pair G) calls" w] assms
  by (simp add: history_def list_all_iff)

text \<open>C27: without the caller's permission no history takes stock that is not there: every row that
  may not go negative keeps \<open>0 <= reserved <= onHand\<close>, so what is reserved is never sold and the
  shelf never goes below zero, whatever the sales, returns, reservations and releases.\<close>

theorem stock_floor:
  assumes "rows_ok w" and "floor_ok w" and "list_all (\<lambda>c. call_guarded (G, c)) calls"
  shows "floor_ok (history G calls w)"
  using shelf.history[of "map (Pair G) calls" w] assms by (simp add: history_def list_all_iff)

text \<open>C28: the stock journal explains the stock: after any history \<open>onHand\<close> of every row is the sum of
  the row's ledger entries, and every entry's \<open>balanceAfter\<close> is the running balance at the moment
  it was written, so the stock at any earlier entry can be read back from it.\<close>

theorem journal_explains_stock:
  assumes "rows_ok w" and "journal_ok w" and "list_all (\<lambda>c. call_allowed (G, c)) calls"
  shows "journal_ok (history G calls w)"
  using bookkeeping.history[of "map (Pair G) calls" w] assms by (simp add: history_def list_all_iff)

text \<open>Two on hand are sold; five are refused, since one of the five on hand is reserved.\<close>

definition sample_calls :: "inventory_call list" where
  "sample_calls = [Mutate (sale_of 5), Mutate (sale_of 2), Ensure ''s'' ''p'' ''L'' None None]"

lemma sample_calls_allowed:
  "list_all (\<lambda>c. call_allowed (long_id, c)) sample_calls" "list_all (\<lambda>c. call_guarded (long_id, c)) sample_calls"
  by (simp_all add: sample_calls_def)

lemma sample_history: "map onHand_it (items (history long_id sample_calls shop_world)) = [3]"
  by code_simp

theorem stock_conserved_witness:
  "balanced (history long_id sample_calls shop_world)
    \<and> map onHand_it (items (history long_id sample_calls shop_world)) = [3]"
  using stock_conserved[OF shop_world_ok(1,2) long_id_fresh sample_calls_allowed(1)] sample_history by blast

theorem stock_floor_witness:
  "floor_ok (history long_id sample_calls shop_world)
    \<and> snd (transaction (mutateStock long_id (sale_of 5)) shop_world) = Inl INSUFFICIENT_STOCK"
  using stock_floor[OF shop_world_ok(1,3) sample_calls_allowed(2)] sale_5_refused by blast

theorem journal_explains_stock_witness: "journal_ok (history long_id sample_calls shop_world)"
  by (rule journal_explains_stock[OF shop_world_ok(1,4) sample_calls_allowed(1)])

lemma sale_2_result:
  "map_sum id (\<lambda>rs. (bypassed_rs rs, idempotent_rs rs, balanceAfter_rs rs)) (snd (mutateStock long_id (sale_of 2) shop_world))
    = Inr (False, False, 3)"
  by code_simp

theorem mutation_idempotent_witness:
  "\<exists>rs'. mutateStock long_id (sale_of 2) (fst (mutateStock long_id (sale_of 2) shop_world))
      = (fst (mutateStock long_id (sale_of 2) shop_world), Inr rs') \<and> idempotent_rs rs' \<and> balanceAfter_rs rs' = 3"
proof -
  obtain rs where rs: "snd (mutateStock long_id (sale_of 2) shop_world) = Inr rs" "\<not> bypassed_rs rs"
    "\<not> idempotent_rs rs" "balanceAfter_rs rs = 3"
    using sale_2_result by (cases "snd (mutateStock long_id (sale_of 2) shop_world)") auto
  then have m: "mutateStock long_id (sale_of 2) shop_world = (fst (mutateStock long_id (sale_of 2) shop_world), Inr rs)"
    by (simp add: prod_eq_iff)
  have k: "truthy (idempotencyKey_q (sale_of 2))" "\<not> is_reservation (sale_of 2)"
    by (simp_all add: sale_of_def truthy_def is_reservation_def)
  from mutation_idempotent[OF m shop_world_ok(1) long_id_fresh sale_of_grid(1) k rs(2,3)] rs(4)
  show ?thesis by metis
qed

text \<open>A reservation sent twice under one key reserves twice: its first run leaves no entry to find.\<close>

lemma reservation_repeats:
  "(let hold = (sale_of 1)\<lparr>mutationType_q := RESERVATION\<rparr>; once = fst (mutateStock long_id hold shop_world)
    in (map reserved_it (items shop_world), map reserved_it (items once),
        map reserved_it (items (fst (mutateStock long_id hold once))), ledger once = ledger shop_world)) = ([1], [2], [3], True)"
  by code_simp

theorem locks_ascending_witness: "\<exists>ls. lockProducts ''s'' [''p'', ''p''] shop_world = (shop_world, Inr ls) \<and> sorted_wrt (<) ls"
proof -
  have "lockProducts ''s'' [''p'', ''p''] shop_world = (shop_world, Inr [''p''])"
    by (simp add: lockProducts_def shop_world_def)
  from locks_ascending[OF this] this show ?thesis by blast
qed

theorem sale_location_live_witness: "live_location shop_world ''s'' ''L''"
proof -
  obtain w' where r: "resolveSaleLocation long_id ''s'' shop_world = (w', Inr ''L'')" "locations w' = locations shop_world"
    by (simp add: resolveSaleLocation_def Let_def shop_world_def findDefaultBin_def find_default_warehouse_def findBin_def
        DEFAULT_WAREHOUSE_CODE_def DEFAULT_BIN_CODE_def)
  from sale_location_live[OF r(1)] r(2) show ?thesis by (simp add: live_location_def)
qed

section \<open>The bin of a warehouse\<close>

text \<open>The remembered bin of a warehouse can be lost for good: when the transaction that made the
  bin fails, the row is rolled back but the process keeps its id, and from then on
  \<open>resolveWarehouseBin\<close> answers with a location that does not exist, without looking.\<close>

theorem warehouse_bin_dangling:
  assumes "warehouseBinCache w (bin_key s wid) = None" and "wid \<noteq> []" and "fresh_ids G"
    and "find (\<lambda>x. id_wh x = wid \<and> shopId_wh x = s \<and> \<not> isDeleted_wh x) (warehouses w) \<noteq> None"
    and "findBin w s wid DEFAULT_BIN_CODE = None" and "find (\<lambda>x. id_sh x = s) (shops w) \<noteq> None"
  shows "\<exists>w' loc. transaction (bind_eff (resolveWarehouseBin G s (Some wid)) (\<lambda>_. throw_eff e)) w = (w', Inl e)
    \<and> resolveWarehouseBin G s (Some wid) w' = (w', Inr loc) \<and> \<not> live_location w' s loc"
proof -
  let ?w' = "w\<lparr>warehouseBinCache := (warehouseBinCache w)(bin_key s wid \<mapsto> G w)\<rparr>"
  have "transaction (bind_eff (resolveWarehouseBin G s (Some wid)) (\<lambda>_. throw_eff e)) w = (?w', Inl e)"
    using assms by (auto simp: transaction_def resolveWarehouseBin_def withShopLock_def ensureBin_def bind_eff_def)
  moreover have "resolveWarehouseBin G s (Some wid) ?w' = (?w', Inr (G w))"
    using assms(2) by (simp add: resolveWarehouseBin_def)
  moreover have "G w \<notin> used_ids w" using assms(3) by (simp add: fresh_ids_def)
  then have "\<not> live_location ?w' s (G w)"
    by (auto simp: live_location_mem used_ids_def) (metis imageI)
  ultimately show ?thesis by blast
qed

theorem warehouse_bin_dangling_witness:
  "\<exists>w' loc. transaction (bind_eff (resolveWarehouseBin long_id ''s'' (Some ''B'')) (\<lambda>_. throw_eff INSUFFICIENT_STOCK))
      shop_world = (w', Inl INSUFFICIENT_STOCK)
    \<and> resolveWarehouseBin long_id ''s'' (Some ''B'') w' = (w', Inr loc) \<and> \<not> live_location w' ''s'' loc"
  by (rule warehouse_bin_dangling)
     (simp_all add: shop_world_def findBin_def)

end
