(* ===== verification/JsNumber.thy ===== *)
theory JsNumber
  imports Prelude
begin

text \<open>
  The numbers of the language: IEEE doubles as the web client computes with them. A finite
  number is the rational it denotes (the two zeros are one value); \<open>double\<close> rounds an exact
  result to 53 significant bits, ties to even, and overflows to an infinity.
\<close>

datatype js_number = JNaN | JPosInf | JNegInf | JNum rat

section \<open>Rounding to a double\<close>

text \<open>How many digits a positive integer has in a base, and the exponent of the leading bit of
  a positive rational.\<close>

function digit_count :: "int \<Rightarrow> int \<Rightarrow> int" where
  "digit_count b n = (if n \<le> 0 \<or> b \<le> 1 then 0 else 1 + digit_count b (n div b))"
  by auto
termination
  by (relation "measure (\<lambda>(b, n). nat n)") (auto simp: int_div_less_self)

declare digit_count.simps [simp del]

definition lead_bit :: "rat \<Rightarrow> int" where
  "lead_bit x =
     (let (a, b) = quotient_of x; k = digit_count 2 a - digit_count 2 b
      in if 2 powi k \<le> x then k else k - 1)"

definition round_even :: "rat \<Rightarrow> int" where
  "round_even y =
     (let f = \<lfloor>y\<rfloor>; r = y - of_int f
      in if r < 1 / 2 then f else if 1 / 2 < r then f + 1 else if even f then f else f + 1)"

text \<open>The place of the last of the 53 bits, not below that of the subnormal numbers.\<close>

definition last_place :: "rat \<Rightarrow> rat" where
  "last_place x = 2 powi (max (-1074) (lead_bit x - 52))"

definition round_double :: "rat \<Rightarrow> rat" where
  "round_double x =
     (if x = 0 then 0
      else sgn x * (of_int (round_even (\<bar>x\<bar> / last_place \<bar>x\<bar>)) * last_place \<bar>x\<bar>))"

definition double :: "rat \<Rightarrow> js_number" where
  "double x =
     (let y = round_double x
      in if y = 0 \<or> lead_bit \<bar>y\<bar> < 1024 then JNum y else if 0 < y then JPosInf else JNegInf)"

section \<open>What the client does with numbers\<close>

fun is_finite :: "js_number \<Rightarrow> bool" where
  "is_finite (JNum _) = True"
| "is_finite _ = False"

fun js_add :: "js_number \<Rightarrow> js_number \<Rightarrow> js_number" where
  "js_add (JNum a) (JNum b) = double (a + b)"
| "js_add JNaN _ = JNaN"
| "js_add _ JNaN = JNaN"
| "js_add JPosInf JNegInf = JNaN"
| "js_add JNegInf JPosInf = JNaN"
| "js_add JPosInf _ = JPosInf"
| "js_add JNegInf _ = JNegInf"
| "js_add _ JPosInf = JPosInf"
| "js_add _ JNegInf = JNegInf"

fun js_neg :: "js_number \<Rightarrow> js_number" where
  "js_neg (JNum a) = JNum (- a)"
| "js_neg JPosInf = JNegInf"
| "js_neg JNegInf = JPosInf"
| "js_neg JNaN = JNaN"

definition js_sub :: "js_number \<Rightarrow> js_number \<Rightarrow> js_number" where
  "js_sub a b = js_add a (js_neg b)"

text \<open>\<open>a < b\<close>; every comparison with \<open>NaN\<close> is false.\<close>

fun js_less :: "js_number \<Rightarrow> js_number \<Rightarrow> bool" where
  "js_less (JNum a) (JNum b) = (a < b)"
| "js_less JNegInf (JNum _) = True"
| "js_less JNegInf JPosInf = True"
| "js_less (JNum _) JPosInf = True"
| "js_less _ _ = False"

text \<open>\<open>a === b\<close>: \<open>NaN\<close> differs from itself.\<close>

definition js_same :: "js_number \<Rightarrow> js_number \<Rightarrow> bool" where
  "js_same a b \<longleftrightarrow> a = b \<and> a \<noteq> JNaN"

definition js_le :: "js_number \<Rightarrow> js_number \<Rightarrow> bool" where
  "js_le a b \<longleftrightarrow> js_less a b \<or> js_same a b"

text \<open>\<open>Number(x) || 0\<close> on a number, and \<open>x || d\<close>.\<close>

definition js_or :: "js_number \<Rightarrow> js_number \<Rightarrow> js_number" where
  "js_or x d = (if x = JNaN \<or> x = JNum 0 then d else x)"

fun is_integer :: "js_number \<Rightarrow> bool" where
  "is_integer (JNum a) = (of_int \<lfloor>a\<rfloor> = a)"
| "is_integer _ = False"

text \<open>
  \<open>Number(x.toFixed(n))\<close>: below \<open>10^21\<close> the text is the nearest decimal with n places (the
  larger in magnitude of two), at or above it is the number's own text.
\<close>

fun js_to_fixed :: "nat \<Rightarrow> js_number \<Rightarrow> js_number" where
  "js_to_fixed n (JNum a) = (if \<bar>a\<bar> < 10 ^ 21 then double (half_up n a) else JNum a)"
| "js_to_fixed n x = x"

section \<open>The text of a number\<close>

text \<open>
  \<open>Number::toString\<close> reads back: the decimal with the fewest digits that rounds to the
  number, the nearest one of those. \<open>digits_at k\<close> holds the candidates with k significant
  digits; 17 digits always identify a double, so the search goes no further.
\<close>

fun decimal_scale :: "nat \<Rightarrow> rat \<Rightarrow> rat" where
  "decimal_scale n x =
     (let (a, b) = quotient_of x; k = int n + digit_count 10 b - digit_count 10 a
      in if 10 ^ n \<le> x * 10 powi k then 10 powi (k - 1) else 10 powi k)"

text \<open>Of the two neighbours with k digits, those that round to the number, the nearer first.\<close>

definition digits_at :: "nat \<Rightarrow> rat \<Rightarrow> rat list" where
  "digits_at k x =
     (let s = decimal_scale k x; lo = of_int \<lfloor>x * s\<rfloor> / s; hi = of_int \<lceil>x * s\<rceil> / s
      in filter (\<lambda>d. round_double d = x) (if x - lo < hi - x then [lo, hi] else [hi, lo]))"

fun shortest_from :: "nat \<Rightarrow> nat \<Rightarrow> rat \<Rightarrow> rat" where
  "shortest_from 0 k x = x"
| "shortest_from (Suc n) k x =
     (case digits_at k x of d # _ \<Rightarrow> d | [] \<Rightarrow> shortest_from n (Suc k) x)"

definition number_text :: "rat \<Rightarrow> rat" where
  "number_text x = (if x = 0 then 0 else sgn x * shortest_from 17 1 \<bar>x\<bar>)"


section \<open>Rounding is within half a place\<close>

lemma digit_count_pos: "1 < b \<Longrightarrow> 0 < n \<Longrightarrow> 0 < digit_count b n"
proof (induction b n rule: digit_count.induct)
  case (1 b n)
  then show ?case
    by (cases "0 < n div b") (auto simp: digit_count.simps[of b n] digit_count.simps[of b "n div b"])
qed

lemma digit_count_bounds:
  "1 < b \<Longrightarrow> 0 < n \<Longrightarrow> b ^ nat (digit_count b n - 1) \<le> n \<and> n < b ^ nat (digit_count b n)"
proof (induction b n rule: digit_count.induct)
  case (1 b n)
  have step: "digit_count b n = 1 + digit_count b (n div b)"
    using 1 by (simp add: digit_count.simps[of b n])
  have split: "n = b * (n div b) + n mod b" "0 \<le> n mod b" "n mod b < b"
    using 1 by (auto simp: pos_mod_bound)
  show ?case
  proof (cases "0 < n div b")
    case True
    define m where "m = n div b"
    define k where "k = nat (digit_count b m - 1)"
    have c: "0 < digit_count b m" using digit_count_pos 1 True by (simp add: m_def)
    then have k: "nat (digit_count b m) = Suc k" "nat (digit_count b n - 1) = Suc k"
      "nat (digit_count b n) = Suc (Suc k)"
      by (auto simp: k_def step m_def)
    have ih: "b ^ k \<le> m" "m < b ^ Suc k"
      using 1 True k(1) by (auto simp: m_def k_def simp del: power_Suc)
    have "b * b ^ k \<le> b * m" using ih(1) 1 by simp
    moreover have "b * (m + 1) \<le> b * b ^ Suc k"
      by (rule mult_left_mono) (use ih(2) 1 in auto)
    ultimately have "b * b ^ k \<le> n" "n < b * b ^ Suc k"
      using split unfolding m_def distrib_left by linarith+
    then show ?thesis by (simp add: k)
  next
    case False
    moreover have "0 \<le> n div b" using 1 by (simp add: pos_imp_zdiv_nonneg_iff)
    ultimately have "n div b = 0" by linarith
    then show ?thesis using split 1 by (simp add: step digit_count.simps[of b 0])
  qed
qed

lemma powi_of_int: "0 \<le> k \<Longrightarrow> (2::rat) powi k = of_int (2 ^ nat k)"
  by (simp add: power_int_def)

lemma two_digits:
  assumes "0 < a"
  shows "(2::rat) powi (digit_count 2 a - 1) \<le> of_int a" "of_int a < (2::rat) powi digit_count 2 a"
proof -
  have c: "0 < digit_count 2 a" using digit_count_pos assms by simp
  then have "0 \<le> digit_count 2 a - 1" "0 \<le> digit_count 2 a" by simp_all
  with digit_count_bounds[of 2 a] assms
  show "(2::rat) powi (digit_count 2 a - 1) \<le> of_int a" "of_int a < (2::rat) powi digit_count 2 a"
    by (simp_all only: powi_of_int of_int_le_iff of_int_less_iff)
qed

lemma lead_bit_bounds:
  assumes "0 < x"
  shows "2 powi lead_bit x \<le> x \<and> x < 2 powi (lead_bit x + 1)"
proof -
  obtain a b where q: "quotient_of x = (a, b)" by fastforce
  have b: "0 < b" using quotient_of_denom_pos[OF q] .
  have x: "x = of_int a / of_int b" using quotient_of_div[OF q] .
  have a: "0 < a" using assms b by (simp add: x zero_less_divide_iff)
  define i j where "i = digit_count 2 a" and "j = digit_count 2 b"
  have i: "(2::rat) powi (i - 1) \<le> of_int a" "of_int a < (2::rat) powi i"
    using two_digits[OF a] by (simp_all add: i_def)
  have j: "(2::rat) powi (j - 1) \<le> of_int b" "of_int b < (2::rat) powi j"
    using two_digits[OF b] by (simp_all add: j_def)
  have bpos: "(0::rat) < of_int b" using b by simp
  have upper: "x < 2 powi (i - j + 1)"
  proof -
    have "x < 2 powi i / of_int b" using i(2) bpos by (simp add: x divide_strict_right_mono)
    also have "\<dots> \<le> 2 powi i / 2 powi (j - 1)" using j(1) bpos by (intro divide_left_mono) (auto simp: mult_pos_pos)
    also have "\<dots> = 2 powi (i - (j - 1))" by (rule power_int_diff[symmetric]) simp
    also have "i - (j - 1) = i - j + 1" by simp
    finally show ?thesis .
  qed
  have lower: "2 powi (i - j - 1) \<le> x"
  proof -
    have "i - j - 1 = i - 1 - j" by simp
    then have "2 powi (i - j - 1) = 2 powi (i - 1) / (2::rat) powi j"
      by (simp only:) (rule power_int_diff, simp)
    also have "\<dots> \<le> 2 powi (i - 1) / of_int b" using j(2) bpos by (intro divide_left_mono) auto
    also have "\<dots> \<le> x" using i(1) bpos by (simp add: x divide_right_mono)
    finally show ?thesis .
  qed
  show ?thesis using upper lower by (auto simp: lead_bit_def q i_def j_def Let_def not_le)
qed

lemma round_even_error: "\<bar>of_int (round_even y) - y\<bar> \<le> 1 / 2"
proof -
  have "of_int \<lfloor>y\<rfloor> \<le> y" "y < of_int \<lfloor>y\<rfloor> + 1" by linarith+
  then show ?thesis by (auto simp: round_even_def Let_def abs_le_iff)
qed

lemma last_place_pos [simp]: "0 < last_place x"
  by (simp add: last_place_def)

lemma round_double_minus: "round_double (- x) = - round_double x"
  by (simp add: round_double_def)

lemma round_even_nonneg: "0 \<le> y \<Longrightarrow> 0 \<le> round_even y"
  by (simp add: round_even_def Let_def add_nonneg_nonneg)

lemma round_double_nonneg: "0 \<le> x \<Longrightarrow> 0 \<le> round_double x"
  by (simp add: round_double_def round_even_nonneg less_imp_le sgn_if)

lemma round_double_error: "\<bar>round_double x - x\<bar> \<le> last_place \<bar>x\<bar> / 2"
proof (cases "x = 0")
  case False
  define p where "p = last_place \<bar>x\<bar>"
  have p: "0 < p" by (simp add: p_def)
  have "round_double x - x = sgn x * ((of_int (round_even (\<bar>x\<bar> / p)) - \<bar>x\<bar> / p) * p)"
    using False p by (simp add: round_double_def p_def[symmetric] left_diff_distrib right_diff_distrib sgn_mult_abs)
  then have "\<bar>round_double x - x\<bar> = \<bar>of_int (round_even (\<bar>x\<bar> / p)) - \<bar>x\<bar> / p\<bar> * p"
    using False p by (simp add: abs_mult abs_sgn_eq)
  also have "\<dots> \<le> 1 / 2 * p" using round_even_error p by (intro mult_right_mono) auto
  finally show ?thesis by (simp add: p_def)
qed (simp add: round_double_def less_imp_le)

text \<open>Below \<open>2^30\<close> a double is within \<open>2^-24\<close> of the exact value.\<close>

lemma last_place_small:
  assumes "x < 2 ^ 30" and "0 < x"
  shows "last_place x \<le> 1 / 2 ^ 23"
proof -
  have "(2::rat) powi lead_bit x < 2 powi 30" using lead_bit_bounds[OF assms(2)] assms(1) by simp
  then have "lead_bit x < 30"
    using power_int_increasing[of 30 "lead_bit x" "2::rat"] by fastforce
  then have "max (- 1074) (lead_bit x - 52) \<le> - 23" by simp
  then have "last_place x \<le> 2 powi (- 23)"
    unfolding last_place_def by (intro power_int_increasing) auto
  then show ?thesis by (simp add: power_int_minus)
qed

lemma round_double_close:
  assumes "\<bar>x\<bar> < 2 ^ 30"
  shows "\<bar>round_double x - x\<bar> \<le> 1 / 2 ^ 24"
proof (cases "x = 0")
  case False
  then have "last_place \<bar>x\<bar> \<le> 1 / 2 ^ 23" using assms by (intro last_place_small) auto
  with round_double_error[of x] show ?thesis by simp
qed (simp add: round_double_def)

lemma lead_bit_small: "0 < x \<Longrightarrow> x < 2 ^ 1023 \<Longrightarrow> lead_bit x < 1024"
  using lead_bit_bounds[of x] power_int_increasing[of 1023 "lead_bit x" "2::rat"] by fastforce

lemma double_small:
  assumes "\<bar>x\<bar> < 2 ^ 30"
  shows "double x = JNum (round_double x)"
proof -
  have "\<bar>round_double x\<bar> < 2 ^ 31" using round_double_close[OF assms] assms by (simp add: abs_if split: if_splits)
  also have "(2::rat) ^ 31 \<le> 2 ^ 1023" by (intro power_increasing) auto
  finally have "\<bar>round_double x\<bar> < 2 ^ 1023" .
  then have "round_double x = 0 \<or> lead_bit \<bar>round_double x\<bar> < 1024"
    using lead_bit_small[of "\<bar>round_double x\<bar>"] zero_less_abs_iff[of "round_double x"] by blast
  then show ?thesis by (simp add: double_def Let_def)
qed


section \<open>Decimals in doubles\<close>

text \<open>
  The number nearest to a decimal with n places, for the sizes a counter deals in. Fixing it
  to n places gives it back, which is the client's test for too many decimals, and sums of two
  of them are put right by fixing the sum.
\<close>

lemma half_up_unique:
  assumes "on_grid n y" and "\<bar>x - y\<bar> < 1 / 2 / 10 ^ n"
  shows "half_up n x = y"
proof (rule ccontr)
  assume ne: "half_up n x \<noteq> y"
  have "on_grid n (half_up n x - y)" by (intro on_grid_diff on_grid_half_up assms(1))
  then have "1 / 10 ^ n \<le> \<bar>half_up n x - y\<bar>" using on_grid_abs_ge ne by simp
  moreover have "\<bar>half_up n x - y\<bar> \<le> \<bar>half_up n x - x\<bar> + \<bar>x - y\<bar>" by linarith
  moreover have "1 / 2 / 10 ^ n = (1 / 10 ^ n) / (2::rat)" by simp
  ultimately show False using half_up_error[of n x] assms(2) by linarith
qed

lemma small_enough: "\<bar>x\<bar> < (2::rat) ^ 30 \<Longrightarrow> \<bar>round_double x\<bar> < 10 ^ 21"
  using round_double_close[of x] by (simp add: abs_if split: if_splits)

lemma to_fixed_near:
  assumes "\<bar>x\<bar> < 10 ^ 21" and "on_grid 3 y" and "\<bar>x - y\<bar> < 1 / 2000"
  shows "js_to_fixed 3 (JNum x) = double y"
  using half_up_unique[of 3 y x] assms by simp

lemma to_fixed_decimal:
  assumes "on_grid 3 y" and "\<bar>y\<bar> < 2 ^ 30"
  shows "js_to_fixed 3 (double y) = double y"
proof -
  have "\<bar>round_double y - y\<bar> < 1 / 2000" using round_double_close[OF assms(2)] by simp
  then show ?thesis
    using to_fixed_near[OF small_enough[OF assms(2)] assms(1)] by (simp only: double_small[OF assms(2)])
qed

lemma to_fixed_sum:
  assumes "on_grid 3 x" "on_grid 3 y" and "\<bar>x\<bar> < 2 ^ 28" "\<bar>y\<bar> < 2 ^ 28"
  shows "js_to_fixed 3 (js_add (double x) (double y)) = double (x + y)"
proof -
  define r where "r = round_double x + round_double y"
  have b: "\<bar>x\<bar> < 2 ^ 30" "\<bar>y\<bar> < 2 ^ 30" using assms(3,4) by simp_all
  note close = round_double_close[OF b(1), simplified] round_double_close[OF b(2), simplified]
  have near: "\<bar>r - (x + y)\<bar> \<le> 1 / 8388608"
  proof -
    have "r - (x + y) = (round_double x - x) + (round_double y - y)" by (simp add: r_def)
    then have "\<bar>r - (x + y)\<bar> \<le> \<bar>round_double x - x\<bar> + \<bar>round_double y - y\<bar>"
      by (simp only: abs_triangle_ineq)
    with close show ?thesis by simp
  qed
  have r: "\<bar>r\<bar> < 2 ^ 30" using near assms(3,4) by (simp add: abs_if split: if_splits)
  have "\<bar>round_double r - (x + y)\<bar> \<le> \<bar>round_double r - r\<bar> + \<bar>r - (x + y)\<bar>"
    using abs_triangle_ineq[of "round_double r - r" "r - (x + y)"] by simp
  then have "\<bar>round_double r - (x + y)\<bar> < 1 / 2000"
    using round_double_close[OF r] near by simp
  moreover have "on_grid 3 (x + y)" using assms(1,2) by (rule on_grid_add)
  ultimately have "js_to_fixed 3 (JNum (round_double r)) = double (x + y)"
    using to_fixed_near small_enough[OF r] by blast
  then show ?thesis using b r by (simp add: double_small r_def)
qed

end
