(* ===== verification/Cart.thy ===== *)
theory Cart
  imports JsNumber Effects
begin

text \<open>
  The counter's cart (\<open>apps/web/src/store/pos.ts\<close>): quantity rules, cart lines, the store
  operations, and what a reload or a change of shop does to the saved cart. The ids
  \<open>generateUuid\<close> draws and the clock's text are arguments of the operations that take them.
  A JavaScript number is a \<open>js_number\<close>; the strings a message shows are kept as the values
  it names.
\<close>

section \<open>Types\<close>

record CartLine =
  lineId_c :: string
  productId_c :: string
  isCustom_c :: bool
  name_c :: string
  sku_c :: string
  unit_c :: string
  unitPrice_c :: js_number
  mrp_c :: js_number
  gstRate_c :: string
  cessRate_c :: js_number
  stockSnapshot_c :: "js_number option"
  quantity_c :: js_number
  discountPercent_c :: js_number
  productType_c :: string

record CustomItemInput =
  name_ci :: string
  unitPrice_ci :: js_number
  quantity_ci :: js_number
  gstRate_ci :: string
  unit_ci :: string

record SearchResult =
  id_p :: string
  name_p :: string
  sku_p :: string
  sellingPrice_p :: js_number
  mrp_p :: js_number
  gstRate_p :: string
  cessRate_p :: js_number
  unit_p :: string
  currentStock_p :: js_number
  type_p :: string

record PosCustomer =
  id_pc :: string
  name_pc :: string
  phone_pc :: string
  state_pc :: "string option"
  creditLimit_pc :: js_number
  outstandingBalance_pc :: js_number

record CartDiscount =
  type_d :: string
  value_d :: js_number
  reason_d :: string

record HeldCart =
  id_h :: string
  label_h :: string
  createdAt_h :: string
  lines_h :: "CartLine list"
  customer_h :: "PosCustomer option"
  discount_h :: CartDiscount
  notes_h :: string
  idempotencyKey_h :: "string option"

record LinePriceUpdate =
  productId_u :: string
  unitPrice_u :: js_number
  mrp_u :: js_number
  gstRate_u :: string
  cessRate_u :: js_number

record LinePriceChange =
  productId_ch :: string
  name_ch :: string
  from_ch :: js_number
  to_ch :: js_number

record PosState =
  lines_s :: "CartLine list"
  customer_s :: "PosCustomer option"
  discount_s :: CartDiscount
  notes_s :: string
  heldCarts_s :: "HeldCart list"
  idempotencyKey_s :: "string option"
  keyAttempted_s :: bool

text \<open>Why a line is refused, with what the message quotes.\<close>

datatype refusal =
    NotPositive | WholeNumbersOnly string | TooManyDecimals | OnlyInStock js_number string
  | LineNotFound | NameMissing | NameTooLong | PriceNotPositive | PriceTooLarge | PriceDecimals

type_synonym QuantityResult = "refusal + js_number"

definition CUSTOM_LINE_PREFIX :: string where "CUSTOM_LINE_PREFIX = ''custom:''"
definition CUSTOM_ITEM_NAME_MAX :: nat where "CUSTOM_ITEM_NAME_MAX = 120"
definition CUSTOM_ITEM_PRICE_MAX :: js_number where "CUSTOM_ITEM_PRICE_MAX = double (9999999999 / 100)"

text \<open>\<open>x || d\<close> on strings.\<close>

definition text_or :: "string \<Rightarrow> string \<Rightarrow> string" where
  "text_or x d = (if x = [] then d else x)"

section \<open>Quantity rules\<close>

definition DECIMAL_UNITS :: "string list" where
  "DECIMAL_UNITS = [''KG'', ''GM'', ''G'', ''LTR'', ''L'', ''ML'', ''MTR'', ''M'']"

definition UNCAPPED_TYPES :: "string list" where
  "UNCAPPED_TYPES = [''SERVICE'', ''DIGITAL'']"

definition MAX_DECIMALS :: nat where "MAX_DECIMALS = 3"

definition allowsDecimalQuantity :: "string \<Rightarrow> bool" where
  "allowsDecimalQuantity u = (js_upper u \<in> set DECIMAL_UNITS)"

definition quantityStep :: "string \<Rightarrow> js_number" where
  "quantityStep u = (if allowsDecimalQuantity u then JNum (1 / 2) else JNum 1)"

definition isStockCapped :: "CartLine \<Rightarrow> bool" where
  "isStockCapped l \<longleftrightarrow>
     js_upper (text_or (productType_c l) ''SIMPLE'') \<notin> set UNCAPPED_TYPES \<and> stockSnapshot_c l \<noteq> None"

definition validateQuantity :: "CartLine \<Rightarrow> js_number \<Rightarrow> QuantityResult" where
  "validateQuantity l q =
     (if \<not> is_finite q \<or> js_le q (JNum 0) then Inl NotPositive
      else if \<not> allowsDecimalQuantity (unit_c l) \<and> \<not> is_integer q
        then Inl (WholeNumbersOnly (text_or (unit_c l) ''PCS''))
      else if allowsDecimalQuantity (unit_c l) \<and> js_to_fixed MAX_DECIMALS q \<noteq> q
        then Inl TooManyDecimals
      else case stockSnapshot_c l of
          Some stock \<Rightarrow> if isStockCapped l \<and> js_less stock q
                        then Inl (OnlyInStock stock (unit_c l)) else Inr q
        | None \<Rightarrow> Inr q)"

section \<open>Lines\<close>

definition EMPTY_DISCOUNT :: CartDiscount where
  "EMPTY_DISCOUNT = \<lparr>type_d = ''FIXED_AMOUNT'', value_d = JNum 0, reason_d = ''''\<rparr>"

definition lineFromProduct :: "string \<Rightarrow> SearchResult \<Rightarrow> js_number \<Rightarrow> CartLine" where
  "lineFromProduct uuid p q =
     (let ty = js_upper (text_or (type_p p) ''SIMPLE'')
      in \<lparr>lineId_c = uuid, productId_c = id_p p, isCustom_c = False, name_c = name_p p,
          sku_c = sku_p p, unit_c = text_or (unit_p p) ''PCS'', unitPrice_c = sellingPrice_p p,
          mrp_c = mrp_p p, gstRate_c = text_or (gstRate_p p) ''EIGHTEEN'',
          cessRate_c = (if is_finite (cessRate_p p) then cessRate_p p else JNum 0),
          stockSnapshot_c = (if ty \<in> set UNCAPPED_TYPES then None else Some (currentStock_p p)),
          quantity_c = q, discountPercent_c = JNum 0, productType_c = ty\<rparr>)"

definition custom_line :: "string \<Rightarrow> CustomItemInput \<Rightarrow> CartLine" where
  "custom_line uuid i =
     \<lparr>lineId_c = uuid, productId_c = CUSTOM_LINE_PREFIX @ uuid, isCustom_c = True,
      name_c = js_trim (name_ci i), sku_c = '''', unit_c = text_or (unit_ci i) ''PCS'',
      unitPrice_c = unitPrice_ci i, mrp_c = unitPrice_ci i,
      gstRate_c = text_or (gstRate_ci i) ''EIGHTEEN'',
      cessRate_c = JNum 0, stockSnapshot_c = None, quantity_c = quantity_ci i,
      discountPercent_c = JNum 0, productType_c = ''CUSTOM''\<rparr>"

definition lineFromCustomItem :: "string \<Rightarrow> CustomItemInput \<Rightarrow> refusal + CartLine" where
  "lineFromCustomItem uuid i =
     (let name = js_trim (name_ci i); price = unitPrice_ci i; line = custom_line uuid i
      in if name = [] then Inl NameMissing
         else if CUSTOM_ITEM_NAME_MAX < length name then Inl NameTooLong
         else if \<not> is_finite price \<or> js_le price (JNum 0) then Inl PriceNotPositive
         else if js_less CUSTOM_ITEM_PRICE_MAX price then Inl PriceTooLarge
         else if js_to_fixed 2 price \<noteq> price then Inl PriceDecimals
         else bind_res (validateQuantity line (quantity_ci i)) (\<lambda>q. Inr (line\<lparr>quantity_c := q\<rparr>)))"

text \<open>A line as an earlier build may have saved it: every field but the key may be missing.\<close>

record RawLine =
  productId_w :: "string option"
  lineId_w :: "string option"
  isCustom_w :: "bool option"
  name_w :: "string option"
  sku_w :: "string option"
  unit_w :: "string option"
  unitPrice_w :: "js_number option"
  mrp_w :: "js_number option"
  gstRate_w :: "string option"
  cessRate_w :: "js_number option"
  stockSnapshot_w :: "js_number option"
  quantity_w :: "js_number option"
  discountPercent_w :: "js_number option"
  productType_w :: "string option"

definition opt_text :: "string option \<Rightarrow> string \<Rightarrow> string" where
  "opt_text x d = (case x of None \<Rightarrow> d | Some s \<Rightarrow> text_or s d)"

definition opt_num :: "js_number option \<Rightarrow> js_number" where
  "opt_num x = (case x of None \<Rightarrow> JNum 0 | Some n \<Rightarrow> js_or n (JNum 0))"

definition starts_with :: "string \<Rightarrow> string \<Rightarrow> bool" where
  "starts_with p s = (take (length p) s = p)"

definition normalizeLine :: "RawLine \<Rightarrow> string \<Rightarrow> CartLine" where
  "normalizeLine raw pid =
     (let custom = (isCustom_w raw = Some True \<or> starts_with CUSTOM_LINE_PREFIX pid)
      in \<lparr>lineId_c = opt_text (lineId_w raw)
             (if custom then drop (length CUSTOM_LINE_PREFIX) pid else pid),
          productId_c = pid, isCustom_c = custom,
          name_c = opt_text (name_w raw) '''', sku_c = opt_text (sku_w raw) '''',
          unit_c = opt_text (unit_w raw) ''PCS'', unitPrice_c = opt_num (unitPrice_w raw),
          mrp_c = opt_num (mrp_w raw), gstRate_c = opt_text (gstRate_w raw) ''EIGHTEEN'',
          cessRate_c = (if custom then JNum 0 else opt_num (cessRate_w raw)),
          stockSnapshot_c = (if custom then None else stockSnapshot_w raw),
          quantity_c = opt_num (quantity_w raw), discountPercent_c = opt_num (discountPercent_w raw),
          productType_c = opt_text (productType_w raw) (if custom then ''CUSTOM'' else ''SIMPLE'')\<rparr>)"

text \<open>Entries that are no lines (no product key) are dropped; so are lines without a quantity.\<close>

definition normalizeLines :: "RawLine list option \<Rightarrow> CartLine list" where
  "normalizeLines ls =
     (case ls of None \<Rightarrow> []
      | Some raws \<Rightarrow> filter (\<lambda>l. js_less (JNum 0) (quantity_c l))
          (map (\<lambda>raw. normalizeLine raw (the (productId_w raw)))
             (filter (\<lambda>raw. productId_w raw \<noteq> None) raws)))"

end
