(* ===== verification/CartStore.thy ===== *)
theory CartStore
  imports Cart
begin

text \<open>
  The operations of the cart store (\<open>usePosStore\<close>), each with what it returns and the state it
  sets, and the cart's life in the session's storage: what a reload restores and what moving
  to a shop's scope does.
\<close>

section \<open>Lines of the cart\<close>

definition initial_cart :: PosState where
  "initial_cart =
     \<lparr>lines_s = [], customer_s = None, discount_s = EMPTY_DISCOUNT, notes_s = '''', heldCarts_s = [],
      idempotencyKey_s = None, keyAttempted_s = False\<rparr>"

definition find_line :: "string \<Rightarrow> PosState \<Rightarrow> CartLine option" where
  "find_line pid s = find (\<lambda>l. productId_c l = pid) (lines_s s)"

definition put_quantity :: "string \<Rightarrow> js_number \<Rightarrow> PosState \<Rightarrow> PosState" where
  "put_quantity pid q s =
     s\<lparr>lines_s := update_rows (\<lambda>l. productId_c l = pid) (\<lambda>l. l\<lparr>quantity_c := q\<rparr>) (lines_s s)\<rparr>"

definition addProduct :: "string \<Rightarrow> SearchResult \<Rightarrow> js_number \<Rightarrow> PosState \<Rightarrow> QuantityResult \<times> PosState" where
  "addProduct uuid p q s =
     (case find_line (id_p p) s of
        Some l \<Rightarrow>
          (case validateQuantity l (js_add (quantity_c l) q) of
             Inl e \<Rightarrow> (Inl e, s)
           | Inr v \<Rightarrow> (Inr v, put_quantity (id_p p) v s))
      | None \<Rightarrow>
          let line = lineFromProduct uuid p q
          in case validateQuantity line q of
               Inl e \<Rightarrow> (Inl e, s)
             | Inr v \<Rightarrow> (Inr v, s\<lparr>lines_s := lines_s s @ [line\<lparr>quantity_c := v\<rparr>]\<rparr>))"

definition addCustomItem :: "string \<Rightarrow> CustomItemInput \<Rightarrow> PosState \<Rightarrow> QuantityResult \<times> PosState" where
  "addCustomItem uuid i s =
     (case lineFromCustomItem uuid i of
        Inl e \<Rightarrow> (Inl e, s)
      | Inr line \<Rightarrow> (Inr (quantity_c line), s\<lparr>lines_s := lines_s s @ [line]\<rparr>))"

definition setQuantity :: "string \<Rightarrow> js_number \<Rightarrow> PosState \<Rightarrow> QuantityResult \<times> PosState" where
  "setQuantity pid q s =
     (case find_line pid s of
        None \<Rightarrow> (Inl LineNotFound, s)
      | Some l \<Rightarrow>
          (case validateQuantity l q of
             Inl e \<Rightarrow> (Inl e, s)
           | Inr v \<Rightarrow> (Inr v, put_quantity pid v s)))"

definition increment :: "string \<Rightarrow> PosState \<Rightarrow> QuantityResult \<times> PosState" where
  "increment pid s =
     (case find_line pid s of
        None \<Rightarrow> (Inl LineNotFound, s)
      | Some l \<Rightarrow>
          setQuantity pid (js_to_fixed MAX_DECIMALS (js_add (quantity_c l) (quantityStep (unit_c l)))) s)"

definition removeLine :: "string \<Rightarrow> PosState \<Rightarrow> PosState" where
  "removeLine pid s = s\<lparr>lines_s := filter (\<lambda>l. productId_c l \<noteq> pid) (lines_s s)\<rparr>"

definition decrement :: "string \<Rightarrow> PosState \<Rightarrow> QuantityResult \<times> PosState" where
  "decrement pid s =
     (case find_line pid s of
        None \<Rightarrow> (Inl LineNotFound, s)
      | Some l \<Rightarrow>
          let n = js_to_fixed MAX_DECIMALS (js_sub (quantity_c l) (quantityStep (unit_c l)))
          in if js_le n (JNum 0) then (Inr (JNum 0), removeLine pid s) else setQuantity pid n s)"

definition js_max :: "js_number \<Rightarrow> js_number \<Rightarrow> js_number" where
  "js_max a b = (if js_less a b then b else a)"

definition js_min :: "js_number \<Rightarrow> js_number \<Rightarrow> js_number" where
  "js_min a b = (if js_less b a then b else a)"

definition setLineDiscount :: "string \<Rightarrow> js_number \<Rightarrow> PosState \<Rightarrow> PosState" where
  "setLineDiscount pid percent s =
     (let clamped = (if is_finite percent then js_min (JNum 100) (js_max (JNum 0) percent) else JNum 0)
      in s\<lparr>lines_s := update_rows (\<lambda>l. productId_c l = pid) (\<lambda>l. l\<lparr>discountPercent_c := clamped\<rparr>) (lines_s s)\<rparr>)"

definition clearCart :: "PosState \<Rightarrow> PosState" where
  "clearCart s = s\<lparr>lines_s := [], customer_s := None, discount_s := EMPTY_DISCOUNT, notes_s := ''''\<rparr>"

definition setCustomer :: "PosCustomer option \<Rightarrow> PosState \<Rightarrow> PosState" where
  "setCustomer c s = s\<lparr>customer_s := c\<rparr>"

text \<open>A partial discount: only the fields given change.\<close>

definition setDiscount :: "string option \<Rightarrow> js_number option \<Rightarrow> string option \<Rightarrow> PosState \<Rightarrow> PosState" where
  "setDiscount ty v r s =
     (let d = discount_s s
      in s\<lparr>discount_s :=
            \<lparr>type_d = (case ty of None \<Rightarrow> type_d d | Some x \<Rightarrow> x),
             value_d = (case v of None \<Rightarrow> value_d d | Some x \<Rightarrow> x),
             reason_d = (case r of None \<Rightarrow> reason_d d | Some x \<Rightarrow> x)\<rparr>\<rparr>)"

definition setNotes :: "string \<Rightarrow> PosState \<Rightarrow> PosState" where
  "setNotes n s = s\<lparr>notes_s := n\<rparr>"

section \<open>Held carts and the request key\<close>

text \<open>The key with an unanswered attempt, which stays with its cart.\<close>

definition travelling_key :: "PosState \<Rightarrow> string option" where
  "travelling_key s = (if keyAttempted_s s then idempotencyKey_s s else None)"

definition parked_cart :: "string \<Rightarrow> string \<Rightarrow> string \<Rightarrow> PosState \<Rightarrow> HeldCart" where
  "parked_cart uuid now label s =
     \<lparr>id_h = uuid, label_h = label, createdAt_h = now, lines_h = lines_s s, customer_h = customer_s s,
      discount_h = discount_s s, notes_h = notes_s s, idempotencyKey_h = travelling_key s\<rparr>"

definition holdCart :: "string \<Rightarrow> string \<Rightarrow> string \<Rightarrow> string \<Rightarrow> PosState \<Rightarrow> HeldCart option \<times> PosState" where
  "holdCart uuid newkey now label s =
     (if lines_s s = [] then (None, s)
      else
        let held = parked_cart uuid now
              (text_or (js_trim label) (''Cart '' @ nat_text (length (heldCarts_s s) + 1))) s;
            s' = s\<lparr>heldCarts_s := held # heldCarts_s s, lines_s := [], customer_s := None,
                   discount_s := EMPTY_DISCOUNT, notes_s := ''''\<rparr>
        in (Some held,
            if travelling_key s \<noteq> None
            then s'\<lparr>idempotencyKey_s := Some newkey, keyAttempted_s := False\<rparr> else s'))"

definition resumeHeldCart :: "string \<Rightarrow> string \<Rightarrow> string \<Rightarrow> string \<Rightarrow> PosState \<Rightarrow> bool \<times> PosState" where
  "resumeHeldCart uuid newkey now hid s =
     (case find (\<lambda>h. id_h h = hid) (heldCarts_s s) of
        None \<Rightarrow> (False, s)
      | Some held \<Rightarrow>
          let remaining = filter (\<lambda>h. id_h h \<noteq> hid) (heldCarts_s s);
              parkKey = (travelling_key s \<noteq> None);
              parked = (if lines_s s = [] then []
                        else [parked_cart uuid now (''Cart '' @ nat_text (length remaining + 1)) s]);
              key = (case idempotencyKey_h held of
                       Some k \<Rightarrow> k
                     | None \<Rightarrow> if parkKey \<or> keyAttempted_s s then newkey
                               else case idempotencyKey_s s of Some k \<Rightarrow> k | None \<Rightarrow> newkey)
          in (True, s\<lparr>heldCarts_s := parked @ remaining, lines_s := lines_h held,
                customer_s := customer_h held, discount_s := discount_h held, notes_s := notes_h held,
                idempotencyKey_s := Some key, keyAttempted_s := (opt_text (idempotencyKey_h held) '''' \<noteq> '''')\<rparr>))"

definition deleteHeldCart :: "string \<Rightarrow> PosState \<Rightarrow> PosState" where
  "deleteHeldCart hid s = s\<lparr>heldCarts_s := filter (\<lambda>h. id_h h \<noteq> hid) (heldCarts_s s)\<rparr>"

definition newIdempotencyKey :: "string \<Rightarrow> PosState \<Rightarrow> string \<times> PosState" where
  "newIdempotencyKey newkey s = (newkey, s\<lparr>idempotencyKey_s := Some newkey\<rparr>)"

definition ensureIdempotencyKey :: "string \<Rightarrow> PosState \<Rightarrow> string \<times> PosState" where
  "ensureIdempotencyKey newkey s =
     (let k = opt_text (idempotencyKey_s s) '''' in if k \<noteq> '''' then (k, s) else newIdempotencyKey newkey s)"

definition consumeIdempotencyKey :: "PosState \<Rightarrow> PosState" where
  "consumeIdempotencyKey s = s\<lparr>idempotencyKey_s := None, keyAttempted_s := False\<rparr>"

definition markKeyAttempted :: "PosState \<Rightarrow> PosState" where
  "markKeyAttempted s = s\<lparr>keyAttempted_s := True\<rparr>"

definition settleKeyAttempt :: "PosState \<Rightarrow> PosState" where
  "settleKeyAttempt s = s\<lparr>keyAttempted_s := False\<rparr>"

section \<open>Current prices\<close>

text \<open>The last update of a product wins, as the entries of a \<open>Map\<close> do.\<close>

definition update_of :: "LinePriceUpdate list \<Rightarrow> CartLine \<Rightarrow> LinePriceUpdate option" where
  "update_of us l =
     (if isCustom_c l then None else find (\<lambda>u. productId_u u = productId_c l) (rev us))"

definition refresh_line :: "LinePriceUpdate list \<Rightarrow> CartLine \<Rightarrow> CartLine" where
  "refresh_line us l =
     (case update_of us l of
        None \<Rightarrow> l
      | Some u \<Rightarrow> l\<lparr>unitPrice_c := unitPrice_u u, mrp_c := mrp_u u,
                    gstRate_c := text_or (gstRate_u u) (gstRate_c l), cessRate_c := cessRate_u u\<rparr>)"

definition price_change :: "LinePriceUpdate list \<Rightarrow> CartLine \<Rightarrow> LinePriceChange list" where
  "price_change us l =
     (case update_of us l of
        None \<Rightarrow> []
      | Some u \<Rightarrow> if js_same (unitPrice_u u) (unitPrice_c l) then []
                  else [\<lparr>productId_ch = productId_c l, name_ch = name_c l,
                         from_ch = unitPrice_c l, to_ch = unitPrice_u u\<rparr>])"

definition refreshLinePrices :: "LinePriceUpdate list \<Rightarrow> PosState \<Rightarrow> LinePriceChange list \<times> PosState" where
  "refreshLinePrices us s =
     (concat (map (price_change us) (lines_s s)), s\<lparr>lines_s := map (refresh_line us) (lines_s s)\<rparr>)"

section \<open>Saved carts\<close>

text \<open>
  What the session's storage holds for a scope: the fields \<open>partialize\<close> keeps, any of which an
  earlier build may not have written. A held cart's lines are saved like the cart's own.
\<close>

record RawHeld =
  held_w :: HeldCart
  lines_rh :: "RawLine list option"

record SavedCart =
  lines_v :: "RawLine list option"
  customer_v :: "PosCustomer option option"
  discount_v :: "CartDiscount option"
  notes_v :: "string option"
  heldCarts_v :: "RawHeld list option"
  idempotencyKey_v :: "string option option"
  keyAttempted_v :: "bool option"

definition keep_or :: "'a option \<Rightarrow> 'a \<Rightarrow> 'a" where
  "keep_or x d = (case x of None \<Rightarrow> d | Some v \<Rightarrow> v)"

text \<open>\<open>merge(persisted, current)\<close>; nothing saved is None.\<close>

definition merge_saved :: "SavedCart option \<Rightarrow> PosState \<Rightarrow> PosState" where
  "merge_saved persisted cur =
     (case persisted of
        None \<Rightarrow> cur\<lparr>lines_s := [], heldCarts_s := []\<rparr>
      | Some v \<Rightarrow>
          \<lparr>lines_s = normalizeLines (lines_v v), customer_s = keep_or (customer_v v) (customer_s cur),
           discount_s = keep_or (discount_v v) (discount_s cur), notes_s = keep_or (notes_v v) (notes_s cur),
           heldCarts_s = (case heldCarts_v v of None \<Rightarrow> []
              | Some hs \<Rightarrow> map (\<lambda>h. (held_w h)\<lparr>lines_h := normalizeLines (lines_rh h)\<rparr>) hs),
           idempotencyKey_s = keep_or (idempotencyKey_v v) (idempotencyKey_s cur),
           keyAttempted_s = keep_or (keyAttempted_v v) (keyAttempted_s cur)\<rparr>)"

text \<open>JSON keeps a finite number; \<open>NaN\<close> and the infinities become null. (The numbers of a discount
  and of a customer are saved as they are: they come from validated fields.)\<close>

definition saved_num :: "js_number \<Rightarrow> js_number option" where
  "saved_num x = (if is_finite x then Some x else None)"

definition raw_line :: "CartLine \<Rightarrow> RawLine" where
  "raw_line l =
     \<lparr>productId_w = Some (productId_c l), lineId_w = Some (lineId_c l), isCustom_w = Some (isCustom_c l),
      name_w = Some (name_c l), sku_w = Some (sku_c l), unit_w = Some (unit_c l),
      unitPrice_w = saved_num (unitPrice_c l), mrp_w = saved_num (mrp_c l), gstRate_w = Some (gstRate_c l),
      cessRate_w = saved_num (cessRate_c l), stockSnapshot_w = Option.bind (stockSnapshot_c l) saved_num,
      quantity_w = saved_num (quantity_c l), discountPercent_w = saved_num (discountPercent_c l),
      productType_w = Some (productType_c l)\<rparr>"

text \<open>\<open>partialize\<close> and the text the storage keeps: every field of the cart.\<close>

definition partialize :: "PosState \<Rightarrow> SavedCart" where
  "partialize s =
     \<lparr>lines_v = Some (map raw_line (lines_s s)), customer_v = Some (customer_s s),
      discount_v = Some (discount_s s), notes_v = Some (notes_s s),
      heldCarts_v = Some (map (\<lambda>h. \<lparr>held_w = h, lines_rh = Some (map raw_line (lines_h h))\<rparr>) (heldCarts_s s)),
      idempotencyKey_v = Some (idempotencyKey_s s), keyAttempted_v = Some (keyAttempted_s s)\<rparr>"

section \<open>Scopes\<close>

text \<open>
  A browser tab: the name its cart is saved under, the store, the shop it belongs to and what
  the session's storage holds. Rehydrating is the store library's; it is an argument, which
  the library documents as setting the merge of what is saved with the current state.
\<close>

record PosTab =
  name_t :: string
  store_t :: PosState
  shopId_t :: "string option"
  saved_t :: "string \<Rightarrow> SavedCart option"

definition STORAGE_PREFIX :: string where "STORAGE_PREFIX = ''dukaanai-pos''"
definition ANON_STORAGE_NAME :: string where "ANON_STORAGE_NAME = STORAGE_PREFIX @ '':anon''"

text \<open>What the anonymous cart leaves in the shop's: \<open>finish\<close>.\<close>

definition carry_cart :: "PosState \<Rightarrow> PosState \<Rightarrow> PosState" where
  "carry_cart anon s =
     (if lines_s s = [] \<and> (lines_s anon \<noteq> [] \<or> customer_s anon \<noteq> None \<or> notes_s anon \<noteq> [] \<or>
                            js_less (JNum 0) (value_d (discount_s anon)))
      then s\<lparr>lines_s := lines_s anon, customer_s := customer_s anon, discount_s := discount_s anon,
             notes_s := notes_s anon, idempotencyKey_s := idempotencyKey_s anon,
             keyAttempted_s := keyAttempted_s anon\<rparr>
      else s)"

definition carry_held :: "PosState \<Rightarrow> PosState \<Rightarrow> PosState" where
  "carry_held anon s =
     (if heldCarts_s anon = [] then s
      else s\<lparr>heldCarts_s := heldCarts_s s @
              filter (\<lambda>h. id_h h \<notin> id_h ` set (heldCarts_s s)) (heldCarts_s anon)\<rparr>)"

definition scopePosStoreToShop ::
    "(SavedCart option \<Rightarrow> PosState \<Rightarrow> PosState) \<Rightarrow> string \<Rightarrow> PosTab \<Rightarrow> PosTab" where
  "scopePosStoreToShop rehydrate shopId tab =
     (let name = STORAGE_PREFIX @ '':'' @ shopId
      in if shopId = [] then tab
         else if name_t tab = name then tab\<lparr>shopId_t := Some shopId\<rparr>
         else
           let s = rehydrate (saved_t tab name) (store_t tab)
           in if name_t tab = ANON_STORAGE_NAME
              then tab\<lparr>name_t := name, shopId_t := Some shopId,
                       store_t := carry_held (store_t tab) (carry_cart (store_t tab) s),
                       saved_t := (saved_t tab)(ANON_STORAGE_NAME := None)\<rparr>
              else tab\<lparr>name_t := name, shopId_t := Some shopId, store_t := s\<rparr>)"

end
