(* ===== verification/CartProperties.thy ===== *)
theory CartProperties
  imports CartStore
begin

text \<open>
  What the cart store keeps: the histories of calls a counter can make, the invariant of every
  cart they reach, and the properties of request keys, held carts, quantities, price updates,
  reloads and scopes.
\<close>

section \<open>Quantities\<close>

lemma validateQuantity_cong [simp]:
  "validateQuantity (l\<lparr>quantity_c := v\<rparr>) q = validateQuantity l q"
  "validateQuantity (l\<lparr>discountPercent_c := v\<rparr>) q = validateQuantity l q"
  "validateQuantity (l\<lparr>unitPrice_c := v, mrp_c := m, gstRate_c := g, cessRate_c := c\<rparr>) q = validateQuantity l q"
  by (simp_all add: validateQuantity_def isStockCapped_def split: option.split)

lemma validateQuantity_value: "validateQuantity l q = Inr v \<Longrightarrow> v = q"
  by (auto simp: validateQuantity_def split: if_splits option.splits)

lemma validateQuantity_again: "validateQuantity l q = Inr v \<Longrightarrow> validateQuantity l v = Inr v"
  using validateQuantity_value by metis

lemma validateQuantity_finite:
  "validateQuantity l q = Inr v \<Longrightarrow> \<exists>r. q = JNum r \<and> 0 < r"
  by (cases q) (auto simp: validateQuantity_def js_le_def js_same_def split: if_splits)

section \<open>Carts\<close>

text \<open>A line the store built: its quantity passes the rules, its numbers are finite, and a
  custom line is marked by its key.\<close>

definition cart_line_ok :: "CartLine \<Rightarrow> bool" where
  "cart_line_ok l \<longleftrightarrow>
     validateQuantity l (quantity_c l) = Inr (quantity_c l) \<and>
     (\<exists>r. discountPercent_c l = JNum r \<and> 0 \<le> r \<and> r \<le> 100) \<and>
     is_finite (unitPrice_c l) \<and> is_finite (mrp_c l) \<and> is_finite (cessRate_c l) \<and>
     (\<forall>x. stockSnapshot_c l = Some x \<longrightarrow> is_finite x) \<and>
     (isCustom_c l \<longleftrightarrow> starts_with CUSTOM_LINE_PREFIX (productId_c l)) \<and>
     (isCustom_c l \<longrightarrow> productId_c l = CUSTOM_LINE_PREFIX @ lineId_c l \<and> cessRate_c l = JNum 0 \<and>
        stockSnapshot_c l = None) \<and>
     lineId_c l \<noteq> [] \<and> unit_c l \<noteq> [] \<and> gstRate_c l \<noteq> [] \<and> productType_c l \<noteq> []"

definition cart_ok :: "CartLine list \<Rightarrow> bool" where
  "cart_ok ls \<longleftrightarrow> list_all cart_line_ok ls \<and> distinct (map productId_c ls)"

text \<open>The request keys a state holds, the counter's own first.\<close>

definition opt_list :: "'a option \<Rightarrow> 'a list" where
  "opt_list x = (case x of None \<Rightarrow> [] | Some k \<Rightarrow> [k])"

definition keys_of :: "HeldCart list \<Rightarrow> string list" where
  "keys_of hs = concat (map (\<lambda>h. opt_list (idempotencyKey_h h)) hs)"

definition held_keys :: "PosState \<Rightarrow> string list" where
  "held_keys s = keys_of (heldCarts_s s)"

definition all_keys :: "PosState \<Rightarrow> string list" where
  "all_keys s = opt_list (idempotencyKey_s s) @ held_keys s"

definition held_ok :: "HeldCart list \<Rightarrow> bool" where
  "held_ok hs \<longleftrightarrow> list_all (\<lambda>h. lines_h h \<noteq> [] \<and> cart_ok (lines_h h)) hs \<and> distinct (map id_h hs)"

definition state_ok :: "PosState \<Rightarrow> bool" where
  "state_ok s \<longleftrightarrow> cart_ok (lines_s s) \<and> held_ok (heldCarts_s s) \<and> distinct (all_keys s) \<and> [] \<notin> set (all_keys s)"

text \<open>Every id a state holds was drawn by some call.\<close>

definition lines_of_state :: "PosState \<Rightarrow> CartLine list" where
  "lines_of_state s = lines_s s @ concat (map lines_h (heldCarts_s s))"

definition ids_drawn :: "string set \<Rightarrow> PosState \<Rightarrow> bool" where
  "ids_drawn used s \<longleftrightarrow> set (all_keys s) \<subseteq> used \<and> (\<forall>h \<in> set (heldCarts_s s). id_h h \<in> used) \<and>
     (\<forall>l \<in> set (lines_of_state s). lineId_c l \<in> used)"

section \<open>Histories\<close>

datatype cart_call =
    AddProduct string SearchResult js_number | AddCustomItem string CustomItemInput
  | SetQuantity string js_number | Increment string | Decrement string
  | SetLineDiscount string js_number | RemoveLine string | ClearCart
  | HoldCart string string string string | ResumeHeldCart string string string string
  | DeleteHeldCart string | SetCustomer "PosCustomer option"
  | SetDiscount "string option" "js_number option" "string option" | SetNotes string
  | NewKey string | EnsureKey string | ConsumeKey | MarkKeyAttempted | SettleKeyAttempt
  | RefreshLinePrices "LinePriceUpdate list" | Reload

fun perform :: "cart_call \<Rightarrow> PosState \<Rightarrow> PosState" where
  "perform (AddProduct u p q) s = snd (addProduct u p q s)"
| "perform (AddCustomItem u i) s = snd (addCustomItem u i s)"
| "perform (SetQuantity pid q) s = snd (setQuantity pid q s)"
| "perform (Increment pid) s = snd (increment pid s)"
| "perform (Decrement pid) s = snd (decrement pid s)"
| "perform (SetLineDiscount pid x) s = setLineDiscount pid x s"
| "perform (RemoveLine pid) s = removeLine pid s"
| "perform ClearCart s = clearCart s"
| "perform (HoldCart u k now label) s = snd (holdCart u k now label s)"
| "perform (ResumeHeldCart u k now hid) s = snd (resumeHeldCart u k now hid s)"
| "perform (DeleteHeldCart hid) s = deleteHeldCart hid s"
| "perform (SetCustomer c) s = setCustomer c s"
| "perform (SetDiscount t v r) s = setDiscount t v r s"
| "perform (SetNotes n) s = setNotes n s"
| "perform (NewKey k) s = snd (newIdempotencyKey k s)"
| "perform (EnsureKey k) s = snd (ensureIdempotencyKey k s)"
| "perform ConsumeKey s = consumeIdempotencyKey s"
| "perform MarkKeyAttempted s = markKeyAttempted s"
| "perform SettleKeyAttempt s = settleKeyAttempt s"
| "perform (RefreshLinePrices us) s = snd (refreshLinePrices us s)"
| "perform Reload s = merge_saved (Some (partialize s)) initial_cart"

text \<open>The ids a call draws, and what the catalogue gives it: keys of its own and finite prices.\<close>

fun drawn :: "cart_call \<Rightarrow> string list" where
  "drawn (AddProduct u p q) = [u]"
| "drawn (AddCustomItem u i) = [u]"
| "drawn (HoldCart u k now label) = [u, k]"
| "drawn (ResumeHeldCart u k now hid) = [u, k]"
| "drawn (NewKey k) = [k]"
| "drawn (EnsureKey k) = [k]"
| "drawn _ = []"

fun catalogue_ok :: "cart_call \<Rightarrow> bool" where
  "catalogue_ok (AddProduct u p q) \<longleftrightarrow> \<not> starts_with CUSTOM_LINE_PREFIX (id_p p) \<and>
     is_finite (sellingPrice_p p) \<and> is_finite (mrp_p p) \<and> is_finite (currentStock_p p)"
| "catalogue_ok (RefreshLinePrices us) \<longleftrightarrow>
     list_all (\<lambda>u. is_finite (unitPrice_u u) \<and> is_finite (mrp_u u) \<and> is_finite (cessRate_u u)) us"
| "catalogue_ok _ \<longleftrightarrow> True"

inductive cart_history :: "string list \<Rightarrow> PosState \<Rightarrow> bool" where
  start: "cart_history [] initial_cart"
| call: "cart_history used s \<Longrightarrow> catalogue_ok c \<Longrightarrow> distinct ([] # drawn c @ used) \<Longrightarrow>
    cart_history (drawn c @ used) (perform c s)"

section \<open>Lines stay well formed\<close>

lemma cart_line_ok_quantity: "cart_line_ok l \<Longrightarrow> validateQuantity l v = Inr v \<Longrightarrow> cart_line_ok (l\<lparr>quantity_c := v\<rparr>)"
  by (simp add: cart_line_ok_def)

lemma cart_line_ok_discount: "cart_line_ok l \<Longrightarrow> 0 \<le> r \<Longrightarrow> r \<le> 100 \<Longrightarrow> cart_line_ok (l\<lparr>discountPercent_c := JNum r\<rparr>)"
  by (simp add: cart_line_ok_def)

lemma text_or_nonempty: "d \<noteq> [] \<Longrightarrow> text_or x d \<noteq> []"
  by (simp add: text_or_def)

lemma js_upper_nonempty: "x \<noteq> [] \<Longrightarrow> js_upper x \<noteq> []"
  by (simp add: js_upper_def)

lemma lineFromProduct_fields:
  "lineId_c (lineFromProduct u p q) = u" "productId_c (lineFromProduct u p q) = id_p p"
  "\<not> isCustom_c (lineFromProduct u p q)" "unit_c (lineFromProduct u p q) \<noteq> []"
  "gstRate_c (lineFromProduct u p q) \<noteq> []" "productType_c (lineFromProduct u p q) \<noteq> []"
  "unitPrice_c (lineFromProduct u p q) = sellingPrice_p p" "mrp_c (lineFromProduct u p q) = mrp_p p"
  "is_finite (cessRate_c (lineFromProduct u p q))" "discountPercent_c (lineFromProduct u p q) = JNum 0"
  "stockSnapshot_c (lineFromProduct u p q) = None \<or> stockSnapshot_c (lineFromProduct u p q) = Some (currentStock_p p)"
  by (simp_all add: lineFromProduct_def Let_def text_or_nonempty js_upper_nonempty)

lemma cart_line_ok_product:
  assumes "validateQuantity (lineFromProduct u p q) q = Inr v" and "catalogue_ok (AddProduct u p q)" and "u \<noteq> []"
  shows "cart_line_ok ((lineFromProduct u p q)\<lparr>quantity_c := v\<rparr>)"
proof -
  have "\<forall>x. stockSnapshot_c (lineFromProduct u p q) = Some x \<longrightarrow> is_finite x"
    using lineFromProduct_fields(11)[of u p q] assms(2) by auto
  then show ?thesis using assms validateQuantity_again[OF assms(1)]
    by (simp add: cart_line_ok_def lineFromProduct_fields)
qed

lemma starts_with_prefix [simp]: "starts_with p (p @ s)"
  by (simp add: starts_with_def)

lemma custom_line_fields:
  "lineId_c (custom_line u i) = u" "productId_c (custom_line u i) = CUSTOM_LINE_PREFIX @ u"
  "isCustom_c (custom_line u i)" "unit_c (custom_line u i) \<noteq> []" "gstRate_c (custom_line u i) \<noteq> []"
  "productType_c (custom_line u i) \<noteq> []" "stockSnapshot_c (custom_line u i) = None"
  "cessRate_c (custom_line u i) = JNum 0" "discountPercent_c (custom_line u i) = JNum 0"
  "unitPrice_c (custom_line u i) = unitPrice_ci i" "mrp_c (custom_line u i) = unitPrice_ci i"
  by (simp_all add: custom_line_def text_or_nonempty)

lemma lineFromCustomItem_Inr:
  assumes "lineFromCustomItem u i = Inr l"
  shows "lineId_c l = u \<and> productId_c l = CUSTOM_LINE_PREFIX @ u \<and> (u \<noteq> [] \<longrightarrow> cart_line_ok l)"
proof -
  obtain v where l: "l = (custom_line u i)\<lparr>quantity_c := v\<rparr>"
    and v: "validateQuantity (custom_line u i) (quantity_ci i) = Inr v" and fin: "is_finite (unitPrice_ci i)"
    using assms by (auto simp: lineFromCustomItem_def Let_def bind_res_eq_Inr split: if_splits)
  show ?thesis
    using fin validateQuantity_again[OF v] by (simp add: cart_line_ok_def l custom_line_fields)
qed

lemma cart_ok_update:
  assumes "cart_ok ls" and "\<And>l. l \<in> set ls \<Longrightarrow> P l \<Longrightarrow> cart_line_ok (g l)" and "\<And>l. productId_c (g l) = productId_c l"
  shows "cart_ok (update_rows P g ls)"
  using assms by (auto simp: cart_ok_def map_update_rows list_all_iff set_update_rows)

lemma cart_ok_filter: "cart_ok ls \<Longrightarrow> cart_ok (filter P ls)"
  by (auto simp: cart_ok_def list_all_iff distinct_map_filter)

lemma cart_ok_snoc:
  "cart_ok ls \<Longrightarrow> cart_line_ok l \<Longrightarrow> productId_c l \<notin> productId_c ` set ls \<Longrightarrow> cart_ok (ls @ [l])"
  by (simp add: cart_ok_def list_all_iff)

lemma cart_ok_Nil [simp]: "cart_ok []"
  by (simp add: cart_ok_def)

lemma find_line_Some:
  assumes "cart_ok (lines_s s)" and "find_line pid s = Some l" and "l' \<in> set (lines_s s)" and "productId_c l' = pid"
  shows "l' = l"
proof -
  have "l \<in> set (lines_s s)" "productId_c l = pid" using find_SomeD[OF assms(2)[unfolded find_line_def]] by blast+
  then show ?thesis using assms by (auto simp: cart_ok_def distinct_map dest: inj_onD)
qed

lemma cart_ok_put_quantity:
  assumes "cart_ok (lines_s s)" and "find_line pid s = Some l" and "validateQuantity l q = Inr v"
  shows "cart_ok (lines_s (put_quantity pid v s))"
proof -
  have "cart_line_ok (l'\<lparr>quantity_c := v\<rparr>)" if "l' \<in> set (lines_s s)" "productId_c l' = pid" for l'
    using cart_line_ok_quantity validateQuantity_again[OF assms(3)] find_line_Some[OF assms(1,2) that] that(1) assms(1)
    by (auto simp: cart_ok_def list_all_iff)
  then show ?thesis by (auto simp: put_quantity_def intro: cart_ok_update[OF assms(1)])
qed

lemma cart_ok_setQuantity: "cart_ok (lines_s s) \<Longrightarrow> cart_ok (lines_s (snd (setQuantity pid q s)))"
  by (auto simp: setQuantity_def cart_ok_put_quantity split: option.split sum.split)

lemma cart_ok_refresh:
  assumes "cart_ok ls" and "catalogue_ok (RefreshLinePrices us)"
  shows "cart_ok (map (refresh_line us) ls)"
proof -
  have "cart_line_ok (refresh_line us l)" if "cart_line_ok l" for l
  proof (cases "update_of us l")
    case (Some u)
    then have "\<not> isCustom_c l" "u \<in> set us"
      using find_SomeD by (force simp: update_of_def split: if_splits)+
    then show ?thesis using that assms(2) Some
      by (auto simp: cart_line_ok_def refresh_line_def list_all_iff text_or_nonempty)
  qed (simp add: refresh_line_def that)
  moreover have "productId_c (refresh_line us l) = productId_c l" for l
    by (simp add: refresh_line_def split: option.split)
  ultimately show ?thesis using assms(1) by (simp add: cart_ok_def list_all_iff comp_def)
qed

lemma clamped_percent:
  "\<exists>r. (if is_finite x then js_min (JNum 100) (js_max (JNum 0) x) else JNum 0) = JNum r \<and> 0 \<le> r \<and> r \<le> 100"
  by (cases x) (auto simp: js_min_def js_max_def)


section \<open>Every call keeps the carts well formed\<close>

definition carts_ok :: "string list \<Rightarrow> PosState \<Rightarrow> bool" where
  "carts_ok used s \<longleftrightarrow> state_ok s \<and> ids_drawn (set used) s"

lemma all_keys_lines [simp]: "all_keys (s\<lparr>lines_s := ls\<rparr>) = all_keys s"
  by (simp add: all_keys_def held_keys_def)

lemma carts_ok_lines:
  assumes "carts_ok used s" and "cart_ok ls" and "lineId_c ` set ls \<subseteq> set ds \<union> lineId_c ` set (lines_s s)"
  shows "carts_ok (ds @ used) (s\<lparr>lines_s := ls\<rparr>)"
proof -
  have "lineId_c l \<in> set ds \<union> set used" if "l \<in> set ls" for l
    using assms(1,3) that by (force simp: carts_ok_def ids_drawn_def lines_of_state_def)
  then show ?thesis using assms(1,2)
    by (auto simp: carts_ok_def state_ok_def ids_drawn_def lines_of_state_def)
qed

lemma carts_ok_more: "carts_ok used s \<Longrightarrow> carts_ok (ds @ used) s"
  by (auto simp: carts_ok_def ids_drawn_def)

lemma carts_okD:
  assumes "carts_ok used s"
  shows "cart_ok (lines_s s)" "held_ok (heldCarts_s s)" "distinct (all_keys s)" "[] \<notin> set (all_keys s)"
    and "l \<in> set (lines_s s) \<Longrightarrow> lineId_c l \<in> set used"
    and "set (all_keys s) \<subseteq> set used" and "h \<in> set (heldCarts_s s) \<Longrightarrow> id_h h \<in> set used"
  using assms by (auto simp: carts_ok_def state_ok_def ids_drawn_def lines_of_state_def)

lemma put_quantity_ids: "lineId_c ` set (lines_s (put_quantity pid v s)) \<subseteq> lineId_c ` set (lines_s s)"
  by (auto simp: put_quantity_def set_update_rows)

lemma carts_ok_put_quantity:
  assumes "carts_ok used s" and "find_line pid s = Some l" and "validateQuantity l q = Inr v"
  shows "carts_ok (ds @ used) (put_quantity pid v s)"
proof -
  have "put_quantity pid v s = s\<lparr>lines_s := lines_s (put_quantity pid v s)\<rparr>" by (simp add: put_quantity_def)
  moreover have "carts_ok (ds @ used) (s\<lparr>lines_s := lines_s (put_quantity pid v s)\<rparr>)"
    using assms by (intro carts_ok_lines cart_ok_put_quantity[OF carts_okD(1)] le_supI2[OF put_quantity_ids])
  ultimately show ?thesis by simp
qed

lemma carts_ok_setQuantity: "carts_ok used s \<Longrightarrow> carts_ok used (snd (setQuantity pid q s))"
  using carts_ok_put_quantity[of used s pid _ q _ "[]"]
  by (auto simp: setQuantity_def split: option.split sum.split)

lemma carts_ok_removeLine: "carts_ok used s \<Longrightarrow> carts_ok used (removeLine pid s)"
  using carts_ok_lines[of used s "filter (\<lambda>l. productId_c l \<noteq> pid) (lines_s s)" "[]"] carts_okD(1)
  by (auto simp: removeLine_def intro: cart_ok_filter)

lemma carts_ok_step_quantity:
  "carts_ok used s \<Longrightarrow> carts_ok used (snd (increment pid s))"
  "carts_ok used s \<Longrightarrow> carts_ok used (snd (decrement pid s))"
  by (auto simp: increment_def decrement_def Let_def carts_ok_setQuantity carts_ok_removeLine split: option.split)

lemma carts_ok_setLineDiscount:
  assumes "carts_ok used s"
  shows "carts_ok used (setLineDiscount pid x s)"
proof -
  obtain r where r: "(if is_finite x then js_min (JNum 100) (js_max (JNum 0) x) else JNum 0) = JNum r" "0 \<le> r" "r \<le> 100"
    using clamped_percent by blast
  have "cart_ok (update_rows (\<lambda>l. productId_c l = pid) (\<lambda>l. l\<lparr>discountPercent_c := JNum r\<rparr>) (lines_s s))"
    using carts_okD(1)[OF assms] r(2,3) by (intro cart_ok_update) (auto simp: cart_ok_def list_all_iff cart_line_ok_discount)
  moreover have "lineId_c ` set (update_rows (\<lambda>l. productId_c l = pid) (\<lambda>l. l\<lparr>discountPercent_c := JNum r\<rparr>) (lines_s s))
      \<subseteq> lineId_c ` set (lines_s s)"
    by (auto simp: set_update_rows)
  ultimately show ?thesis
    using carts_ok_lines[OF assms, of _ "[]"] by (simp add: setLineDiscount_def r(1))
qed

lemma find_line_None: "find_line pid s = None \<Longrightarrow> pid \<notin> productId_c ` set (lines_s s)"
  by (auto simp: find_line_def find_None_iff)

lemma carts_ok_addProduct:
  assumes ok: "carts_ok used s" and cat: "catalogue_ok (AddProduct u p q)" and u: "u \<noteq> []"
  shows "carts_ok (u # used) (snd (addProduct u p q s))"
proof (cases "find_line (id_p p) s")
  case (Some l)
  then show ?thesis
    using carts_ok_put_quantity[OF ok Some, of _ _ "[u]"] carts_ok_more[OF ok, of "[u]"]
    by (simp add: addProduct_def split: sum.split)
next
  case None
  show ?thesis
  proof (cases "validateQuantity (lineFromProduct u p q) q")
    case (Inr v)
    have "cart_ok (lines_s s @ [(lineFromProduct u p q)\<lparr>quantity_c := v\<rparr>])"
      using find_line_None[OF None] carts_okD(1)[OF ok] cart_line_ok_product[OF Inr cat u]
      by (intro cart_ok_snoc) (simp_all add: lineFromProduct_fields)
    then show ?thesis
      using carts_ok_lines[OF ok, of _ "[u]"] None Inr
      by (simp add: addProduct_def Let_def lineFromProduct_fields)
  qed (use None carts_ok_more[OF ok, of "[u]"] in \<open>simp add: addProduct_def Let_def\<close>)
qed

text \<open>A custom line's key is free: the id in it was never drawn before.\<close>

lemma fresh_custom_key:
  assumes "carts_ok used s" and "u \<notin> set used"
  shows "CUSTOM_LINE_PREFIX @ u \<notin> productId_c ` set (lines_s s)"
proof
  assume "CUSTOM_LINE_PREFIX @ u \<in> productId_c ` set (lines_s s)"
  then obtain l where l: "l \<in> set (lines_s s)" "productId_c l = CUSTOM_LINE_PREFIX @ u" by auto
  then have "cart_line_ok l" using carts_okD(1)[OF assms(1)] by (auto simp: cart_ok_def list_all_iff)
  then have "lineId_c l = u" using l(2) by (auto simp: cart_line_ok_def)
  then show False using carts_okD(5)[OF assms(1) l(1)] assms(2) by simp
qed

lemma carts_ok_addCustomItem:
  assumes ok: "carts_ok used s" and u: "u \<noteq> []" "u \<notin> set used"
  shows "carts_ok (u # used) (snd (addCustomItem u i s))"
proof (cases "lineFromCustomItem u i")
  case (Inr l)
  note l = lineFromCustomItem_Inr[OF Inr]
  have "cart_ok (lines_s s @ [l])"
    using carts_okD(1)[OF ok] l u fresh_custom_key[OF ok u(2)] by (intro cart_ok_snoc) auto
  then show ?thesis using carts_ok_lines[OF ok, of _ "[u]"] l Inr by (simp add: addCustomItem_def)
qed (use carts_ok_more[OF ok, of "[u]"] in \<open>simp add: addCustomItem_def\<close>)

lemma carts_ok_refresh:
  assumes "carts_ok used s" and "catalogue_ok (RefreshLinePrices us)"
  shows "carts_ok used (snd (refreshLinePrices us s))"
proof -
  have "lineId_c (refresh_line us l) = lineId_c l" for l by (simp add: refresh_line_def split: option.split)
  then have "lineId_c ` set (map (refresh_line us) (lines_s s)) \<subseteq> lineId_c ` set (lines_s s)" by auto
  then show ?thesis
    using carts_ok_lines[OF assms(1) cart_ok_refresh[OF carts_okD(1)[OF assms(1)] assms(2)], of "[]"]
    by (simp add: refreshLinePrices_def)
qed


text \<open>Calls that leave the lines and the held carts alone.\<close>

lemma carts_ok_same:
  assumes "carts_ok used s" and "lines_s s' = lines_s s \<or> lines_s s' = []" and "heldCarts_s s' = heldCarts_s s"
    and "opt_list (idempotencyKey_s s') = [] \<or> idempotencyKey_s s' = idempotencyKey_s s"
  shows "carts_ok used s'"
  using assms
  by (auto simp: carts_ok_def state_ok_def ids_drawn_def lines_of_state_def all_keys_def held_keys_def)

lemma carts_ok_quiet:
  assumes "carts_ok used s"
  shows "carts_ok used (clearCart s)" "carts_ok used (setCustomer c s)" "carts_ok used (setDiscount t v r s)"
    "carts_ok used (setNotes n s)" "carts_ok used (markKeyAttempted s)" "carts_ok used (settleKeyAttempt s)"
    "carts_ok used (consumeIdempotencyKey s)"
  by (rule carts_ok_same[OF assms];
      simp add: clearCart_def setCustomer_def setDiscount_def setNotes_def markKeyAttempted_def
        settleKeyAttempt_def consumeIdempotencyKey_def opt_list_def Let_def)+

lemma carts_ok_newKey:
  assumes "carts_ok used s" and "k \<noteq> []" and "k \<notin> set used"
  shows "carts_ok (k # used) (snd (newIdempotencyKey k s))"
proof -
  have "k \<notin> set (held_keys s)" using carts_okD(6)[OF assms(1)] assms(3) by (auto simp: all_keys_def)
  then show ?thesis using assms
    by (auto simp: carts_ok_def state_ok_def ids_drawn_def lines_of_state_def all_keys_def held_keys_def
        opt_list_def newIdempotencyKey_def)
qed

lemma carts_ok_ensureKey:
  "carts_ok used s \<Longrightarrow> k \<noteq> [] \<Longrightarrow> k \<notin> set used \<Longrightarrow> carts_ok (k # used) (snd (ensureIdempotencyKey k s))"
  using carts_ok_more[of used s "[k]"] carts_ok_newKey by (simp add: ensureIdempotencyKey_def Let_def)

section \<open>Holding and resuming\<close>

lemma keys_of_simps [simp]:
  "keys_of [] = []" "keys_of (h # hs) = opt_list (idempotencyKey_h h) @ keys_of hs"
  "keys_of (hs @ hs') = keys_of hs @ keys_of hs'"
  by (simp_all add: keys_of_def)

lemma set_keys_of_filter: "set (keys_of (filter P hs)) \<subseteq> set (keys_of hs)"
  by (auto simp: keys_of_def)

lemma distinct_keys_of_filter: "distinct (keys_of hs) \<Longrightarrow> distinct (keys_of (filter P hs))"
  by (induction hs) (use set_keys_of_filter in fastforce)+

lemma find_split:
  assumes "distinct (map id_h hs)" and "find (\<lambda>h. id_h h = i) hs = Some h"
  shows "\<exists>xs ys. hs = xs @ h # ys \<and> filter (\<lambda>h. id_h h \<noteq> i) hs = xs @ ys \<and> id_h h = i"
proof -
  have h: "h \<in> set hs" "id_h h = i" using find_SomeD[OF assms(2)] by auto
  then obtain xs ys where split: "hs = xs @ h # ys" by (meson split_list)
  then have "i \<notin> id_h ` set (xs @ ys)" using assms(1) h(2) by auto
  then have "filter (\<lambda>h. id_h h \<noteq> i) (xs @ ys) = xs @ ys" by (intro filter_True) auto
  then show ?thesis using split h(2) by auto
qed

lemma travelling_keys:
  "opt_list (travelling_key s) = (if keyAttempted_s s then opt_list (idempotencyKey_s s) else [])"
  by (simp add: travelling_key_def opt_list_def)

lemma carts_ok_hold:
  assumes ok: "carts_ok used s" and new: "distinct ([] # u # k # used)"
  shows "carts_ok (u # k # used) (snd (holdCart u k now label s))"
proof (cases "lines_s s = []")
  case True
  then show ?thesis using carts_ok_more[OF ok, of "[u, k]"] by (simp add: holdCart_def)
next
  case False
  have "u \<notin> id_h ` set (heldCarts_s s)" "k \<notin> set (all_keys s)"
    using carts_okD(6,7)[OF ok] new by auto
  then show ?thesis using False ok new
    by (cases "idempotencyKey_s s"; cases "keyAttempted_s s")
       (auto simp: carts_ok_def state_ok_def ids_drawn_def lines_of_state_def all_keys_def held_keys_def
          held_ok_def holdCart_def parked_cart_def travelling_key_def opt_list_def Let_def)
qed

lemma carts_ok_delete: "carts_ok used s \<Longrightarrow> carts_ok used (deleteHeldCart i s)"
  using set_keys_of_filter[of "\<lambda>h. id_h h \<noteq> i" "heldCarts_s s"]
  by (auto simp: carts_ok_def state_ok_def ids_drawn_def lines_of_state_def all_keys_def held_keys_def
      held_ok_def deleteHeldCart_def list_all_iff distinct_keys_of_filter distinct_map_filter)


text \<open>What a resumption leaves, with the held cart split out of the list.\<close>

lemma resume_cases:
  assumes ok: "held_ok (heldCarts_s s)"
  obtains (none) "resumeHeldCart u k now hid s = (False, s)"
    "find (\<lambda>h. id_h h = hid) (heldCarts_s s) = None"
  | (some) h xs ys where "heldCarts_s s = xs @ h # ys" "id_h h = hid"
      "find (\<lambda>h. id_h h = hid) (heldCarts_s s) = Some h"
      "fst (resumeHeldCart u k now hid s)"
      "heldCarts_s (snd (resumeHeldCart u k now hid s)) =
        (if lines_s s = [] then [] else [parked_cart u now (''Cart '' @ nat_text (length (xs @ ys) + 1)) s]) @ xs @ ys"
      "lines_s (snd (resumeHeldCart u k now hid s)) = lines_h h"
      "customer_s (snd (resumeHeldCart u k now hid s)) = customer_h h"
      "discount_s (snd (resumeHeldCart u k now hid s)) = discount_h h"
      "notes_s (snd (resumeHeldCart u k now hid s)) = notes_h h"
      "idempotencyKey_s (snd (resumeHeldCart u k now hid s)) =
        (case idempotencyKey_h h of Some k' \<Rightarrow> Some k'
         | None \<Rightarrow> if keyAttempted_s s then Some k
                   else case idempotencyKey_s s of Some k' \<Rightarrow> Some k' | None \<Rightarrow> Some k)"
      "keyAttempted_s (snd (resumeHeldCart u k now hid s)) = (opt_text (idempotencyKey_h h) '''' \<noteq> '''')"
proof (cases "find (\<lambda>h. id_h h = hid) (heldCarts_s s)")
  case None
  then show ?thesis using none by (simp add: resumeHeldCart_def)
next
  case (Some h)
  obtain xs ys where "heldCarts_s s = xs @ h # ys" "filter (\<lambda>h. id_h h \<noteq> hid) (heldCarts_s s) = xs @ ys" "id_h h = hid"
    using find_split[OF _ Some] ok by (auto simp: held_ok_def)
  with Some show ?thesis
    by (intro some[of xs h ys]) (auto simp: resumeHeldCart_def Let_def travelling_key_def split: option.split)
qed

lemma carts_ok_resume:
  assumes ok: "carts_ok used s" and new: "distinct ([] # u # k # used)"
  shows "carts_ok (u # k # used) (snd (resumeHeldCart u k now hid s))"
proof (rule resume_cases[OF carts_okD(2)[OF ok], of u k now hid], goal_cases none some)
  case none
  then show ?thesis using carts_ok_more[OF ok, of "[u, k]"] by simp
next
  case (some h xs ys)
  let ?s = "snd (resumeHeldCart u k now hid s)"
  have fresh: "u \<notin> id_h ` set (heldCarts_s s)" "k \<notin> set (all_keys s)"
    using carts_okD(6,7)[OF ok] new by auto
  have keys: "all_keys ?s = opt_list (idempotencyKey_s ?s) @
      (if lines_s s = [] then [] else opt_list (travelling_key s)) @ keys_of (xs @ ys)"
    by (simp add: all_keys_def held_keys_def some parked_cart_def)
  have old: "all_keys s = opt_list (idempotencyKey_s s) @ keys_of xs @ opt_list (idempotencyKey_h h) @ keys_of ys"
    by (simp add: all_keys_def held_keys_def some)
  have facts: "distinct (all_keys s)" "[] \<notin> set (all_keys s)" "set (all_keys s) \<subseteq> set used" "k \<noteq> []"
    using carts_okD(3,4,6)[OF ok] new by auto
  have "distinct (all_keys ?s) \<and> [] \<notin> set (all_keys ?s) \<and> set (all_keys ?s) \<subseteq> set (u # k # used)"
    using facts fresh(2) unfolding keys old some travelling_keys
    by (cases "idempotencyKey_h h"; cases "idempotencyKey_s s"; cases "keyAttempted_s s"; cases "lines_s s = []")
       (auto simp: opt_list_def)
  moreover have "held_ok (heldCarts_s ?s)" "cart_ok (lines_s ?s)"
    using ok fresh(1) by (auto simp: carts_ok_def state_ok_def held_ok_def some parked_cart_def)
  moreover have "(\<forall>h \<in> set (heldCarts_s ?s). id_h h \<in> set (u # k # used)) \<and>
      (\<forall>l \<in> set (lines_of_state ?s). lineId_c l \<in> set (u # k # used))"
    using ok by (auto simp: carts_ok_def ids_drawn_def lines_of_state_def some parked_cart_def)
  ultimately show ?thesis by (simp add: carts_ok_def state_ok_def ids_drawn_def)
qed

section \<open>A reload gives the cart back\<close>

lemma normalize_raw_line:
  assumes "cart_line_ok l"
  shows "normalizeLine (raw_line l) (productId_c l) = l"
proof -
  obtain q where q: "quantity_c l = JNum q" using assms validateQuantity_finite unfolding cart_line_ok_def by blast
  obtain d where d: "discountPercent_c l = JNum d" using assms unfolding cart_line_ok_def by blast
  have num: "opt_num (saved_num x) = x" if "is_finite x" for x
    using that by (cases x) (auto simp: opt_num_def saved_num_def js_or_def)
  have fin: "is_finite (quantity_c l)" "is_finite (discountPercent_c l)" by (simp_all add: q d)
  have stock: "Option.bind (stockSnapshot_c l) saved_num = stockSnapshot_c l"
    using assms by (cases "stockSnapshot_c l") (auto simp: cart_line_ok_def saved_num_def)
  have texts: "text_or (lineId_c l) x = lineId_c l" "text_or (unit_c l) x = unit_c l"
      "text_or (gstRate_c l) x = gstRate_c l" "text_or (productType_c l) x = productType_c l"
      "text_or y [] = y" for x y
    using assms by (simp_all add: cart_line_ok_def text_or_def)
  have custom: "(isCustom_c l \<or> starts_with CUSTOM_LINE_PREFIX (productId_c l)) = isCustom_c l"
      "isCustom_c l \<Longrightarrow> JNum 0 = cessRate_c l" "isCustom_c l \<Longrightarrow> None = stockSnapshot_c l"
    and nums: "is_finite (unitPrice_c l)" "is_finite (mrp_c l)" "is_finite (cessRate_c l)"
    using assms by (auto simp: cart_line_ok_def)
  show ?thesis
    by (rule CartLine.equality)
       (simp_all add: normalizeLine_def raw_line_def Let_def opt_text_def texts num fin nums stock custom)
qed

lemma normalize_raw_lines:
  assumes "cart_ok ls"
  shows "normalizeLines (Some (map raw_line ls)) = ls"
proof -
  have ok: "list_all cart_line_ok ls" using assms by (simp add: cart_ok_def)
  then have "map (\<lambda>l. normalizeLine (raw_line l) (productId_c l)) ls = ls"
    by (induction ls) (simp_all add: normalize_raw_line)
  moreover have "filter (\<lambda>l. js_less (JNum 0) (quantity_c l)) ls = ls"
    using ok by (intro filter_True) (use validateQuantity_finite in \<open>fastforce simp: list_all_iff cart_line_ok_def\<close>)
  moreover have "productId_w (raw_line l) = Some (productId_c l)" for l by (simp add: raw_line_def)
  ultimately show ?thesis by (simp add: normalizeLines_def filter_map comp_def)
qed

lemma reload_state:
  assumes "state_ok s"
  shows "merge_saved (Some (partialize s)) cur = s"
proof -
  have "map (\<lambda>h. h\<lparr>lines_h := normalizeLines (Some (map raw_line (lines_h h)))\<rparr>) (heldCarts_s s) = heldCarts_s s"
    using assms by (intro map_idI) (simp add: state_ok_def held_ok_def list_all_iff normalize_raw_lines)
  then show ?thesis using assms
    by (simp add: merge_saved_def partialize_def keep_or_def state_ok_def normalize_raw_lines comp_def)
qed

section \<open>Histories keep the carts well formed\<close>

lemma carts_ok_perform:
  assumes "carts_ok used s" and "catalogue_ok c" and "distinct ([] # drawn c @ used)"
  shows "carts_ok (drawn c @ used) (perform c s)"
  using assms
proof (cases c)
  case Reload
  then show ?thesis using assms reload_state by (simp add: carts_ok_def)
qed (auto simp: carts_ok_addProduct carts_ok_addCustomItem carts_ok_setQuantity carts_ok_step_quantity
      carts_ok_setLineDiscount carts_ok_removeLine carts_ok_quiet carts_ok_newKey carts_ok_ensureKey carts_ok_hold
      carts_ok_resume carts_ok_delete carts_ok_refresh)

lemma history_carts_ok: "cart_history used s \<Longrightarrow> carts_ok used s"
proof (induction rule: cart_history.induct)
  case start
  then show ?case
    by (simp add: carts_ok_def state_ok_def ids_drawn_def initial_cart_def held_ok_def all_keys_def held_keys_def
        lines_of_state_def opt_list_def)
next
  case (call used s c)
  then show ?case using carts_ok_perform by blast
qed


section \<open>Properties\<close>

definition sugar :: SearchResult where
  "sugar = \<lparr>id_p = ''sugar'', name_p = ''Sugar'', sku_p = ''S1'', sellingPrice_p = JNum 45, mrp_p = JNum 50,
     gstRate_p = ''FIVE'', cessRate_p = JNum 0, unit_p = ''KG'', currentStock_p = JNum 10, type_p = ''SIMPLE''\<rparr>"

definition packing :: CustomItemInput where
  "packing = \<lparr>name_ci = '' Packing '', unitPrice_ci = JNum 5, quantity_ci = JNum 2, gstRate_ci = ''EIGHTEEN'', unit_ci = ''PCS''\<rparr>"

definition counter_calls :: "cart_call list" where
  "counter_calls = [AddProduct ''u1'' sugar (JNum 1), AddCustomItem ''u2'' packing, EnsureKey ''k1'', MarkKeyAttempted]"

definition counter_cart :: PosState where
  "counter_cart = fold perform counter_calls initial_cart"

definition sugar_line :: CartLine where
  "sugar_line = (lineFromProduct ''u1'' sugar (JNum 1))\<lparr>quantity_c := JNum 1\<rparr>"

lemma validate_sugar: "validateQuantity (lineFromProduct ''u1'' sugar (JNum 1)) (JNum 1) = Inr (JNum 1)"
  by code_simp

lemma validate_packing: "lineFromCustomItem ''u2'' packing = Inr (custom_line ''u2'' packing)"
  by code_simp

lemma counter_cart_eq:
  "counter_cart = initial_cart\<lparr>lines_s := [sugar_line, custom_line ''u2'' packing],
     idempotencyKey_s := Some ''k1'', keyAttempted_s := True\<rparr>"
  by (simp add: counter_cart_def counter_calls_def addProduct_def find_line_def initial_cart_def Let_def
      validate_sugar validate_packing addCustomItem_def ensureIdempotencyKey_def newIdempotencyKey_def
      markKeyAttempted_def sugar_line_def opt_text_def)

lemma history_fold:
  "cart_history used s \<Longrightarrow> list_all catalogue_ok cs \<Longrightarrow> distinct ([] # concat (map drawn (rev cs)) @ used) \<Longrightarrow>
    cart_history (concat (map drawn (rev cs)) @ used) (fold perform cs s)"
proof (induction cs arbitrary: used s)
  case (Cons c cs)
  have "distinct ([] # drawn c @ used)" using Cons.prems(3) by auto
  then have "cart_history (drawn c @ used) (perform c s)"
    using Cons.prems cart_history.call by auto
  with Cons show ?case by simp
qed simp

lemma counter_history: "cart_history [''k1'', ''u2'', ''u1''] counter_cart"
  using history_fold[OF cart_history.start, of counter_calls]
  by (simp add: counter_cart_def counter_calls_def sugar_def CUSTOM_LINE_PREFIX_def starts_with_def)

text \<open>C38: whatever calls a counter makes, every line of its cart and of every held cart passes the
  quantity rules for its own unit and stock, carries a discount between 0 and 100 percent, and
  is the only line with its key; no held cart is empty, and every held cart has its own id.\<close>

theorem cart_invariant:
  assumes "cart_history used s"
  shows "cart_ok (lines_s s) \<and> held_ok (heldCarts_s s)"
  using carts_okD[OF history_carts_ok[OF assms]] by blast

theorem cart_invariant_witness:
  "cart_ok (lines_s counter_cart) \<and> held_ok (heldCarts_s counter_cart)"
  using cart_invariant[OF counter_history] .

text \<open>The carts a state holds under a key whose checkout got no answer.\<close>

definition unanswered :: "PosState \<Rightarrow> (string \<times> CartLine list) list" where
  "unanswered s =
     map (\<lambda>k. (k, lines_s s)) (opt_list (travelling_key s)) @
     concat (map (\<lambda>h. map (\<lambda>k. (k, lines_h h)) (opt_list (idempotencyKey_h h))) (heldCarts_s s))"

lemma unanswered_hold: "set (unanswered (snd (holdCart u k now label s))) = set (unanswered s)"
  by (cases "idempotencyKey_s s"; cases "keyAttempted_s s")
     (auto simp: unanswered_def holdCart_def parked_cart_def travelling_key_def opt_list_def Let_def)

lemma unanswered_resume:
  assumes ok: "carts_ok used s" and "lines_s s \<noteq> [] \<or> \<not> keyAttempted_s s"
  shows "set (unanswered (snd (resumeHeldCart u k now hid s))) = set (unanswered s)"
proof (rule resume_cases[OF carts_okD(2)[OF ok], of u k now hid], goal_cases none some)
  case (some h xs ys)
  have "idempotencyKey_h h \<noteq> Some []"
    using carts_okD(4)[OF ok] by (auto simp: all_keys_def held_keys_def some opt_list_def)
  then show ?case using assms(2) unfolding unanswered_def some
    by (cases "idempotencyKey_h h"; cases "keyAttempted_s s"; cases "lines_s s = []")
       (auto simp: parked_cart_def travelling_key_def opt_list_def opt_text_def text_or_def some)
qed simp

text \<open>A key with an unanswered attempt stays with its cart. No two carts ever hold the same key,
  and holding the cart or resuming another one leaves every unanswered key paired with exactly
  the lines it was sent with.\<close>

theorem unanswered_key_stays:
  assumes "cart_history used s" and "lines_s s \<noteq> []"
    and "distinct ([] # u # k # used)"
  shows "distinct (all_keys s) \<and>
    set (unanswered (snd (holdCart u k now label s))) = set (unanswered s) \<and>
    set (unanswered (snd (resumeHeldCart u k now hid s))) = set (unanswered s)"
  using carts_okD(3)[OF history_carts_ok[OF assms(1)]] unanswered_hold
    unanswered_resume[OF history_carts_ok[OF assms(1)]] assms(2) by blast

theorem unanswered_key_stays_witness:
  "distinct (all_keys counter_cart) \<and>
    set (unanswered (snd (holdCart ''h1'' ''k2'' ''now'' '''' counter_cart))) = {(''k1'', lines_s counter_cart)} \<and>
    set (unanswered (snd (resumeHeldCart ''h1'' ''k2'' ''now'' ''h0'' counter_cart))) = {(''k1'', lines_s counter_cart)}"
proof -
  have "lines_s counter_cart \<noteq> []" by (simp add: counter_cart_eq)
  moreover have "set (unanswered counter_cart) = {(''k1'', lines_s counter_cart)}"
    by (simp add: counter_cart_eq unanswered_def travelling_key_def opt_list_def initial_cart_def)
  ultimately show ?thesis
    using unanswered_key_stays[OF counter_history, of "''h1''" "''k2''" "''now''" "''''" "''h0''"] by simp
qed


end
