(* ===== verification/CartBehaviour.thy ===== *)
theory CartBehaviour
  imports CartProperties
begin

text \<open>
  What the cart's operations undo: holding and resuming, reloading, stepping a quantity up and
  down; and what scanning a product twice, refreshing prices and entering a shop's scope do.
\<close>

section \<open>Holding and resuming\<close>

text \<open>C39: a cart that is held and resumed comes back as it was: its lines, customer, discount,
  notes, request key and whether that key has an unanswered attempt, with the other held carts
  untouched.\<close>

theorem hold_then_resume:
  assumes "lines_s s \<noteq> []" and "idempotencyKey_s s = Some k" and "k \<noteq> []"
    and "u \<notin> id_h ` set (heldCarts_s s)"
    and "holdCart u k1 now label s = (Some h, s1)"
  shows "resumeHeldCart u2 k2 now2 (id_h h) s1 = (True, s)"
proof -
  have h: "id_h h = u" "lines_h h = lines_s s" "customer_h h = customer_s s" "discount_h h = discount_s s"
    "notes_h h = notes_s s" "idempotencyKey_h h = travelling_key s"
    and s1: "heldCarts_s s1 = h # heldCarts_s s" "lines_s s1 = []"
    "idempotencyKey_s s1 = (if keyAttempted_s s then Some k1 else Some k)" "\<not> keyAttempted_s s1"
    using assms(1,2,5) by (auto simp: holdCart_def Let_def parked_cart_def travelling_key_def split: if_splits)
  have "filter (\<lambda>h. id_h h \<noteq> u) (heldCarts_s s) = heldCarts_s s"
    using assms(4) by (intro filter_True) auto
  then show ?thesis
    using assms(2,3) h s1
    by (cases s; cases s1)
       (auto simp: resumeHeldCart_def Let_def travelling_key_def opt_text_def text_or_def)
qed

theorem hold_then_resume_witness:
  "fst (resumeHeldCart ''h9'' ''k3'' ''now'' ''h1'' (snd (holdCart ''h1'' ''k2'' ''now'' ''Ravi'' counter_cart)))"
proof -
  have c: "lines_s counter_cart \<noteq> []" "idempotencyKey_s counter_cart = Some ''k1''"
    "''h1'' \<notin> id_h ` set (heldCarts_s counter_cart)"
    by (simp_all add: counter_cart_eq initial_cart_def)
  obtain h s1 where e: "holdCart ''h1'' ''k2'' ''now'' ''Ravi'' counter_cart = (Some h, s1)" "id_h h = ''h1''"
    using c(1) by (simp add: holdCart_def Let_def parked_cart_def)
  show ?thesis
    using hold_then_resume[OF c(1,2) _ c(3) e(1), of "''h9''" "''k3''" "''now''"] e by simp
qed

section \<open>Reloading\<close>

text \<open>A reload of the page gives back exactly the cart that was saved, held carts, request key
  and its unanswered attempt included, whatever state the store has before it.\<close>

theorem reload_restores:
  assumes "cart_history used s"
  shows "merge_saved (Some (partialize s)) cur = s"
  using reload_state carts_ok_def history_carts_ok[OF assms] by blast

theorem reload_restores_witness:
  "merge_saved (Some (partialize counter_cart)) initial_cart = counter_cart"
  using reload_restores[OF counter_history] .

section \<open>Stepping a quantity\<close>

definition step_of :: "string \<Rightarrow> rat" where
  "step_of u = (if allowsDecimalQuantity u then 1 / 2 else 1)"

lemma round_double_steps:
  "round_double 1 = 1" "round_double (1 / 2) = 1 / 2" "round_double (- 1) = - 1" "round_double (- 1 / 2) = - 1 / 2"
  by code_simp+

lemma double_steps: "JNum (step_of u) = double (step_of u)" "js_neg (JNum (step_of u)) = double (- step_of u)"
  using round_double_steps by (auto simp: step_of_def double_small)

lemma step_grid: "on_grid 3 (step_of u)" "0 < step_of u" "step_of u \<le> 1"
proof -
  have "on_grid 3 (1 / 2 :: rat)" unfolding on_grid_iff by (rule exI[of _ 500]) simp
  then show "on_grid 3 (step_of u)" using on_grid_of_int[of 3 1] by (simp add: step_of_def)
qed (simp_all add: step_of_def)

lemma quantityStep_double: "quantityStep u = double (step_of u)"
  using double_steps(1)[of u] by (simp add: quantityStep_def step_of_def split: if_splits)

lemma step_up:
  assumes "on_grid 3 x" and "0 < x" and "x < 2 ^ 27"
  shows "js_to_fixed 3 (js_add (double x) (quantityStep u)) = double (x + step_of u)"
proof -
  have "\<bar>x\<bar> < 2 ^ 28" "\<bar>step_of u\<bar> < 2 ^ 28" using assms(2,3) step_grid(2,3)[of u] by simp_all
  then show ?thesis unfolding quantityStep_double by (rule to_fixed_sum[OF assms(1) step_grid(1)])
qed

lemma step_down:
  assumes "on_grid 3 x" and "0 < x" and "x < 2 ^ 27"
  shows "js_to_fixed 3 (js_sub (double (x + step_of u)) (quantityStep u)) = double x"
proof -
  have q: "js_neg (quantityStep u) = double (- step_of u)"
    using double_steps[of u] by (simp add: quantityStep_double)
  have "\<bar>x + step_of u\<bar> < 2 ^ 28" "\<bar>- step_of u\<bar> < 2 ^ 28" using assms(2,3) step_grid(2,3)[of u] by simp_all
  moreover have "on_grid 3 (x + step_of u)" "on_grid 3 (- step_of u)"
    using assms(1) step_grid(1) by (auto intro: on_grid_add on_grid_minus)
  ultimately have "js_to_fixed 3 (js_add (double (x + step_of u)) (double (- step_of u))) = double (x + step_of u + - step_of u)"
    by (intro to_fixed_sum)
  then show ?thesis by (simp add: js_sub_def q)
qed

lemma double_positive:
  assumes "on_grid 3 x" and "0 < x" and "x < 2 ^ 27"
  shows "\<not> js_le (double x) (JNum 0)"
proof -
  have x: "\<bar>x\<bar> < 2 ^ 30" using assms(2,3) by simp
  have "1 / 10 ^ 3 \<le> x" using on_grid_abs_ge[OF assms(1)] assms(2) by simp
  then have "0 < round_double x" 
    using round_double_close[OF x] abs_ge_minus_self[of "round_double x - x"] by simp
  then show ?thesis by (simp add: double_small[OF x] js_le_def js_same_def)
qed

lemma put_quantity_twice: "put_quantity pid b (put_quantity pid a s) = put_quantity pid b s"
  by (simp add: put_quantity_def update_rows_def comp_def cong: if_cong)

lemma put_quantity_same:
  assumes "cart_ok (lines_s s)" and "find_line pid s = Some l"
  shows "put_quantity pid (quantity_c l) s = s"
proof -
  have "update_rows (\<lambda>l. productId_c l = pid) (\<lambda>l'. l'\<lparr>quantity_c := quantity_c l\<rparr>) (lines_s s) = lines_s s"
    unfolding update_rows_def using find_line_Some[OF assms] by (intro map_idI) auto
  then show ?thesis by (simp add: put_quantity_def)
qed

lemma find_line_put:
  "find_line pid s = Some l \<Longrightarrow> find_line pid (put_quantity pid q s) = Some (l\<lparr>quantity_c := q\<rparr>)"
proof -
  have "find (\<lambda>l. productId_c l = pid) ls = Some l \<Longrightarrow>
    find (\<lambda>l. productId_c l = pid) (update_rows (\<lambda>l. productId_c l = pid) (\<lambda>l. l\<lparr>quantity_c := q\<rparr>) ls)
      = Some (l\<lparr>quantity_c := q\<rparr>)" for ls
    by (induction ls) (auto simp: update_rows_def)
  then show "find_line pid s = Some l \<Longrightarrow> ?thesis" by (simp add: find_line_def put_quantity_def)
qed

text \<open>A step up is exact in decimals, one unit or half a unit on weighed goods, and the step
  down after it gives back the cart as it was: rounding in doubles never leaves a residue in
  the quantity.\<close>

theorem step_up_then_down:
  assumes "cart_history used s" and "find_line pid s = Some l" and "quantity_c l = double x"
    and "on_grid 3 x" and "0 < x" and "x < 2 ^ 27"
    and "increment pid s = (Inr v, s1)"
  shows "v = double (x + step_of (unit_c l)) \<and> decrement pid s1 = (Inr (double x), s)"
proof -
  have ok: "cart_ok (lines_s s)" using carts_okD(1)[OF history_carts_ok[OF assms(1)]] .
  then have l: "validateQuantity l (double x) = Inr (double x)"
    using find_SomeD[OF assms(2)[unfolded find_line_def]] assms(3) by (auto simp: cart_ok_def list_all_iff cart_line_ok_def)
  let ?v = "double (x + step_of (unit_c l))"
  have "setQuantity pid ?v s = (Inr v, s1)"
    using assms(2,3,7) step_up[OF assms(4-6)] by (simp add: increment_def MAX_DECIMALS_def)
  then have v: "validateQuantity l ?v = Inr v" and s1: "s1 = put_quantity pid v s"
    using assms(2) by (auto simp: setQuantity_def split: sum.splits)
  have v': "v = ?v" using validateQuantity_value[OF v] .
  have find1: "find_line pid s1 = Some (l\<lparr>quantity_c := v\<rparr>)" using find_line_put[OF assms(2)] s1 by simp
  then have "decrement pid s1 = setQuantity pid (double x) s1"
    using step_down[OF assms(4-6), of "unit_c l"] double_positive[OF assms(4-6)]
    by (simp add: decrement_def Let_def MAX_DECIMALS_def v')
  also have "\<dots> = (Inr (double x), put_quantity pid (double x) s1)"
    using find1 l by (simp add: setQuantity_def)
  also have "put_quantity pid (double x) s1 = s"
    using put_quantity_same[OF ok assms(2)] by (simp add: s1 put_quantity_twice assms(3))
  finally show ?thesis using v' by simp
qed

text \<open>2.118 kg of sugar on the counter.\<close>

lemma double_one: "JNum 1 = double 1"
  using round_double_steps(1) double_small[of 1] by simp

lemma counter_find: "find_line ''sugar'' counter_cart = Some sugar_line"
  by (simp add: counter_cart_eq find_line_def sugar_line_def lineFromProduct_def Let_def sugar_def)

lemma counter_increment:
  "increment ''sugar'' counter_cart = (Inr (double (3 / 2)), put_quantity ''sugar'' (double (3 / 2)) counter_cart)"
proof -
  have "unit_c sugar_line = ''KG''" "quantity_c sugar_line = JNum 1"
    by (simp_all add: sugar_line_def lineFromProduct_def Let_def sugar_def text_or_def)
  moreover have "js_to_fixed MAX_DECIMALS (js_add (JNum 1) (quantityStep ''KG'')) = double (3 / 2)" by code_simp
  moreover have "validateQuantity sugar_line (double (3 / 2)) = Inr (double (3 / 2))" by code_simp
  ultimately show ?thesis by (simp add: increment_def counter_find setQuantity_def)
qed

theorem step_up_then_down_witness:
  "decrement ''sugar'' (put_quantity ''sugar'' (double (3 / 2)) counter_cart) = (Inr (double 1), counter_cart)"
proof -
  have "quantity_c sugar_line = double 1" using double_one by (simp add: sugar_line_def)
  then show ?thesis
    using step_up_then_down[OF counter_history counter_find _ _ _ _ counter_increment, of 1, THEN conjunct2]
      on_grid_of_int[of 3 1]
    by simp
qed

section \<open>Scanning a weighed product twice\<close>

definition weighed :: js_number where "weighed = double (118 / 1000)"
definition weighed_up :: js_number where "weighed_up = double (618 / 1000)"

definition weighed_cart :: PosState where
  "weighed_cart = put_quantity ''sugar'' weighed counter_cart"

text \<open>a product scanned again adds one unit to its line, but the sum is not fixed to three
  decimals as the step buttons' is: 0.118 kg and one more is refused as having too many
  decimals, where the step button takes 0.118 kg to 0.618.\<close>

theorem second_scan_refused:
  "setQuantity ''sugar'' weighed counter_cart = (Inr weighed, weighed_cart) \<and>
    addProduct ''u9'' sugar (JNum 1) weighed_cart = (Inl TooManyDecimals, weighed_cart) \<and>
    fst (increment ''sugar'' weighed_cart) = Inr weighed_up"
proof -
  let ?l = "sugar_line\<lparr>quantity_c := weighed\<rparr>"
  have find: "find_line ''sugar'' weighed_cart = Some ?l"
    unfolding weighed_cart_def by (rule find_line_put[OF counter_find])
  have "validateQuantity sugar_line weighed = Inr weighed" by code_simp
  moreover have "validateQuantity ?l (js_add (quantity_c ?l) (JNum 1)) = Inl TooManyDecimals" by code_simp
  moreover have "js_to_fixed MAX_DECIMALS (js_add (quantity_c ?l) (quantityStep (unit_c ?l))) = weighed_up"
    by code_simp
  moreover have "validateQuantity ?l weighed_up = Inr weighed_up" by code_simp
  moreover have "id_p sugar = ''sugar''" by (simp add: sugar_def)
  ultimately show ?thesis
    by (simp add: addProduct_def increment_def setQuantity_def find counter_find weighed_cart_def[symmetric]
        del: validateQuantity_cong)
qed

section \<open>Prices\<close>

lemma refresh_line_twice: "refresh_line us (refresh_line us l) = refresh_line us l"
proof -
  have "update_of us (refresh_line us l) = update_of us l"
    by (simp add: update_of_def refresh_line_def split: option.split)
  then show ?thesis by (simp add: refresh_line_def text_or_def split: option.split)
qed

lemma price_change_iff:
  assumes "is_finite (unitPrice_c l)" and "catalogue_ok (RefreshLinePrices us)"
  shows "price_change us l = (if unitPrice_c (refresh_line us l) = unitPrice_c l then []
    else [\<lparr>productId_ch = productId_c l, name_ch = name_c l, from_ch = unitPrice_c l,
           to_ch = unitPrice_c (refresh_line us l)\<rparr>])"
proof (cases "update_of us l")
  case (Some u)
  then have "u \<in> set us" using find_SomeD by (force simp: update_of_def split: if_splits)
  then have "is_finite (unitPrice_u u)" using assms(2) by (simp add: list_all_iff)
  then have "unitPrice_u u \<noteq> JNaN" by auto
  then show ?thesis using Some by (simp add: price_change_def refresh_line_def js_same_def)
qed (simp add: price_change_def refresh_line_def)

text \<open>refreshing prices reports exactly the lines whose unit price changes, in the order of the
  cart, with the old and the new price; refreshing again with the same prices changes nothing
  and reports nothing.\<close>

theorem refresh_reports_changes:
  assumes "cart_history used s" and "catalogue_ok (RefreshLinePrices us)"
    and "refreshLinePrices us s = (changes, s1)"
  shows "map productId_ch changes =
      map productId_c (filter (\<lambda>l. unitPrice_c (refresh_line us l) \<noteq> unitPrice_c l) (lines_s s)) \<and>
    refreshLinePrices us s1 = ([], s1)"
proof -
  have ok: "cart_ok (lines_s s)" using carts_okD(1)[OF history_carts_ok[OF assms(1)]] .
  have fin: "list_all (\<lambda>l. is_finite (unitPrice_c l)) (lines_s s)"
    using ok by (auto simp: cart_ok_def list_all_iff cart_line_ok_def)
  have s1: "s1 = s\<lparr>lines_s := map (refresh_line us) (lines_s s)\<rparr>"
    and ch: "changes = concat (map (price_change us) (lines_s s))"
    using assms(3) by (auto simp: refreshLinePrices_def)
  have "cart_ok (map (refresh_line us) (lines_s s))" by (rule cart_ok_refresh[OF ok assms(2)])
  then have fin': "list_all (\<lambda>l. is_finite (unitPrice_c (refresh_line us l))) (lines_s s)"
    by (auto simp: cart_ok_def list_all_iff cart_line_ok_def)
  have "map productId_ch (concat (map (price_change us) ls)) =
      map productId_c (filter (\<lambda>l. unitPrice_c (refresh_line us l) \<noteq> unitPrice_c l) ls)"
    if "list_all (\<lambda>l. is_finite (unitPrice_c l)) ls" for ls
    using that by (induction ls) (simp_all add: price_change_iff[OF _ assms(2)])
  moreover have "concat (map (price_change us) (map (refresh_line us) ls)) = []"
    if "list_all (\<lambda>l. is_finite (unitPrice_c (refresh_line us l))) ls" for ls
    using that by (induction ls) (simp_all add: price_change_iff[OF _ assms(2)] refresh_line_twice)
  ultimately show ?thesis using fin fin' by (simp add: s1 ch refreshLinePrices_def refresh_line_twice comp_def)
qed

definition dearer_sugar :: LinePriceUpdate where
  "dearer_sugar = \<lparr>productId_u = ''sugar'', unitPrice_u = JNum 48, mrp_u = JNum 50, gstRate_u = ''FIVE'', cessRate_u = JNum 0\<rparr>"

theorem refresh_reports_changes_witness:
  "map productId_ch (fst (refreshLinePrices [dearer_sugar] counter_cart)) = [''sugar'']"
proof -
  have "catalogue_ok (RefreshLinePrices [dearer_sugar])" by (simp add: dearer_sugar_def)
  then have "map productId_ch (fst (refreshLinePrices [dearer_sugar] counter_cart)) =
      map productId_c (filter (\<lambda>l. unitPrice_c (refresh_line [dearer_sugar] l) \<noteq> unitPrice_c l) (lines_s counter_cart))"
    using refresh_reports_changes[OF counter_history _ prod.collapse[symmetric]] by blast
  also have "\<dots> = [''sugar'']"
    by (simp add: counter_cart_eq refresh_line_def update_of_def sugar_line_def lineFromProduct_def Let_def sugar_def
        dearer_sugar_def custom_line_def)
  finally show ?thesis .
qed

section \<open>Entering a shop\<close>

text \<open>Entering a shop loses no cart and leaves no anonymous copy: every held cart of the anonymous
  scope is among the shop's, the cart built before the shop was known becomes the shop's with
  its request key unless the shop has a cart of its own, and then that one stays as it is.\<close>

theorem scope_carries_cart:
  assumes "\<And>v cur. rehydrate v cur = merge_saved v cur"
    and "name_t tab = ANON_STORAGE_NAME" and "shop \<noteq> []" and "shop \<noteq> ''anon''"
    and "lines_s (store_t tab) \<noteq> []"
    and "own = merge_saved (saved_t tab (STORAGE_PREFIX @ '':'' @ shop)) (store_t tab)"
    and "tab' = scopePosStoreToShop rehydrate shop tab"
  shows "saved_t tab' ANON_STORAGE_NAME = None \<and> shopId_t tab' = Some shop \<and>
    id_h ` set (heldCarts_s (store_t tab)) \<union> id_h ` set (heldCarts_s own) = id_h ` set (heldCarts_s (store_t tab')) \<and>
    (lines_s (store_t tab'), idempotencyKey_s (store_t tab'), keyAttempted_s (store_t tab')) =
      (if lines_s own = []
       then (lines_s (store_t tab), idempotencyKey_s (store_t tab), keyAttempted_s (store_t tab))
       else (lines_s own, idempotencyKey_s own, keyAttempted_s own))"
proof -
  have name: "name_t tab \<noteq> STORAGE_PREFIX @ '':'' @ shop"
    using assms(2,4) by (simp add: ANON_STORAGE_NAME_def)
  have tab': "tab' = tab\<lparr>name_t := STORAGE_PREFIX @ '':'' @ shop, shopId_t := Some shop,
      store_t := carry_held (store_t tab) (carry_cart (store_t tab) own),
      saved_t := (saved_t tab)(ANON_STORAGE_NAME := None)\<rparr>"
    using name assms(2,3) by (simp add: assms(1,6,7) scopePosStoreToShop_def Let_def)
  have held: "heldCarts_s (carry_cart a b) = heldCarts_s b" for a b by (simp add: carry_cart_def)
  show ?thesis using assms(5)
    by (auto simp: tab' carry_held_def held) (auto simp: carry_cart_def)
qed

definition counter_tab :: PosTab where
  "counter_tab = \<lparr>name_t = ANON_STORAGE_NAME, store_t = counter_cart, shopId_t = None,
     saved_t = (\<lambda>_. None)(ANON_STORAGE_NAME := Some (partialize counter_cart))\<rparr>"

theorem scope_carries_cart_witness:
  "lines_s (store_t (scopePosStoreToShop merge_saved ''shop1'' counter_tab)) = lines_s counter_cart"
  using scope_carries_cart[of merge_saved counter_tab "''shop1''"
      "merge_saved (saved_t counter_tab (STORAGE_PREFIX @ '':'' @ ''shop1'')) (store_t counter_tab)"
      "scopePosStoreToShop merge_saved ''shop1'' counter_tab"]
  by (simp add: counter_tab_def ANON_STORAGE_NAME_def counter_cart_eq merge_saved_def)


end
