(* ===== verification/CartEngine.thy ===== *)
theory CartEngine
  imports CartProperties InvoiceCalc ReturnCalc
begin

text \<open>
  The counter's adapter to the money engine (\<open>apps/web/src/components/pos/engine.ts\<close>): the
  engine input built from a cart, the preview and the settled calculation, and the preview of a
  return. The engine is that of theories InvoiceCalc and ReturnCalc; results come back as the
  doubles the page shows.
\<close>

section \<open>Types\<close>

record EngineLine =
  productId_e :: string
  quantity_e :: js_number
  unitPrice_e :: js_number
  lineSubtotal_e :: js_number
  discountAmount_e :: js_number
  itemDiscountAmount_e :: js_number
  invoiceDiscountShare_e :: js_number
  taxableAmount_e :: js_number
  cgstAmount_e :: js_number
  sgstAmount_e :: js_number
  igstAmount_e :: js_number
  cessAmount_e :: js_number
  taxAmount_e :: js_number
  lineTotal_e :: js_number

record EngineTender =
  type_et :: TenderType
  amount_et :: js_number
  tenderedAmount_et :: js_number
  changeAmount_et :: js_number
  reference_et :: "string option"

record EnginePayment =
  paidAmount_ep :: js_number
  udharAmount_ep :: js_number
  changeAmount_ep :: js_number
  paymentMode_ep :: InvoicePaymentMode
  tenders_ep :: "EngineTender list"

record EngineTotals =
  lines_e :: "EngineLine list"
  byProductId_e :: "string \<rightharpoonup> EngineLine"
  subtotal_e :: js_number
  totalItemDiscount_e :: js_number
  invoiceDiscount_e :: js_number
  totalDiscount_e :: js_number
  taxableTotal_e :: js_number
  totalCgst_e :: js_number
  totalSgst_e :: js_number
  totalIgst_e :: js_number
  totalCess_e :: js_number
  totalTax_e :: js_number
  grandTotal_e :: js_number
  roundOff_e :: js_number
  finalTotal_e :: js_number
  payment_e :: "EnginePayment option"
  calculationHash_e :: string

record TenderSpec =
  type_ts :: string
  amount_ts :: js_number
  tenderedAmount_ts :: "js_number option"
  reference_ts :: "string option"

record PaymentSpec =
  tenders_ps :: "TenderSpec list"
  udharAmount_ps :: "js_number option"

record BuildInputOptions =
  lines_o :: "CartLine list"
  discount_o :: CartDiscount
  isInterState_o :: bool
  payment_o :: "PaymentSpec option"

section \<open>Numbers in and out\<close>

text \<open>\<open>toMoney\<close> of a Decimal: the double nearest to it, 0 where that is not finite.\<close>

definition toMoney :: "decimal \<Rightarrow> js_number" where
  "toMoney d = (if is_finite (double d) then double d else JNum 0)"

text \<open>A number as the engine reads it: the decimal it prints as.\<close>

fun numeric_of :: "js_number \<Rightarrow> numeric_input" where
  "numeric_of (JNum r) = NNumber (number_text r)"
| "numeric_of _ = NNotFinite"

text \<open>\<open>x || undefined\<close> and \<open>x || 0\<close>.\<close>

definition or_undefined :: "js_number \<Rightarrow> numeric_input" where
  "or_undefined x = (if x = JNum 0 \<or> x = JNaN then NUndefined else numeric_of x)"

section \<open>The engine input\<close>

definition build_item :: "bool \<Rightarrow> CartLine \<Rightarrow> InvoiceItemMathInput" where
  "build_item interState l =
     \<lparr>productId_i = productId_c l, quantity_i = numeric_of (quantity_c l),
      unitPrice_i = numeric_of (unitPrice_c l), discountPercent_i = or_undefined (discountPercent_c l),
      gstRateStr_i = Some (text_or (gstRate_c l) ''EIGHTEEN''), gstRate_i = NUndefined,
      cessRate_i = numeric_of (if isCustom_c l then JNum 0 else js_or (cessRate_c l) (JNum 0)),
      isInterState_i = interState\<rparr>"

definition build_tender :: "TenderSpec \<Rightarrow> TenderInput" where
  "build_tender t =
     \<lparr>type_ti = type_ts t, amount_ti = numeric_of (amount_ts t),
      tenderedAmount_ti = (case tenderedAmount_ts t of None \<Rightarrow> NUndefined | Some x \<Rightarrow> numeric_of x),
      reference_ti = (case reference_ts t of None \<Rightarrow> None | Some r \<Rightarrow> if r = [] then None else Some r)\<rparr>"

definition build_payment :: "PaymentSpec \<Rightarrow> PaymentInput" where
  "build_payment p =
     \<lparr>tenders_pi = map build_tender (tenders_ps p),
      udharAmount_pi = (case udharAmount_ps p of None \<Rightarrow> NUndefined
         | Some u \<Rightarrow> if js_less (JNum 0) u then numeric_of u else NUndefined)\<rparr>"

definition buildEngineInput :: "BuildInputOptions \<Rightarrow> InvoiceMathInput" where
  "buildEngineInput opt =
     (let d = discount_o opt; on = js_less (JNum 0) (value_d d); pct = (type_d d = ''PERCENTAGE'');
          reason = js_trim (reason_d d)
      in \<lparr>items_m = map (build_item (isInterState_o opt)) (lines_o opt),
          discountAmount_m = (if on \<and> \<not> pct then numeric_of (value_d d) else NUndefined),
          discountPercentage_m = (if on \<and> pct then numeric_of (value_d d) else NUndefined),
          discountType_m = (if on then Some (type_d d) else None),
          discountReason_m = (if on \<and> reason \<noteq> [] then Some reason else None),
          payment_m = map_option build_payment (payment_o opt),
          paymentMode_m = None, amountPaid_m = NUndefined, udharAmount_m = NUndefined\<rparr>)"

section \<open>The calculation\<close>

definition mapLine :: "InvoiceLineResult \<Rightarrow> EngineLine" where
  "mapLine l =
     \<lparr>productId_e = productId_l l, quantity_e = toMoney (quantity_l l), unitPrice_e = toMoney (unitPrice_l l),
      lineSubtotal_e = toMoney (lineSubtotal_l l), discountAmount_e = toMoney (discountAmount_l l),
      itemDiscountAmount_e = toMoney (itemDiscountAmount_l l),
      invoiceDiscountShare_e = toMoney (invoiceDiscountShare_l l),
      taxableAmount_e = toMoney (taxableAmount_l l), cgstAmount_e = toMoney (cgstAmount_l l),
      sgstAmount_e = toMoney (sgstAmount_l l), igstAmount_e = toMoney (igstAmount_l l),
      cessAmount_e = toMoney (cessAmount_l l), taxAmount_e = toMoney (taxAmount_l l),
      lineTotal_e = toMoney (lineTotal_l l)\<rparr>"

definition mapTender :: "TenderResult \<Rightarrow> EngineTender" where
  "mapTender t =
     \<lparr>type_et = type_t t, amount_et = toMoney (amount_t t), tenderedAmount_et = toMoney (tenderedAmount_t t),
      changeAmount_et = toMoney (changeAmount_t t), reference_et = reference_t t\<rparr>"

definition mapPayment :: "PaymentResult \<Rightarrow> EnginePayment" where
  "mapPayment p =
     \<lparr>paidAmount_ep = toMoney (paidAmount_p p), udharAmount_ep = toMoney (udharAmount_p p),
      changeAmount_ep = toMoney (changeAmount_p p), paymentMode_ep = paymentMode_p p,
      tenders_ep = map mapTender (tenders_p p)\<rparr>"

text \<open>The lookup table is filled line by line, so a later line with the same key replaces an earlier one.\<close>

definition by_key :: "('a \<Rightarrow> string) \<Rightarrow> 'a list \<Rightarrow> (string \<rightharpoonup> 'a)" where
  "by_key key ls = foldl (\<lambda>m l. m(key l \<mapsto> l)) Map.empty ls"

definition mapResult :: "InvoiceCalculationResultV1 \<Rightarrow> EngineTotals" where
  "mapResult r =
     (let ls = map mapLine (lines_r r)
      in \<lparr>lines_e = ls, byProductId_e = by_key productId_e ls, subtotal_e = toMoney (subtotal_r r),
          totalItemDiscount_e = toMoney (totalItemDiscount_r r), invoiceDiscount_e = toMoney (invoiceDiscount_r r),
          totalDiscount_e = toMoney (totalDiscount_r r), taxableTotal_e = toMoney (taxableTotal_r r),
          totalCgst_e = toMoney (totalCgst_r r), totalSgst_e = toMoney (totalSgst_r r),
          totalIgst_e = toMoney (totalIgst_r r), totalCess_e = toMoney (totalCess_r r),
          totalTax_e = toMoney (totalTax_r r), grandTotal_e = toMoney (grandTotal_r r),
          roundOff_e = toMoney (roundOff_r r), finalTotal_e = toMoney (finalTotal_r r),
          payment_e = map_option mapPayment (payment_r r), calculationHash_e = calculationHash_r r\<rparr>)"

definition EMPTY_TOTALS :: EngineTotals where
  "EMPTY_TOTALS =
     \<lparr>lines_e = [], byProductId_e = Map.empty, subtotal_e = JNum 0, totalItemDiscount_e = JNum 0,
      invoiceDiscount_e = JNum 0, totalDiscount_e = JNum 0, taxableTotal_e = JNum 0, totalCgst_e = JNum 0,
      totalSgst_e = JNum 0, totalIgst_e = JNum 0, totalCess_e = JNum 0, totalTax_e = JNum 0,
      grandTotal_e = JNum 0, roundOff_e = JNum 0, finalTotal_e = JNum 0, payment_e = None,
      calculationHash_e = ''''\<rparr>"

text \<open>Every error the engine throws becomes a value; which one it was is kept, its message is not.\<close>

definition calculateCart ::
    "decimal_lib \<Rightarrow> (InvoiceMathInput \<Rightarrow> 16 word list) \<Rightarrow> BuildInputOptions \<Rightarrow> thrown + EngineTotals" where
  "calculateCart D J opt =
     (if lines_o opt = [] then Inr EMPTY_TOTALS
      else case calculate D J (buildEngineInput opt) of Inl e \<Rightarrow> Inl e | Inr r \<Rightarrow> Inr (mapResult r))"

section \<open>Returns\<close>

record InvoiceDetailItem =
  id_di :: string
  quantity_di :: js_number
  returnedQuantity_di :: js_number
  sellingPrice_di :: js_number
  discountAmount_di :: js_number
  taxableAmount_di :: js_number
  cgstAmount_di :: js_number
  sgstAmount_di :: js_number
  igstAmount_di :: js_number
  cessAmount_di :: js_number
  totalAmount_di :: js_number

record ReturnPreviewLine =
  lineRef_rp :: string
  quantity_rp :: js_number
  lineSubtotal_rp :: js_number
  discountAmount_rp :: js_number
  taxableAmount_rp :: js_number
  taxAmount_rp :: js_number
  lineTotal_rp :: js_number

record ReturnPreview =
  lines_rp :: "ReturnPreviewLine list"
  byLineRef_rp :: "string \<rightharpoonup> ReturnPreviewLine"
  subtotal_rp :: js_number
  totalDiscount_rp :: js_number
  taxableTotal_rp :: js_number
  totalTax_rp :: js_number
  grandTotal_rp :: js_number
  roundOff_rp :: js_number
  finalTotal_rp :: js_number

record ReturnSale =
  totalAmount_sale :: js_number
  returns_sale :: "(string \<times> js_number) list"

definition mapReturnLine :: "ReturnLineResult \<Rightarrow> ReturnPreviewLine" where
  "mapReturnLine l =
     \<lparr>lineRef_rp = lineRef_rl l, quantity_rp = toMoney (quantity_rl l),
      lineSubtotal_rp = toMoney (lineSubtotal_rl l), discountAmount_rp = toMoney (discountAmount_rl l),
      taxableAmount_rp = toMoney (taxableAmount_rl l), taxAmount_rp = toMoney (taxAmount_rl l),
      lineTotal_rp = toMoney (lineTotal_rl l)\<rparr>"

definition mapReturnResult :: "ReturnCalculationResult \<Rightarrow> ReturnPreview" where
  "mapReturnResult r =
     (let ls = map mapReturnLine (lines_rr r)
      in \<lparr>lines_rp = ls, byLineRef_rp = by_key lineRef_rp ls, subtotal_rp = toMoney (subtotal_rr r),
          totalDiscount_rp = toMoney (totalDiscount_rr r), taxableTotal_rp = toMoney (taxableTotal_rr r),
          totalTax_rp = toMoney (totalTax_rr r), grandTotal_rp = toMoney (grandTotal_rr r),
          roundOff_rp = toMoney (roundOff_rr r), finalTotal_rp = toMoney (finalTotal_rr r)\<rparr>)"

definition preview_line :: "InvoiceDetailItem \<Rightarrow> js_number \<Rightarrow> js_number \<Rightarrow> ReturnLineMathInput" where
  "preview_line item returned q =
     \<lparr>lineRef_ri = id_di item, originalQuantity_ri = numeric_of (quantity_di item),
      returnedQuantity_ri = numeric_of returned, quantity_ri = numeric_of q,
      unitPrice_ri = numeric_of (sellingPrice_di item), discountAmount_ri = numeric_of (discountAmount_di item),
      taxableAmount_ri = numeric_of (taxableAmount_di item), cgstAmount_ri = numeric_of (cgstAmount_di item),
      sgstAmount_ri = numeric_of (sgstAmount_di item), igstAmount_ri = numeric_of (igstAmount_di item),
      cessAmount_ri = numeric_of (cessAmount_di item), totalAmount_ri = numeric_of (totalAmount_di item)\<rparr>"

definition hasRefundLeft :: "decimal_lib \<Rightarrow> InvoiceDetailItem \<Rightarrow> js_number \<Rightarrow> bool" where
  "hasRefundLeft D item returning =
     (let remaining = js_to_fixed 3 (js_sub (js_sub (quantity_di item) (returnedQuantity_di item)) returning)
      in if \<not> js_less (JNum 0) remaining then False
         else case calculateReturn D
             \<lparr>lines_rm = [preview_line item (js_to_fixed 3 (js_add (returnedQuantity_di item) returning)) remaining],
              settlement_rm = None\<rparr> of
           Inl _ \<Rightarrow> True
         | Inr rest \<Rightarrow> 0 < grandTotal_rr rest)"

text \<open>\<open>quantities[id] ?? 0\<close>\<close>

definition quantity_for :: "(string \<rightharpoonup> js_number) \<Rightarrow> InvoiceDetailItem \<Rightarrow> js_number" where
  "quantity_for qs item = (case qs (id_di item) of None \<Rightarrow> JNum 0 | Some q \<Rightarrow> q)"

definition EMPTY_PREVIEW :: ReturnPreview where
  "EMPTY_PREVIEW =
     \<lparr>lines_rp = [], byLineRef_rp = Map.empty, subtotal_rp = JNum 0, totalDiscount_rp = JNum 0,
      taxableTotal_rp = JNum 0, totalTax_rp = JNum 0, grandTotal_rp = JNum 0, roundOff_rp = JNum 0,
      finalTotal_rp = JNum 0\<rparr>"

definition preview_settlement ::
    "decimal_lib \<Rightarrow> InvoiceDetailItem list \<Rightarrow> (string \<rightharpoonup> js_number) \<Rightarrow> ReturnSale \<Rightarrow> ReturnSettlementInput" where
  "preview_settlement D its qs sale =
     \<lparr>invoiceTotal_s = numeric_of (totalAmount_sale sale),
      refundedTotal_s = numeric_of (foldl (\<lambda>sum r. js_add sum (snd r)) (JNum 0)
         (filter (\<lambda>r. fst r = ''COMPLETED'') (returns_sale sale))),
      completesInvoice_s = list_all (\<lambda>item. \<not> hasRefundLeft D item (quantity_for qs item)) its\<rparr>"

definition calculateReturnPreview ::
    "decimal_lib \<Rightarrow> InvoiceDetailItem list \<Rightarrow> (string \<rightharpoonup> js_number) \<Rightarrow> ReturnSale option \<Rightarrow> thrown + ReturnPreview" where
  "calculateReturnPreview D its qs sale =
     (let chosen = filter (\<lambda>item. js_less (JNum 0) (quantity_for qs item)) its;
          ls = map (\<lambda>item. preview_line item (returnedQuantity_di item) (quantity_for qs item)) chosen
      in if ls = [] then Inr EMPTY_PREVIEW
         else case calculateReturn D \<lparr>lines_rm = ls, settlement_rm = map_option (preview_settlement D its qs) sale\<rparr> of
             Inl e \<Rightarrow> Inl e
           | Inr r \<Rightarrow> Inr (mapReturnResult r))"

section \<open>The table of lines\<close>

lemma by_key_snoc: "by_key key (ls @ [l]) = (by_key key ls)(key l \<mapsto> l)"
  by (simp add: by_key_def)

lemma by_key_lookup:
  "distinct (map key ls) \<Longrightarrow> by_key key ls k = Some l \<longleftrightarrow> l \<in> set ls \<and> key l = k"
proof (induction ls rule: rev_induct)
  case (snoc l' ls)
  then have "by_key key ls k = Some l \<longleftrightarrow> l \<in> set ls \<and> key l = k" "key l' \<notin> key ` set ls" by simp_all
  then show ?case by (cases "k = key l'") (auto simp: by_key_snoc image_iff)
qed (simp add: by_key_def)

section \<open>What the engine is asked\<close>

lemma pre_lines_length:
  "pre_lines D seen is = Inr ps \<Longrightarrow> map (\<lambda>p. productId_i (item_pre p)) ps = map productId_i is"
  by (induction D seen "is" arbitrary: ps rule: pre_lines.induct)
     (auto simp: bind_res_eq_Inr check_item_def Let_def split: if_splits)

lemma calculate_line_ids:
  assumes "calculate D J raw = Inr r"
  shows "map productId_l (lines_r r) = map productId_i (items_m raw)"
proof -
  obtain pre shares where pre: "pre_lines D [] (items_m (json_input raw)) = Inr pre"
    and ls: "lines_r r = map2 (taxed_line D) pre shares" "length shares = length pre"
    using assms by (auto simp: calculate_def Let_def bind_res_eq_Inr totals_def split: if_splits option.splits)
  have "map productId_l (map2 (taxed_line D) pre shares) = map (\<lambda>p. productId_i (item_pre p)) pre"
    using ls(2) by (intro nth_equalityI) (simp_all add: taxed_line_def Let_def)
  also have "\<dots> = map productId_i (items_m raw)"
    using pre_lines_length[OF pre] by (simp add: json_input_def comp_def json_item_def)
  finally show ?thesis by (simp add: ls)
qed

lemma build_items: "map productId_i (items_m (buildEngineInput opt)) = map productId_c (lines_o opt)"
  by (simp add: buildEngineInput_def Let_def build_item_def comp_def)

text \<open>No stage but the scan of the lines reports a repeated line.\<close>

lemma toDecimal_no_dup: "toDecimal D v \<noteq> Inl ERR_DUPLICATE_LINE"
  by (cases "(D, v)" rule: toDecimal.cases) (auto split: option.splits)

lemma check_item_no_dup: "check_item D i \<noteq> Inl ERR_DUPLICATE_LINE"
  by (auto simp: check_item_def bind_res_eq_Inl Let_def toDecimal_no_dup resolveGstRate_def resolveCessRate_def
      split: if_splits option.splits)

lemma pre_lines_no_dup:
  "distinct (map productId_i is) \<Longrightarrow> set (map productId_i is) \<inter> set seen = {} \<Longrightarrow>
    pre_lines D seen is \<noteq> Inl ERR_DUPLICATE_LINE"
  by (induction D seen "is" rule: pre_lines.induct) (auto simp: bind_res_eq_Inl check_item_no_dup)

lemma invoice_discount_no_dup: "invoice_discount D m n \<noteq> Inl ERR_DUPLICATE_LINE"
  by (auto simp: invoice_discount_def discount_value_def bind_res_eq_Inl Let_def toDecimal_no_dup split: if_splits)

lemma map_res_error: "map_res f xs = Inl e \<Longrightarrow> \<exists>x. f x = Inl e"
  by (induction xs) (auto simp: bind_res_eq_Inl)

lemma settle_tender_no_dup: "settle_tender D t \<noteq> Inl ERR_DUPLICATE_LINE"
  by (auto simp: settle_tender_def tendered_amount_def bind_res_eq_Inl Let_def toDecimal_no_dup split: if_splits option.splits)

lemma map_res_no_dup: "map_res (settle_tender D) ts \<noteq> Inl ERR_DUPLICATE_LINE"
proof
  assume "map_res (settle_tender D) ts = Inl ERR_DUPLICATE_LINE"
  then obtain t where "settle_tender D t = Inl ERR_DUPLICATE_LINE" by (auto dest: map_res_error)
  with settle_tender_no_dup show False by blast
qed

lemma settlePayment_no_dup: "settlePayment D p t \<noteq> Inl ERR_DUPLICATE_LINE"
  using map_res_no_dup
  by (auto simp: settlePayment_def bind_res_eq_Inl Let_def toDecimal_no_dup split: if_splits)

lemma normalisePayment_no_dup: "normalisePayment D m \<noteq> Inl ERR_DUPLICATE_LINE"
  by (auto simp: normalisePayment_def bind_res_eq_Inl Let_def toDecimal_no_dup split: if_splits option.splits)

lemma calculate_no_dup:
  assumes "distinct (map productId_i (items_m raw))"
  shows "calculate D J raw \<noteq> Inl ERR_DUPLICATE_LINE"
proof -
  have "distinct (map productId_i (items_m (json_input raw)))"
    using assms by (simp add: json_input_def comp_def json_item_def)
  from pre_lines_no_dup[OF this, of "[]" D] show ?thesis
    using invoice_discount_no_dup normalisePayment_no_dup settlePayment_no_dup
    by (auto simp: calculate_def Let_def bind_res_eq_Inl split: if_splits option.splits)
qed

section \<open>Properties\<close>


text \<open>A cart the counter can build never meets the engine's refusal of a repeated line, and a
  successful calculation shows exactly the cart's lines, in its order, each found under its own
  key.\<close>

theorem cart_lines_shown:
  assumes "cart_history used s" and "lines_o opt = lines_s s" and "lines_s s \<noteq> []"
  shows "calculateCart D J opt \<noteq> Inl ERR_DUPLICATE_LINE \<and>
    (\<forall>t. calculateCart D J opt = Inr t \<longrightarrow>
       map productId_e (lines_e t) = map productId_c (lines_s s) \<and>
       (\<forall>l \<in> set (lines_e t). byProductId_e t (productId_e l) = Some l))"
proof -
  have d: "distinct (map productId_c (lines_o opt))"
    using carts_okD(1)[OF history_carts_ok[OF assms(1)]] by (simp add: assms(2) cart_ok_def)
  have "calculate D J (buildEngineInput opt) \<noteq> Inl ERR_DUPLICATE_LINE"
    using calculate_no_dup d by (simp add: build_items)
  moreover have "map productId_e (lines_e (mapResult r)) = map productId_c (lines_o opt) \<and>
      (\<forall>l \<in> set (lines_e (mapResult r)). byProductId_e (mapResult r) (productId_e l) = Some l)"
    if "calculate D J (buildEngineInput opt) = Inr r" for r
  proof -
    have ids: "map productId_e (map mapLine (lines_r r)) = map productId_c (lines_o opt)"
      using calculate_line_ids[OF that] by (simp add: build_items mapLine_def comp_def)
    then have "distinct (map productId_e (map mapLine (lines_r r)))" using d by simp
    from by_key_lookup[OF this] ids show ?thesis by (simp add: mapResult_def Let_def)
  qed
  ultimately show ?thesis using assms(2,3) by (auto simp: calculateCart_def split: sum.splits)
qed

definition counter_options :: BuildInputOptions where
  "counter_options = \<lparr>lines_o = lines_s counter_cart, discount_o = EMPTY_DISCOUNT, isInterState_o = False, payment_o = None\<rparr>"

theorem cart_lines_shown_witness:
  "calculateCart decimal_js (\<lambda>_. []) counter_options \<noteq> Inl ERR_DUPLICATE_LINE"
  using cart_lines_shown[OF counter_history, of counter_options decimal_js "\<lambda>_. []"]
  by (simp add: counter_options_def counter_cart_eq)

lemma build_payment_only:
  "buildEngineInput (opt\<lparr>payment_o := x\<rparr>) = (buildEngineInput opt)\<lparr>payment_m := map_option build_payment x\<rparr>"
  by (simp add: buildEngineInput_def Let_def)

lemma totals_hash: "totals D h' a b ls = (totals D h a b ls)\<lparr>calculationHash_r := h'\<rparr>"
  by (simp add: totals_def Let_def)

lemma totals_no_payment [simp]: "(totals D h a b ls)\<lparr>payment_r := None\<rparr> = totals D h a b ls"
  by (simp add: totals_def Let_def)

lemma totals_drop_payment: "(totals D h a b ls)\<lparr>payment_r := None, calculationHash_r := h'\<rparr> = totals D h' a b ls"
  by (simp add: totals_def Let_def)

lemma invoice_discount_payment: "invoice_discount D (m\<lparr>payment_m := x\<rparr>) n = invoice_discount D m n"
  by (simp add: invoice_discount_def discount_value_def Let_def cong: if_cong)

lemma calculate_payment_only:
  assumes "calculate D J (m\<lparr>payment_m := Some p\<rparr>) = Inr r" and "amountPaid_m m = NUndefined"
  shows "\<exists>h. calculate D J (m\<lparr>payment_m := None\<rparr>) = Inr (r\<lparr>payment_r := None, calculationHash_r := h\<rparr>)"
proof -
  let ?m = "json_input m"
  have j: "json_input (m\<lparr>payment_m := x\<rparr>) = ?m\<lparr>payment_m := map_option json_payment x\<rparr>" for x
    by (simp add: json_input_def)
  have none: "normalisePayment D (?m\<lparr>payment_m := None\<rparr>) = Inr None"
    using assms(2) by (simp add: normalisePayment_def nullish_def json_input_def)
  have some: "normalisePayment D (?m\<lparr>payment_m := Some q\<rparr>) = Inr (Some q)" for q
    by (simp add: normalisePayment_def)
  let ?h = "generateHash (J (?m\<lparr>payment_m := None\<rparr>))"
  show ?thesis
    using assms(1) none some
    by (auto simp: calculate_def Let_def j invoice_discount_payment bind_res_eq_Inr
        totals_hash[of D ?h _ _ _ "generateHash (J (?m\<lparr>payment_m := Some (json_payment p)\<rparr>))"]
        totals_drop_payment
        split: if_splits intro!: exI[of _ ?h])
qed

text \<open>C40: the total on the counter's screen is the total charged: when the settled calculation of a
  cart succeeds, so does its preview, and it shows the same lines and the same amounts; only
  the payment and the audit hash differ.\<close>

theorem preview_is_charged:
  assumes "lines_o opt \<noteq> []" and "calculateCart D J (opt\<lparr>payment_o := Some p\<rparr>) = Inr t"
  shows "\<exists>h. calculateCart D J (opt\<lparr>payment_o := None\<rparr>) = Inr (t\<lparr>payment_e := None, calculationHash_e := h\<rparr>)"
proof -
  obtain r where r: "calculate D J ((buildEngineInput opt)\<lparr>payment_m := Some (build_payment p)\<rparr>) = Inr r"
    and t: "t = mapResult r"
    using assms by (auto simp: calculateCart_def build_payment_only split: sum.splits)
  have "amountPaid_m (buildEngineInput opt) = NUndefined" by (simp add: buildEngineInput_def Let_def)
  from calculate_payment_only[OF r this] obtain h
    where "calculate D J ((buildEngineInput opt)\<lparr>payment_m := None\<rparr>) = Inr (r\<lparr>payment_r := None, calculationHash_r := h\<rparr>)"
    by blast
  moreover have "mapResult (r\<lparr>payment_r := None, calculationHash_r := h\<rparr>) = t\<lparr>payment_e := None, calculationHash_e := h\<rparr>"
    by (simp add: t mapResult_def Let_def)
  ultimately show ?thesis using assms(1) by (auto simp: calculateCart_def build_payment_only)
qed

text \<open>Two packets of tea at 100, paid by UPI.\<close>

definition tea_line :: CartLine where
  "tea_line = \<lparr>lineId_c = ''u1'', productId_c = ''tea'', isCustom_c = False, name_c = ''Tea'', sku_c = ''T1'',
     unit_c = ''PCS'', unitPrice_c = JNum 100, mrp_c = JNum 120, gstRate_c = ''FIVE'', cessRate_c = JNum 0,
     stockSnapshot_c = None, quantity_c = JNum 2, discountPercent_c = JNum 0, productType_c = ''SIMPLE''\<rparr>"

definition tea_options :: BuildInputOptions where
  "tea_options = \<lparr>lines_o = [tea_line], discount_o = EMPTY_DISCOUNT, isInterState_o = False, payment_o = None\<rparr>"

definition tea_payment :: PaymentSpec where
  "tea_payment = \<lparr>tenders_ps = [\<lparr>type_ts = ''UPI'', amount_ts = JNum 210, tenderedAmount_ts = None,
     reference_ts = None\<rparr>], udharAmount_ps = None\<rparr>"

definition tea_input :: InvoiceMathInput where
  "tea_input = buildEngineInput (tea_options\<lparr>payment_o := Some tea_payment\<rparr>)"

definition tea_pre :: PreLine where
  "tea_pre = \<lparr>item_pre = build_item False tea_line, qty_pre = 2, unitPrice_pre = 100,
     gstRate_pre = 5, cessRate_pre = 0, lineSubtotal_pre = 200, itemDiscount_pre = 0, netSubtotal_pre = 200\<rparr>"

definition tea_result_line :: InvoiceLineResult where
  "tea_result_line = taxed_line decimal_js tea_pre 0"

lemma tea_lines: "pre_lines decimal_js [] (items_m (json_input tea_input)) = Inr [tea_pre]"
  by code_simp

lemma tea_discount: "invoice_discount decimal_js (json_input tea_input)
    (d_minus decimal_js (d_sum decimal_js [lineSubtotal_pre tea_pre]) (d_sum decimal_js [itemDiscount_pre tea_pre])) = Inr 0"
  by code_simp

lemma tea_shares: "allocateProportionally decimal_js 0 (map netSubtotal_pre [tea_pre]) = [0]"
  by (simp add: allocateProportionally_def)

lemma tea_totals:
  "subtotal_r (totals decimal_js h (d_sum decimal_js [itemDiscount_pre tea_pre]) 0 [tea_result_line]) = 200"
  "finalTotal_r (totals decimal_js h (d_sum decimal_js [itemDiscount_pre tea_pre]) 0 [tea_result_line]) = 210"
proof -
  let ?t = "\<lambda>h. totals decimal_js h (d_sum decimal_js [itemDiscount_pre tea_pre]) 0 [tea_result_line]"
  have "subtotal_r (?t []) = 200" "finalTotal_r (?t []) = 210" by code_simp+
  then show "subtotal_r (?t h) = 200" "finalTotal_r (?t h) = 210" by (simp_all add: totals_def Let_def)
qed

definition tea_paid :: PaymentResult where
  "tea_paid = \<lparr>paidAmount_p = 210, udharAmount_p = 0, changeAmount_p = 0, paymentMode_p = PM_UPI,
     tenders_p = [\<lparr>type_t = UPI, amount_t = 210, tenderedAmount_t = 210, changeAmount_t = 0, reference_t = None\<rparr>]\<rparr>"

lemma tea_settled: "settlePayment decimal_js (json_payment (build_payment tea_payment)) 210 = Inr tea_paid"
  by code_simp

lemma tea_normalised:
  "normalisePayment decimal_js (json_input tea_input) = Inr (Some (json_payment (build_payment tea_payment)))"
  by (simp add: tea_input_def build_payment_only normalisePayment_def json_input_def)

lemma tea_calculate: "\<exists>r. calculate decimal_js J tea_input = Inr r \<and> payment_r r \<noteq> None"
  using tea_lines tea_discount tea_shares tea_totals tea_settled tea_normalised
  by (simp add: calculate_def Let_def tea_result_line_def)
     (simp add: tea_input_def buildEngineInput_def Let_def tea_options_def json_input_def MONEY_MAX_def)

theorem preview_is_charged_witness:
  "\<exists>t h. calculateCart decimal_js (\<lambda>_. []) (tea_options\<lparr>payment_o := Some tea_payment\<rparr>) = Inr t \<and>
     calculateCart decimal_js (\<lambda>_. []) (tea_options\<lparr>payment_o := None\<rparr>)
       = Inr (t\<lparr>payment_e := None, calculationHash_e := h\<rparr>)"
proof -
  have lines: "lines_o tea_options \<noteq> []" by (simp add: tea_options_def)
  obtain r where "calculate decimal_js (\<lambda>_. []) tea_input = Inr r" using tea_calculate by blast
  then have t: "calculateCart decimal_js (\<lambda>_. []) (tea_options\<lparr>payment_o := Some tea_payment\<rparr>) = Inr (mapResult r)"
    using lines by (simp add: calculateCart_def tea_input_def)
  show ?thesis using preview_is_charged[OF lines t] t by blast
qed


end
