(* ===== verification/Scanner.thy ===== *)
theory Scanner
  imports CartStore "HOL-Library.Sublist"
begin

text \<open>
  The barcode scanner listener (\<open>apps/web/src/hooks/useBarcodeScanner.ts\<close>): a state machine
  over key presses that tells a scanner's burst from typing. An event carries its time stamp,
  the clock at its handler and the focused text field as it was when the key arrived; what the
  handler does to the page is its result.
\<close>

section \<open>The machine\<close>

record FieldSnapshot =
  field_f :: nat
  value_f :: string
  selectionStart_f :: "nat option"
  selectionEnd_f :: "nat option"

record KeyEvent =
  key_k :: string
  timeStamp_k :: js_number
  now_k :: js_number
  chorded_k :: bool
  focused_k :: "FieldSnapshot option"

record ScanOptions =
  minLength_so :: nat
  maxIntervalMs_so :: js_number

record ScanState =
  buffer_z :: string
  lastKeyAt_z :: js_number
  field_z :: "FieldSnapshot option"

text \<open>What happens to the key: it goes on to the page, or it is swallowed, the field that took
  the burst gets its earlier value back and the code is handed over.\<close>

datatype key_outcome = Passed | Scanned "FieldSnapshot option" string

definition DEFAULT_OPTIONS :: ScanOptions where
  "DEFAULT_OPTIONS = \<lparr>minLength_so = 4, maxIntervalMs_so = JNum 50\<rparr>"

definition ENTER_GRACE_MS :: js_number where "ENTER_GRACE_MS = JNum 120"

definition keyTime :: "KeyEvent \<Rightarrow> js_number" where
  "keyTime e = (if is_finite (timeStamp_k e) \<and> js_less (JNum 0) (timeStamp_k e) then timeStamp_k e else now_k e)"

definition reset_scan :: ScanState where
  "reset_scan = \<lparr>buffer_z = '''', lastKeyAt_z = JNum 0, field_z = None\<rparr>"

definition handleKeyDown :: "ScanOptions \<Rightarrow> KeyEvent \<Rightarrow> ScanState \<Rightarrow> key_outcome \<times> ScanState" where
  "handleKeyDown opt e s =
     (if chorded_k e then (Passed, reset_scan)
      else
        let t = keyTime e; gap = js_sub t (lastKeyAt_z s)
        in if key_k e = ''Enter'' then
             let fastEnough = js_le gap (js_max (maxIntervalMs_so opt) ENTER_GRACE_MS)
             in if minLength_so opt \<le> length (buffer_z s) \<and> fastEnough
                then (Scanned (field_z s) (buffer_z s), reset_scan)
                else (Passed, reset_scan)
           else if length (key_k e) \<noteq> 1 \<or> key_k e = '' '' then
             (Passed, if key_k e \<noteq> ''Shift'' then reset_scan else s)
           else if js_less (maxIntervalMs_so opt) gap \<or> buffer_z s = '''' then
             (Passed, \<lparr>buffer_z = key_k e, lastKeyAt_z = t, field_z = focused_k e\<rparr>)
           else (Passed, s\<lparr>buffer_z := buffer_z s @ key_k e, lastKeyAt_z := t\<rparr>))"

fun scan_keys :: "ScanOptions \<Rightarrow> KeyEvent list \<Rightarrow> ScanState \<Rightarrow> key_outcome list \<times> ScanState" where
  "scan_keys opt [] s = ([], s)"
| "scan_keys opt (e # es) s =
     (let (out, s1) = handleKeyDown opt e s; (outs, s2) = scan_keys opt es s1 in (out # outs, s2))"

section \<open>Bursts\<close>

definition printable :: "KeyEvent \<Rightarrow> bool" where
  "printable e \<longleftrightarrow> \<not> chorded_k e \<and> length (key_k e) = 1 \<and> key_k e \<noteq> '' ''"

definition close_by :: "js_number \<Rightarrow> js_number \<Rightarrow> js_number \<Rightarrow> bool" where
  "close_by gap a b \<longleftrightarrow> \<not> js_less gap (js_sub b a)"

text \<open>Printable keys, each within the interval of the one before.\<close>

fun burst :: "ScanOptions \<Rightarrow> KeyEvent list \<Rightarrow> bool" where
  "burst opt [] = True"
| "burst opt [e] = printable e"
| "burst opt (e # e' # es) = (printable e \<and> close_by (maxIntervalMs_so opt) (keyTime e) (keyTime e') \<and> burst opt (e' # es))"

lemma printable_key: "printable e \<Longrightarrow> key_k e \<noteq> ''Enter'' \<and> key_k e \<noteq> []"
  by (auto simp: printable_def)

lemma burst_snoc:
  "es \<noteq> [] \<Longrightarrow> burst opt (es @ [e]) \<longleftrightarrow>
    burst opt es \<and> printable e \<and> close_by (maxIntervalMs_so opt) (keyTime (last es)) (keyTime e)"
  by (induction opt es rule: burst.induct) auto

lemma burst_length: "burst opt es \<Longrightarrow> length (concat (map key_k es)) = length es"
  by (induction opt es rule: burst.induct) (auto simp: printable_def)

lemma next_key:
  assumes "printable e" and "buffer_z s \<noteq> []" and "close_by (maxIntervalMs_so opt) (lastKeyAt_z s) (keyTime e)"
  shows "handleKeyDown opt e s = (Passed, s\<lparr>buffer_z := buffer_z s @ key_k e, lastKeyAt_z := keyTime e\<rparr>)"
  using assms printable_key[OF assms(1)] by (simp add: handleKeyDown_def Let_def printable_def close_by_def)

lemma first_key:
  assumes "printable e" and "buffer_z s = [] \<or> \<not> close_by (maxIntervalMs_so opt) (lastKeyAt_z s) (keyTime e)"
  shows "handleKeyDown opt e s = (Passed, \<lparr>buffer_z = key_k e, lastKeyAt_z = keyTime e, field_z = focused_k e\<rparr>)"
  using assms printable_key[OF assms(1)] by (auto simp: handleKeyDown_def Let_def printable_def close_by_def)

lemma burst_keys:
  "burst opt (e # es) \<Longrightarrow> lastKeyAt_z s = keyTime e \<Longrightarrow> buffer_z s \<noteq> [] \<Longrightarrow>
    scan_keys opt (es @ [x]) s =
      (let s' = s\<lparr>buffer_z := buffer_z s @ concat (map key_k es), lastKeyAt_z := keyTime (last (e # es))\<rparr>
       in (replicate (length es) Passed @ [fst (handleKeyDown opt x s')], snd (handleKeyDown opt x s')))"
proof (induction es arbitrary: e s)
  case Nil
  then have "s\<lparr>lastKeyAt_z := keyTime e\<rparr> = s" by (cases s) simp
  then show ?case by (simp add: Let_def split: prod.split)
next
  case (Cons e' es)
  have "handleKeyDown opt e' s = (Passed, s\<lparr>buffer_z := buffer_z s @ key_k e', lastKeyAt_z := keyTime e'\<rparr>)"
    using Cons.prems by (intro next_key) (cases es; simp)+
  with Cons.IH[of e' "s\<lparr>buffer_z := buffer_z s @ key_k e', lastKeyAt_z := keyTime e'\<rparr>"] Cons.prems show ?case
    by (simp add: Let_def)
qed

text \<open>A burst of at least \<open>minLength\<close> fast keys ended by Enter within the grace is one scan: every
  key but the Enter reaches the page, the Enter does not, the code is the keys in order, and the
  field to restore is the one that was focused before the first key, with the value it had then.\<close>

theorem burst_is_scanned:
  assumes "burst opt (e # es)" and "minLength_so opt \<le> length (e # es)"
    and "buffer_z s = [] \<or> \<not> close_by (maxIntervalMs_so opt) (lastKeyAt_z s) (keyTime e)"
    and "key_k x = ''Enter''" and "\<not> chorded_k x"
    and "js_le (js_sub (keyTime x) (keyTime (last (e # es)))) (js_max (maxIntervalMs_so opt) ENTER_GRACE_MS)"
  shows "scan_keys opt ((e # es) @ [x]) s =
    (replicate (length (e # es)) Passed @ [Scanned (focused_k e) (concat (map key_k (e # es)))], reset_scan)"
proof -
  have p: "printable e" using assms(1) by (cases es) auto
  let ?s = "\<lparr>buffer_z = key_k e, lastKeyAt_z = keyTime e, field_z = focused_k e\<rparr>"
  have "length (concat (map key_k (e # es))) = length (e # es)" by (rule burst_length[OF assms(1)])
  then show ?thesis
    using burst_keys[OF assms(1), of ?s x] first_key[OF p assms(3)] printable_key[OF p] assms(2,4-6)
    by (simp add: Let_def handleKeyDown_def)
qed

definition digit_key :: "string \<Rightarrow> rat \<Rightarrow> KeyEvent" where
  "digit_key k t = \<lparr>key_k = k, timeStamp_k = JNum t, now_k = JNum t, chorded_k = False,
     focused_k = Some \<lparr>field_f = 1, value_f = ''notes'', selectionStart_f = None, selectionEnd_f = None\<rparr>\<rparr>"

definition scanned_keys :: "KeyEvent list" where
  "scanned_keys = [digit_key ''8'' 1000, digit_key ''9'' 1008, digit_key ''0'' 1016, digit_key ''1'' 1024]"

theorem burst_is_scanned_witness:
  "last (fst (scan_keys DEFAULT_OPTIONS (scanned_keys @ [digit_key ''Enter'' 1030]) reset_scan))
    = Scanned (focused_k (digit_key ''8'' 1000)) ''8901''"
proof -
  have b: "burst DEFAULT_OPTIONS scanned_keys" by code_simp
  have l: "js_le (js_sub (keyTime (digit_key ''Enter'' 1030)) (keyTime (last scanned_keys)))
      (js_max (maxIntervalMs_so DEFAULT_OPTIONS) ENTER_GRACE_MS)" by code_simp
  show ?thesis
    using burst_is_scanned[of DEFAULT_OPTIONS "hd scanned_keys" "tl scanned_keys" reset_scan "digit_key ''Enter'' 1030"] b l
    by (simp add: scanned_keys_def DEFAULT_OPTIONS_def reset_scan_def) (simp add: digit_key_def)
qed

section \<open>Typing is no scan\<close>

text \<open>The keys behind the buffer: a burst among the events seen, the last at \<open>lastKeyAt\<close>.\<close>

definition buffered :: "ScanOptions \<Rightarrow> KeyEvent list \<Rightarrow> ScanState \<Rightarrow> bool" where
  "buffered opt seen s \<longleftrightarrow> (\<exists>es. subseq es seen \<and> burst opt es \<and> concat (map key_k es) = buffer_z s \<and>
     (es \<noteq> [] \<longrightarrow> keyTime (last es) = lastKeyAt_z s))"

lemma buffered_reset: "buffered opt seen reset_scan"
  by (auto simp: buffered_def reset_scan_def intro!: exI[of _ "[]"])

lemma buffered_more: "buffered opt seen s \<Longrightarrow> buffered opt (seen @ es) s"
  unfolding buffered_def by (auto intro: list_emb_prefix)

lemma buffered_step:
  assumes "buffered opt seen s"
  shows "buffered opt (seen @ [e]) (snd (handleKeyDown opt e s))"
proof (cases "printable e")
  case True
  obtain es where es: "subseq es seen" "burst opt es" "concat (map key_k es) = buffer_z s"
    "es \<noteq> [] \<longrightarrow> keyTime (last es) = lastKeyAt_z s" using assms by (auto simp: buffered_def)
  show ?thesis
  proof (cases "buffer_z s = [] \<or> \<not> close_by (maxIntervalMs_so opt) (lastKeyAt_z s) (keyTime e)")
    case first: True
    then show ?thesis using first_key[OF True first] True
      by (auto simp: buffered_def intro!: exI[of _ "[e]"])
  next
    case False
    then have ne: "es \<noteq> []" using es(3) by auto
    have "subseq (es @ [e]) (seen @ [e])" using es(1) by simp
    moreover have "burst opt (es @ [e])" using burst_snoc[OF ne] es True False ne by simp
    ultimately show ?thesis using next_key[OF True, of s opt] False es(3)
      by (auto simp: buffered_def intro!: exI[of _ "es @ [e]"])
  qed
next
  case False
  then have "snd (handleKeyDown opt e s) = reset_scan \<or> snd (handleKeyDown opt e s) = s"
    by (auto simp: handleKeyDown_def Let_def printable_def)
  then show ?thesis using buffered_reset buffered_more[OF assms] by auto
qed

lemma scan_source:
  "buffered opt seen s \<Longrightarrow> Scanned f code \<in> set (fst (scan_keys opt es s)) \<Longrightarrow>
    \<exists>bs. subseq bs (seen @ es) \<and> burst opt bs \<and> concat (map key_k bs) = code \<and> minLength_so opt \<le> length bs"
proof (induction es arbitrary: seen s)
  case (Cons e es)
  show ?case
  proof (cases "fst (handleKeyDown opt e s) = Scanned f code")
    case True
    then have "code = buffer_z s" "minLength_so opt \<le> length (buffer_z s)"
      by (simp_all add: handleKeyDown_def Let_def split: if_splits)
    moreover obtain bs where "subseq bs (seen @ e # es)" "burst opt bs" "concat (map key_k bs) = buffer_z s"
      using buffered_more[OF Cons.prems(1), of "e # es"] by (auto simp: buffered_def)
    ultimately show ?thesis using burst_length[of opt bs] by metis
  next
    case False
    then have "Scanned f code \<in> set (fst (scan_keys opt es (snd (handleKeyDown opt e s))))"
      using Cons.prems(2) by (auto split: prod.splits)
    from Cons.IH[OF buffered_step[OF Cons.prems(1)] this] show ?thesis by simp
  qed
qed simp

text \<open>Whatever is typed, a scan is reported only for a burst among the keys pressed: at least
  \<open>minLength\<close> printable keys, each within the interval of the one before, spelling the code.\<close>

theorem scan_comes_from_burst:
  assumes "Scanned f code \<in> set (fst (scan_keys opt es reset_scan))"
  shows "\<exists>bs. subseq bs es \<and> burst opt bs \<and> concat (map key_k bs) = code \<and> minLength_so opt \<le> length bs"
  using scan_source[OF buffered_reset[of opt "[]"] assms] by simp

theorem scan_comes_from_burst_witness:
  "\<exists>bs. subseq bs (scanned_keys @ [digit_key ''Enter'' 1030]) \<and> burst DEFAULT_OPTIONS bs \<and>
    concat (map key_k bs) = ''8901'' \<and> 4 \<le> length bs"
proof -
  have "fst (scan_keys DEFAULT_OPTIONS (scanned_keys @ [digit_key ''Enter'' 1030]) reset_scan) =
      [Passed, Passed, Passed, Passed, Scanned (focused_k (digit_key ''8'' 1000)) ''8901'']"
    by code_simp
  then show ?thesis
    using scan_comes_from_burst[of "focused_k (digit_key ''8'' 1000)" "''8901''" DEFAULT_OPTIONS
        "scanned_keys @ [digit_key ''Enter'' 1030]"]
    by (simp add: DEFAULT_OPTIONS_def)
qed

end
