(* ===== verification/Ledger.thy ===== *)
theory Ledger
  imports Decimal Effects
begin

text \<open>
  Double-entry posting (\<open>apps/api/src/ledger/ledger-posting.service.ts\<close>): a posting is checked
  and written with its header, and every entry moves the balance of its account and stamps it.
  The columns hold two decimals and refuse a value beyond their digits, as the database's strict
  mode does; row identifiers are drawn by the database (the parameter \<open>G\<close>). Runs are one
  transaction after another, so a lock is the read it makes.
\<close>

section \<open>Types\<close>

datatype LedgerAccount =
    A_CASH | A_BANK | ACCOUNTS_RECEIVABLE | SALES_REVENUE | GST_PAYABLE | COST_OF_GOODS | INVENTORY
  | UDHAR_RECEIVABLE | ACCOUNTS_PAYABLE | INVENTORY_ADJUSTMENT | OPENING_BALANCE_EQUITY | INPUT_GST | EXPENSES

datatype LedgerEntryType = DEBIT | CREDIT

datatype LedgerSourceType =
    SRC_SALE | SRC_RETURN | SRC_CANCELLATION | SRC_CUSTOMER_PAYMENT | SRC_GRN | SRC_PURCHASE_RETURN
  | SRC_ADJUSTMENT_REQUEST | SRC_STOCK_ADJUSTMENT | SRC_SUPPLIER_PAYMENT | SRC_OPENING_BALANCE
  | SRC_VENDOR_BILL | SRC_SUPPLIER_CREDIT_NOTE | SRC_SUPPLIER_OPENING_BALANCE | SRC_EXPENSE
  | SRC_EXPENSE_ADJUSTMENT

record LedgerEntryInput =
  account_ei :: LedgerAccount
  type_ei :: LedgerEntryType
  amount_ei :: decimal
  description_ei :: "string option"

record LedgerPosting =
  shopId_po :: string
  sourceType_po :: LedgerSourceType
  sourceId_po :: string
  invoiceId_po :: "string option"
  description_po :: string
  entries_po :: "LedgerEntryInput list"

record LedgerPostingResult =
  posted_pr :: bool
  postingId_pr :: "string option"

text \<open>The rows: a posting's header and one transaction per entry.\<close>

record PostingRow =
  id_pst :: string
  shopId_pst :: string
  sourceType_pst :: LedgerSourceType
  sourceId_pst :: string
  description_pst :: string

record LedgerTransaction =
  shopId_lt :: string
  invoiceId_lt :: "string option"
  account_lt :: LedgerAccount
  type_lt :: LedgerEntryType
  amount_lt :: decimal
  balanceAfter_lt :: decimal
  description_lt :: string
  postingId_lt :: string

record Supplier =
  id_su :: string
  shopId_su :: string
  pendingPayables_su :: decimal
  openingPayables_su :: decimal
  isDeleted_su :: bool

record SupplierPayment =
  id_sp :: string
  shopId_sp :: string
  supplierId_sp :: string
  vendorBillId_sp :: "string option"
  amount_sp :: decimal
  tender_sp :: string
  reference_sp :: "string option"
  idempotencyKey_sp :: "string option"
  notes_sp :: "string option"
  recordedById_sp :: "string option"
  shiftId_sp :: "string option"

record Shift =
  id_sh :: string
  shopId_sh :: string
  openedById_sh :: string
  open_sh :: bool
  isDeleted_sh :: bool
  openedAt_sh :: nat
  totalSales_sh :: decimal
  cashSales_sh :: decimal
  upiSales_sh :: decimal
  cardSales_sh :: decimal
  udharSales_sh :: decimal
  expectedCash_sh :: decimal
  cashPayouts_sh :: decimal

record books =
  postings_bk :: "PostingRow list"
  transactions_bk :: "LedgerTransaction list"
  balances_bk :: "string \<times> LedgerAccount \<rightharpoonup> decimal"
  suppliers_bk :: "Supplier list"
  payments_bk :: "SupplierPayment list"
  shifts_bk :: "Shift list"

datatype ledger_error =
    Unbalanced decimal decimal | OutOfRange | SUPPLIER_NOT_FOUND | PAYMENT_INVALID
  | IDEMPOTENCY_KEY_REUSED string | PAYABLES_INSUFFICIENT decimal decimal | RecordNotFound
  | UniqueViolation

type_synonym 'a bookkeeping = "(books, ledger_error, 'a) eff"

text \<open>A column of p digits, two of them decimals.\<close>

definition fits_column :: "nat \<Rightarrow> decimal \<Rightarrow> bool" where
  "fits_column p x \<longleftrightarrow> \<bar>x\<bar> * 100 < 10 ^ p"

definition DEBIT_NORMAL :: "LedgerAccount list" where
  "DEBIT_NORMAL =
     [A_CASH, A_BANK, ACCOUNTS_RECEIVABLE, UDHAR_RECEIVABLE, COST_OF_GOODS, INVENTORY,
      INVENTORY_ADJUSTMENT, INPUT_GST, EXPENSES]"

text \<open>The accounts in the order of their names, as \<open>localeCompare\<close> and \<open>sort\<close> put them.\<close>

definition accounts_by_name :: "LedgerAccount list" where
  "accounts_by_name =
     [ACCOUNTS_PAYABLE, ACCOUNTS_RECEIVABLE, A_BANK, A_CASH, COST_OF_GOODS, EXPENSES, GST_PAYABLE, INPUT_GST,
      INVENTORY, INVENTORY_ADJUSTMENT, OPENING_BALANCE_EQUITY, SALES_REVENUE, UDHAR_RECEIVABLE]"

fun position :: "'a \<Rightarrow> 'a list \<Rightarrow> nat" where
  "position x [] = 0"
| "position x (y # ys) = (if x = y then 0 else Suc (position x ys))"

definition account_rank :: "LedgerAccount \<Rightarrow> nat" where
  "account_rank a = position a accounts_by_name"

section \<open>Posting\<close>

definition normalise_entries :: "decimal_lib \<Rightarrow> LedgerEntryInput list \<Rightarrow> LedgerEntryInput list" where
  "normalise_entries D es =
     filter (\<lambda>e. 0 < amount_ei e) (map (\<lambda>e. e\<lparr>amount_ei := to_dp_half_up D 2 (amount_ei e)\<rparr>) es)"

definition side_total :: "decimal_lib \<Rightarrow> LedgerEntryType \<Rightarrow> LedgerEntryInput list \<Rightarrow> decimal" where
  "side_total D ty es = d_sum D (map amount_ei (filter (\<lambda>e. type_ei e = ty) es))"

definition grows :: "LedgerAccount \<Rightarrow> LedgerEntryType \<Rightarrow> bool" where
  "grows a ty \<longleftrightarrow> (if a \<in> set DEBIT_NORMAL then ty = DEBIT else ty = CREDIT)"

text \<open>Missing balance rows are inserted with 0 and the locked rows are read.\<close>

definition lockBalances :: "string \<Rightarrow> LedgerAccount list \<Rightarrow> (LedgerAccount \<Rightarrow> decimal) bookkeeping" where
  "lockBalances shop accounts =
     bind_eff (write_eff (\<lambda>s. s\<lparr>balances_bk := (\<lambda>(sh, a).
         if sh = shop \<and> a \<in> set accounts \<and> balances_bk s (sh, a) = None then Some 0 else balances_bk s (sh, a))\<rparr>)) (\<lambda>_.
     read_eff (\<lambda>s a. case balances_bk s (shop, a) of Some b \<Rightarrow> b | None \<Rightarrow> 0))"

definition transaction_row :: "LedgerPosting \<Rightarrow> string \<Rightarrow> decimal \<Rightarrow> LedgerEntryInput \<Rightarrow> LedgerTransaction" where
  "transaction_row p header after e =
     \<lparr>shopId_lt = shopId_po p, invoiceId_lt = invoiceId_po p, account_lt = account_ei e, type_lt = type_ei e,
      amount_lt = amount_ei e, balanceAfter_lt = after,
      description_lt = (case description_ei e of Some d \<Rightarrow> d | None \<Rightarrow> description_po p),
      postingId_lt = header\<rparr>"

fun post_loop ::
    "decimal_lib \<Rightarrow> LedgerPosting \<Rightarrow> string \<Rightarrow> (LedgerAccount \<Rightarrow> decimal) \<Rightarrow> LedgerEntryInput list \<Rightarrow> unit bookkeeping" where
  "post_loop D p header cur [] = return_eff ()"
| "post_loop D p header cur (e # es) =
     (let a = account_ei e;
          after = (if grows a (type_ei e) then d_plus D (cur a) (amount_ei e) else d_minus D (cur a) (amount_ei e))
      in bind_eff (require_eff (fits_column 14 after) OutOfRange) (\<lambda>_.
         bind_eff (write_eff (\<lambda>s. s\<lparr>balances_bk := (balances_bk s)((shopId_po p, a) \<mapsto> after)\<rparr>)) (\<lambda>_.
         bind_eff (require_eff (fits_column 14 (amount_ei e)) OutOfRange) (\<lambda>_.
         bind_eff (write_eff (\<lambda>s. s\<lparr>transactions_bk := transactions_bk s @ [transaction_row p header after e]\<rparr>)) (\<lambda>_.
         post_loop D p header (cur(a := after)) es)))))"

definition find_posting :: "LedgerPosting \<Rightarrow> books \<Rightarrow> PostingRow option" where
  "find_posting p s =
     find (\<lambda>r. shopId_pst r = shopId_po p \<and> sourceType_pst r = sourceType_po p \<and> sourceId_pst r = sourceId_po p)
       (postings_bk s)"

definition postEntries :: "decimal_lib \<Rightarrow> (books \<Rightarrow> string) \<Rightarrow> LedgerPosting \<Rightarrow> LedgerPostingResult bookkeeping" where
  "postEntries D G p =
     (let es = normalise_entries D (entries_po p)
      in if es = [] then return_eff \<lparr>posted_pr = False, postingId_pr = None\<rparr>
         else bind_eff (read_eff (find_posting p)) (\<lambda>existing.
           case existing of
             Some r \<Rightarrow> return_eff \<lparr>posted_pr = False, postingId_pr = Some (id_pst r)\<rparr>
           | None \<Rightarrow>
             let debits = side_total D DEBIT es; credits = side_total D CREDIT es
             in bind_eff (require_eff (debits = credits) (Unbalanced debits credits)) (\<lambda>_.
                bind_eff (read_eff G) (\<lambda>header.
                bind_eff (write_eff (\<lambda>s. s\<lparr>postings_bk := postings_bk s @
                    [\<lparr>id_pst = header, shopId_pst = shopId_po p, sourceType_pst = sourceType_po p,
                      sourceId_pst = sourceId_po p, description_pst = description_po p\<rparr>]\<rparr>)) (\<lambda>_.
                let sorted_es = sort_key (\<lambda>e. account_rank (account_ei e)) es
                in bind_eff (lockBalances (shopId_po p) (map account_ei sorted_es)) (\<lambda>cur.
                   bind_eff (post_loop D p header cur sorted_es) (\<lambda>_.
                   return_eff \<lparr>posted_pr = True, postingId_pr = Some header\<rparr>)))))))"

text \<open>\<open>post\<close> counts a failure for the alert and throws it on; the caller's transaction rolls back.\<close>

definition post :: "decimal_lib \<Rightarrow> (books \<Rightarrow> string) \<Rightarrow> LedgerPosting \<Rightarrow> LedgerPostingResult bookkeeping" where
  "post D G p = postEntries D G p"

definition in_transaction :: "'a bookkeeping \<Rightarrow> 'a bookkeeping" where
  "in_transaction m = (\<lambda>s. case m s of (s', Inl e) \<Rightarrow> (s, Inl e) | (s', Inr x) \<Rightarrow> (s', Inr x))"

section \<open>What a posting writes\<close>

text \<open>An entry's effect on the balance of its account.\<close>

definition signed_entry :: "LedgerAccount \<Rightarrow> LedgerEntryType \<Rightarrow> decimal \<Rightarrow> decimal" where
  "signed_entry a ty x = (if grows a ty then x else - x)"

definition effect :: "LedgerTransaction \<Rightarrow> decimal" where
  "effect t = signed_entry (account_lt t) (type_lt t) (amount_lt t)"

definition of_account :: "string \<Rightarrow> LedgerAccount \<Rightarrow> LedgerTransaction list \<Rightarrow> LedgerTransaction list" where
  "of_account shop a ts = filter (\<lambda>t. shopId_lt t = shop \<and> account_lt t = a) ts"

text \<open>Each stamped balance is the one before it moved by the entry.\<close>

fun running :: "decimal \<Rightarrow> LedgerTransaction list \<Rightarrow> bool" where
  "running b [] = True"
| "running b (t # ts) = (balanceAfter_lt t = b + effect t \<and> running (balanceAfter_lt t) ts)"

lemma running_append: "running b (xs @ ys) \<longleftrightarrow> running b xs \<and> running (b + sum_list (map effect xs)) ys"
proof (induction xs arbitrary: b)
  case (Cons t xs)
  then show ?case by (cases "balanceAfter_lt t = b + effect t") (simp_all add: add.assoc)
qed simp

lemma of_account_append [simp]: "of_account shop a (xs @ ys) = of_account shop a xs @ of_account shop a ys"
  by (simp add: of_account_def)

lemma of_account_Cons [simp]:
  "of_account shop a (t # ts) = (if shopId_lt t = shop \<and> account_lt t = a then t # of_account shop a ts else of_account shop a ts)"
  by (simp add: of_account_def)

lemma of_account_Nil [simp]: "of_account shop a [] = []"
  by (simp add: of_account_def)

definition entry_ok :: "LedgerEntryInput \<Rightarrow> bool" where
  "entry_ok e \<longleftrightarrow> on_grid 2 (amount_ei e) \<and> 0 < amount_ei e"

context decimal_arith
begin

lemma after_exact:
  assumes "on_grid 2 c" and "fits_column 14 c" and "entry_ok e" and "fits_column 14 (amount_ei e)"
  shows "(if grows a ty then d_plus D c (amount_ei e) else d_minus D c (amount_ei e)) = c + signed_entry a ty (amount_ei e)"
proof -
  have "\<bar>c\<bar> < 10 ^ 12" "\<bar>amount_ei e\<bar> < 10 ^ 12"
    using assms(2,4) by (simp_all add: fits_column_def)
  then have s: "\<bar>c\<bar> + \<bar>amount_ei e\<bar> < 10 ^ 13" by simp
  have "\<bar>c + amount_ei e\<bar> < 10 ^ 13" "\<bar>c - amount_ei e\<bar> < 10 ^ 13"
    using abs_triangle_ineq[of c "amount_ei e"] abs_triangle_ineq4[of c "amount_ei e"] s by linarith+
  then have "\<bar>c + amount_ei e\<bar> * 10 ^ 2 < 10 ^ 20" "\<bar>c - amount_ei e\<bar> * 10 ^ 2 < 10 ^ 20" by simp_all
  then show ?thesis using assms(1,3) by (simp add: entry_ok_def signed_entry_def d_plus_grid d_minus_grid)
qed

end

end
