(* ===== verification/LedgerProperties.thy ===== *)
theory LedgerProperties
  imports Ledger "HOL-Library.Multiset"
begin

text \<open>
  The ledger's books after any history of postings: every posting balances, every balance is the
  sum of the entries of its account, every stamped balance is the running one, and a source
  posts once.
\<close>

section \<open>The entries of a posting\<close>

lemma post_loop_amounts:
  "post_loop D p h cur es s = (s', Inr u) \<Longrightarrow> list_all (\<lambda>e. fits_column 14 (amount_ei e)) es"
  by (induction es arbitrary: cur s) (auto simp: Let_def split: if_splits)

definition bump :: "(LedgerAccount \<Rightarrow> decimal) \<Rightarrow> LedgerEntryInput \<Rightarrow> LedgerAccount \<Rightarrow> decimal" where
  "bump cur e = cur(account_ei e := cur (account_ei e) + signed_entry (account_ei e) (type_ei e) (amount_ei e))"

lemma bump_at [simp]: "bump cur e (account_ei e) = cur (account_ei e) + signed_entry (account_ei e) (type_ei e) (amount_ei e)"
  by (simp add: bump_def)

lemma bump_other [simp]: "a \<noteq> account_ei e \<Longrightarrow> bump cur e a = cur a"
  by (simp add: bump_def)

fun rows_of :: "LedgerPosting \<Rightarrow> string \<Rightarrow> (LedgerAccount \<Rightarrow> decimal) \<Rightarrow> LedgerEntryInput list \<Rightarrow> LedgerTransaction list" where
  "rows_of p header cur [] = []"
| "rows_of p header cur (e # es) =
     transaction_row p header (bump cur e (account_ei e)) e # rows_of p header (bump cur e) es"

definition moved :: "(LedgerAccount \<Rightarrow> decimal) \<Rightarrow> LedgerEntryInput list \<Rightarrow> LedgerAccount \<Rightarrow> decimal" where
  "moved cur es = foldl bump cur es"

lemma moved_simps [simp]: "moved cur [] = cur" "moved cur (e # es) = moved (bump cur e) es"
  by (simp_all add: moved_def)

lemma transaction_row_fields [simp]:
  "shopId_lt (transaction_row p h b e) = shopId_po p" "account_lt (transaction_row p h b e) = account_ei e"
  "type_lt (transaction_row p h b e) = type_ei e" "amount_lt (transaction_row p h b e) = amount_ei e"
  "balanceAfter_lt (transaction_row p h b e) = b" "postingId_lt (transaction_row p h b e) = h"
  by (simp_all add: transaction_row_def)

lemma rows_of_set:
  "t \<in> set (rows_of p h cur es) \<Longrightarrow> shopId_lt t = shopId_po p \<and> postingId_lt t = h \<and>
    (\<exists>e \<in> set es. amount_lt t = amount_ei e \<and> account_lt t = account_ei e)"
  by (induction es arbitrary: cur) (auto simp: Let_def)

lemma effect_row [simp]:
  "effect (transaction_row p h b e) = signed_entry (account_ei e) (type_ei e) (amount_ei e)"
  by (simp add: effect_def)

lemma rows_of_running: "running (cur a) (of_account (shopId_po p) a (rows_of p h cur es))"
proof (induction es arbitrary: cur)
  case (Cons e es)
  show ?case using Cons[of "bump cur e"] by (cases "account_ei e = a") auto
qed simp

lemma rows_of_effect: "cur a + sum_list (map effect (of_account (shopId_po p) a (rows_of p h cur es))) = moved cur es a"
proof (induction es arbitrary: cur)
  case (Cons e es)
  show ?case using Cons[of "bump cur e"] by (cases "account_ei e = a") auto
qed simp

lemma moved_other: "a \<notin> account_ei ` set es \<Longrightarrow> moved cur es a = cur a"
  by (induction es arbitrary: cur) auto

lemma rows_of_other: "shop \<noteq> shopId_po p \<or> a \<notin> account_ei ` set es \<Longrightarrow> of_account shop a (rows_of p h cur es) = []"
  by (induction es arbitrary: cur) (auto simp: Let_def)

lemma rows_of_side:
  "map amount_lt (filter (\<lambda>t. type_lt t = ty) (rows_of p h cur es)) = map amount_ei (filter (\<lambda>e. type_ei e = ty) es)"
  by (induction es arbitrary: cur) (auto simp: Let_def)

context decimal_arith
begin

lemma on_grid_signed: "on_grid n x \<Longrightarrow> on_grid n (signed_entry a ty x)"
  by (simp add: signed_entry_def on_grid_minus)

lemma post_loop_Inr:
  assumes "post_loop D p h cur es s = (s', Inr u)" and "list_all entry_ok es"
    and "\<And>a. on_grid 2 (cur a) \<and> fits_column 14 (cur a)"
  shows "s' = s\<lparr>balances_bk := (\<lambda>k. if fst k = shopId_po p \<and> snd k \<in> account_ei ` set es
                then Some (moved cur es (snd k)) else balances_bk s k),
                transactions_bk := transactions_bk s @ rows_of p h cur es\<rparr> \<and>
    (\<forall>a. on_grid 2 (moved cur es a) \<and> fits_column 14 (moved cur es a))"
  using assms
proof (induction es arbitrary: cur s)
  case (Cons e es)
  let ?a = "account_ei e"
  define after where "after = (if grows ?a (type_ei e) then d_plus D (cur ?a) (amount_ei e) else d_minus D (cur ?a) (amount_ei e))"
  have loop: "fits_column 14 after" "fits_column 14 (amount_ei e)"
    "post_loop D p h (cur(?a := after)) es (s\<lparr>balances_bk := (balances_bk s)((shopId_po p, ?a) \<mapsto> after),
       transactions_bk := transactions_bk s @ [transaction_row p h after e]\<rparr>) = (s', Inr u)"
    using Cons.prems(1) by (auto simp: Let_def after_def[symmetric] split: if_splits)
  have e: "entry_ok e" "list_all entry_ok es" using Cons.prems(2) by auto
  have exact: "after = cur ?a + signed_entry ?a (type_ei e) (amount_ei e)"
    using after_exact[OF _ _ e(1) loop(2)] Cons.prems(3) by (simp add: after_def)
  have "on_grid 2 after" unfolding exact using Cons.prems(3) e(1) by (intro on_grid_add on_grid_signed) (auto simp: entry_ok_def)
  then have cur: "on_grid 2 ((cur(?a := after)) a) \<and> fits_column 14 ((cur(?a := after)) a)" for a
    using Cons.prems(3) loop(1) by simp
  have upd: "cur(?a := after) = bump cur e" by (simp add: bump_def exact)
  note ih = Cons.IH[OF loop(3) e(2) cur, unfolded upd]
  have f: "(\<lambda>k. if fst k = shopId_po p \<and> snd k \<in> account_ei ` set es then Some (moved (bump cur e) es (snd k))
        else ((balances_bk s)((shopId_po p, ?a) \<mapsto> after)) k) =
      (\<lambda>k. if fst k = shopId_po p \<and> snd k \<in> account_ei ` set (e # es) then Some (moved cur (e # es) (snd k))
        else balances_bk s k)"
    using exact by (auto simp: moved_other fun_eq_iff)
  have "s' = s\<lparr>balances_bk := (\<lambda>k. if fst k = shopId_po p \<and> snd k \<in> account_ei ` set es
          then Some (moved (bump cur e) es (snd k)) else ((balances_bk s)((shopId_po p, ?a) \<mapsto> after)) k),
        transactions_bk := transactions_bk s @ transaction_row p h after e # rows_of p h (bump cur e) es\<rparr>"
    using ih by (simp cong: if_cong)
  then have "s' = s\<lparr>balances_bk := (\<lambda>k. if fst k = shopId_po p \<and> snd k \<in> account_ei ` set (e # es)
          then Some (moved cur (e # es) (snd k)) else balances_bk s k),
        transactions_bk := transactions_bk s @ rows_of p h cur (e # es)\<rparr>"
    unfolding f by (simp add: exact)
  with ih show ?case by simp
qed simp

end

section \<open>The trial balance\<close>

definition net_debit :: "LedgerTransaction \<Rightarrow> decimal" where
  "net_debit t = (if type_lt t = DEBIT then amount_lt t else - amount_lt t)"

definition trial_ok :: "books \<Rightarrow> bool" where
  "trial_ok s \<longleftrightarrow> (\<forall>shop. sum_list (map net_debit (filter (\<lambda>t. shopId_lt t = shop) (transactions_bk s))) = 0)"

lemma net_debit_rows:
  "sum_list (map net_debit (rows_of p h cur es)) =
    sum_list (map amount_ei (filter (\<lambda>e. type_ei e = DEBIT) es)) - sum_list (map amount_ei (filter (\<lambda>e. type_ei e = CREDIT) es))"
  by (induction es arbitrary: cur) (auto simp: net_debit_def intro: LedgerEntryType.exhaust)

section \<open>Consistent books\<close>

definition side_of :: "LedgerEntryType \<Rightarrow> string \<Rightarrow> LedgerTransaction list \<Rightarrow> decimal" where
  "side_of ty h ts = sum_list (map amount_lt (filter (\<lambda>t. type_lt t = ty) (filter (\<lambda>t. postingId_lt t = h) ts)))"

definition posting_key :: "PostingRow \<Rightarrow> string \<times> LedgerSourceType \<times> string" where
  "posting_key r = (shopId_pst r, sourceType_pst r, sourceId_pst r)"

definition account_balance :: "books \<Rightarrow> string \<Rightarrow> LedgerAccount \<Rightarrow> decimal" where
  "account_balance s shop a = (case balances_bk s (shop, a) of Some b \<Rightarrow> b | None \<Rightarrow> 0)"

definition ledger_ok :: "books \<Rightarrow> bool" where
  "ledger_ok s \<longleftrightarrow>
     distinct (map id_pst (postings_bk s)) \<and> distinct (map posting_key (postings_bk s)) \<and>
     (\<forall>t \<in> set (transactions_bk s). 0 < amount_lt t \<and> postingId_lt t \<in> id_pst ` set (postings_bk s)) \<and>
     (\<forall>h. side_of DEBIT h (transactions_bk s) = side_of CREDIT h (transactions_bk s)) \<and> trial_ok s \<and>
     (\<forall>shop a. running 0 (of_account shop a (transactions_bk s)) \<and>
        account_balance s shop a = sum_list (map effect (of_account shop a (transactions_bk s))) \<and>
        on_grid 2 (account_balance s shop a) \<and> fits_column 14 (account_balance s shop a))"

text \<open>Row identifiers the database draws are new.\<close>

definition new_ids :: "(books \<Rightarrow> string) \<Rightarrow> bool" where
  "new_ids G \<longleftrightarrow> (\<forall>s. G s \<notin> id_pst ` set (postings_bk s) \<and> G s \<notin> id_sp ` set (payments_bk s) \<and>
     G s \<notin> sourceId_pst ` set (postings_bk s))"

text \<open>A posting whose amounts the arithmetic adds exactly: below 10^18 in total.\<close>

definition posting_fits :: "decimal_lib \<Rightarrow> LedgerPosting \<Rightarrow> bool" where
  "posting_fits D p \<longleftrightarrow> sum_list (map amount_ei (normalise_entries D (entries_po p))) * 10 ^ 2 < 10 ^ 20"

definition new_posting :: "LedgerPosting \<Rightarrow> string \<Rightarrow> PostingRow" where
  "new_posting p h =
     \<lparr>id_pst = h, shopId_pst = shopId_po p, sourceType_pst = sourceType_po p, sourceId_pst = sourceId_po p,
      description_pst = description_po p\<rparr>"

text \<open>The books after a posting that was written, its entries in account order.\<close>

definition posted_books :: "LedgerPosting \<Rightarrow> string \<Rightarrow> LedgerEntryInput list \<Rightarrow> books \<Rightarrow> books" where
  "posted_books p h es s =
     s\<lparr>postings_bk := postings_bk s @ [new_posting p h],
       balances_bk := (\<lambda>k. if fst k = shopId_po p \<and> snd k \<in> account_ei ` set es
          then Some (moved (account_balance s (shopId_po p)) es (snd k)) else balances_bk s k),
       transactions_bk := transactions_bk s @ rows_of p h (account_balance s (shopId_po p)) es\<rparr>"

definition sorted_entries :: "decimal_lib \<Rightarrow> LedgerPosting \<Rightarrow> LedgerEntryInput list" where
  "sorted_entries D p = sort_key (\<lambda>e. account_rank (account_ei e)) (normalise_entries D (entries_po p))"

lemma sum_list_sort: "sum_list (map f (filter P (sort_key k xs))) = sum_list (map f (filter P xs))"
  for f :: "'a \<Rightarrow> rat"
  by (metis mset_filter mset_map mset_sort sum_mset_sum_list)

lemma locked_balances:
  "lockBalances shop accounts s =
    (s\<lparr>balances_bk := (\<lambda>(sh, a). if sh = shop \<and> a \<in> set accounts \<and> balances_bk s (sh, a) = None
        then Some 0 else balances_bk s (sh, a))\<rparr>, Inr (account_balance s shop))"
  by (auto simp: lockBalances_def account_balance_def fun_eq_iff split: option.split)

context decimal_arith
begin

lemma normalise_ok: "list_all entry_ok (normalise_entries D es)"
  by (auto simp: normalise_entries_def list_all_iff entry_ok_def to_dp_half_up)

lemma side_total_exact:
  assumes "posting_fits D p"
  shows "side_total D ty (normalise_entries D (entries_po p))
    = sum_list (map amount_ei (filter (\<lambda>e. type_ei e = ty) (normalise_entries D (entries_po p))))"
proof -
  let ?es = "normalise_entries D (entries_po p)"
  have ok: "on_grid 2 (amount_ei e) \<and> 0 \<le> amount_ei e" if "e \<in> set ?es" for e
    using normalise_ok[of "entries_po p"] that by (auto simp: list_all_iff entry_ok_def)
  have "sum_list (map amount_ei (filter P es)) \<le> sum_list (map amount_ei es)"
    if "\<And>e. e \<in> set es \<Longrightarrow> 0 \<le> amount_ei e" for P es
    using that by (induction es) (auto intro: add_increasing add_mono)
  from this[of ?es "\<lambda>e. type_ei e = ty"] ok
  have "sum_list (map amount_ei (filter (\<lambda>e. type_ei e = ty) ?es)) * 10 ^ 2 < 10 ^ 20"
    using assms by (auto simp: posting_fits_def elim!: order.strict_trans1[rotated])
  then show ?thesis unfolding side_total_def using ok by (intro d_sum_exact) auto
qed

lemma post_cases:
  assumes ok: "ledger_ok s" and run: "post D G p s = (s', Inr r)"
  obtains (replayed) "s' = s" "\<not> posted_pr r"
  | (posted) "s' = posted_books p (G s) (sorted_entries D p) s" "posted_pr r"
      "postingId_pr r = Some (G s)" "find_posting p s = None"
      "side_total D DEBIT (normalise_entries D (entries_po p)) = side_total D CREDIT (normalise_entries D (entries_po p))"
      "\<And>a. on_grid 2 (moved (account_balance s (shopId_po p)) (sorted_entries D p) a) \<and>
           fits_column 14 (moved (account_balance s (shopId_po p)) (sorted_entries D p) a)"
proof -
  let ?es = "normalise_entries D (entries_po p)"
  consider "?es = []" | r0 where "?es \<noteq> []" "find_posting p s = Some r0" | "?es \<noteq> []" "find_posting p s = None"
    by (cases "find_posting p s") auto
  then show thesis
  proof cases
    case 3
    let ?s1 = "s\<lparr>postings_bk := postings_bk s @ [new_posting p (G s)]\<rparr>"
    let ?accs = "map account_ei (sorted_entries D p)"
    let ?s2 = "fst (lockBalances (shopId_po p) ?accs ?s1)"
    have cur: "account_balance ?s1 (shopId_po p) = account_balance s (shopId_po p)"
      by (simp add: account_balance_def fun_eq_iff)
    have bal: "side_total D DEBIT ?es = side_total D CREDIT ?es"
      and loop: "post_loop D p (G s) (account_balance s (shopId_po p)) (sorted_entries D p) ?s2 = (s', Inr ())"
      and r: "r = \<lparr>posted_pr = True, postingId_pr = Some (G s)\<rparr>"
      using run 3 unfolding post_def postEntries_def
      by (auto simp: Let_def eff_simps bind_eff_def locked_balances sorted_entries_def[symmetric] new_posting_def[symmetric] cur
          split: if_splits prod.splits sum.splits)
    have sorted_ok: "list_all entry_ok (sorted_entries D p)"
      using normalise_ok[of "entries_po p"] by (simp add: sorted_entries_def list_all_iff)
    have "on_grid 2 (account_balance s (shopId_po p) a) \<and> fits_column 14 (account_balance s (shopId_po p) a)" for a
      using ok unfolding ledger_ok_def by blast
    note spec = post_loop_Inr[OF loop sorted_ok this]
    have "s' = posted_books p (G s) (sorted_entries D p) s"
      using conjunct1[OF spec] by (auto simp: posted_books_def locked_balances fun_eq_iff cong: if_cong)
    then show thesis using posted 3 r bal conjunct2[OF spec] by simp
  qed (use run replayed in \<open>auto simp: post_def postEntries_def Let_def\<close>)
qed

end


text \<open>The parts of consistent books.\<close>

lemma ledger_okD:
  assumes "ledger_ok s"
  shows "distinct (map id_pst (postings_bk s))" "distinct (map posting_key (postings_bk s))"
    "t \<in> set (transactions_bk s) \<Longrightarrow> 0 < amount_lt t \<and> postingId_lt t \<in> id_pst ` set (postings_bk s)"
    "side_of DEBIT h (transactions_bk s) = side_of CREDIT h (transactions_bk s)"
    "running 0 (of_account shop a (transactions_bk s))"
    "account_balance s shop a = sum_list (map effect (of_account shop a (transactions_bk s)))"
    "on_grid 2 (account_balance s shop a)" "fits_column 14 (account_balance s shop a)" "trial_ok s"
  using assms unfolding ledger_ok_def by blast+

lemma side_of_append: "side_of ty h (xs @ ys) = side_of ty h xs + side_of ty h ys"
  by (simp add: side_of_def)

lemma side_of_none: "(\<And>t. t \<in> set ts \<Longrightarrow> postingId_lt t \<noteq> h) \<Longrightarrow> side_of ty h ts = 0"
  by (simp add: side_of_def filter_False)

lemma side_of_rows: "side_of ty h (rows_of p h cur es) = sum_list (map amount_ei (filter (\<lambda>e. type_ei e = ty) es))"
proof -
  have "filter (\<lambda>t. postingId_lt t = h) (rows_of p h cur es) = rows_of p h cur es"
    by (intro filter_True) (use rows_of_set in blast)
  then show ?thesis by (simp add: side_of_def rows_of_side)
qed

lemma posted_balance:
  "account_balance (posted_books p h es s) shop a =
    (if shop = shopId_po p then moved (account_balance s shop) es a else account_balance s shop a)"
  by (simp add: posted_books_def account_balance_def moved_other split: option.split)

lemma find_posting_None: "find_posting p s = None \<Longrightarrow> posting_key (new_posting p h) \<notin> posting_key ` set (postings_bk s)"
  by (auto simp: find_posting_def find_None_iff posting_key_def new_posting_def)

lemma post_new:
  assumes "post D G p s = (s', Inr r)" and "find_posting p s = None" and "normalise_entries D (entries_po p) \<noteq> []"
  shows "posted_pr r"
  using assms by (auto simp: post_def postEntries_def Let_def eff_simps split: if_splits)

context decimal_arith
begin

lemma post_keeps_ledger:
  assumes ok: "ledger_ok s" and ids: "new_ids G" and fit: "posting_fits D p" and run: "post D G p s = (s', Inr r)"
  shows "ledger_ok s'"
proof (cases rule: post_cases[OF ok run, case_names replayed posted])
  case posted
  let ?es = "sorted_entries D p" and ?h = "G s" and ?cur = "account_balance s (shopId_po p)"
  let ?new = "rows_of p ?h ?cur ?es"
  have fresh: "?h \<notin> id_pst ` set (postings_bk s)" using ids by (simp add: new_ids_def)
  have rows: "transactions_bk s' = transactions_bk s @ ?new" "postings_bk s' = postings_bk s @ [new_posting p ?h]"
    by (simp_all add: posted(1) posted_books_def)
  have keys: "distinct (map id_pst (postings_bk s'))" "distinct (map posting_key (postings_bk s'))"
    using ledger_okD(1,2)[OF ok] fresh find_posting_None[OF posted(4), of ?h] by (simp_all add: rows new_posting_def)
  have ents: "entry_ok e" if "e \<in> set ?es" for e
    using normalise_ok[of "entries_po p"] that by (auto simp: sorted_entries_def list_all_iff)
  have links: "0 < amount_lt t \<and> postingId_lt t \<in> id_pst ` set (postings_bk s')" if "t \<in> set (transactions_bk s')" for t
    using that ledger_okD(3)[OF ok, of t] rows_of_set[of t p ?h ?cur ?es] ents
    by (auto simp: rows new_posting_def entry_ok_def)
  have old: "postingId_lt t \<noteq> ?h" if "t \<in> set (transactions_bk s)" for t
    using ledger_okD(3)[OF ok that] fresh by auto
  have sides: "side_of ty ?h ?new = side_total D ty (normalise_entries D (entries_po p))" for ty
    by (simp add: side_of_rows sorted_entries_def sum_list_sort side_total_exact[OF fit])
  have balanced: "side_of DEBIT h (transactions_bk s') = side_of CREDIT h (transactions_bk s')" for h
  proof (cases "h = ?h")
    case True
    then show ?thesis using posted(5) by (simp add: rows side_of_append side_of_none[OF old] sides)
  next
    case False
    then have "side_of ty h ?new = 0" for ty using rows_of_set[of _ p ?h ?cur ?es] by (intro side_of_none) auto
    then show ?thesis using ledger_okD(4)[OF ok, of h] by (simp add: rows side_of_append)
  qed
  have bal: "account_balance s' shop a =
      (if shop = shopId_po p then moved (account_balance s shop) ?es a else account_balance s shop a)" for shop a
    by (simp add: posted(1) posted_balance)
  have accounts: "running 0 (of_account shop a (transactions_bk s')) \<and>
      account_balance s' shop a = sum_list (map effect (of_account shop a (transactions_bk s'))) \<and>
      on_grid 2 (account_balance s' shop a) \<and> fits_column 14 (account_balance s' shop a)" for shop a
  proof (cases "shop = shopId_po p")
    case True
    then show ?thesis
      using ledger_okD(5,6)[OF ok, of shop a] posted(6)[of a] rows_of_running[of ?cur a p ?h ?es]
        rows_of_effect[of ?cur a p ?h ?es]
      by (simp add: rows running_append bal)
  next
    case False
    then show ?thesis
      using ledger_okD(5-8)[OF ok, of shop a] by (simp add: rows running_append bal rows_of_other)
  qed
  have "filter (\<lambda>t. shopId_lt t = shop) ?new = (if shop = shopId_po p then ?new else [])" for shop
    using rows_of_set[of _ p ?h ?cur ?es] by (auto simp: filter_id_conv filter_empty_conv)
  moreover have "sum_list (map net_debit ?new) = 0"
    using posted(5) by (simp add: net_debit_rows sorted_entries_def sum_list_sort side_total_exact[OF fit])
  ultimately have trial: "trial_ok s'" using ledger_okD(9)[OF ok] by (simp add: trial_ok_def rows)
  show ?thesis unfolding ledger_ok_def using keys links balanced accounts trial by blast
qed (use ok in simp)

end


lemma signed_net_debit:
  "net_debit t = (if account_lt t \<in> set DEBIT_NORMAL then effect t else - effect t)"
  by (cases "type_lt t") (auto simp: net_debit_def effect_def signed_entry_def grows_def)

lemma sum_list_minus: "sum_list (map (\<lambda>x. - f x) xs) = - sum_list (map f xs)" for f :: "'a \<Rightarrow> rat"
  by (induction xs) simp_all

lemma net_debit_account:
  "sum_list (map net_debit (of_account shop a ts)) =
    (if a \<in> set DEBIT_NORMAL then sum_list (map effect (of_account shop a ts)) else - sum_list (map effect (of_account shop a ts)))"
  by (induction ts) (auto simp: signed_net_debit)

lemma sum_by_account:
  fixes f :: "LedgerTransaction \<Rightarrow> rat"
  assumes "distinct accs" and "\<And>t. t \<in> set ts \<Longrightarrow> account_lt t \<in> set accs"
  shows "sum_list (map (\<lambda>a. sum_list (map f (of_account shop a ts))) accs) =
    sum_list (map f (filter (\<lambda>t. shopId_lt t = shop) ts))"
  using assms(2)
proof (induction ts)
  case (Cons t ts)
  have one: "sum_list (map (\<lambda>a. if account_lt t = a then f t else 0) accs) = f t"
    using assms(1) Cons.prems by (simp add: sum_list_distinct_conv_sum_set)
  have "sum_list (map (\<lambda>a. sum_list (map f (of_account shop a (t # ts)))) accs) =
      sum_list (map (\<lambda>a. (if shopId_lt t = shop then if account_lt t = a then f t else 0 else 0) +
        sum_list (map f (of_account shop a ts))) accs)"
    by (intro arg_cong[where f = sum_list] map_cong) auto
  also have "\<dots> = (if shopId_lt t = shop then f t else 0) + sum_list (map (\<lambda>a. sum_list (map f (of_account shop a ts))) accs)"
    by (simp add: sum_list_addf one)
  finally show ?case using Cons by simp
qed simp

definition CREDIT_NORMAL :: "LedgerAccount list" where
  "CREDIT_NORMAL = [ACCOUNTS_PAYABLE, GST_PAYABLE, OPENING_BALANCE_EQUITY, SALES_REVENUE]"

lemma all_accounts: "distinct (DEBIT_NORMAL @ CREDIT_NORMAL)" "a \<in> set (DEBIT_NORMAL @ CREDIT_NORMAL)"
  "a \<in> set CREDIT_NORMAL \<Longrightarrow> a \<notin> set DEBIT_NORMAL"
  by (auto simp: DEBIT_NORMAL_def CREDIT_NORMAL_def intro: LedgerAccount.exhaust)

text \<open>What the debit-normal accounts hold is what the credit-normal ones hold.\<close>

lemma trial_balance:
  assumes "ledger_ok s"
  shows "sum_list (map (account_balance s shop) DEBIT_NORMAL) = sum_list (map (account_balance s shop) CREDIT_NORMAL)"
proof -
  let ?net = "\<lambda>a. sum_list (map net_debit (of_account shop a (transactions_bk s)))"
  have net: "?net a = (if a \<in> set DEBIT_NORMAL then account_balance s shop a else - account_balance s shop a)" for a
    by (simp add: net_debit_account ledger_okD(6)[OF assms])
  have "sum_list (map ?net (DEBIT_NORMAL @ CREDIT_NORMAL)) = 0"
    using ledger_okD(9)[OF assms] sum_by_account[OF all_accounts(1) all_accounts(2), where ts = "transactions_bk s" and f = net_debit and shop = shop]
    by (simp add: trial_ok_def)
  moreover have "map ?net DEBIT_NORMAL = map (account_balance s shop) DEBIT_NORMAL"
    by (intro map_cong) (simp_all add: net)
  moreover have "map ?net CREDIT_NORMAL = map (\<lambda>a. - account_balance s shop a) CREDIT_NORMAL"
    using all_accounts(3) by (intro map_cong) (auto simp: net)
  ultimately show ?thesis by (simp add: sum_list_minus)
qed

end
