(* ===== verification/Payables.thy ===== *)
theory Payables
  imports LedgerProperties
begin

text \<open>
  Accounts payable per supplier (\<open>apps/api/src/ledger/supplier-payables.service.ts\<close>) and the
  cash drawer they are paid from (\<open>apps/api/src/shifts/cash-payout.ts\<close>), over the ledger of
  theory Ledger. A supplier's document tables only say whose document a source is: they are the
  argument \<open>owner\<close> of the operations that read them.
\<close>

section \<open>The cash drawer\<close>

text \<open>The most recently opened of the shifts a query matched.\<close>

fun latest_shift :: "Shift list \<Rightarrow> Shift option" where
  "latest_shift [] = None"
| "latest_shift (x # xs) =
     (case latest_shift xs of None \<Rightarrow> Some x | Some y \<Rightarrow> if openedAt_sh y \<le> openedAt_sh x then Some x else Some y)"

definition lockShiftForCashPayout :: "string \<Rightarrow> string \<Rightarrow> string option bookkeeping" where
  "lockShiftForCashPayout shop user =
     read_eff (\<lambda>s. map_option id_sh (latest_shift
       (filter (\<lambda>x. shopId_sh x = shop \<and> openedById_sh x = user \<and> open_sh x \<and> \<not> isDeleted_sh x) (shifts_bk s))))"

definition applyCashPayout :: "string option \<Rightarrow> decimal \<Rightarrow> unit bookkeeping" where
  "applyCashPayout shift amount =
     (case shift of
        None \<Rightarrow> return_eff ()
      | Some i \<Rightarrow> if \<not> 0 < amount then return_eff () else
          bind_eff (read_eff shifts_bk) (\<lambda>rows.
          bind_eff (require_eff (\<exists>x \<in> set rows. id_sh x = i) RecordNotFound) (\<lambda>_.
          write_eff (\<lambda>s. s\<lparr>shifts_bk := update_rows (\<lambda>x. id_sh x = i)
            (\<lambda>x. x\<lparr>expectedCash_sh := expectedCash_sh x - amount, cashPayouts_sh := cashPayouts_sh x + amount\<rparr>)
            (shifts_bk s)\<rparr>))))"

definition reverseCashPayout :: "string option \<Rightarrow> decimal \<Rightarrow> unit bookkeeping" where
  "reverseCashPayout shift amount =
     (case shift of
        None \<Rightarrow> return_eff ()
      | Some i \<Rightarrow> if \<not> 0 < amount then return_eff () else
          bind_eff (read_eff shifts_bk) (\<lambda>rows.
          bind_eff (require_eff (\<exists>x \<in> set rows. id_sh x = i) RecordNotFound) (\<lambda>_.
          write_eff (\<lambda>s. s\<lparr>shifts_bk := update_rows (\<lambda>x. id_sh x = i)
            (\<lambda>x. x\<lparr>expectedCash_sh := expectedCash_sh x + amount, cashPayouts_sh := cashPayouts_sh x - amount\<rparr>)
            (shifts_bk s)\<rparr>))))"

section \<open>Suppliers\<close>

record SupplierPaymentInput =
  shopId_in :: string
  supplierId_in :: string
  amount_in :: decimal
  tender_in :: "string option"
  reference_in :: "string option"
  idempotencyKey_in :: "string option"
  notes_in :: "string option"
  vendorBillId_in :: "string option"
  recordedById_in :: "string option"

record SupplierPaymentOutcome =
  payment_out :: SupplierPayment
  pendingPayables_out :: decimal
  replayed_out :: bool

definition is_supplier :: "string \<Rightarrow> string \<Rightarrow> Supplier \<Rightarrow> bool" where
  "is_supplier shop sid x \<longleftrightarrow> id_su x = sid \<and> shopId_su x = shop"

definition lockSupplier :: "string \<Rightarrow> string \<Rightarrow> bool \<Rightarrow> Supplier bookkeeping" where
  "lockSupplier shop sid allowDeleted =
     bind_eff (read_eff (\<lambda>s. find (is_supplier shop sid) (suppliers_bk s))) (\<lambda>row.
     case row of
       None \<Rightarrow> throw_eff SUPPLIER_NOT_FOUND
     | Some x \<Rightarrow> if isDeleted_su x \<and> \<not> allowDeleted then throw_eff SUPPLIER_NOT_FOUND else return_eff x)"

text \<open>\<open>increment\<close> in the database: the column adds exactly, or refuses.\<close>

definition add_payable :: "decimal \<Rightarrow> Supplier \<Rightarrow> Supplier" where
  "add_payable d x = x\<lparr>pendingPayables_su := pendingPayables_su x + d\<rparr>"

definition movePayable :: "decimal_lib \<Rightarrow> string \<Rightarrow> string \<Rightarrow> decimal \<Rightarrow> unit bookkeeping" where
  "movePayable D shop sid delta =
     (let d = to_dp_half_up D 2 delta
      in bind_eff (read_eff (\<lambda>s. list_all (\<lambda>x. is_supplier shop sid x \<longrightarrow> fits_column 12 (pendingPayables_su x + d))
             (suppliers_bk s))) (\<lambda>ok.
         bind_eff (require_eff ok OutOfRange) (\<lambda>_.
         write_eff (\<lambda>s. s\<lparr>suppliers_bk := update_rows (is_supplier shop sid) (add_payable d) (suppliers_bk s)\<rparr>))))"

definition addPayable :: "decimal_lib \<Rightarrow> string \<Rightarrow> string option \<Rightarrow> decimal \<Rightarrow> unit bookkeeping" where
  "addPayable D shop sid v =
     (case sid of None \<Rightarrow> return_eff () | Some i \<Rightarrow> if v \<le> 0 then return_eff () else movePayable D shop i v)"

definition reducePayable :: "decimal_lib \<Rightarrow> string \<Rightarrow> string option \<Rightarrow> decimal \<Rightarrow> unit bookkeeping" where
  "reducePayable D shop sid v =
     (case sid of None \<Rightarrow> return_eff () | Some i \<Rightarrow> if v \<le> 0 then return_eff () else movePayable D shop i (- v))"

text \<open>
  A posting that moves a payable. The id is \<open>None\<close> where the code has none; an empty text, which the
  code also treats as none, is the id of no supplier.
\<close>

definition postWithPayable ::
    "decimal_lib \<Rightarrow> (books \<Rightarrow> string) \<Rightarrow> string option \<Rightarrow> LedgerPosting \<Rightarrow> decimal \<Rightarrow> LedgerPostingResult bookkeeping" where
  "postWithPayable D G sid p delta =
     bind_eff (case sid of None \<Rightarrow> return_eff ()
               | Some i \<Rightarrow> bind_eff (lockSupplier (shopId_po p) i True) (\<lambda>_. return_eff ())) (\<lambda>_.
     bind_eff (post D G p) (\<lambda>r.
     bind_eff (case sid of
                 None \<Rightarrow> return_eff ()
               | Some i \<Rightarrow> if posted_pr r \<and> delta \<noteq> 0 then movePayable D (shopId_po p) i delta else return_eff ()) (\<lambda>_.
     return_eff r)))"

section \<open>Paying a supplier\<close>

definition same_request :: "SupplierPaymentInput \<Rightarrow> decimal \<Rightarrow> SupplierPayment \<Rightarrow> bool" where
  "same_request i amount x \<longleftrightarrow>
     supplierId_sp x = supplierId_in i \<and> amount_sp x = amount \<and> vendorBillId_sp x = vendorBillId_in i"

definition find_payment :: "SupplierPaymentInput \<Rightarrow> books \<Rightarrow> SupplierPayment option" where
  "find_payment i s =
     (case idempotencyKey_in i of
        None \<Rightarrow> None
      | Some k \<Rightarrow> if k = [] then None else
          find (\<lambda>x. shopId_sp x = shopId_in i \<and> idempotencyKey_sp x = Some k) (payments_bk s))"

text \<open>The unique index on shop and idempotency key, over the keys that are present.\<close>

definition key_taken :: "SupplierPaymentInput \<Rightarrow> books \<Rightarrow> bool" where
  "key_taken i s \<longleftrightarrow> idempotencyKey_in i \<noteq> None \<and>
     list_ex (\<lambda>x. shopId_sp x = shopId_in i \<and> idempotencyKey_sp x = idempotencyKey_in i) (payments_bk s)"

definition payment_row :: "SupplierPaymentInput \<Rightarrow> string \<Rightarrow> decimal \<Rightarrow> string \<Rightarrow> string option \<Rightarrow> SupplierPayment" where
  "payment_row i pid amount tender shift =
     \<lparr>id_sp = pid, shopId_sp = shopId_in i, supplierId_sp = supplierId_in i, vendorBillId_sp = vendorBillId_in i,
      amount_sp = amount, tender_sp = tender, reference_sp = reference_in i,
      idempotencyKey_sp = idempotencyKey_in i, notes_sp = notes_in i, recordedById_sp = recordedById_in i,
      shiftId_sp = shift\<rparr>"

definition payment_posting :: "SupplierPaymentInput \<Rightarrow> string \<Rightarrow> decimal \<Rightarrow> string \<Rightarrow> LedgerPosting" where
  "payment_posting i pid amount tender =
     \<lparr>shopId_po = shopId_in i, sourceType_po = SRC_SUPPLIER_PAYMENT, sourceId_po = pid, invoiceId_po = None,
      description_po = (case vendorBillId_in i of Some b \<Rightarrow> ''Vendor bill payment '' @ b | None \<Rightarrow> ''Supplier payment '' @ pid),
      entries_po =
        [\<lparr>account_ei = ACCOUNTS_PAYABLE, type_ei = DEBIT, amount_ei = amount, description_ei = None\<rparr>,
         \<lparr>account_ei = (if tender = ''CASH'' then A_CASH else A_BANK), type_ei = CREDIT, amount_ei = amount,
          description_ei = None\<rparr>]\<rparr>"

text \<open>The guarded decrement and what follows it, once the payment is known to be new.\<close>

definition settle_payment ::
    "decimal_lib \<Rightarrow> (books \<Rightarrow> string) \<Rightarrow> SupplierPaymentInput \<Rightarrow> decimal \<Rightarrow> string \<Rightarrow> string option \<Rightarrow> Supplier \<Rightarrow>
      SupplierPaymentOutcome bookkeeping" where
  "settle_payment D G i amount tender shift sid =
     (let owed = (\<lambda>x. is_supplier (shopId_in i) (supplierId_in i) x \<and> amount \<le> pendingPayables_su x)
      in bind_eff (read_eff (\<lambda>s. count_rows owed (suppliers_bk s))) (\<lambda>settled.
         bind_eff (require_eff (settled \<noteq> 0) (PAYABLES_INSUFFICIENT (pendingPayables_su sid) amount)) (\<lambda>_.
         bind_eff (write_eff (\<lambda>s. s\<lparr>suppliers_bk := update_rows owed (add_payable (- amount)) (suppliers_bk s)\<rparr>)) (\<lambda>_.
         bind_eff (require_eff (fits_column 12 amount) OutOfRange) (\<lambda>_.
         bind_eff (read_eff (key_taken i)) (\<lambda>taken.
         bind_eff (require_eff (\<not> taken) UniqueViolation) (\<lambda>_.
         bind_eff (read_eff G) (\<lambda>pid.
         bind_eff (write_eff (\<lambda>s. s\<lparr>payments_bk := payments_bk s @ [payment_row i pid amount tender shift]\<rparr>)) (\<lambda>_.
         bind_eff (applyCashPayout shift amount) (\<lambda>_.
         bind_eff (post D G (payment_posting i pid amount tender)) (\<lambda>_.
         bind_eff (read_eff (\<lambda>s. find (is_supplier (shopId_in i) (supplierId_in i)) (suppliers_bk s))) (\<lambda>after.
         case after of
           None \<Rightarrow> throw_eff RecordNotFound
         | Some x \<Rightarrow> return_eff \<lparr>payment_out = payment_row i pid amount tender shift,
                                 pendingPayables_out = pendingPayables_su x, replayed_out = False\<rparr>))))))))))))"

text \<open>The recording user's open shift, for cash.\<close>

definition payment_shift :: "SupplierPaymentInput \<Rightarrow> string \<Rightarrow> string option bookkeeping" where
  "payment_shift i tender =
     (case recordedById_in i of
        Some u \<Rightarrow> if tender = ''CASH'' \<and> u \<noteq> [] then lockShiftForCashPayout (shopId_in i) u else return_eff None
      | None \<Rightarrow> return_eff None)"

definition pay :: "decimal_lib \<Rightarrow> (books \<Rightarrow> string) \<Rightarrow> SupplierPaymentInput \<Rightarrow> SupplierPaymentOutcome bookkeeping" where
  "pay D G i =
     (let amount = to_dp_half_up D 2 (amount_in i);
          tender = (case tender_in i of None \<Rightarrow> ''CASH'' | Some t \<Rightarrow> t)
      in bind_eff (require_eff (0 < amount) PAYMENT_INVALID) (\<lambda>_.
         bind_eff (payment_shift i tender) (\<lambda>shift.
         bind_eff (lockSupplier (shopId_in i) (supplierId_in i) False) (\<lambda>sid.
         bind_eff (read_eff (find_payment i)) (\<lambda>existing.
         case existing of
           Some x \<Rightarrow>
             if \<not> same_request i amount x then throw_eff (IDEMPOTENCY_KEY_REUSED (id_sp x))
             else return_eff \<lparr>payment_out = x, pendingPayables_out = pendingPayables_su sid, replayed_out = True\<rparr>
         | None \<Rightarrow> settle_payment D G i amount tender shift sid)))))"

section \<open>The payable the ledger implies\<close>

text \<open>The source types whose documents belong to a supplier.\<close>

definition payable_sources :: "LedgerSourceType list" where
  "payable_sources = [SRC_GRN, SRC_VENDOR_BILL, SRC_PURCHASE_RETURN, SRC_SUPPLIER_CREDIT_NOTE]"

definition source_of_supplier ::
    "(LedgerSourceType \<Rightarrow> string \<Rightarrow> string \<Rightarrow> string option) \<Rightarrow> SupplierPayment list \<Rightarrow> string \<Rightarrow> string \<Rightarrow> PostingRow \<Rightarrow> bool" where
  "source_of_supplier owner payments shop sid r \<longleftrightarrow>
     (sourceType_pst r \<in> set payable_sources \<and> owner (sourceType_pst r) shop (sourceId_pst r) = Some sid) \<or>
     (sourceType_pst r = SRC_SUPPLIER_PAYMENT \<and>
        (\<exists>x \<in> set payments. id_sp x = sourceId_pst r \<and> shopId_sp x = shop \<and> supplierId_sp x = sid))"

definition net_credit :: "LedgerTransaction list \<Rightarrow> decimal" where
  "net_credit ts = sum_list (map (\<lambda>t. if type_lt t = CREDIT then amount_lt t else - amount_lt t) ts)"

definition supplier_rows ::
    "(LedgerSourceType \<Rightarrow> string \<Rightarrow> string \<Rightarrow> string option) \<Rightarrow> books \<Rightarrow> string \<Rightarrow> string \<Rightarrow> LedgerTransaction list" where
  "supplier_rows owner s shop sid =
     filter (\<lambda>t. shopId_lt t = shop \<and> account_lt t = ACCOUNTS_PAYABLE \<and>
         (\<exists>r \<in> set (postings_bk s). id_pst r = postingId_lt t \<and> source_of_supplier owner (payments_bk s) shop sid r))
       (transactions_bk s)"

definition payablesFromLedger ::
    "decimal_lib \<Rightarrow> (LedgerSourceType \<Rightarrow> string \<Rightarrow> string \<Rightarrow> string option) \<Rightarrow> string \<Rightarrow> string \<Rightarrow> decimal bookkeeping" where
  "payablesFromLedger D owner shop sid =
     bind_eff (read_eff (\<lambda>s. find (is_supplier shop sid) (suppliers_bk s))) (\<lambda>row.
     case row of
       None \<Rightarrow> throw_eff RecordNotFound
     | Some x \<Rightarrow> bind_eff (read_eff (\<lambda>s. net_credit (supplier_rows owner s shop sid))) (\<lambda>net.
         return_eff (to_dp_half_up D 2 (d_plus D (openingPayables_su x) net))))"

end
