(* ===== verification/PayablesProperties.thy ===== *)
theory PayablesProperties
  imports Payables
begin

text \<open>
  What the ledger and the supplier payables keep over any history of postings, goods movements
  and payments: the books balance, and a supplier's running payable is the one the ledger
  implies.
\<close>

section \<open>Histories\<close>

datatype ledger_call =
    PostEntries LedgerPosting
  | PostPayable "string option" LedgerPosting decimal
  | PaySupplier SupplierPaymentInput

text \<open>Every call runs in its own transaction; a refusal changes nothing.\<close>

fun run_call :: "decimal_lib \<Rightarrow> (books \<Rightarrow> string) \<Rightarrow> ledger_call \<Rightarrow> books \<Rightarrow> books" where
  "run_call D G (PostEntries p) s = fst (in_transaction (post D G p) s)"
| "run_call D G (PostPayable sid p delta) s = fst (in_transaction (postWithPayable D G sid p delta) s)"
| "run_call D G (PaySupplier i) s = fst (in_transaction (pay D G i) s)"

text \<open>The net credit a posting gives ACCOUNTS_PAYABLE.\<close>

definition payable_part :: "LedgerEntryInput list \<Rightarrow> decimal" where
  "payable_part es = sum_list (map (\<lambda>e. if type_ei e = CREDIT then amount_ei e else - amount_ei e)
     (filter (\<lambda>e. account_ei e = ACCOUNTS_PAYABLE) es))"

text \<open>
  How the services call: amounts within the arithmetic, a posting of a supplier's document goes
  with that supplier and with its own net credit, and every other posting is of a source no
  supplier owns.
\<close>

fun proper_call ::
    "decimal_lib \<Rightarrow> (LedgerSourceType \<Rightarrow> string \<Rightarrow> string \<Rightarrow> string option) \<Rightarrow> ledger_call \<Rightarrow> bool" where
  "proper_call D owner (PostEntries p) \<longleftrightarrow> posting_fits D p \<and> sourceType_po p \<notin> set (SRC_SUPPLIER_PAYMENT # payable_sources)"
| "proper_call D owner (PostPayable sid p delta) \<longleftrightarrow> posting_fits D p \<and> sourceType_po p \<in> set payable_sources \<and>
     owner (sourceType_po p) (shopId_po p) (sourceId_po p) = sid \<and>
     delta = payable_part (normalise_entries D (entries_po p))"
| "proper_call D owner (PaySupplier i) \<longleftrightarrow> True"

section \<open>What a posting adds to a supplier's rows\<close>

lemma net_credit_append: "net_credit (xs @ ys) = net_credit xs + net_credit ys"
  by (simp add: net_credit_def)

lemma net_credit_Nil [simp]: "net_credit [] = 0"
  by (simp add: net_credit_def)

lemma rows_of_payable:
  "net_credit (filter (\<lambda>t. account_lt t = ACCOUNTS_PAYABLE) (rows_of p h cur es)) = payable_part es"
  by (induction es arbitrary: cur) (auto simp: net_credit_def payable_part_def)

lemma payable_part_sort: "payable_part (sort_key k es) = payable_part es"
  by (simp add: payable_part_def sum_list_sort)

lemma supplier_rows_posted:
  assumes ok: "ledger_ok s" and fresh: "h \<notin> id_pst ` set (postings_bk s)"
  shows "supplier_rows owner (posted_books p h es s) shop sid = supplier_rows owner s shop sid @
    (if shop = shopId_po p \<and> source_of_supplier owner (payments_bk s) shop sid (new_posting p h)
     then filter (\<lambda>t. account_lt t = ACCOUNTS_PAYABLE) (rows_of p h (account_balance s (shopId_po p)) es) else [])"
proof -
  let ?Q = "\<lambda>rs t. \<exists>r \<in> set rs. id_pst r = postingId_lt t \<and> source_of_supplier owner (payments_bk s) shop sid r"
  let ?new = "rows_of p h (account_balance s (shopId_po p)) es"
  have id: "id_pst (new_posting p h) = h" by (simp add: new_posting_def)
  have old: "?Q (postings_bk s @ [new_posting p h]) t = ?Q (postings_bk s) t" if "t \<in> set (transactions_bk s)" for t
    using ledger_okD(3)[OF ok that] fresh id by auto
  have new: "?Q (postings_bk s @ [new_posting p h]) t = source_of_supplier owner (payments_bk s) shop sid (new_posting p h)"
    if "t \<in> set ?new" for t
  proof -
    have h: "postingId_lt t = h" using rows_of_set[OF that] by blast
    have "id_pst r \<noteq> h" if "r \<in> set (postings_bk s)" for r using fresh that by blast
    then show ?thesis by (auto simp: id h)
  qed
  have 1: "filter (\<lambda>t. shopId_lt t = shop \<and> account_lt t = ACCOUNTS_PAYABLE \<and> ?Q (postings_bk s @ [new_posting p h]) t) (transactions_bk s)
      = supplier_rows owner s shop sid"
    unfolding supplier_rows_def using old by (intro filter_cong) auto
  have 2: "filter (\<lambda>t. shopId_lt t = shop \<and> account_lt t = ACCOUNTS_PAYABLE \<and> ?Q (postings_bk s @ [new_posting p h]) t) ?new
      = (if shop = shopId_po p \<and> source_of_supplier owner (payments_bk s) shop sid (new_posting p h)
         then filter (\<lambda>t. account_lt t = ACCOUNTS_PAYABLE) ?new else [])"
  proof -
    have "shopId_lt t = shopId_po p" if "t \<in> set ?new" for t using rows_of_set[OF that] by blast
    then have "filter (\<lambda>t. shopId_lt t = shop \<and> account_lt t = ACCOUNTS_PAYABLE \<and> ?Q (postings_bk s @ [new_posting p h]) t) ?new
      = filter (\<lambda>t. (shop = shopId_po p \<and> source_of_supplier owner (payments_bk s) shop sid (new_posting p h)) \<and>
          account_lt t = ACCOUNTS_PAYABLE) ?new"
      using new by (intro filter_cong) auto
    moreover have "filter (\<lambda>t. B \<and> R t) xs = (if B then filter R xs else [])" for B R and xs :: "LedgerTransaction list"
      by (cases B) simp_all
    ultimately show ?thesis by (rule trans)
  qed
  show ?thesis using 1 2 by (simp add: supplier_rows_def posted_books_def)
qed

lemma posted_net_credit:
  assumes "ledger_ok s" and "h \<notin> id_pst ` set (postings_bk s)"
  shows "net_credit (supplier_rows owner (posted_books p h (sort_key k es) s) shop sid) = net_credit (supplier_rows owner s shop sid) +
    (if shop = shopId_po p \<and> source_of_supplier owner (payments_bk s) shop sid (new_posting p h) then payable_part es else 0)"
  unfolding supplier_rows_posted[OF assms]
  by (cases "shop = shopId_po p \<and> source_of_supplier owner (payments_bk s) shop sid (new_posting p h)")
     (auto simp only: net_credit_append rows_of_payable payable_part_sort net_credit_Nil if_True if_False simp_thms)

text \<open>Changes to suppliers, shifts and payments that no posting names leave the ledger's part alone.\<close>

lemma ledger_ok_other:
  "postings_bk s' = postings_bk s \<Longrightarrow> transactions_bk s' = transactions_bk s \<Longrightarrow> balances_bk s' = balances_bk s \<Longrightarrow>
    ledger_ok s' = ledger_ok s"
  by (simp add: ledger_ok_def account_balance_def trial_ok_def)

lemma source_of_supplier_new_payment:
  assumes "sourceId_pst r \<noteq> id_sp x"
  shows "source_of_supplier owner (pays @ [x]) shop sid r = source_of_supplier owner pays shop sid r"
  using assms by (auto simp: source_of_supplier_def)

section \<open>The invariant\<close>

definition payable_of ::
    "(LedgerSourceType \<Rightarrow> string \<Rightarrow> string \<Rightarrow> string option) \<Rightarrow> books \<Rightarrow> Supplier \<Rightarrow> decimal" where
  "payable_of owner s x = openingPayables_su x + net_credit (supplier_rows owner s (shopId_su x) (id_su x))"

definition payables_ok :: "(LedgerSourceType \<Rightarrow> string \<Rightarrow> string \<Rightarrow> string option) \<Rightarrow> books \<Rightarrow> bool" where
  "payables_ok owner s \<longleftrightarrow> ledger_ok s \<and> distinct (map id_su (suppliers_bk s)) \<and>
     distinct (map id_sp (payments_bk s)) \<and>
     (\<forall>x \<in> set (suppliers_bk s). pendingPayables_su x = payable_of owner s x \<and>
        on_grid 2 (pendingPayables_su x) \<and> on_grid 2 (openingPayables_su x) \<and> fits_column 12 (pendingPayables_su x) \<and>
        fits_column 12 (openingPayables_su x))"

lemma supplier_unique:
  "distinct (map id_su xs) \<Longrightarrow> x \<in> set xs \<Longrightarrow> y \<in> set xs \<Longrightarrow> is_supplier shop sid x \<Longrightarrow> is_supplier shop sid y \<Longrightarrow> x = y"
  by (auto simp: is_supplier_def distinct_map dest: inj_onD)

lemma update_suppliers_set:
  "x \<in> set (update_rows P (add_payable d) xs) \<longleftrightarrow> (\<exists>y \<in> set xs. x = (if P y then add_payable d y else y))"
  by (auto simp: set_update_rows)

lemma update_suppliers_ids: "map id_su (update_rows P (add_payable d) xs) = map id_su xs"
  by (rule map_update_rows) (simp add: add_payable_def)

lemma add_payable_fields [simp]:
  "id_su (add_payable d x) = id_su x" "shopId_su (add_payable d x) = shopId_su x"
  "pendingPayables_su (add_payable d x) = pendingPayables_su x + d"
  "openingPayables_su (add_payable d x) = openingPayables_su x"
  "is_supplier shop sid (add_payable d x) = is_supplier shop sid x"
  by (simp_all add: add_payable_def is_supplier_def)

text \<open>The ledger part of a step: a posting, then each supplier it belongs to moved by its part.\<close>

lemma payables_step:
  assumes ok: "payables_ok owner s" and led: "ledger_ok s'"
    and pays: "distinct (map id_sp (payments_bk s'))"
    and sup: "suppliers_bk s' = update_rows P (add_payable d) (suppliers_bk s)"
    and rows: "\<And>x. x \<in> set (suppliers_bk s) \<Longrightarrow>
      net_credit (supplier_rows owner s' (shopId_su x) (id_su x)) =
      net_credit (supplier_rows owner s (shopId_su x) (id_su x)) + (if P x then d else 0)"
    and fits: "\<And>x. x \<in> set (suppliers_bk s) \<Longrightarrow> P x \<Longrightarrow> fits_column 12 (pendingPayables_su x + d)"
    and grid: "on_grid 2 d"
  shows "payables_ok owner s'"
proof -
  have old: "pendingPayables_su x = payable_of owner s x" "on_grid 2 (pendingPayables_su x)"
    "on_grid 2 (openingPayables_su x)" "fits_column 12 (pendingPayables_su x)" "fits_column 12 (openingPayables_su x)"
    if "x \<in> set (suppliers_bk s)" for x
    using ok that unfolding payables_ok_def by blast+
  have "pendingPayables_su y = payable_of owner s' y \<and> on_grid 2 (pendingPayables_su y) \<and>
      on_grid 2 (openingPayables_su y) \<and> fits_column 12 (pendingPayables_su y) \<and> fits_column 12 (openingPayables_su y)"
    if y: "y \<in> set (suppliers_bk s')" for y
  proof -
    obtain x where x: "x \<in> set (suppliers_bk s)" and yx: "y = (if P x then add_payable d x else x)"
      using y unfolding sup update_suppliers_set by blast
    have key: "id_su y = id_su x" "shopId_su y = shopId_su x" "openingPayables_su y = openingPayables_su x"
      by (simp_all add: yx)
    have pend: "pendingPayables_su y = pendingPayables_su x + (if P x then d else 0)" by (simp add: yx)
    have new: "payable_of owner s' y = payable_of owner s x + (if P x then d else 0)"
      unfolding payable_of_def key rows[OF x] by simp
    have "pendingPayables_su y = payable_of owner s' y" unfolding pend new old(1)[OF x] ..
    moreover have "on_grid 2 (pendingPayables_su y)" unfolding pend using old(2)[OF x] grid by (simp add: on_grid_add)
    moreover have "fits_column 12 (pendingPayables_su y)" unfolding pend using old(4)[OF x] fits[OF x] by simp
    ultimately show ?thesis using old(3,5)[OF x] by (simp add: key)
  qed
  moreover have "distinct (map id_su (suppliers_bk s'))" using ok by (simp add: sup update_suppliers_ids payables_ok_def)
  ultimately show ?thesis using led pays unfolding payables_ok_def by blast
qed

section \<open>Every call keeps it\<close>

lemma on_grid_payable_part: "list_all entry_ok es \<Longrightarrow> on_grid 2 (payable_part es)"
  by (induction es) (auto simp: payable_part_def entry_ok_def on_grid_add on_grid_minus)

lemma move_cases:
  assumes "movePayable D shop i delta s = (s', Inr u)"
  shows "s' = s\<lparr>suppliers_bk := update_rows (is_supplier shop i) (add_payable (to_dp_half_up D 2 delta)) (suppliers_bk s)\<rparr> \<and>
    (\<forall>x \<in> set (suppliers_bk s). is_supplier shop i x \<longrightarrow> fits_column 12 (pendingPayables_su x + to_dp_half_up D 2 delta))"
  using assms by (auto simp: movePayable_def Let_def list_all_iff split: if_splits)

context decimal_arith
begin

lemma dp_exact: "on_grid 2 x \<Longrightarrow> to_dp_half_up D 2 x = x"
  by (simp add: to_dp_half_up half_up_exact)

lemma payables_posted:
  assumes ok: "payables_ok owner s" and ids: "new_ids G" and fit: "posting_fits D p" and run: "post D G p s = (s1, Inr r)"
    and posted: "s1 = posted_books p (G s) (sorted_entries D p) s"
    and sup: "s' = s1\<lparr>suppliers_bk := update_rows P (add_payable (payable_part (normalise_entries D (entries_po p)))) (suppliers_bk s)\<rparr>"
    and owned: "\<And>x. x \<in> set (suppliers_bk s) \<Longrightarrow>
      P x \<longleftrightarrow> shopId_su x = shopId_po p \<and> source_of_supplier owner (payments_bk s) (shopId_su x) (id_su x) (new_posting p (G s))"
    and fits: "\<And>x. x \<in> set (suppliers_bk s) \<Longrightarrow> P x \<Longrightarrow>
      fits_column 12 (pendingPayables_su x + payable_part (normalise_entries D (entries_po p)))"
  shows "payables_ok owner s'"
proof (rule payables_step[where P = P])
  have led: "ledger_ok s" and pays: "distinct (map id_sp (payments_bk s))" using ok by (simp_all add: payables_ok_def)
  have "ledger_ok s1" by (rule post_keeps_ledger[OF led ids fit run])
  then show "ledger_ok s'" by (subst ledger_ok_other[of s' s1]) (simp_all add: sup)
  show "distinct (map id_sp (payments_bk s'))" using pays by (simp add: sup posted posted_books_def)
  have fresh: "G s \<notin> id_pst ` set (postings_bk s)" using ids by (simp add: new_ids_def)
  have rows: "supplier_rows owner s' = supplier_rows owner (posted_books p (G s) (sorted_entries D p) s)"
    by (simp add: sup posted supplier_rows_def fun_eq_iff)
  show "net_credit (supplier_rows owner s' (shopId_su x) (id_su x)) =
      net_credit (supplier_rows owner s (shopId_su x) (id_su x)) +
      (if P x then payable_part (normalise_entries D (entries_po p)) else 0)" if "x \<in> set (suppliers_bk s)" for x
    by (simp only: rows sorted_entries_def posted_net_credit[OF led fresh] owned[OF that])
  show "on_grid 2 (payable_part (normalise_entries D (entries_po p)))"
    by (rule on_grid_payable_part[OF normalise_ok])
qed (use ok sup fits in auto)

end


lemma lock_cases:
  assumes "lockSupplier shop i b s = (t, Inr x)"
  shows "t = s \<and> x \<in> set (suppliers_bk s) \<and> is_supplier shop i x \<and> (isDeleted_su x \<longrightarrow> b)"
  using assms by (auto simp: lockSupplier_def split: option.splits if_splits dest: find_SomeD)

lemma post_payable_cases:
  assumes "postWithPayable D G v p delta s = (s', Inr r)"
  obtains s1 where "post D G p s = (s1, Inr r)" "\<not> posted_pr r \<or> delta = 0 \<or> v = None" "s' = s1"
  | s1 i where "post D G p s = (s1, Inr r)" "posted_pr r" "v = Some i"
      "movePayable D (shopId_po p) i delta s1 = (s', Inr ())"
proof (cases v)
  case None
  then show thesis using assms that(1) by (auto simp: postWithPayable_def eff_simps)
next
  case (Some i)
  then obtain s1 where "post D G p s = (s1, Inr r)"
    and "(if posted_pr r \<and> delta \<noteq> 0 then movePayable D (shopId_po p) i delta else return_eff ()) s1 = (s', Inr ())"
    using assms by (auto simp: postWithPayable_def eff_simps dest!: lock_cases)
  then show thesis using Some that by (auto split: if_splits)
qed

lemma update_rows_none: "(\<And>x. x \<in> set xs \<Longrightarrow> P x \<Longrightarrow> g x = x) \<Longrightarrow> update_rows P g xs = xs"
  by (auto simp: update_rows_def intro!: map_idI)

lemma add_payable_0 [simp]: "add_payable 0 x = x"
  by (simp add: add_payable_def)

lemma payables_okD:
  assumes "payables_ok owner s"
  shows "ledger_ok s" "distinct (map id_su (suppliers_bk s))" "distinct (map id_sp (payments_bk s))"
    "x \<in> set (suppliers_bk s) \<Longrightarrow> pendingPayables_su x = payable_of owner s x"
    "x \<in> set (suppliers_bk s) \<Longrightarrow> on_grid 2 (pendingPayables_su x)"
    "x \<in> set (suppliers_bk s) \<Longrightarrow> on_grid 2 (openingPayables_su x)"
    "x \<in> set (suppliers_bk s) \<Longrightarrow> fits_column 12 (pendingPayables_su x)"
    "x \<in> set (suppliers_bk s) \<Longrightarrow> fits_column 12 (openingPayables_su x)"
  using assms unfolding payables_ok_def by blast+

context decimal_arith
begin

lemma post_keeps_payables:
  assumes ok: "payables_ok owner s" and ids: "new_ids G" and call: "proper_call D owner (PostEntries p)"
    and run: "post D G p s = (s', Inr r)"
  shows "payables_ok owner s'"
proof (cases rule: post_cases[OF payables_okD(1)[OF ok] run, case_names replayed posted])
  case posted
  show ?thesis
  proof (rule payables_posted[OF ok ids _ run posted(1), where P = "\<lambda>_. False"])
    show "posting_fits D p" using call by simp
  qed (use call in \<open>auto simp: posted(1) posted_books_def update_rows_none source_of_supplier_def new_posting_def\<close>)
qed (use ok in simp)

lemma post_payable_keeps:
  assumes ok: "payables_ok owner s" and ids: "new_ids G" and call: "proper_call D owner (PostPayable v p delta)"
    and run: "postWithPayable D G v p delta s = (s', Inr r)"
  shows "payables_ok owner s'"
proof -
  let ?part = "payable_part (normalise_entries D (entries_po p))"
  let ?P = "\<lambda>x. v = Some (id_su x) \<and> shopId_su x = shopId_po p"
  have part: "delta = ?part" "to_dp_half_up D 2 delta = delta" and fit: "posting_fits D p"
    using call by (simp_all add: dp_exact on_grid_payable_part normalise_ok)
  have src: "source_of_supplier owner pays shop i (new_posting p h) \<longleftrightarrow> owner (sourceType_po p) shop (sourceId_po p) = Some i"
    for pays shop i h using call by (auto simp: source_of_supplier_def payable_sources_def new_posting_def)
  obtain s1 where post: "post D G p s = (s1, Inr r)" and rest: "(\<not> posted_pr r \<or> delta = 0 \<or> v = None) \<and> s' = s1 \<or>
      (posted_pr r \<and> (\<exists>i. v = Some i \<and> movePayable D (shopId_po p) i delta s1 = (s', Inr ())))"
    using run by (cases rule: post_payable_cases) auto
  show ?thesis
  proof (cases rule: post_cases[OF payables_okD(1)[OF ok] post, case_names replayed posted])
    case posted
    have same: "suppliers_bk s1 = suppliers_bk s" by (simp add: posted(1) posted_books_def)
    have moved: "s' = s1\<lparr>suppliers_bk := update_rows ?P (add_payable ?part) (suppliers_bk s)\<rparr> \<and>
        (\<forall>x \<in> set (suppliers_bk s). ?P x \<longrightarrow> fits_column 12 (pendingPayables_su x + ?part))"
      using rest
    proof (elim disjE conjE exE)
      fix i assume v: "v = Some i" and m: "movePayable D (shopId_po p) i delta s1 = (s', Inr ())"
      have P: "(v = Some (id_su x) \<and> shopId_su x = shopId_po p) = is_supplier (shopId_po p) i x" for x
        by (auto simp: v is_supplier_def)
      show ?thesis using move_cases[OF m] unfolding P same part(2) unfolding part(1) by blast
    qed (use posted(2) part(1) payables_okD(7)[OF ok] in \<open>auto simp: update_rows_none simp flip: same\<close>)
    show ?thesis
    proof (rule payables_posted[OF ok ids fit post posted(1) conjunct1[OF moved]])
      show "fits_column 12 (pendingPayables_su x + ?part)" if "x \<in> set (suppliers_bk s)" "?P x" for x
        using conjunct2[OF moved] that by blast
      show "?P x \<longleftrightarrow> shopId_su x = shopId_po p \<and> source_of_supplier owner (payments_bk s) (shopId_su x) (id_su x) (new_posting p (G s))" for x
        using call by (auto simp: src)
    qed
  next
    case replayed
    then show ?thesis using rest ok by auto
  qed
qed

end


section \<open>Paying a supplier\<close>

lemma shift_cases: "payment_shift i tender s = (t, Inr shift) \<Longrightarrow> t = s"
  by (auto simp: payment_shift_def lockShiftForCashPayout_def split: option.splits if_splits)

lemma payout_cases:
  assumes "applyCashPayout shift amount s = (t, Inr u)"
  shows "\<exists>sh. t = s\<lparr>shifts_bk := sh\<rparr>"
proof -
  have same: "\<exists>sh. s = s\<lparr>shifts_bk := sh\<rparr>" by (rule exI[of _ "shifts_bk s"]) simp
  show ?thesis using assms same by (auto simp: applyCashPayout_def split: option.splits if_splits)
qed

lemma count_rows_pos: "0 < count_rows P rows \<longleftrightarrow> (\<exists>r \<in> set rows. P r)"
  using count_rows_0[of P rows] by (auto simp del: count_rows_0 simp: count_rows_def filter_empty_conv)

text \<open>A payment that went through: a replay that changed nothing, or the money moved once.\<close>

definition owed_by :: "SupplierPaymentInput \<Rightarrow> decimal \<Rightarrow> Supplier \<Rightarrow> bool" where
  "owed_by i amount x \<longleftrightarrow> is_supplier (shopId_in i) (supplierId_in i) x \<and> amount \<le> pendingPayables_su x"

definition debited :: "SupplierPaymentInput \<Rightarrow> decimal \<Rightarrow> books \<Rightarrow> books" where
  "debited i amount s = s\<lparr>suppliers_bk := update_rows (owed_by i amount) (add_payable (- amount)) (suppliers_bk s)\<rparr>"

lemma debited_fields [simp]:
  "postings_bk (debited i amount s) = postings_bk s" "transactions_bk (debited i amount s) = transactions_bk s"
  "balances_bk (debited i amount s) = balances_bk s" "payments_bk (debited i amount s) = payments_bk s"
  by (simp_all add: debited_def)

lemma settle_cases:
  assumes "settle_payment D G i amount tender shift x s = (s', Inr out)"
  shows "\<exists>s1 sh r y. s1 = debited i amount s \<and> fits_column 12 amount \<and> (\<exists>z \<in> set (suppliers_bk s). owed_by i amount z) \<and>
    post D G (payment_posting i (G s1) amount tender)
      (s1\<lparr>payments_bk := payments_bk s @ [payment_row i (G s1) amount tender shift], shifts_bk := sh\<rparr>) = (s', Inr r) \<and>
    find (is_supplier (shopId_in i) (supplierId_in i)) (suppliers_bk s') = Some y \<and>
    out = \<lparr>payment_out = payment_row i (G s1) amount tender shift, pendingPayables_out = pendingPayables_su y, replayed_out = False\<rparr>"
proof -
  have owed: "(\<lambda>x. is_supplier (shopId_in i) (supplierId_in i) x \<and> amount \<le> pendingPayables_su x) = owed_by i amount"
    by (simp add: owed_by_def fun_eq_iff)
  let ?s1 = "debited i amount s"
  let ?s2 = "?s1\<lparr>payments_bk := payments_bk s @ [payment_row i (G ?s1) amount tender shift]\<rparr>"
  have "\<exists>t u r y. applyCashPayout shift amount ?s2 = (t, Inr u) \<and> fits_column 12 amount \<and>
      (\<exists>z \<in> set (suppliers_bk s). owed_by i amount z) \<and>
      post D G (payment_posting i (G ?s1) amount tender) t = (s', Inr r) \<and>
      find (is_supplier (shopId_in i) (supplierId_in i)) (suppliers_bk s') = Some y \<and>
      out = \<lparr>payment_out = payment_row i (G ?s1) amount tender shift, pendingPayables_out = pendingPayables_su y, replayed_out = False\<rparr>"
    using assms unfolding settle_payment_def Let_def owed
    by (auto simp: eff_simps debited_def count_rows_pos split: option.splits if_splits)
  then obtain t u r y where pieces: "applyCashPayout shift amount ?s2 = (t, Inr u)" "fits_column 12 amount"
      "\<exists>z \<in> set (suppliers_bk s). owed_by i amount z"
      "post D G (payment_posting i (G ?s1) amount tender) t = (s', Inr r)"
      "find (is_supplier (shopId_in i) (supplierId_in i)) (suppliers_bk s') = Some y"
      "out = \<lparr>payment_out = payment_row i (G ?s1) amount tender shift, pendingPayables_out = pendingPayables_su y, replayed_out = False\<rparr>"
    by (elim exE conjE) (rule that, assumption+)
  obtain sh where "t = ?s2\<lparr>shifts_bk := sh\<rparr>" using payout_cases[OF pieces(1)] by blast
  with pieces show ?thesis by auto
qed

lemma pay_cases:
  assumes "pay D G i s = (s', Inr out)"
  obtains (replayed) x where "s' = s" "find_payment i s = Some x" "same_request i (to_dp_half_up D 2 (amount_in i)) x"
      "payment_out out = x" "replayed_out out"
  | (paid) amount tender shift w where "amount = to_dp_half_up D 2 (amount_in i)" "0 < amount" "find_payment i s = None"
      "w \<in> set (suppliers_bk s)" "is_supplier (shopId_in i) (supplierId_in i) w" "\<not> isDeleted_su w"
      "settle_payment D G i amount tender shift w s = (s', Inr out)"
proof -
  let ?amount = "to_dp_half_up D 2 (amount_in i)" and ?tender = "case tender_in i of None \<Rightarrow> ''CASH'' | Some t \<Rightarrow> t"
  obtain t shift u w where amount: "0 < ?amount" and sh: "payment_shift i ?tender s = (t, Inr shift)"
    and l: "lockSupplier (shopId_in i) (supplierId_in i) False t = (u, Inr w)"
    and rest: "(case find_payment i u of
        Some x \<Rightarrow> if \<not> same_request i ?amount x then throw_eff (IDEMPOTENCY_KEY_REUSED (id_sp x))
          else return_eff \<lparr>payment_out = x, pendingPayables_out = pendingPayables_su w, replayed_out = True\<rparr>
      | None \<Rightarrow> settle_payment D G i ?amount ?tender shift w) u = (s', Inr out)"
    using assms unfolding pay_def Let_def bind_eff_Inr by (auto split: if_splits)
  have "t = s" "u = s" using shift_cases[OF sh] lock_cases[OF l] by auto
  then show thesis using amount rest that lock_cases[OF l] by (cases "find_payment i s") (auto split: if_splits)
qed

section \<open>A payment keeps the ledger and the payables together\<close>

lemma owed_unique:
  assumes "distinct (map id_su xs)" and "z \<in> set xs" and "owed_by i amount z" and "x \<in> set xs"
  shows "owed_by i amount x \<longleftrightarrow> is_supplier (shopId_in i) (supplierId_in i) x"
  using supplier_unique[OF assms(1,2,4), of "shopId_in i" "supplierId_in i"] assms(3) by (auto simp: owed_by_def)

context decimal_arith
begin

lemma payment_entries:
  assumes "on_grid 2 amount" and "0 < amount"
  shows "normalise_entries D (entries_po (payment_posting i pid amount tender)) = entries_po (payment_posting i pid amount tender)"
  using assms by (simp add: normalise_entries_def payment_posting_def dp_exact)

lemma payment_part:
  "payable_part (entries_po (payment_posting i pid amount tender)) = - amount"
  by (simp add: payment_posting_def payable_part_def)

text \<open>What the books are after a new payment.\<close>

lemma settled_books:
  assumes ok: "payables_ok owner s" and ids: "new_ids G" and run: "settle_payment D G i amount tender shift x s = (s', Inr out)"
    and grid: "on_grid 2 amount" "0 < amount"
  shows "payables_ok owner s' \<and> suppliers_bk s' = suppliers_bk (debited i amount s) \<and>
    payments_bk s' = payments_bk s @ [payment_out out] \<and>
    payment_out out = payment_row i (G (debited i amount s)) amount tender shift \<and> \<not> replayed_out out \<and>
    (\<exists>z \<in> set (suppliers_bk s). owed_by i amount z) \<and>
    (\<exists>y. find (is_supplier (shopId_in i) (supplierId_in i)) (suppliers_bk s') = Some y \<and> pendingPayables_out out = pendingPayables_su y)"
proof -
  let ?s1 = "debited i amount s" and ?p = "payment_posting i (G (debited i amount s)) amount tender"
  let ?pay = "payment_row i (G ?s1) amount tender shift"
  obtain sh r y z where fit: "fits_column 12 amount" and z: "z \<in> set (suppliers_bk s)" "owed_by i amount z"
    and post: "post D G ?p (?s1\<lparr>payments_bk := payments_bk s @ [?pay], shifts_bk := sh\<rparr>) = (s', Inr r)"
    and y: "find (is_supplier (shopId_in i) (supplierId_in i)) (suppliers_bk s') = Some y"
    and out: "out = \<lparr>payment_out = ?pay, pendingPayables_out = pendingPayables_su y, replayed_out = False\<rparr>"
    using settle_cases[OF run] by blast
  let ?s2 = "?s1\<lparr>payments_bk := payments_bk s @ [?pay], shifts_bk := sh\<rparr>"
  have parts: "postings_bk ?s2 = postings_bk s" "transactions_bk ?s2 = transactions_bk s" "balances_bk ?s2 = balances_bk s"
    by (simp_all add: debited_def)
  have led: "ledger_ok ?s2" by (subst ledger_ok_other[OF parts]) (rule payables_okD(1)[OF ok])
  note es = payment_entries[OF grid, of i "G ?s1" tender]
  have fit2: "posting_fits D ?p" using fit grid unfolding posting_fits_def es by (simp add: payment_posting_def fits_column_def)
  have new: "G ?s1 \<notin> id_sp ` set (payments_bk s)" "G ?s1 \<notin> sourceId_pst ` set (postings_bk s)"
    using ids[unfolded new_ids_def, rule_format, of ?s1] by (simp_all add: debited_def)
  have fresh: "G ?s2 \<notin> id_pst ` set (postings_bk ?s2)" using ids[unfolded new_ids_def, rule_format, of ?s2] by simp
  have src_new: "sourceId_pst r \<noteq> G ?s1" if "r \<in> set (postings_bk s)" for r using new(2) that by (auto simp: image_iff)
  have pay_new: "id_sp x \<noteq> G ?s1" if "x \<in> set (payments_bk s)" for x using new(1) that by (auto simp: image_iff)
  have src_old: "source_of_supplier owner (payments_bk s @ [?pay]) shop v r = source_of_supplier owner (payments_bk s) shop v r"
    if "r \<in> set (postings_bk s)" for shop v r
    using src_new[OF that] by (intro source_of_supplier_new_payment) (simp add: payment_row_def)
  have none: "find_posting ?p ?s2 = None" using src_new
    by (auto simp: find_posting_def find_None_iff payment_posting_def parts)
  have posted: "s' = posted_books ?p (G ?s2) (sorted_entries D ?p) ?s2"
  proof (cases rule: post_cases[OF led post, case_names replayed posted])
    case replayed
    have "posted_pr r" by (rule post_new[OF post none], unfold es) (simp add: payment_posting_def)
    with replayed show ?thesis by simp
  qed
  have "payables_ok owner s'"
  proof (rule payables_step[where P = "owed_by i amount" and d = "- amount", OF ok])
    show "ledger_ok s'" by (rule post_keeps_ledger[OF led ids fit2 post])
    show "distinct (map id_sp (payments_bk s'))"
      using payables_okD(3)[OF ok] new(1) by (simp add: posted posted_books_def payment_row_def)
    show "suppliers_bk s' = update_rows (owed_by i amount) (add_payable (- amount)) (suppliers_bk s)"
      by (simp add: posted posted_books_def debited_def)
    fix x assume x: "x \<in> set (suppliers_bk s)"
    have src: "source_of_supplier owner (payments_bk ?s2) (shopId_su x) (id_su x) (new_posting ?p (G ?s2)) \<longleftrightarrow>
        is_supplier (shopId_in i) (supplierId_in i) x"
      using pay_new by (auto simp: source_of_supplier_def payable_sources_def new_posting_def payment_posting_def
          payment_row_def is_supplier_def)
    have shop: "is_supplier (shopId_in i) (supplierId_in i) x \<Longrightarrow> shopId_su x = shopId_po ?p"
      by (simp add: is_supplier_def payment_posting_def)
    have old: "supplier_rows owner ?s2 (shopId_su x) (id_su x) = supplier_rows owner s (shopId_su x) (id_su x)"
      by (simp add: supplier_rows_def src_old cong: bex_cong_simp conj_cong)
    show "net_credit (supplier_rows owner s' (shopId_su x) (id_su x)) =
        net_credit (supplier_rows owner s (shopId_su x) (id_su x)) + (if owed_by i amount x then - amount else 0)"
      using shop unfolding posted sorted_entries_def posted_net_credit[OF led fresh] src old es payment_part
        owed_unique[OF payables_okD(2)[OF ok] z x] by auto
    show "fits_column 12 (pendingPayables_su x + - amount)" if "owed_by i amount x"
      using that grid(2) payables_okD(7)[OF ok x] by (auto simp: owed_by_def fits_column_def)
  qed (use grid in \<open>simp add: on_grid_minus\<close>)
  moreover have "suppliers_bk s' = suppliers_bk ?s1" "payments_bk s' = payments_bk s @ [?pay]"
    by (simp_all add: posted posted_books_def)
  ultimately show ?thesis using z y by (auto simp: out)
qed

end


end
