(* ===== verification/BooksProperties.thy ===== *)
theory BooksProperties
  imports PayablesProperties
begin

text \<open>
  The properties of the ledger and the supplier payables over any history of calls from opening
  books: the trial balance, the running balances, one posting per source, the payable a supplier
  is shown being the one the ledger implies, and payments that move what is owed exactly once.
\<close>

section \<open>Histories\<close>

text \<open>Books before any posting: each supplier owes its opening payable.\<close>

definition opening_books :: "Supplier list \<Rightarrow> Shift list \<Rightarrow> books" where
  "opening_books sups shifts =
     \<lparr>postings_bk = [], transactions_bk = [], balances_bk = Map.empty,
      suppliers_bk = map (\<lambda>x. x\<lparr>pendingPayables_su := openingPayables_su x\<rparr>) sups, payments_bk = [], shifts_bk = shifts\<rparr>"

definition suppliers_open :: "Supplier list \<Rightarrow> bool" where
  "suppliers_open sups \<longleftrightarrow> distinct (map id_su sups) \<and>
     list_all (\<lambda>x. on_grid 2 (openingPayables_su x) \<and> fits_column 12 (openingPayables_su x)) sups"

lemma opening_ok: "suppliers_open sups \<Longrightarrow> payables_ok owner (opening_books sups shifts)"
  by (auto simp: payables_ok_def ledger_ok_def opening_books_def suppliers_open_def list_all_iff trial_ok_def side_of_def
      account_balance_def fits_column_def payable_of_def supplier_rows_def comp_def)

definition after_calls ::
    "decimal_lib \<Rightarrow> (books \<Rightarrow> string) \<Rightarrow> ledger_call list \<Rightarrow> Supplier list \<Rightarrow> Shift list \<Rightarrow> books" where
  "after_calls D G calls sups shifts = fold (run_call D G) calls (opening_books sups shifts)"

lemma in_transaction_keeps:
  "P s \<Longrightarrow> (\<And>s' r. m s = (s', Inr r) \<Longrightarrow> P s') \<Longrightarrow> P (fst (in_transaction m s))"
  by (auto simp: in_transaction_def split: prod.split sum.split)

context decimal_arith
begin

lemma pay_keeps_payables:
  assumes ok: "payables_ok owner s" and ids: "new_ids G" and run: "pay D G i s = (s', Inr out)"
  shows "payables_ok owner s'"
  using run
proof (cases rule: pay_cases)
  case (paid amount tender shift w)
  have "on_grid 2 amount" by (simp add: paid(1) to_dp_half_up)
  then show ?thesis using settled_books[OF ok ids paid(7) _ paid(2)] by blast
qed (use ok in simp)

lemma run_call_keeps:
  assumes ids: "new_ids G" and call: "proper_call D owner c" and ok: "payables_ok owner s"
  shows "payables_ok owner (run_call D G c s)"
proof -
  note tx = in_transaction_keeps[where P = "payables_ok owner", OF ok]
  show ?thesis
  proof (cases c)
    case (PostEntries p)
    then show ?thesis using call by (simp only: run_call.simps) (rule tx, rule post_keeps_payables[OF ok ids])
  next
    case (PostPayable v p delta)
    then show ?thesis using call by (simp only: run_call.simps) (rule tx, rule post_payable_keeps[OF ok ids])
  next
    case (PaySupplier i)
    then show ?thesis by (simp only: run_call.simps) (rule tx, rule pay_keeps_payables[OF ok ids])
  qed
qed

lemma books_step_system: "new_ids G \<Longrightarrow> step_system (run_call D G) (proper_call D owner) (payables_ok owner)"
  by unfold_locales (rule run_call_keeps)

lemma history_ok:
  assumes "new_ids G" and "list_all (proper_call D owner) calls" and "suppliers_open sups"
  shows "payables_ok owner (after_calls D G calls sups shifts)"
  unfolding after_calls_def
  by (rule step_system.history[OF books_step_system[OF assms(1)] assms(2) opening_ok[OF assms(3)]])

end

context decimal_arith
begin

lemma payable_recomputed:
  assumes ok: "payables_ok owner s" and x: "x \<in> set (suppliers_bk s)"
  shows "payablesFromLedger D owner (shopId_su x) (id_su x) s = (s, Inr (pendingPayables_su x))"
proof -
  have found: "find (is_supplier (shopId_su x) (id_su x)) (suppliers_bk s) = Some x"
    using x by (intro find_unique[OF payables_okD(2)[OF ok]]) (auto simp: is_supplier_def)
  let ?net = "net_credit (supplier_rows owner s (shopId_su x) (id_su x))"
  have net: "openingPayables_su x + ?net = pendingPayables_su x"
    using payables_okD(4)[OF ok x] by (simp add: payable_of_def)
  have grid: "on_grid 2 (pendingPayables_su x)" "on_grid 2 ?net"
  proof -
    show g: "on_grid 2 (pendingPayables_su x)" by (rule payables_okD(5)[OF ok x])
    have "?net = pendingPayables_su x + - openingPayables_su x" using net by simp
    then show "on_grid 2 ?net" using on_grid_add[OF g on_grid_minus[OF payables_okD(6)[OF ok x]]] by simp
  qed
  have "d_plus D (openingPayables_su x) ?net = pendingPayables_su x"
    using payables_okD(6,7)[OF ok x] grid(2) net by (subst d_plus_grid[of 2]) (simp_all add: fits_column_def)
  then show ?thesis using grid(1) by (simp add: payablesFromLedger_def found dp_exact)
qed

end

context decimal_arith
begin

lemma post_again:
  assumes "ledger_ok s" and "post D G p s = (s', Inr r)" and "posted_pr r"
    and "shopId_po q = shopId_po p" and "sourceType_po q = sourceType_po p" and "sourceId_po q = sourceId_po p"
  shows "post D G q s' =
    (s', Inr \<lparr>posted_pr = False, postingId_pr = (if normalise_entries D (entries_po q) = [] then None else postingId_pr r)\<rparr>)"
proof (cases rule: post_cases[OF assms(1,2), case_names replayed posted])
  case posted
  have "find_posting q s = None" using posted(4) assms(4-6) by (simp add: find_posting_def)
  then have "find_posting q s' = Some (new_posting p (G s))"
    using assms(4-6) unfolding find_posting_def posted(1) posted_books_def
    by (auto intro!: find_snoc simp: find_None_iff new_posting_def)
  then show ?thesis using posted(3) by (simp add: post_def postEntries_def Let_def new_posting_def)
qed (use assms(3) in simp)

end

text \<open>What a payment does to the books it finds, and again when it is retried.\<close>

lemma find_update_rows:
  "(\<And>x. Q (g x) = Q x) \<Longrightarrow> find Q (update_rows P g xs) = map_option (\<lambda>x. if P x then g x else x) (find Q xs)"
  by (induction xs) (auto simp: update_rows_def)

lemma payment_shift_Inr: "\<exists>v. payment_shift i tender s = (s, Inr v)"
  by (auto simp: payment_shift_def lockShiftForCashPayout_def split: option.split)

context decimal_arith
begin

lemma payment_moves:
  assumes ok: "payables_ok owner s" and ids: "new_ids G" and run: "pay D G i s = (s', Inr out)"
  shows "if replayed_out out then s' = s \<and> payment_out out \<in> set (payments_bk s)
    else (\<exists>x \<in> set (suppliers_bk s). is_supplier (shopId_in i) (supplierId_in i) x \<and> \<not> isDeleted_su x \<and>
      0 < amount_sp (payment_out out) \<and> amount_sp (payment_out out) = to_dp_half_up D 2 (amount_in i) \<and>
      amount_sp (payment_out out) \<le> pendingPayables_su x \<and>
      pendingPayables_out out = pendingPayables_su x - amount_sp (payment_out out) \<and>
      suppliers_bk s' = update_rows (\<lambda>y. y = x) (add_payable (- amount_sp (payment_out out))) (suppliers_bk s) \<and>
      payments_bk s' = payments_bk s @ [payment_out out])"
  using run
proof (cases rule: pay_cases)
  case (replayed x)
  then show ?thesis by (auto simp: find_payment_def split: option.splits if_splits dest: find_SomeD)
next
  case (paid amount tender shift w)
  have grid: "on_grid 2 amount" by (simp add: paid(1) to_dp_half_up)
  note b = settled_books[OF ok ids paid(7) grid paid(2)]
  obtain z where z: "z \<in> set (suppliers_bk s)" "owed_by i amount z" using b by blast
  have w: "owed_by i amount w" using owed_unique[OF payables_okD(2)[OF ok] z paid(4)] paid(5) by simp
  have only: "owed_by i amount y \<longleftrightarrow> y = w" if "y \<in> set (suppliers_bk s)" for y
    using owed_unique[OF payables_okD(2)[OF ok] paid(4) w that] w
      supplier_unique[OF payables_okD(2)[OF ok] that paid(4) _ paid(5)] by blast
  have sups: "suppliers_bk s' = update_rows (\<lambda>y. y = w) (add_payable (- amount)) (suppliers_bk s)"
    using b update_rows_cong[of "suppliers_bk s" "owed_by i amount" "\<lambda>y. y = w"] only by (simp add: debited_def)
  have "find (is_supplier (shopId_in i) (supplierId_in i)) (suppliers_bk s) = Some w"
    using paid(5) by (intro find_unique[OF payables_okD(2)[OF ok] paid(4)]) (auto simp: is_supplier_def)
  then have "pendingPayables_out out = pendingPayables_su w - amount"
    using b unfolding sups by (auto simp: find_update_rows)
  then show ?thesis using b w paid sups by (auto simp: owed_by_def payment_row_def intro!: bexI[of _ w])
qed

lemma payment_replayed:
  assumes ok: "payables_ok owner s" and ids: "new_ids G" and run: "pay D G i s = (s', Inr out)"
    and key: "idempotencyKey_in i = Some k" "k \<noteq> []"
  shows "\<exists>again. pay D G i s' = (s', Inr again) \<and> payment_out again = payment_out out \<and> replayed_out again"
proof -
  let ?amount = "to_dp_half_up D 2 (amount_in i)"
  have pos: "0 < ?amount" using run by (auto simp: pay_def Let_def split: if_splits)
  have answer: "\<exists>again. pay D G i t = (t, Inr again) \<and> payment_out again = x \<and> replayed_out again"
    if "find_payment i t = Some x" "same_request i ?amount x"
      "find (is_supplier (shopId_in i) (supplierId_in i)) (suppliers_bk t) = Some w" "\<not> isDeleted_su w" for t x w
    using that pos payment_shift_Inr[of i "case tender_in i of None \<Rightarrow> ''CASH'' | Some t \<Rightarrow> t" t]
    by (auto simp: pay_def Let_def bind_eff_def lockSupplier_def)
  show ?thesis using run
  proof (cases rule: pay_cases)
    case (replayed x)
    then show ?thesis using run by (intro exI[of _ out]) simp
  next
    case (paid amount tender shift w)
    have grid: "on_grid 2 amount" by (simp add: paid(1) to_dp_half_up)
    note b = settled_books[OF ok ids paid(7) grid paid(2)]
    have "find (is_supplier (shopId_in i) (supplierId_in i)) (suppliers_bk s) = Some w"
      using paid(5) by (intro find_unique[OF payables_okD(2)[OF ok] paid(4)]) (auto simp: is_supplier_def)
    then have w: "find (is_supplier (shopId_in i) (supplierId_in i)) (suppliers_bk s') =
        Some (if owed_by i amount w then add_payable (- amount) w else w)"
      using b by (simp add: debited_def find_update_rows)
    have "find_payment i s' = Some (payment_out out)"
      using b paid(3) key by (auto simp: find_payment_def payment_row_def find_None_iff intro!: find_snoc)
    moreover have "same_request i ?amount (payment_out out)"
      using b by (simp add: same_request_def payment_row_def paid(1))
    ultimately show ?thesis using answer[OF _ _ w] paid(6) by (simp add: add_payable_def)
  qed
qed

end

text \<open>Identifiers no row has: longer than all of them together.\<close>

definition fresh_id :: "books \<Rightarrow> string" where
  "fresh_id s = replicate (Suc (sum_list (map length
     (map id_pst (postings_bk s) @ map id_sp (payments_bk s) @ map sourceId_pst (postings_bk s))))) (CHR ''x'')"

lemma fresh_id_new: "new_ids fresh_id"
proof -
  have long: "x \<notin> set xs" if len: "length x = Suc (sum_list (map length xs))" for x :: string and xs
  proof
    assume "x \<in> set xs"
    then have "length x \<in> set (map length xs)" by simp
    then show False using member_le_sum_list[of "length x" "map length xs"] len by simp
  qed
  have "fresh_id s \<notin> set (map id_pst (postings_bk s) @ map id_sp (payments_bk s) @ map sourceId_pst (postings_bk s))" for s
    by (rule long) (simp add: fresh_id_def)
  then show ?thesis unfolding new_ids_def by simp
qed

interpretation bookkeeping: step_system "run_call decimal_js fresh_id" "proper_call decimal_js owner" "payables_ok owner"
  by (rule js.books_step_system[OF fresh_id_new])


section \<open>A worked history\<close>

definition sample_suppliers :: "Supplier list" where
  "sample_suppliers =
     [\<lparr>id_su = ''s1'', shopId_su = ''sh'', pendingPayables_su = 0, openingPayables_su = 25, isDeleted_su = False\<rparr>,
      \<lparr>id_su = ''s2'', shopId_su = ''sh'', pendingPayables_su = 0, openingPayables_su = 0, isDeleted_su = False\<rparr>]"

definition sample_owner :: "LedgerSourceType \<Rightarrow> string \<Rightarrow> string \<Rightarrow> string option" where
  "sample_owner ty shop i = (if ty = SRC_GRN \<and> i = ''g1'' then Some ''s1'' else None)"

definition sample_grn :: LedgerPosting where
  "sample_grn = \<lparr>shopId_po = ''sh'', sourceType_po = SRC_GRN, sourceId_po = ''g1'', invoiceId_po = None, description_po = ''GRN'',
     entries_po =
       [\<lparr>account_ei = INVENTORY, type_ei = DEBIT, amount_ei = 201 / 2, description_ei = None\<rparr>,
        \<lparr>account_ei = ACCOUNTS_PAYABLE, type_ei = CREDIT, amount_ei = 201 / 2, description_ei = None\<rparr>]\<rparr>"

definition sample_request :: SupplierPaymentInput where
  "sample_request = \<lparr>shopId_in = ''sh'', supplierId_in = ''s1'', amount_in = 15, tender_in = Some ''UPI'', reference_in = None,
     idempotencyKey_in = Some ''k1'', notes_in = None, vendorBillId_in = None, recordedById_in = Some ''u1''\<rparr>"

definition sample_calls :: "ledger_call list" where
  "sample_calls = [PostPayable (Some ''s1'') sample_grn (201 / 2), PaySupplier sample_request]"

lemma sample_proper: "list_all (proper_call decimal_js sample_owner) sample_calls"
  by code_simp

lemma sample_open: "suppliers_open sample_suppliers"
  by code_simp

definition sample_state :: books where
  "sample_state = after_calls decimal_js fresh_id [] sample_suppliers []"

lemma sample_paid: "\<not> isl (snd (pay decimal_js fresh_id sample_request sample_state))"
  by code_simp

lemma run_parts: "\<not> isl (snd x) \<Longrightarrow> x = (fst x, Inr (projr (snd x)))"
  by (metis prod.collapse sum.collapse(2))

section \<open>The properties\<close>

text \<open>C18: The books balance. After any history of postings, goods movements and supplier payments,
  refused calls rolled back: every posting's debits are its credits; in every shop each account's
  balance is the sum of its entries and each entry is stamped with the balance it left; and what
  the debit-normal accounts hold together is what the credit-normal accounts hold.\<close>

theorem books_balance:
  assumes "decimal_arith D" and "new_ids G" and "list_all (proper_call D owner) calls" and "suppliers_open sups"
  shows "side_of DEBIT h (transactions_bk (after_calls D G calls sups shifts)) =
      side_of CREDIT h (transactions_bk (after_calls D G calls sups shifts)) \<and>
    running 0 (of_account shop a (transactions_bk (after_calls D G calls sups shifts))) \<and>
    account_balance (after_calls D G calls sups shifts) shop a =
      sum_list (map effect (of_account shop a (transactions_bk (after_calls D G calls sups shifts)))) \<and>
    sum_list (map (account_balance (after_calls D G calls sups shifts) shop) DEBIT_NORMAL) =
      sum_list (map (account_balance (after_calls D G calls sups shifts) shop) CREDIT_NORMAL)"
proof -
  have led: "ledger_ok (after_calls D G calls sups shifts)"
    by (rule payables_okD(1)[OF decimal_arith.history_ok[OF assms]])
  show ?thesis using ledger_okD(4-6)[OF led] trial_balance[OF led] by blast
qed

lemma books_balance_witness:
  "sum_list (map (account_balance (after_calls decimal_js fresh_id sample_calls sample_suppliers []) ''sh'') DEBIT_NORMAL) =
     sum_list (map (account_balance (after_calls decimal_js fresh_id sample_calls sample_suppliers []) ''sh'') CREDIT_NORMAL) \<and>
   account_balance (after_calls decimal_js fresh_id (butlast sample_calls) sample_suppliers []) ''sh'' ACCOUNTS_PAYABLE = 201 / 2"
proof
  show "sum_list (map (account_balance (after_calls decimal_js fresh_id sample_calls sample_suppliers []) ''sh'') DEBIT_NORMAL) =
     sum_list (map (account_balance (after_calls decimal_js fresh_id sample_calls sample_suppliers []) ''sh'') CREDIT_NORMAL)"
    by (rule conjunct2[OF conjunct2[OF conjunct2[OF books_balance[OF js.decimal_arith_axioms fresh_id_new sample_proper sample_open]]]])
qed code_simp

text \<open>C19: What a supplier is owed is what the ledger implies. After any history, recomputing a
  supplier's payable from its opening balance and the ledger's rows of its documents and payments
  gives exactly the running column \<open>Supplier.pendingPayables\<close>.\<close>

theorem payables_match_ledger:
  assumes "decimal_arith D" and "new_ids G" and "list_all (proper_call D owner) calls" and "suppliers_open sups"
    and s: "s = after_calls D G calls sups shifts" and x: "x \<in> set (suppliers_bk s)"
  shows "payablesFromLedger D owner (shopId_su x) (id_su x) s = (s, Inr (pendingPayables_su x))"
  by (rule decimal_arith.payable_recomputed[OF assms(1) decimal_arith.history_ok[OF assms(1-4), of shifts, folded s] x])

lemma payables_match_ledger_witness:
  "payablesFromLedger decimal_js sample_owner ''sh'' ''s1'' (after_calls decimal_js fresh_id (butlast sample_calls) sample_suppliers []) =
    (after_calls decimal_js fresh_id (butlast sample_calls) sample_suppliers [], Inr (251 / 2))"
proof -
  let ?s = "after_calls decimal_js fresh_id (butlast sample_calls) sample_suppliers []"
  have x: "hd (suppliers_bk ?s) \<in> set (suppliers_bk ?s)" by code_simp
  have calls: "list_all (proper_call decimal_js sample_owner) (butlast sample_calls)" by code_simp
  have v: "shopId_su (hd (suppliers_bk ?s)) = ''sh''" "id_su (hd (suppliers_bk ?s)) = ''s1''"
    "pendingPayables_su (hd (suppliers_bk ?s)) = 251 / 2" by code_simp+
  show ?thesis
    using payables_match_ledger[OF js.decimal_arith_axioms fresh_id_new calls sample_open refl x] by (simp only: v)
qed

text \<open>A source posts once. After a posting was written, posting again for the same shop, source
  type and source changes nothing and answers with the posting that exists, whatever entries the
  second call brings; an empty posting is not written at all.\<close>

theorem source_posts_once:
  assumes "decimal_arith D" and "new_ids G" and "list_all (proper_call D owner) calls" and "suppliers_open sups"
    and s: "s = after_calls D G calls sups shifts" and run: "post D G p s = (s', Inr r)" "posted_pr r"
    and same: "shopId_po q = shopId_po p" "sourceType_po q = sourceType_po p" "sourceId_po q = sourceId_po p"
  shows "post D G q s' =
    (s', Inr \<lparr>posted_pr = False, postingId_pr = (if normalise_entries D (entries_po q) = [] then None else postingId_pr r)\<rparr>)"
  by (rule decimal_arith.post_again[OF assms(1) payables_okD(1)[OF decimal_arith.history_ok[OF assms(1-4), of shifts, folded s]] run same])

lemma source_posts_once_witness:
  "snd (post decimal_js fresh_id sample_grn (fst (post decimal_js fresh_id sample_grn sample_state))) =
     Inr \<lparr>posted_pr = False, postingId_pr = Some (fresh_id sample_state)\<rparr>"
proof -
  let ?x = "post decimal_js fresh_id sample_grn sample_state"
  have "\<not> isl (snd ?x)" by code_simp
  moreover have r: "projr (snd ?x) = \<lparr>posted_pr = True, postingId_pr = Some (fresh_id sample_state)\<rparr>" by code_simp
  moreover have "normalise_entries decimal_js (entries_po sample_grn) \<noteq> []" by code_simp
  moreover have "list_all (proper_call decimal_js sample_owner) []" by simp
  ultimately show ?thesis
    using source_posts_once[OF js.decimal_arith_axioms fresh_id_new _ sample_open sample_state_def run_parts,
        where p = sample_grn and q = sample_grn and owner = sample_owner] by simp
qed

text \<open>C20: A payment moves what is owed exactly once and never more. A payment that was not a replay
  found the supplier alive and owing at least the amount; afterwards the supplier owes exactly
  that much less, no other supplier's payable moved, one payment row was added, and the answer
  carries the new payable; a replay changed nothing.\<close>

theorem payment_settles:
  assumes "decimal_arith D" and "new_ids G" and "list_all (proper_call D owner) calls" and "suppliers_open sups"
    and s: "s = after_calls D G calls sups shifts" and run: "pay D G i s = (s', Inr out)"
  shows "if replayed_out out then s' = s \<and> payment_out out \<in> set (payments_bk s)
    else (\<exists>x \<in> set (suppliers_bk s). is_supplier (shopId_in i) (supplierId_in i) x \<and> \<not> isDeleted_su x \<and>
      0 < amount_sp (payment_out out) \<and> amount_sp (payment_out out) = to_dp_half_up D 2 (amount_in i) \<and>
      amount_sp (payment_out out) \<le> pendingPayables_su x \<and>
      pendingPayables_out out = pendingPayables_su x - amount_sp (payment_out out) \<and>
      suppliers_bk s' = update_rows (\<lambda>y. y = x) (add_payable (- amount_sp (payment_out out))) (suppliers_bk s) \<and>
      payments_bk s' = payments_bk s @ [payment_out out])"
  by (rule decimal_arith.payment_moves[OF assms(1) decimal_arith.history_ok[OF assms(1-4), of shifts, folded s] assms(2) run])

lemma payment_settles_witness:
  "pendingPayables_out (projr (snd (pay decimal_js fresh_id sample_request sample_state))) = 10 \<and>
   payments_bk (fst (pay decimal_js fresh_id sample_request sample_state)) =
     [payment_out (projr (snd (pay decimal_js fresh_id sample_request sample_state)))]"
proof -
  have v: "\<not> replayed_out (projr (snd (pay decimal_js fresh_id sample_request sample_state)))"
    "payments_bk sample_state = []" "pendingPayables_out (projr (snd (pay decimal_js fresh_id sample_request sample_state))) = 10"
    by code_simp+
  have "list_all (proper_call decimal_js sample_owner) []" by simp
  from payment_settles[OF js.decimal_arith_axioms fresh_id_new this sample_open sample_state_def run_parts[OF sample_paid]] v
  show ?thesis by auto
qed

text \<open>C21: Retrying a payment pays once. Sending the same request with its idempotency key again, after
  it went through, answers with the same payment and leaves the books exactly as they are.\<close>

theorem retry_pays_once:
  assumes "decimal_arith D" and "new_ids G" and "list_all (proper_call D owner) calls" and "suppliers_open sups"
    and s: "s = after_calls D G calls sups shifts" and run: "pay D G i s = (s', Inr out)"
    and key: "idempotencyKey_in i = Some k" "k \<noteq> []"
  shows "\<exists>again. pay D G i s' = (s', Inr again) \<and> payment_out again = payment_out out \<and> replayed_out again"
  by (rule decimal_arith.payment_replayed[OF assms(1) decimal_arith.history_ok[OF assms(1-4), of shifts, folded s] assms(2) run key])

lemma retry_pays_once_witness:
  "\<exists>again. pay decimal_js fresh_id sample_request (fst (pay decimal_js fresh_id sample_request sample_state)) =
      (fst (pay decimal_js fresh_id sample_request sample_state), Inr again) \<and>
     payment_out again = payment_out (projr (snd (pay decimal_js fresh_id sample_request sample_state))) \<and> replayed_out again"
proof -
  have "idempotencyKey_in sample_request = Some ''k1''" "''k1'' \<noteq> ''''" by (simp_all add: sample_request_def)
  moreover have "list_all (proper_call decimal_js sample_owner) []" by simp
  ultimately show ?thesis
    using retry_pays_once[OF js.decimal_arith_axioms fresh_id_new _ sample_open sample_state_def run_parts[OF sample_paid]] by blast
qed


end
