(* ===== verification/Outbox.thy ===== *)
theory Outbox
  imports Effects
begin

text \<open>
  The transactional outbox (\<open>apps/api/src/common/outbox/outbox-claim.service.ts\<close> and
  \<open>outbox-reaper.service.ts\<close>): rows are claimed by a relay, ended by a worker and handed back by
  the reaper when no worker ended them. One operation is one or more SQL statements; where the
  code runs several statements outside a transaction they are separate definitions, so that other
  writers can come between them. Times are milliseconds. The rows other transactions hold locks
  on are the argument \<open>locked\<close> of a claim.
\<close>

section \<open>Rows\<close>

datatype OutboxStatus = PENDING | CLAIMED | PROCESSING | DONE | FAILED

datatype json = JNull | JBool bool | JNumber rat | JText string | JArray "json list" | JObject "(string \<times> json) list"

record OutboxEvent =
  id_ob :: string
  shopId_ob :: string
  tenantId_ob :: "string option"
  type_ob :: string
  payload_ob :: json
  correlationId_ob :: "string option"
  actorId_ob :: "string option"
  entityId_ob :: "string option"
  status_ob :: OutboxStatus
  error_ob :: "string option"
  retryCount_ob :: nat
  createdAt_ob :: int
  processedAt_ob :: "int option"
  claimedAt_ob :: "int option"
  nextAttemptAt_ob :: "int option"

record ClaimedOutboxRow =
  id_cl :: string
  shopId_cl :: string
  tenantId_cl :: "string option"
  type_cl :: string
  payload_cl :: json
  correlationId_cl :: "string option"
  actorId_cl :: "string option"
  entityId_cl :: "string option"
  retryCount_cl :: nat

record EventsFeatureConfig =
  outboxMaxRetries :: nat
  outboxRetryBackoffMs :: nat
  outboxRetryBackoffMaxMs :: nat
  outboxStaleClaimMs :: nat

datatype retry_outcome = RETRY | RETRIES_SPENT | SKIPPED

type_synonym outbox = "OutboxEvent list"

definition MAX_ERROR_LENGTH :: nat where
  "MAX_ERROR_LENGTH = 4000"

definition OUTBOX_CLAIMED_STATUSES :: "OutboxStatus list" where
  "OUTBOX_CLAIMED_STATUSES = [CLAIMED, PROCESSING]"

definition jobIdFor :: "string \<Rightarrow> nat \<Rightarrow> string" where
  "jobIdFor i n = i @ ''.'' @ nat_text n"

definition backoffMs :: "EventsFeatureConfig \<Rightarrow> nat \<Rightarrow> nat" where
  "backoffMs cfg n = (let delay = outboxRetryBackoffMs cfg * 2 ^ (n - 1) in min delay (outboxRetryBackoffMaxMs cfg))"

section \<open>Claiming\<close>

definition claimed_columns :: "OutboxEvent \<Rightarrow> ClaimedOutboxRow" where
  "claimed_columns r =
     \<lparr>id_cl = id_ob r, shopId_cl = shopId_ob r, tenantId_cl = tenantId_ob r, type_cl = type_ob r,
      payload_cl = payload_ob r, correlationId_cl = correlationId_ob r, actorId_cl = actorId_ob r,
      entityId_cl = entityId_ob r, retryCount_cl = retryCount_ob r\<rparr>"

definition due :: "int \<Rightarrow> OutboxEvent \<Rightarrow> bool" where
  "due now r \<longleftrightarrow> (case nextAttemptAt_ob r of None \<Rightarrow> True | Some t \<Rightarrow> t \<le> now)"

definition claimable :: "(string \<Rightarrow> bool) \<Rightarrow> int \<Rightarrow> string list \<Rightarrow> OutboxEvent \<Rightarrow> bool" where
  "claimable typePredicate now locked r \<longleftrightarrow>
     status_ob r = PENDING \<and> due now r \<and> typePredicate (type_ob r) \<and> id_ob r \<notin> set locked"

definition selected :: "(string \<Rightarrow> bool) \<Rightarrow> int \<Rightarrow> nat \<Rightarrow> string list \<Rightarrow> outbox \<Rightarrow> outbox" where
  "selected typePredicate now batchSize locked rows =
     take batchSize (sort_key createdAt_ob (filter (claimable typePredicate now locked) rows))"

definition claim :: "(string \<Rightarrow> bool) \<Rightarrow> int \<Rightarrow> nat \<Rightarrow> string list \<Rightarrow> outbox \<Rightarrow> outbox \<times> ClaimedOutboxRow list" where
  "claim typePredicate now batchSize locked rows =
     (let sel = selected typePredicate now batchSize locked rows; ids = map id_ob sel
      in if sel = [] then (rows, [])
         else (update_rows (\<lambda>r. id_ob r \<in> set ids \<and> status_ob r = PENDING)
                (\<lambda>r. r\<lparr>status_ob := CLAIMED, claimedAt_ob := Some now, error_ob := None\<rparr>) rows,
               map claimed_columns sel))"

definition release :: "string list \<Rightarrow> outbox \<Rightarrow> outbox" where
  "release ids rows =
     (if ids = [] then rows
      else update_rows (\<lambda>r. id_ob r \<in> set ids \<and> status_ob r = CLAIMED)
             (\<lambda>r. r\<lparr>status_ob := PENDING, claimedAt_ob := None\<rparr>) rows)"

section \<open>Ending a claim\<close>

definition settleWhere :: "string \<Rightarrow> nat option \<Rightarrow> OutboxEvent \<Rightarrow> bool" where
  "settleWhere i c r \<longleftrightarrow>
     id_ob r = i \<and> status_ob r \<in> set OUTBOX_CLAIMED_STATUSES \<and> (case c of None \<Rightarrow> True | Some n \<Rightarrow> retryCount_ob r = n)"

definition markDone :: "string \<Rightarrow> nat option \<Rightarrow> int \<Rightarrow> outbox \<Rightarrow> outbox \<times> bool" where
  "markDone i c now rows =
     (update_rows (settleWhere i c) (\<lambda>r. r\<lparr>status_ob := DONE, processedAt_ob := Some now, error_ob := None\<rparr>) rows,
      count_rows (settleWhere i c) rows = 1)"

definition failed_row :: "string \<Rightarrow> int \<Rightarrow> OutboxEvent \<Rightarrow> OutboxEvent" where
  "failed_row e now r =
     r\<lparr>status_ob := FAILED, error_ob := Some (take MAX_ERROR_LENGTH e), retryCount_ob := retryCount_ob r + 1,
       processedAt_ob := Some now\<rparr>"

definition markFailed :: "string \<Rightarrow> string \<Rightarrow> nat option \<Rightarrow> int \<Rightarrow> outbox \<Rightarrow> outbox \<times> bool" where
  "markFailed i e c now rows =
     (update_rows (settleWhere i c) (failed_row e now) rows, count_rows (settleWhere i c) rows = 1)"

text \<open>The statement of \<open>scheduleRetry\<close> that writes, for the retry count that was read.\<close>

definition retried_row :: "EventsFeatureConfig \<Rightarrow> string \<Rightarrow> nat \<Rightarrow> int \<Rightarrow> OutboxEvent \<Rightarrow> OutboxEvent" where
  "retried_row cfg e attempt now r =
     r\<lparr>status_ob := PENDING, claimedAt_ob := None, retryCount_ob := attempt, error_ob := Some (take MAX_ERROR_LENGTH e),
       nextAttemptAt_ob := Some (now + int (backoffMs cfg attempt))\<rparr>"

definition retry_write ::
    "EventsFeatureConfig \<Rightarrow> string \<Rightarrow> string \<Rightarrow> nat \<Rightarrow> int \<Rightarrow> outbox \<Rightarrow> outbox \<times> retry_outcome" where
  "retry_write cfg i e n now rows =
     (let attempt = n + 1; guard = settleWhere i (Some n)
      in if outboxMaxRetries cfg \<le> attempt
         then (update_rows guard (failed_row (''retries exhausted: '' @ e) now) rows,
               if count_rows guard rows = 1 then RETRIES_SPENT else SKIPPED)
         else (update_rows guard (retried_row cfg e attempt now) rows,
               if count_rows guard rows = 0 then SKIPPED else RETRY))"

definition scheduleRetry ::
    "EventsFeatureConfig \<Rightarrow> string \<Rightarrow> string \<Rightarrow> nat option \<Rightarrow> int \<Rightarrow> outbox \<Rightarrow> outbox \<times> retry_outcome" where
  "scheduleRetry cfg i e c now rows =
     (case find (settleWhere i c) rows of
        None \<Rightarrow> (rows, SKIPPED)
      | Some r \<Rightarrow> retry_write cfg i e (retryCount_ob r) now rows)"

definition retryFailed :: "string \<Rightarrow> string \<Rightarrow> outbox \<Rightarrow> outbox \<times> bool" where
  "retryFailed shop i rows =
     (let P = (\<lambda>r. id_ob r = i \<and> shopId_ob r = shop \<and> status_ob r = FAILED)
      in (update_rows P (\<lambda>r. r\<lparr>status_ob := PENDING, claimedAt_ob := None, nextAttemptAt_ob := None, error_ob := None,
            retryCount_ob := retryCount_ob r + 1\<rparr>) rows,
          count_rows P rows = 1))"

section \<open>The reaper\<close>

definition REAP_BATCH :: nat where
  "REAP_BATCH = 500"

definition MAX_BATCHES_PER_SWEEP :: nat where
  "MAX_BATCHES_PER_SWEEP = 20"

record ReapOutcome =
  retried_ro :: nat
  failed_ro :: nat

definition stale :: "EventsFeatureConfig \<Rightarrow> int \<Rightarrow> OutboxEvent \<Rightarrow> bool" where
  "stale cfg now r \<longleftrightarrow> status_ob r \<in> {CLAIMED, PROCESSING} \<and>
     (case claimedAt_ob r of Some t \<Rightarrow> t | None \<Rightarrow> createdAt_ob r) < now - int (outboxStaleClaimMs cfg)"

text \<open>The SELECT of a batch: the id and retry count of the oldest stale claims.\<close>

definition stale_batch :: "EventsFeatureConfig \<Rightarrow> int \<Rightarrow> outbox \<Rightarrow> (string \<times> nat) list" where
  "stale_batch cfg now rows =
     map (\<lambda>r. (id_ob r, retryCount_ob r)) (take REAP_BATCH (sort_key createdAt_ob (filter (stale cfg now) rows)))"

definition STALE_ERROR :: string where
  "STALE_ERROR = ''stale claim: no worker finished it''"

definition still_claimed :: "OutboxEvent \<Rightarrow> bool" where
  "still_claimed r \<longleftrightarrow> status_ob r \<in> {CLAIMED, PROCESSING}"

definition reap_failed :: "int \<Rightarrow> string list \<Rightarrow> outbox \<Rightarrow> outbox \<times> nat" where
  "reap_failed now ids rows =
     (let P = (\<lambda>r. id_ob r \<in> set ids \<and> still_claimed r)
      in (update_rows P (\<lambda>r. r\<lparr>status_ob := FAILED, error_ob := Some STALE_ERROR, retryCount_ob := retryCount_ob r + 1,
            processedAt_ob := Some now\<rparr>) rows,
          count_rows P rows))"

definition reap_retry :: "EventsFeatureConfig \<Rightarrow> int \<Rightarrow> string \<times> nat \<Rightarrow> outbox \<Rightarrow> outbox \<times> nat" where
  "reap_retry cfg now x rows =
     (let attempt = snd x + 1; P = (\<lambda>r. id_ob r = fst x \<and> still_claimed r)
      in (update_rows P (\<lambda>r. r\<lparr>status_ob := PENDING, claimedAt_ob := None, retryCount_ob := attempt,
            nextAttemptAt_ob := Some (now + int (backoffMs cfg attempt)), error_ob := Some STALE_ERROR\<rparr>) rows,
          count_rows P rows))"

fun reap_loop ::
    "EventsFeatureConfig \<Rightarrow> int \<Rightarrow> string list \<Rightarrow> (string \<times> nat) list \<Rightarrow> outbox \<Rightarrow> ReapOutcome \<Rightarrow> outbox \<times> ReapOutcome" where
  "reap_loop cfg now exhausted [] rows out = (rows, out)"
| "reap_loop cfg now exhausted (x # xs) rows out =
     (if fst x \<in> set exhausted then reap_loop cfg now exhausted xs rows out
      else (let (rows', n) = reap_retry cfg now x rows
            in reap_loop cfg now exhausted xs rows' (out\<lparr>retried_ro := retried_ro out + n\<rparr>)))"

text \<open>The statements after the SELECT, for the batch it read.\<close>

definition reap_writes ::
    "EventsFeatureConfig \<Rightarrow> int \<Rightarrow> (string \<times> nat) list \<Rightarrow> outbox \<Rightarrow> ReapOutcome \<Rightarrow> outbox \<times> ReapOutcome" where
  "reap_writes cfg now batch rows out =
     (let exhausted = map fst (filter (\<lambda>x. outboxMaxRetries cfg \<le> snd x + 1) batch);
          (rows', n) = (if exhausted = [] then (rows, 0) else reap_failed now exhausted rows)
      in reap_loop cfg now exhausted batch rows' (out\<lparr>failed_ro := failed_ro out + n\<rparr>))"

definition reapBatch :: "EventsFeatureConfig \<Rightarrow> int \<Rightarrow> outbox \<Rightarrow> ReapOutcome \<Rightarrow> outbox \<times> ReapOutcome \<times> nat" where
  "reapBatch cfg now rows out =
     (let batch = stale_batch cfg now rows
      in if batch = [] then (rows, out, 0)
         else (let (rows', o') = reap_writes cfg now batch rows out in (rows', o', length batch)))"

text \<open>The loop of a sweep, with the number of batches it may still take.\<close>

fun reap_sweep :: "EventsFeatureConfig \<Rightarrow> int \<Rightarrow> nat \<Rightarrow> outbox \<Rightarrow> ReapOutcome \<Rightarrow> outbox \<times> ReapOutcome" where
  "reap_sweep cfg now 0 rows out = (rows, out)"
| "reap_sweep cfg now (Suc n) rows out =
     (let (rows', o', handled) = reapBatch cfg now rows out
      in if handled < REAP_BATCH then (rows', o') else reap_sweep cfg now n rows' o')"

definition reapStaleClaims :: "EventsFeatureConfig \<Rightarrow> int \<Rightarrow> outbox \<Rightarrow> outbox \<times> ReapOutcome" where
  "reapStaleClaims cfg now rows = reap_sweep cfg now MAX_BATCHES_PER_SWEEP rows \<lparr>retried_ro = 0, failed_ro = 0\<rparr>"

end
