(* ===== verification/OutboxRouting.thy ===== *)
theory OutboxRouting
  imports Outbox
begin

text \<open>
  Which relay owns which event type, and the job a system event becomes
  (\<open>apps/api/src/common/outbox/outbox-routing.ts\<close>). The SQL predicates are LIKE BINARY patterns;
  \<open>JSON.parse\<close> is the parameter \<open>parse\<close>.
\<close>

definition PURCHASE_RELAY_TYPE_PREFIXES :: "string list" where
  "PURCHASE_RELAY_TYPE_PREFIXES =
     [''Purchase'', ''GRN'', ''VendorBill'', ''SupplierCredit'', ''Goods'', ''Inspection'', ''Outstanding'', ''Workflow'']"

definition PRODUCT_RELAY_TYPE_PREFIXES :: "string list" where
  "PRODUCT_RELAY_TYPE_PREFIXES = [''Product'', ''Inventory'', ''Category'', ''Brand'', ''Barcode'']"

definition SYSTEM_EVENT_TYPES :: "string list" where
  "SYSTEM_EVENT_TYPES =
     [''INVOICE_CREATED'', ''INVOICE_RETURNED'', ''INVOICE_CANCELLED'', ''CUSTOMER_PAYMENT_RECORDED'', ''BILL_SCANNED'']"

definition DOMAIN_RELAY_TYPE_PREFIXES :: "string list" where
  "DOMAIN_RELAY_TYPE_PREFIXES = PURCHASE_RELAY_TYPE_PREFIXES @ PRODUCT_RELAY_TYPE_PREFIXES"

definition startsWith :: "string \<Rightarrow> string \<Rightarrow> bool" where
  "startsWith s p \<longleftrightarrow> take (length p) s = p"

definition isDomainRelayOwnedType :: "string \<Rightarrow> bool" where
  "isDomainRelayOwnedType ty = list_ex (\<lambda>p. startsWith ty p) DOMAIN_RELAY_TYPE_PREFIXES"

definition isPurchaseRelayType :: "string \<Rightarrow> bool" where
  "isPurchaseRelayType ty = list_ex (\<lambda>p. startsWith ty p) PURCHASE_RELAY_TYPE_PREFIXES"

section \<open>The SQL predicates\<close>

text \<open>MySQL's LIKE BINARY: \<open>%\<close> matches any text, \<open>_\<close> one character, a backslash quotes.\<close>

fun like :: "string \<Rightarrow> string \<Rightarrow> bool" where
  "like [] s = (s = [])"
| "like (p # ps) [] = (p = CHR ''%'' \<and> like ps [])"
| "like (p # ps) (c # cs) =
     (if p = CHR ''%'' then like ps (c # cs) \<or> like (p # ps) cs
      else if p = CHR ''_'' then like ps cs
      else if p = CHR 0x5C \<and> ps \<noteq> [] then hd ps = c \<and> like (tl ps) cs
      else p = c \<and> like ps cs)"

definition buildOwnedTypePredicate :: "string list \<Rightarrow> string \<Rightarrow> bool" where
  "buildOwnedTypePredicate prefixes ty = list_ex (\<lambda>p. like (p @ ''%'') ty) prefixes"

definition buildPurchaseEventsTypePredicate :: "string \<Rightarrow> bool" where
  "buildPurchaseEventsTypePredicate = buildOwnedTypePredicate PURCHASE_RELAY_TYPE_PREFIXES"

definition buildProductEventsTypePredicate :: "string \<Rightarrow> bool" where
  "buildProductEventsTypePredicate = buildOwnedTypePredicate PRODUCT_RELAY_TYPE_PREFIXES"

definition buildSystemEventsTypePredicate :: "string \<Rightarrow> bool" where
  "buildSystemEventsTypePredicate ty = list_all (\<lambda>p. \<not> like (p @ ''%'') ty) DOMAIN_RELAY_TYPE_PREFIXES"

section \<open>The job of a system event\<close>

record SystemEventJobData =
  eventId_jd :: string
  correlationId_jd :: string
  shopId_jd :: "string option"
  userId_jd :: "string option"
  payload_jd :: "(string \<times> json) list"

record SystemEventJob =
  name_jb :: string
  data_jb :: SystemEventJobData
  jobId_jb :: string

definition LEGACY_CORRELATION_ID :: string where
  "LEGACY_CORRELATION_ID = ''legacy-event''"

definition parseOutboxPayload :: "(string \<Rightarrow> json option) \<Rightarrow> json \<Rightarrow> (string \<times> json) list" where
  "parseOutboxPayload parse raw =
     (case (case raw of JText t \<Rightarrow> parse t | v \<Rightarrow> Some v) of
        Some (JObject kvs) \<Rightarrow> kvs
      | _ \<Rightarrow> [])"

definition asOptionalString :: "json option \<Rightarrow> string option" where
  "asOptionalString v = (case v of Some (JText t) \<Rightarrow> if t = [] then None else Some t | _ \<Rightarrow> None)"

text \<open>\<open>a ?? b\<close>\<close>

definition or_else :: "'a option \<Rightarrow> 'a option \<Rightarrow> 'a option" where
  "or_else a b = (case a of None \<Rightarrow> b | Some x \<Rightarrow> Some x)"

definition buildSystemEventJob :: "(string \<Rightarrow> json option) \<Rightarrow> ClaimedOutboxRow \<Rightarrow> SystemEventJob" where
  "buildSystemEventJob parse row =
     (let payload = parseOutboxPayload parse (payload_cl row);
          field = (\<lambda>k. asOptionalString (map_of payload k));
          column = (\<lambda>v. asOptionalString (map_option JText v))
      in \<lparr>name_jb = type_cl row,
          data_jb =
            \<lparr>eventId_jd = id_cl row,
             correlationId_jd =
               (case or_else (column (correlationId_cl row)) (field ''correlationId'') of
                  Some c \<Rightarrow> c | None \<Rightarrow> LEGACY_CORRELATION_ID),
             shopId_jd = or_else (column (Some (shopId_cl row))) (field ''shopId''),
             userId_jd = or_else (field ''userId'') (column (actorId_cl row)),
             payload_jd = payload\<rparr>,
          jobId_jb = id_cl row\<rparr>)"

text \<open>The relay gives the job the id of its claim, and hands the rows back when the queue refuses.\<close>

definition relay_jobs :: "(string \<Rightarrow> json option) \<Rightarrow> ClaimedOutboxRow list \<Rightarrow> SystemEventJob list" where
  "relay_jobs parse rows =
     map (\<lambda>row. (buildSystemEventJob parse row)\<lparr>jobId_jb := jobIdFor (id_cl row) (retryCount_cl row)\<rparr>) rows"

definition relayEvents ::
    "(string \<Rightarrow> json option) \<Rightarrow> (SystemEventJob list \<Rightarrow> bool) \<Rightarrow> int \<Rightarrow> nat \<Rightarrow> string list \<Rightarrow> outbox \<Rightarrow>
      outbox \<times> SystemEventJob list" where
  "relayEvents parse addBulk now batchSize locked rows =
     (let (rows', claimed) = claim buildSystemEventsTypePredicate now batchSize locked rows
      in if claimed = [] then (rows', [])
         else (let jobs = relay_jobs parse claimed
               in if addBulk jobs then (rows', jobs) else (release (map id_cl claimed) rows', [])))"

end
