(* ===== verification/OutboxProperties.thy ===== *)
theory OutboxProperties
  imports OutboxRouting
begin

text \<open>
  What the outbox keeps: a claim takes each row once, the oldest first; a claim that was ended has
  no power over its row again; retries are bounded; a sweep of the reaper hands every stale claim
  back; and every event type has exactly one relay.
\<close>

section \<open>Rows under an update\<close>

definition primary_key :: "outbox \<Rightarrow> bool" where
  "primary_key rows \<longleftrightarrow> distinct (map id_ob rows)"

lemma update_rows_map: "update_rows P g rows = map (\<lambda>r. if P r then g r else r) rows"
  by (simp add: update_rows_def)

lemma set_selected: "set (selected p now b locked rows) \<subseteq> {r \<in> set rows. claimable p now locked r}"
  using set_take_subset[of b "sort_key createdAt_ob (filter (claimable p now locked) rows)"] by (auto simp: selected_def)

lemma same_row: "primary_key rows \<Longrightarrow> r \<in> set rows \<Longrightarrow> t \<in> set rows \<Longrightarrow> id_ob r = id_ob t \<Longrightarrow> r = t"
  by (auto simp: primary_key_def distinct_map dest: inj_onD)

lemma id_in_selected:
  assumes "primary_key rows" and "r \<in> set rows" and "set sel \<subseteq> set rows"
  shows "id_ob r \<in> id_ob ` set sel \<longleftrightarrow> r \<in> set sel"
  using assms same_row by blast

lemma distinct_sort_take:
  assumes "distinct (map f xs)" shows "distinct (map f (take n (sort_key k (filter P xs))))"
proof -
  have "inj_on f (set xs)" and "distinct xs" using assms by (simp_all add: distinct_map)
  then have "distinct (sort_key k (filter P xs))" and "inj_on f (set (sort_key k (filter P xs)))"
    by (auto intro: inj_on_subset)
  moreover from this have "inj_on f (set (take n (sort_key k (filter P xs))))"
    by (meson inj_on_subset set_take_subset)
  ultimately show ?thesis by (simp add: distinct_map)
qed

text \<open>What a taken prefix of a sorted list leaves behind is no older than what it took.\<close>

lemma take_sorted_oldest:
  assumes "x \<in> set xs" and "P x" and "x \<notin> set (take n (sort_key k (filter P xs)))"
  shows "length (take n (sort_key k (filter P xs))) = n" and "y \<in> set (take n (sort_key k (filter P xs))) \<Longrightarrow> k y \<le> k x"
proof -
  let ?s = "sort_key k (filter P xs)"
  have "x \<in> set (drop n ?s)" using assms set_append[of "take n ?s" "drop n ?s"] by auto
  moreover have "sorted (map k (take n ?s @ drop n ?s))" by simp
  ultimately show "k y \<le> k x" if "y \<in> set (take n ?s)"
    using that by (simp only: map_append sorted_append) auto
  have "n < length ?s" using \<open>x \<in> set (drop n ?s)\<close> by (metis drop_all empty_iff linorder_not_less list.set(1))
  then show "length (take n ?s) = n" by simp
qed

section \<open>Calls and histories\<close>

datatype outbox_call =
    Claim "string \<Rightarrow> bool" int nat "string list"
  | Release "string list"
  | MarkDone string "nat option" int
  | MarkFailed string string "nat option" int
  | ScheduleRetry string string "nat option" int
  | RetryWrite string string nat int
  | RetryFailed string string
  | ReapWrites int "(string \<times> nat) list"
  | ReapSweep int

fun run_outbox :: "EventsFeatureConfig \<Rightarrow> outbox_call \<Rightarrow> outbox \<Rightarrow> outbox" where
  "run_outbox cfg (Claim p now b locked) rows = fst (claim p now b locked rows)"
| "run_outbox cfg (Release ids) rows = release ids rows"
| "run_outbox cfg (MarkDone i c now) rows = fst (markDone i c now rows)"
| "run_outbox cfg (MarkFailed i e c now) rows = fst (markFailed i e c now rows)"
| "run_outbox cfg (ScheduleRetry i e c now) rows = fst (scheduleRetry cfg i e c now rows)"
| "run_outbox cfg (RetryWrite i e n now) rows = fst (retry_write cfg i e n now rows)"
| "run_outbox cfg (RetryFailed shop i) rows = fst (retryFailed shop i rows)"
| "run_outbox cfg (ReapWrites now batch) rows = fst (reap_writes cfg now batch rows \<lparr>retried_ro = 0, failed_ro = 0\<rparr>)"
| "run_outbox cfg (ReapSweep now) rows = fst (reapStaleClaims cfg now rows)"

section \<open>The reaper\<close>

definition reaped_failed :: "int \<Rightarrow> OutboxEvent \<Rightarrow> OutboxEvent" where
  "reaped_failed now r =
     r\<lparr>status_ob := FAILED, error_ob := Some STALE_ERROR, retryCount_ob := retryCount_ob r + 1, processedAt_ob := Some now\<rparr>"

definition reaped_retry :: "EventsFeatureConfig \<Rightarrow> int \<Rightarrow> nat \<Rightarrow> OutboxEvent \<Rightarrow> OutboxEvent" where
  "reaped_retry cfg now attempt r =
     r\<lparr>status_ob := PENDING, claimedAt_ob := None, retryCount_ob := attempt,
       nextAttemptAt_ob := Some (now + int (backoffMs cfg attempt)), error_ob := Some STALE_ERROR\<rparr>"

text \<open>What becomes of a stale claim: another attempt after the backoff, or FAILED with the last one.\<close>

definition reap_row :: "EventsFeatureConfig \<Rightarrow> int \<Rightarrow> OutboxEvent \<Rightarrow> OutboxEvent" where
  "reap_row cfg now r =
     (if outboxMaxRetries cfg \<le> retryCount_ob r + 1 then reaped_failed now r else reaped_retry cfg now (retryCount_ob r + 1) r)"

lemma reap_retry_rows:
  "fst (reap_retry cfg now x rows) =
    map (\<lambda>r. if id_ob r = fst x \<and> still_claimed r then reaped_retry cfg now (snd x + 1) r else r) rows"
  by (simp add: reap_retry_def Let_def update_rows_map reaped_retry_def)

lemma reap_failed_rows:
  "fst (reap_failed now ids rows) = map (\<lambda>r. if id_ob r \<in> set ids \<and> still_claimed r then reaped_failed now r else r) rows"
  by (simp add: reap_failed_def Let_def update_rows_map reaped_failed_def)

lemma reaped_fields [simp]:
  "id_ob (reaped_retry cfg now n r) = id_ob r" "id_ob (reaped_failed now r) = id_ob r" "id_ob (reap_row cfg now r) = id_ob r"
  "\<not> still_claimed (reaped_retry cfg now n r)" "\<not> still_claimed (reaped_failed now r)"
  "status_ob (reaped_retry cfg now n r) = PENDING" "status_ob (reaped_failed now r) = FAILED"
  "retryCount_ob (reaped_retry cfg now n r) = n" "retryCount_ob (reaped_failed now r) = retryCount_ob r + 1"
  "\<not> stale cfg' t (reap_row cfg now r)"
  by (simp_all add: reaped_retry_def reaped_failed_def reap_row_def still_claimed_def stale_def)

lemma stale_claimed: "stale cfg now r \<Longrightarrow> still_claimed r"
  by (simp add: stale_def still_claimed_def)

lemma reap_loop_rows:
  "distinct (map fst batch) \<Longrightarrow>
    fst (reap_loop cfg now exhausted batch rows out) =
    map (\<lambda>r. case map_of batch (id_ob r) of
        None \<Rightarrow> r
      | Some n \<Rightarrow> if id_ob r \<notin> set exhausted \<and> still_claimed r then reaped_retry cfg now (n + 1) r else r) rows"
proof (induction batch arbitrary: rows out)
  case Nil
  then show ?case by simp
next
  case (Cons x batch)
  obtain i n where x: "x = (i, n)" by (cases x)
  have new: "map_of batch i = None" using Cons.prems x by (simp add: map_of_eq_None_iff)
  show ?case
  proof (cases "i \<in> set exhausted")
    case True
    then show ?thesis using Cons.IH Cons.prems new by (auto simp: x intro!: map_cong split: option.split)
  next
    case False
    obtain rows' m where r: "reap_retry cfg now x rows = (rows', m)" by (cases "reap_retry cfg now x rows")
    then have rows': "rows' = map (\<lambda>r. if id_ob r = i \<and> still_claimed r then reaped_retry cfg now (n + 1) r else r) rows"
      using reap_retry_rows[of cfg now x rows] by (simp add: x)
    have "fst (reap_loop cfg now exhausted (x # batch) rows out) =
        fst (reap_loop cfg now exhausted batch rows' (out\<lparr>retried_ro := retried_ro out + m\<rparr>))"
      using False r by (simp add: x)
    then show ?thesis using Cons.IH[of rows'] Cons.prems False new
      by (auto simp: rows' x intro!: map_cong split: option.split)
  qed
qed

text \<open>A batch read and written with nothing in between.\<close>

lemma reapBatch_rows:
  fixes cfg :: EventsFeatureConfig and now :: int
  assumes "primary_key rows"
  defines "sel \<equiv> take REAP_BATCH (sort_key createdAt_ob (filter (stale cfg now) rows))"
  shows "fst (reapBatch cfg now rows out) = map (\<lambda>r. if r \<in> set sel then reap_row cfg now r else r) rows"
    and "snd (snd (reapBatch cfg now rows out)) = length sel"
proof -
  let ?batch = "map (\<lambda>r. (id_ob r, retryCount_ob r)) sel"
  let ?ex = "map fst (filter (\<lambda>x. outboxMaxRetries cfg \<le> snd x + 1) ?batch)"
  have batch: "stale_batch cfg now rows = ?batch" by (simp add: stale_batch_def sel_def)
  have sub: "set sel \<subseteq> {r \<in> set rows. stale cfg now r}" by (auto simp: sel_def dest: in_set_takeD)
  have keys: "distinct (map fst ?batch)"
    using assms(1) distinct_sort_take[of id_ob rows REAP_BATCH createdAt_ob "stale cfg now"]
    by (simp add: sel_def comp_def primary_key_def)
  have look: "map_of ?batch (id_ob r) = (if r \<in> set sel then Some (retryCount_ob r) else None)" if "r \<in> set rows" for r
  proof (cases "r \<in> set sel")
    case True
    then show ?thesis using keys by (auto intro!: map_of_is_SomeI)
  next
    case False
    have "set sel \<subseteq> set rows" using sub by blast
    then have "id_ob r \<notin> id_ob ` set sel" using id_in_selected[OF assms(1) that, of sel] False by simp
    then show ?thesis using False by (simp add: map_of_eq_None_iff image_comp comp_def)
  qed
  have ex: "id_ob r \<in> set ?ex \<longleftrightarrow> r \<in> set sel \<and> outboxMaxRetries cfg \<le> retryCount_ob r + 1" if "r \<in> set rows" for r
    using sub same_row[OF assms(1) that] by force
  let ?rows1 = "if ?ex = [] then rows else fst (reap_failed now ?ex rows)"
  have rows1: "?rows1 = map (\<lambda>r. if id_ob r \<in> set ?ex \<and> still_claimed r then reaped_failed now r else r) rows"
  proof (cases "?ex = []")
    case True
    then show ?thesis unfolding True by simp
  next
    case False
    show ?thesis unfolding if_not_P[OF False] by (rule reap_failed_rows)
  qed
  have "fst (reap_writes cfg now ?batch rows out) =
    map (\<lambda>r. case map_of ?batch (id_ob r) of None \<Rightarrow> r
      | Some n \<Rightarrow> if id_ob r \<notin> set ?ex \<and> still_claimed r then reaped_retry cfg now (n + 1) r else r) ?rows1"
    unfolding reap_writes_def Let_def by (auto simp only: reap_loop_rows[OF keys] split: prod.split if_split) simp_all
  also have "\<dots> = map (\<lambda>r. if r \<in> set sel then reap_row cfg now r else r) rows"
  proof -
    have claimed: "still_claimed r" if "r \<in> set sel" for r using that sub stale_claimed by blast
    show ?thesis unfolding rows1 map_map comp_def
    proof (intro map_cong refl)
      fix r assume r: "r \<in> set rows"
      let ?r = "if id_ob r \<in> set ?ex \<and> still_claimed r then reaped_failed now r else r"
      show "(case map_of ?batch (id_ob ?r) of None \<Rightarrow> ?r
          | Some n \<Rightarrow> if id_ob ?r \<notin> set ?ex \<and> still_claimed ?r then reaped_retry cfg now (n + 1) ?r else ?r) =
          (if r \<in> set sel then reap_row cfg now r else r)"
        unfolding if_distrib[of id_ob] reaped_fields if_cancel ex[OF r] look[OF r]
        using claimed[of r] by (auto simp: reap_row_def)
    qed
  qed
  finally have writes: "fst (reap_writes cfg now ?batch rows out) = map (\<lambda>r. if r \<in> set sel then reap_row cfg now r else r) rows" .
  show "fst (reapBatch cfg now rows out) = map (\<lambda>r. if r \<in> set sel then reap_row cfg now r else r) rows"
    using writes by (auto simp: reapBatch_def batch Let_def split: prod.splits)
  show "snd (snd (reapBatch cfg now rows out)) = length sel"
    by (simp add: reapBatch_def batch Let_def split: prod.split)
qed

lemma sort_key_rest:
  assumes "distinct xs"
  shows "sort_key f (filter (\<lambda>x. x \<notin> set (take k (sort_key f xs))) xs) = drop k (sort_key f xs)"
proof -
  let ?ys = "sort_key f xs"
  have d: "distinct ?ys" using assms by simp
  have "filter (\<lambda>x. x \<notin> set (take k ?ys)) (take k ?ys @ drop k ?ys) = drop k ?ys"
    using set_take_disj_set_drop_if_distinct[OF d order_refl, of k] by (auto simp: filter_id_conv simp del: append_take_drop_id)
  then show ?thesis by (simp add: filter_sort)
qed

text \<open>A sweep of \<open>n\<close> batches ends the oldest \<open>n * REAP_BATCH\<close> stale claims.\<close>

lemma sweep_rows:
  "primary_key rows \<Longrightarrow> fst (reap_sweep cfg now n rows out) =
     map (\<lambda>r. if r \<in> set (take (n * REAP_BATCH) (sort_key createdAt_ob (filter (stale cfg now) rows))) then reap_row cfg now r else r) rows"
proof (induction n arbitrary: rows out)
  case (Suc n)
  let ?S = "filter (stale cfg now)"
  define T where "T = sort_key createdAt_ob (?S rows)"
  define sel where "sel = take REAP_BATCH T"
  obtain rows' out' m where b: "reapBatch cfg now rows out = (rows', out', m)" by (cases "reapBatch cfg now rows out") auto
  have m: "m = length sel" and rows': "rows' = map (\<lambda>r. if r \<in> set sel then reap_row cfg now r else r) rows"
    using reapBatch_rows[OF Suc.prems, of cfg now out] by (simp_all add: b sel_def T_def)
  have key: "primary_key rows'" using Suc.prems by (simp add: primary_key_def rows' comp_def if_distrib[of id_ob] cong: if_cong)
  have dist: "distinct (?S rows)" using Suc.prems by (simp add: primary_key_def distinct_map)
  have add: "take (Suc n * REAP_BATCH) T = sel @ take (n * REAP_BATCH) (drop REAP_BATCH T)"
    by (simp add: sel_def take_add)
  show ?case
  proof (cases "m < REAP_BATCH")
    case True
    then have "take (Suc n * REAP_BATCH) T = sel" unfolding add by (simp add: m sel_def)
    then show ?thesis using True by (simp add: b rows' del: mult_Suc flip: T_def)
  next
    case False
    have "?S rows' = filter (\<lambda>r. r \<notin> set sel) (?S rows)" unfolding rows' by (induction rows) auto
    then have rest: "sort_key createdAt_ob (?S rows') = drop REAP_BATCH T"
      using sort_key_rest[OF dist, of createdAt_ob REAP_BATCH] by (simp add: sel_def T_def)
    have "set (take (n * REAP_BATCH) (drop REAP_BATCH T)) \<subseteq> {r. stale cfg now r}"
      by (auto simp: T_def dest!: in_set_takeD in_set_dropD)
    then have "fst (reap_sweep cfg now n rows' out') =
        map (\<lambda>r. if r \<in> set (take (Suc n * REAP_BATCH) T) then reap_row cfg now r else r) rows"
      unfolding Suc.IH[OF key] rest add by (auto simp: rows' intro!: map_cong)
    then show ?thesis using False by (simp add: b T_def)
  qed
qed simp

text \<open>The stale claims a sweep leaves.\<close>

lemma sweep_leaves:
  assumes "primary_key rows"
  shows "length (filter (stale cfg now) (fst (reap_sweep cfg now n rows out))) = length (filter (stale cfg now) rows) - n * REAP_BATCH"
proof -
  define T where "T = sort_key createdAt_ob (filter (stale cfg now) rows)"
  define sel where "sel = take (n * REAP_BATCH) T"
  have "distinct (filter (stale cfg now) rows)" using assms by (simp add: primary_key_def distinct_map)
  note rest = sort_key_rest[OF this, of createdAt_ob "n * REAP_BATCH", folded T_def sel_def]
  have "filter (stale cfg now) (fst (reap_sweep cfg now n rows out)) = filter (\<lambda>r. r \<notin> set sel) (filter (stale cfg now) rows)"
    unfolding sweep_rows[OF assms] T_def[symmetric] sel_def[symmetric] by (induction rows) auto
  then show ?thesis using arg_cong[OF rest, of length] by (simp add: T_def)
qed

lemma reap_sweep_keeps:
  assumes "\<And>cfg now rows out. I rows \<Longrightarrow> I (fst (reapBatch cfg now rows out))" and "I rows"
  shows "I (fst (reap_sweep cfg now n rows out))"
  using assms(2)
proof (induction n arbitrary: rows out)
  case (Suc n)
  obtain rows' out' m where b: "reapBatch cfg now rows out = (rows', out', m)" by (cases "reapBatch cfg now rows out") auto
  then have "I rows'" using assms(1)[OF Suc.prems, of cfg now out] by simp
  then show ?case using Suc.IH b by simp
qed simp

section \<open>A claim that was ended\<close>

text \<open>Rows only advance: the id stays, a row that is DONE stays as it is and the retry count never falls.\<close>

definition advances :: "OutboxEvent \<Rightarrow> OutboxEvent \<Rightarrow> bool" where
  "advances r r' \<longleftrightarrow> id_ob r' = id_ob r \<and> (status_ob r = DONE \<longrightarrow> r' = r) \<and> retryCount_ob r \<le> retryCount_ob r'"

text \<open>A claim with number \<open>n\<close> has no say any more.\<close>

definition spent :: "string \<Rightarrow> nat \<Rightarrow> outbox \<Rightarrow> bool" where
  "spent i n rows \<longleftrightarrow> (\<forall>r \<in> set rows. id_ob r = i \<longrightarrow> status_ob r = DONE \<or> n < retryCount_ob r)"

lemma advances_map:
  assumes "\<And>r. r \<in> set rows \<Longrightarrow> advances r (f r)"
  shows "primary_key rows \<Longrightarrow> primary_key (map f rows)" and "spent i n rows \<Longrightarrow> spent i n (map f rows)"
proof -
  have "map (id_ob \<circ> f) rows = map id_ob rows" using assms by (auto simp: advances_def)
  then show "primary_key rows \<Longrightarrow> primary_key (map f rows)" by (simp only: primary_key_def map_map)
  show "spent i n (map f rows)" if "spent i n rows"
    unfolding spent_def
  proof (intro ballI impI)
    fix r' assume "r' \<in> set (map f rows)" "id_ob r' = i"
    then obtain r where r: "r \<in> set rows" "r' = f r" by auto
    with assms[OF r(1)] that \<open>id_ob r' = i\<close> have "status_ob r = DONE \<or> n < retryCount_ob r"
      by (auto simp: spent_def advances_def)
    with assms[OF r(1)] show "status_ob r' = DONE \<or> n < retryCount_ob r'" by (auto simp: r(2) advances_def)
  qed
qed

lemma advances_refl [simp]: "advances r r"
  by (simp add: advances_def)

definition ended :: "string \<Rightarrow> nat \<Rightarrow> outbox \<Rightarrow> bool" where
  "ended i n rows \<longleftrightarrow> primary_key rows \<and> spent i n rows"

lemma ended_map:
  "ended i n rows \<Longrightarrow> (\<And>r. r \<in> set rows \<Longrightarrow> advances r (f r)) \<Longrightarrow> ended i n (map f rows)"
  using advances_map by (simp add: ended_def)

lemma ended_update:
  "ended i n rows \<Longrightarrow> (\<And>r. r \<in> set rows \<Longrightarrow> P r \<Longrightarrow> advances r (g r)) \<Longrightarrow> ended i n (update_rows P g rows)"
  unfolding update_rows_map by (rule ended_map) auto

lemma settled_status: "settleWhere i c r \<Longrightarrow> status_ob r \<noteq> DONE"
  by (auto simp: settleWhere_def OUTBOX_CLAIMED_STATUSES_def)

lemma ended_retry_write: "ended i n rows \<Longrightarrow> ended i n (fst (retry_write cfg j e k now rows))"
  by (auto simp: retry_write_def Let_def advances_def failed_row_def retried_row_def settleWhere_def
      OUTBOX_CLAIMED_STATUSES_def intro!: ended_update)

lemma ended_reapBatch:
  assumes "ended i n rows" shows "ended i n (fst (reapBatch cfg now rows out))"
proof -
  have key: "primary_key rows" using assms by (simp add: ended_def)
  have "advances r (reap_row cfg now r)" if "stale cfg now r" for r
    using that by (auto simp: advances_def reap_row_def reaped_failed_def reaped_retry_def stale_def)
  then show ?thesis unfolding reapBatch_rows(1)[OF key]
    by (intro ended_map[OF assms]) (auto dest!: in_set_takeD)
qed

text \<open>Every call but a write of the reaper for a batch it read earlier leaves an ended claim ended.\<close>

fun no_racing_reaper :: "outbox_call \<Rightarrow> bool" where
  "no_racing_reaper (ReapWrites now batch) = False"
| "no_racing_reaper _ = True"

lemma ended_step: "no_racing_reaper c \<Longrightarrow> ended i n rows \<Longrightarrow> ended i n (run_outbox cfg c rows)"
proof (cases c)
  case (ScheduleRetry j e k now)
  moreover assume "ended i n rows"
  ultimately show ?thesis by (auto simp: scheduleRetry_def intro: ended_retry_write split: option.split)
next
  case (RetryWrite j e k now)
  moreover assume "ended i n rows"
  ultimately show ?thesis by (auto intro: ended_retry_write)
next
  case (ReapSweep now)
  moreover assume "ended i n rows"
  ultimately show ?thesis
    by (simp add: reapStaleClaims_def) (rule reap_sweep_keeps[where I = "ended i n"], rule ended_reapBatch)
qed (auto simp: claim_def release_def markDone_def markFailed_def retryFailed_def Let_def advances_def failed_row_def
       intro!: ended_update dest: settled_status)

interpretation ended: step_system "run_outbox cfg" no_racing_reaper "ended i n"
  by unfold_locales (rule ended_step)

text \<open>Ending a claim, and asking again with its number.\<close>

lemma settle_ends:
  assumes key: "primary_key rows" and r0: "r0 \<in> set rows" "settleWhere i (Some n) r0"
    and g: "\<And>r. settleWhere i (Some n) r \<Longrightarrow> id_ob (g r) = id_ob r \<and> (status_ob (g r) = DONE \<or> n < retryCount_ob (g r))"
  shows "ended i n (update_rows (settleWhere i (Some n)) g rows)"
proof -
  let ?f = "\<lambda>r. if settleWhere i (Some n) r then g r else r"
  have "map id_ob (map ?f rows) = map id_ob rows" using g by auto
  then have "primary_key (map ?f rows)" using key by (simp only: primary_key_def)
  moreover have "spent i n (map ?f rows)"
    unfolding spent_def
  proof (intro ballI impI)
    fix r' assume "r' \<in> set (map ?f rows)" "id_ob r' = i"
    then obtain r where r: "r \<in> set rows" "r' = ?f r" by auto
    then have "id_ob r = i" using \<open>id_ob r' = i\<close> g[of r] by (auto split: if_splits)
    then have "r = r0" using same_row[OF key r(1) r0(1)] r0(2) by (simp add: settleWhere_def)
    then show "status_ob r' = DONE \<or> n < retryCount_ob r'" using r(2) r0(2) g[of r0] by simp
  qed
  ultimately show ?thesis unfolding ended_def update_rows_map by simp
qed

lemma count_rows_ex: "count_rows P rows = Suc k \<Longrightarrow> \<exists>r \<in> set rows. P r"
  using count_rows_0[of P rows] by (auto simp del: count_rows_0)

lemma settled_ended:
  assumes key: "primary_key rows"
  shows "markDone i (Some n) now rows = (rows', True) \<Longrightarrow> ended i n rows'"
    and "markFailed i e (Some n) now rows = (rows', True) \<Longrightarrow> ended i n rows'"
    and "scheduleRetry cfg i e (Some n) now rows = (rows', out) \<Longrightarrow> out \<noteq> SKIPPED \<Longrightarrow> ended i n rows'"
proof -
  note ends = settle_ends[OF key]
  show "ended i n rows'" if "markDone i (Some n) now rows = (rows', True)"
    using that by (auto simp: markDone_def dest!: count_rows_ex intro!: ends)
  show "ended i n rows'" if "markFailed i e (Some n) now rows = (rows', True)"
    using that by (auto simp: markFailed_def failed_row_def settleWhere_def dest!: count_rows_ex intro!: ends)
  show "ended i n rows'" if run: "scheduleRetry cfg i e (Some n) now rows = (rows', out)" "out \<noteq> SKIPPED"
  proof -
    obtain r where r: "find (settleWhere i (Some n)) rows = Some r"
      using run by (auto simp: scheduleRetry_def split: option.splits)
    then have r0: "r \<in> set rows" "settleWhere i (Some n) r" and n: "retryCount_ob r = n"
      using find_SomeD[OF r] by (auto simp: settleWhere_def)
    have "retry_write cfg i e n now rows = (rows', out)" using run(1) by (simp add: scheduleRetry_def r n)
    then show ?thesis
      by (auto simp: retry_write_def Let_def failed_row_def retried_row_def settleWhere_def split: if_splits
          intro!: ends[OF r0])
  qed
qed

lemma ended_refuses:
  assumes "ended i n rows"
  shows "markDone i (Some n) now rows = (rows, False)" "markFailed i e (Some n) now rows = (rows, False)"
    "scheduleRetry cfg i e (Some n) now rows = (rows, SKIPPED)"
proof -
  have no: "\<not> settleWhere i (Some n) r" if "r \<in> set rows" for r
    using assms that by (auto simp: ended_def spent_def settleWhere_def OUTBOX_CLAIMED_STATUSES_def)
  have same: "update_rows (settleWhere i (Some n)) g rows = rows" for g
    using no by (auto simp: update_rows_map intro!: map_idI)
  have none: "count_rows (settleWhere i (Some n)) rows = 0" using no by simp
  show "markDone i (Some n) now rows = (rows, False)" "markFailed i e (Some n) now rows = (rows, False)"
    by (simp_all only: markDone_def markFailed_def same none) simp_all
  have "find (settleWhere i (Some n)) rows = None" using no by (simp add: find_None_iff)
  then show "scheduleRetry cfg i e (Some n) now rows = (rows, SKIPPED)" by (simp add: scheduleRetry_def)
qed

end
