(* ===== verification/OutboxBehaviour.thy ===== *)
theory OutboxBehaviour
  imports OutboxProperties
begin

text \<open>
  The properties of the outbox, with a worked outbox for their witnesses, and the race the reaper
  leaves open.
\<close>

section \<open>Retries are bounded\<close>

text \<open>A row that may still be delivered has attempts left; no row counts more than the limit.\<close>

definition within_retries :: "EventsFeatureConfig \<Rightarrow> OutboxEvent \<Rightarrow> bool" where
  "within_retries cfg r \<longleftrightarrow> retryCount_ob r \<le> outboxMaxRetries cfg \<and>
     (status_ob r \<in> {PENDING, CLAIMED, PROCESSING} \<longrightarrow> retryCount_ob r < outboxMaxRetries cfg)"

lemma within_retriesD:
  "within_retries cfg r \<Longrightarrow> retryCount_ob r \<le> outboxMaxRetries cfg \<and>
    (retryCount_ob r = outboxMaxRetries cfg \<longrightarrow> status_ob r = DONE \<or> status_ob r = FAILED)"
  by (cases "status_ob r") (auto simp: within_retries_def)

definition retries_ok :: "EventsFeatureConfig \<Rightarrow> outbox \<Rightarrow> bool" where
  "retries_ok cfg rows \<longleftrightarrow> (\<forall>r \<in> set rows. within_retries cfg r)"

fun no_operator :: "outbox_call \<Rightarrow> bool" where
  "no_operator (RetryFailed shop i) = False"
| "no_operator _ = True"

lemma retries_update:
  "retries_ok cfg rows \<Longrightarrow> (\<And>r. P r \<Longrightarrow> within_retries cfg r \<Longrightarrow> within_retries cfg (g r)) \<Longrightarrow>
    retries_ok cfg (update_rows P g rows)"
  by (auto simp: retries_ok_def set_update_rows)

lemma retries_retry_write: "retries_ok cfg rows \<Longrightarrow> retries_ok cfg (fst (retry_write cfg i e n now rows))"
  by (auto simp: retry_write_def Let_def within_retries_def failed_row_def retried_row_def settleWhere_def
      OUTBOX_CLAIMED_STATUSES_def intro!: retries_update)

lemma retries_reap_loop:
  assumes "retries_ok cfg rows" and "\<forall>x \<in> set batch. outboxMaxRetries cfg \<le> snd x + 1 \<longrightarrow> fst x \<in> set exhausted"
  shows "retries_ok cfg (fst (reap_loop cfg now exhausted batch rows out))"
  using assms
proof (induction batch arbitrary: rows out)
  case (Cons x batch)
  have "retries_ok cfg (fst (reap_retry cfg now x rows))" if "fst x \<notin> set exhausted"
    using Cons.prems that
    by (auto simp: reap_retry_def Let_def within_retries_def still_claimed_def intro!: retries_update)
  then show ?case using Cons by (auto split: prod.split)
qed simp

lemma retries_reap_writes: "retries_ok cfg rows \<Longrightarrow> retries_ok cfg (fst (reap_writes cfg now batch rows out))"
proof -
  assume ok: "retries_ok cfg rows"
  have failed: "retries_ok cfg (fst (reap_failed now ids rows))" for ids
    using ok by (auto simp: reap_failed_def Let_def within_retries_def still_claimed_def intro!: retries_update)
  let ?ex = "map fst (filter (\<lambda>x. outboxMaxRetries cfg \<le> snd x + 1) batch)"
  obtain rows1 m where r: "(if ?ex = [] then (rows, 0) else reap_failed now ?ex rows) = (rows1, m)" by fastforce
  have "retries_ok cfg rows1" using ok failed[of ?ex] r by (auto split: if_splits)
  moreover have "\<forall>x \<in> set batch. outboxMaxRetries cfg \<le> snd x + 1 \<longrightarrow> fst x \<in> set ?ex" by force
  ultimately show ?thesis unfolding reap_writes_def Let_def r by (simp add: retries_reap_loop)
qed

lemma retries_reapBatch: "retries_ok cfg rows \<Longrightarrow> retries_ok cfg (fst (reapBatch cfg now rows out))"
  using retries_reap_writes[of cfg rows now "stale_batch cfg now rows" out]
  by (auto simp: reapBatch_def Let_def split: prod.split)

lemma retries_sweep: "retries_ok cfg rows \<Longrightarrow> retries_ok cfg (fst (reap_sweep cfg now n rows out))"
proof (induction n arbitrary: rows out)
  case (Suc n)
  then show ?case using retries_reapBatch[OF Suc.prems, of now out] by (auto split: prod.split)
qed simp

lemma retries_step: "no_operator c \<Longrightarrow> retries_ok cfg rows \<Longrightarrow> retries_ok cfg (run_outbox cfg c rows)"
proof (cases c)
  case (ScheduleRetry j e k now)
  moreover assume "retries_ok cfg rows"
  ultimately show ?thesis by (auto simp: scheduleRetry_def intro: retries_retry_write split: option.split)
next
  case (ReapSweep now)
  moreover assume "retries_ok cfg rows"
  ultimately show ?thesis by (simp add: reapStaleClaims_def retries_sweep)
qed (auto simp: claim_def release_def markDone_def markFailed_def Let_def within_retries_def failed_row_def settleWhere_def
       OUTBOX_CLAIMED_STATUSES_def retries_retry_write retries_reap_writes intro!: retries_update)

interpretation attempts: step_system "run_outbox cfg" no_operator "retries_ok cfg"
  by unfold_locales (rule retries_step)

section \<open>Claims\<close>

lemma claim_rows:
  assumes key: "primary_key rows"
  shows "claim p now b locked rows =
    (map (\<lambda>r. if r \<in> set (selected p now b locked rows)
        then r\<lparr>status_ob := CLAIMED, claimedAt_ob := Some now, error_ob := None\<rparr> else r) rows,
     map claimed_columns (selected p now b locked rows))"
proof -
  let ?sel = "selected p now b locked rows"
  have sub: "set ?sel \<subseteq> set rows" and pend: "\<And>r. r \<in> set ?sel \<Longrightarrow> status_ob r = PENDING"
    using set_selected[of p now b locked rows] by (auto simp: claimable_def)
  have "id_ob r \<in> id_ob ` set ?sel \<and> status_ob r = PENDING \<longleftrightarrow> r \<in> set ?sel" if "r \<in> set rows" for r
    using id_in_selected[OF key that sub] pend by auto
  then show ?thesis by (cases "?sel = []") (auto simp: claim_def Let_def update_rows_map intro!: map_idI[symmetric])
qed

lemma selected_distinct: "primary_key rows \<Longrightarrow> distinct (map id_ob (selected p now b locked rows))"
  unfolding selected_def primary_key_def by (rule distinct_sort_take)

section \<open>Relays\<close>

definition plain_char :: "char \<Rightarrow> bool" where
  "plain_char c \<longleftrightarrow> c \<noteq> CHR ''%'' \<and> c \<noteq> CHR ''_'' \<and> c \<noteq> CHR 0x5C"

lemma like_any: "like ''%'' s"
  by (induction s) auto

lemma like_prefix: "list_all plain_char p \<Longrightarrow> like (p @ ''%'') s = startsWith s p"
proof (induction p arbitrary: s)
  case Nil
  then show ?case using like_any by (simp add: startsWith_def)
next
  case (Cons c p)
  then show ?case by (cases s) (auto simp: startsWith_def plain_char_def)
qed

lemma prefixes_plain: "list_all (list_all plain_char) DOMAIN_RELAY_TYPE_PREFIXES"
  by code_simp

lemma like_relay: "q \<in> set DOMAIN_RELAY_TYPE_PREFIXES \<Longrightarrow> like (q @ ''%'') ty = startsWith ty q"
  using prefixes_plain by (intro like_prefix) (simp add: list_all_iff)

lemma relay_predicates:
  "buildPurchaseEventsTypePredicate ty = isPurchaseRelayType ty"
  "buildProductEventsTypePredicate ty = list_ex (\<lambda>p. startsWith ty p) PRODUCT_RELAY_TYPE_PREFIXES"
  "buildSystemEventsTypePredicate ty = (\<not> isDomainRelayOwnedType ty)"
  using like_relay
  by (auto simp: buildPurchaseEventsTypePredicate_def buildProductEventsTypePredicate_def buildOwnedTypePredicate_def
      buildSystemEventsTypePredicate_def isPurchaseRelayType_def isDomainRelayOwnedType_def DOMAIN_RELAY_TYPE_PREFIXES_def
      list_ex_iff list_all_iff)

text \<open>Two prefixes of one text: one of them starts with the other.\<close>

lemma startsWith_comparable: "startsWith s p \<Longrightarrow> startsWith s q \<Longrightarrow> startsWith p q \<or> startsWith q p"
  unfolding startsWith_def by (metis min_def nat_le_linear take_take)

lemma prefixes_apart:
  "list_all (\<lambda>p. list_all (\<lambda>q. \<not> startsWith p q \<and> \<not> startsWith q p) PRODUCT_RELAY_TYPE_PREFIXES) PURCHASE_RELAY_TYPE_PREFIXES"
  by code_simp

lemma not_both_relays: "\<not> (isPurchaseRelayType ty \<and> list_ex (\<lambda>p. startsWith ty p) PRODUCT_RELAY_TYPE_PREFIXES)"
  using prefixes_apart startsWith_comparable[of ty] by (fastforce simp: isPurchaseRelayType_def list_ex_iff list_all_iff)

section \<open>Job identifiers\<close>

lemma nat_text_digits: "c \<in> set (nat_text n) \<Longrightarrow> c \<noteq> CHR ''.''"
proof (induction n rule: nat_text.induct)
  case (1 n)
  have digit: "(char_of (48 + k) :: char) \<noteq> CHR ''.''" if "k < 10" for k :: nat
  proof
    assume "(char_of (48 + k) :: char) = CHR ''.''"
    then have "of_char (char_of (48 + k) :: char) = (of_char (CHR ''.'') :: nat)" by simp
    then show False using that by simp
  qed
  show ?case
  proof (cases "n < 10")
    case True
    then show ?thesis using 1(2) digit[OF True] by (simp add: nat_text.simps[of n])
  next
    case False
    then show ?thesis using 1 digit[of "n mod 10"] by (auto simp: nat_text.simps[of n])
  qed
qed

lemma text_split:
  assumes "i @ ''.'' @ s = j @ ''.'' @ t" and "CHR ''.'' \<notin> set s" and "CHR ''.'' \<notin> set t"
  shows "i = j \<and> s = t"
proof -
  have tw: "takeWhile (\<lambda>c. c \<noteq> CHR ''.'') (rev (k @ ''.'' @ u)) = rev u" if "CHR ''.'' \<notin> set u" for k u
  proof -
    have "takeWhile (\<lambda>c. c \<noteq> CHR ''.'') (rev u @ CHR ''.'' # rev k) = takeWhile (\<lambda>c. c \<noteq> CHR ''.'') (rev u)"
      by (rule takeWhile_tail) simp
    also have "\<dots> = rev u" using that by (auto simp: takeWhile_eq_all_conv)
    finally show ?thesis by simp
  qed
  have "rev s = rev t" unfolding tw[OF assms(2), of i, symmetric] tw[OF assms(3), of j, symmetric] assms(1) ..
  then show ?thesis using assms(1) by simp
qed

lemma nat_text_inj: "nat_text m = nat_text n \<Longrightarrow> m = n"
proof (induction m arbitrary: n rule: nat_text.induct)
  case (1 m)
  have digit: "(char_of (48 + k) :: char) = char_of (48 + l) \<Longrightarrow> k = l" if "k < 10" "l < 10" for k l :: nat
  proof -
    assume "(char_of (48 + k) :: char) = char_of (48 + l)"
    then have "(of_char (char_of (48 + k) :: char) :: nat) = of_char (char_of (48 + l) :: char)" by simp
    then show "k = l" using that by simp
  qed
  have ne: "nat_text k \<noteq> []" for k by (subst nat_text.simps) auto
  show ?case
  proof (cases "m < 10")
    case True
    have "n < 10"
    proof (rule ccontr)
      assume "\<not> n < 10"
      then have "length (nat_text n) = Suc (length (nat_text (n div 10)))" by (simp add: nat_text.simps[of n])
      moreover have "length (nat_text m) = 1" using True by (simp add: nat_text.simps[of m])
      ultimately show False using 1(2) ne[of "n div 10"] by simp
    qed
    then show ?thesis using 1(2) True digit by (simp add: nat_text.simps[of m] nat_text.simps[of n])
  next
    case False
    have "\<not> n < 10"
    proof
      assume "n < 10"
      then have "length (nat_text n) = 1" by (simp add: nat_text.simps[of n])
      moreover have "length (nat_text m) = Suc (length (nat_text (m div 10)))" using False by (simp add: nat_text.simps[of m])
      ultimately show False using 1(2) ne[of "m div 10"] by simp
    qed
    with False have "nat_text (m div 10) = nat_text (n div 10)" "(char_of (48 + m mod 10) :: char) = char_of (48 + n mod 10)"
      using 1(2) nat_text.simps[of m] nat_text.simps[of n] by simp_all
    then have "m div 10 = n div 10" "m mod 10 = n mod 10" using 1(1) False digit[of "m mod 10" "n mod 10"] by auto
    then show ?thesis by (metis div_mult_mod_eq)
  qed
qed

lemma job_ids_unique: "(jobIdFor i m = jobIdFor j n) = (i = j \<and> m = n)"
proof
  assume "jobIdFor i m = jobIdFor j n"
  moreover have "CHR ''.'' \<notin> set (nat_text k)" for k using nat_text_digits by blast
  ultimately have "i = j \<and> nat_text m = nat_text n" unfolding jobIdFor_def by (intro text_split)
  then show "i = j \<and> m = n" using nat_text_inj by blast
qed simp

lemma relay_job_ids:
  assumes "primary_key rows"
  shows "distinct (map jobId_jb (relay_jobs parse (map claimed_columns (selected p now b locked rows))))"
proof -
  have "distinct (map id_ob (selected p now b locked rows))" by (rule selected_distinct[OF assms])
  then have "distinct (map (\<lambda>r. jobIdFor (id_ob r) (retryCount_ob r)) (selected p now b locked rows))"
    by (auto simp: distinct_map inj_on_def job_ids_unique)
  then show ?thesis by (simp add: relay_jobs_def claimed_columns_def comp_def)
qed

text \<open>Claiming rows and releasing them again.\<close>

lemma released_rows:
  fixes p :: "string \<Rightarrow> bool" and now :: int and b :: nat and locked :: "string list"
  assumes key: "primary_key rows"
  defines "sel \<equiv> selected p now b locked rows"
  shows "map (\<lambda>r. (id_ob r, status_ob r, retryCount_ob r, nextAttemptAt_ob r))
      (release (map id_cl (map claimed_columns sel)) (fst (claim p now b locked rows))) =
    map (\<lambda>r. (id_ob r, status_ob r, retryCount_ob r, nextAttemptAt_ob r)) rows"
proof -
  have sub: "set sel \<subseteq> set rows" and pend: "r \<in> set sel \<Longrightarrow> status_ob r = PENDING" for r
    using set_selected[of p now b locked rows] by (auto simp: sel_def claimable_def)
  have "id_ob r \<in> id_ob ` set sel \<longleftrightarrow> r \<in> set sel" if "r \<in> set rows" for r
    by (rule id_in_selected[OF key that sub])
  then show ?thesis using pend
    by (auto simp: release_def claim_rows[OF key] sel_def[symmetric] update_rows_map claimed_columns_def comp_def intro!: map_cong)
qed

section \<open>A worked outbox\<close>

definition sample_cfg :: EventsFeatureConfig where
  "sample_cfg = \<lparr>outboxMaxRetries = 3, outboxRetryBackoffMs = 1000, outboxRetryBackoffMaxMs = 1500, outboxStaleClaimMs = 10000\<rparr>"

definition sample_event :: "string \<Rightarrow> string \<Rightarrow> int \<Rightarrow> OutboxEvent" where
  "sample_event i ty created =
     \<lparr>id_ob = i, shopId_ob = ''sh'', tenantId_ob = None, type_ob = ty, payload_ob = JObject [], correlationId_ob = None,
      actorId_ob = None, entityId_ob = None, status_ob = PENDING, error_ob = None, retryCount_ob = 0, createdAt_ob = created,
      processedAt_ob = None, claimedAt_ob = None, nextAttemptAt_ob = None\<rparr>"

definition sample_rows :: outbox where
  "sample_rows =
     [sample_event ''e1'' ''INVOICE_CREATED'' 20, sample_event ''e2'' ''GRNAccepted'' 5,
      sample_event ''e3'' ''INVOICE_RETURNED'' 10, sample_event ''e4'' ''INVOICE_CANCELLED'' 30]"

text \<open>Two system events claimed at time 100.\<close>

definition sample_claimed :: outbox where
  "sample_claimed = fst (claim buildSystemEventsTypePredicate 100 2 [] sample_rows)"

lemma sample_key: "primary_key sample_rows" "primary_key sample_claimed"
  by code_simp+

section \<open>The properties\<close>

text \<open>A claim takes each due event once, the oldest first. The rows a claim returns were PENDING,
  due, of the relay's types and not locked, at most a batch, each once; exactly they become
  CLAIMED at this instant and no other row changes; a claimable row is only left when the batch is
  full of rows at least as old.\<close>

theorem claim_takes_oldest:
  assumes key: "primary_key rows" and run: "claim p now b locked rows = (rows', got)"
  shows "length got \<le> b \<and> distinct (map id_cl got) \<and>
    list_all (\<lambda>c. list_ex (\<lambda>r. claimable p now locked r \<and> c = claimed_columns r) rows) got \<and>
    rows' = map (\<lambda>r. if id_ob r \<in> set (map id_cl got)
      then r\<lparr>status_ob := CLAIMED, claimedAt_ob := Some now, error_ob := None\<rparr> else r) rows \<and>
    list_all (\<lambda>r. claimable p now locked r \<longrightarrow> id_ob r \<notin> set (map id_cl got) \<longrightarrow>
      length got = b \<and> list_all (\<lambda>t. id_ob t \<in> set (map id_cl got) \<longrightarrow> createdAt_ob t \<le> createdAt_ob r) rows) rows"
proof -
  let ?sel = "selected p now b locked rows"
  have rows': "rows' = map (\<lambda>r. if r \<in> set ?sel then r\<lparr>status_ob := CLAIMED, claimedAt_ob := Some now, error_ob := None\<rparr> else r) rows"
    and got: "got = map claimed_columns ?sel" using run claim_rows[OF key, of p now b locked] by auto
  have sub: "set ?sel \<subseteq> {r \<in> set rows. claimable p now locked r}" by (rule set_selected)
  have ids: "map id_cl got = map id_ob ?sel" by (simp add: got claimed_columns_def)
  have mem: "id_ob r \<in> set (map id_cl got) \<longleftrightarrow> r \<in> set ?sel" if "r \<in> set rows" for r
    using id_in_selected[OF key that, of ?sel] sub by (auto simp: ids)
  have "length got \<le> b" by (simp add: got selected_def)
  moreover have "distinct (map id_cl got)" unfolding ids by (rule selected_distinct[OF key])
  moreover have "list_all (\<lambda>c. list_ex (\<lambda>r. claimable p now locked r \<and> c = claimed_columns r) rows) got"
    using sub by (auto simp: got list_all_iff list_ex_iff)
  moreover have "rows' = map (\<lambda>r. if id_ob r \<in> set (map id_cl got)
      then r\<lparr>status_ob := CLAIMED, claimedAt_ob := Some now, error_ob := None\<rparr> else r) rows"
    using mem by (auto simp: rows' intro!: map_cong)
  moreover have "length got = b \<and> (\<forall>t \<in> set rows. t \<in> set ?sel \<longrightarrow> createdAt_ob t \<le> createdAt_ob r)"
    if "r \<in> set rows" "claimable p now locked r" "r \<notin> set ?sel" for r
    using take_sorted_oldest[of r rows "claimable p now locked" b createdAt_ob] that by (simp add: got selected_def)
  ultimately show ?thesis using mem by (auto simp: list_all_iff)
qed

lemma claim_takes_oldest_witness:
  "distinct (map id_cl (snd (claim buildSystemEventsTypePredicate 100 2 [] sample_rows))) \<and>
   map id_cl (snd (claim buildSystemEventsTypePredicate 100 2 [] sample_rows)) = [''e3'', ''e1'']"
  by (intro conjI conjunct1[OF conjunct2[OF claim_takes_oldest[OF sample_key(1) prod.collapse[symmetric]]]]) code_simp

text \<open>C31: A claim that was ended has no power any more. Once the claim with number n of an event was
  marked done, marked failed or handed back for a retry, then after any further claims, releases,
  settles, operator retries and sweeps (the reaper reading and writing without another writer in
  between), settling with that number again changes nothing and is refused.\<close>

theorem spent_claim_powerless:
  assumes key: "primary_key rows"
    and settled: "markDone i (Some n) now rows = (rows', True) \<or> markFailed i e (Some n) now rows = (rows', True) \<or>
      (scheduleRetry cfg i e (Some n) now rows = (rows', out) \<and> out \<noteq> SKIPPED)"
    and calls: "list_all no_racing_reaper calls" and later: "later = fold (run_outbox cfg) calls rows'"
  shows "markDone i (Some n) now' later = (later, False) \<and> markFailed i e' (Some n) now' later = (later, False) \<and>
    scheduleRetry cfg i e' (Some n) now' later = (later, SKIPPED)"
proof -
  have "ended i n rows'" using settled settled_ended[OF key] by blast
  then have "ended i n later" unfolding later by (rule ended.history[OF calls])
  then show ?thesis using ended_refuses by blast
qed

lemma spent_claim_powerless_witness:
  "snd (markDone ''e1'' (Some 0) 9000 (fold (run_outbox sample_cfg)
      [Claim buildSystemEventsTypePredicate 5000 2 [], ReapSweep 20000] (fst (scheduleRetry sample_cfg ''e1'' ''boom'' (Some 0) 200 sample_claimed)))) = False"
proof -
  let ?r = "scheduleRetry sample_cfg ''e1'' ''boom'' (Some 0) 200 sample_claimed"
  have "snd ?r = RETRY" by code_simp
  then have "scheduleRetry sample_cfg ''e1'' ''boom'' (Some 0) 200 sample_claimed = (fst ?r, RETRY) \<and> RETRY \<noteq> SKIPPED"
    by (simp add: prod_eq_iff)
  moreover have "list_all no_racing_reaper [Claim buildSystemEventsTypePredicate 5000 2 [], ReapSweep 20000]" by simp
  ultimately show ?thesis using spent_claim_powerless[OF sample_key(2) _ _ refl] by (metis snd_conv)
qed

text \<open>C33: Retries are bounded. In an outbox whose rows start with attempts left, whatever relays,
  workers and reapers do and however they interleave (the reaper also writing for a batch it read
  long before), no row ever counts more than \<open>outboxMaxRetries\<close> attempts, and a row that may still
  be delivered has strictly fewer: transient failures end in FAILED. Only an operator's retry
  grants more.\<close>

theorem retries_bounded:
  assumes "list_all (within_retries cfg) rows" and "list_all no_operator calls"
  shows "list_all (\<lambda>r. retryCount_ob r \<le> outboxMaxRetries cfg \<and>
      (retryCount_ob r = outboxMaxRetries cfg \<longrightarrow> status_ob r = DONE \<or> status_ob r = FAILED))
    (fold (run_outbox cfg) calls rows)"
proof -
  have "retries_ok cfg (fold (run_outbox cfg) calls rows)"
    by (rule attempts.history[OF assms(2)]) (use assms(1) in \<open>simp add: retries_ok_def list_all_iff\<close>)
  then show ?thesis by (auto simp: retries_ok_def list_all_iff dest!: within_retriesD)
qed

lemma retries_bounded_witness:
  "list_all (\<lambda>r. retryCount_ob r \<le> 3 \<and> (retryCount_ob r = 3 \<longrightarrow> status_ob r = DONE \<or> status_ob r = FAILED))
    (fold (run_outbox sample_cfg) [Claim buildSystemEventsTypePredicate 100 2 [], ScheduleRetry ''e1'' ''boom'' (Some 0) 200] sample_rows)"
proof -
  have "list_all (within_retries sample_cfg) sample_rows" by code_simp
  moreover have "outboxMaxRetries sample_cfg = 3" by (simp add: sample_cfg_def)
  ultimately show ?thesis
    using retries_bounded[of sample_cfg sample_rows
        "[Claim buildSystemEventsTypePredicate 100 2 [], ScheduleRetry ''e1'' ''boom'' (Some 0) 200]"] by simp
qed

text \<open>C32: A sweep ends the stale claims it may handle, the oldest first. Of a backlog of any size the
  oldest \<open>MAX_BATCHES_PER_SWEEP * REAP_BATCH\<close> stale claims are ended: one with attempts left goes back
  to PENDING with the next attempt after the backoff, one whose attempts are spent becomes FAILED. Every
  other row stays as it is, and what is left of the backlog is what exceeds that number, so nothing is
  left of a smaller one and the next sweep goes on with a larger one.\<close>

theorem sweep_ends_stale_claims:
  assumes "primary_key rows"
  shows "fst (reapStaleClaims cfg now rows) = map (\<lambda>r.
      if r \<notin> set (take (MAX_BATCHES_PER_SWEEP * REAP_BATCH) (sort_key createdAt_ob (filter (stale cfg now) rows))) then r
      else if outboxMaxRetries cfg \<le> retryCount_ob r + 1
      then r\<lparr>status_ob := FAILED, error_ob := Some STALE_ERROR, retryCount_ob := retryCount_ob r + 1, processedAt_ob := Some now\<rparr>
      else r\<lparr>status_ob := PENDING, claimedAt_ob := None, retryCount_ob := retryCount_ob r + 1,
             nextAttemptAt_ob := Some (now + int (backoffMs cfg (retryCount_ob r + 1))), error_ob := Some STALE_ERROR\<rparr>) rows \<and>
    length (filter (stale cfg now) (fst (reapStaleClaims cfg now rows))) =
      length (filter (stale cfg now) rows) - MAX_BATCHES_PER_SWEEP * REAP_BATCH"
proof
  show "length (filter (stale cfg now) (fst (reapStaleClaims cfg now rows))) =
      length (filter (stale cfg now) rows) - MAX_BATCHES_PER_SWEEP * REAP_BATCH"
    unfolding reapStaleClaims_def by (rule sweep_leaves[OF assms])
qed (unfold reapStaleClaims_def sweep_rows[OF assms], intro map_cong, simp_all add: reap_row_def reaped_failed_def reaped_retry_def)

lemma sweep_ends_stale_claims_witness:
  "map (\<lambda>r. (id_ob r, status_ob r, nextAttemptAt_ob r)) (fst (reapStaleClaims sample_cfg 20000 sample_claimed)) =
     [(''e1'', PENDING, Some 21000), (''e2'', PENDING, None), (''e3'', PENDING, Some 21000), (''e4'', PENDING, None)]"
  unfolding conjunct1[OF sweep_ends_stale_claims[OF sample_key(2)]] by code_simp

text \<open>Every event has exactly one relay. Of the SQL predicates of the purchase, product and system
  relays exactly one selects an event type; they agree with the TypeScript mirrors; and the event
  types the code stages go to the system relay.\<close>

theorem relays_partition:
  "length (filter (\<lambda>relay. relay ty)
     [buildPurchaseEventsTypePredicate, buildProductEventsTypePredicate, buildSystemEventsTypePredicate]) = 1 \<and>
   buildPurchaseEventsTypePredicate ty = isPurchaseRelayType ty \<and>
   buildSystemEventsTypePredicate ty = (\<not> isDomainRelayOwnedType ty) \<and>
   list_all buildSystemEventsTypePredicate SYSTEM_EVENT_TYPES"
proof (intro conjI)
  show "length (filter (\<lambda>relay. relay ty)
     [buildPurchaseEventsTypePredicate, buildProductEventsTypePredicate, buildSystemEventsTypePredicate]) = 1"
    using not_both_relays[of ty]
    by (auto simp: relay_predicates isDomainRelayOwnedType_def isPurchaseRelayType_def DOMAIN_RELAY_TYPE_PREFIXES_def)
qed (simp_all add: relay_predicates, code_simp)

section \<open>The race the reaper leaves open\<close>

text \<open>
  The reaper's UPDATE asks only that the row is still claimed, not that it still carries the retry
  count its SELECT read. When between the two the worker hands the row back and a relay claims it
  again, the reaper hands back that fresh claim under the number it already has: the next claim
  gets the same number, so the earlier one can end it, and its job id is one the queue has seen.
\<close>

definition raced :: outbox where
  "raced = fold (run_outbox sample_cfg)
     [ScheduleRetry ''e1'' ''slow'' (Some 0) 19999, Claim buildSystemEventsTypePredicate 21000 9 [],
      ReapWrites 20000 (stale_batch sample_cfg 20000 sample_claimed), Claim buildSystemEventsTypePredicate 22000 9 []] sample_claimed"

lemma reaper_reuses_claim_number:
  "map (\<lambda>c. (id_cl c, retryCount_cl c)) (snd (claim buildSystemEventsTypePredicate 21000 9 []
      (fst (scheduleRetry sample_cfg ''e1'' ''slow'' (Some 0) 19999 sample_claimed)))) = [(''e1'', 1), (''e4'', 0)] \<and>
   map (\<lambda>r. (id_ob r, status_ob r, retryCount_ob r)) (filter (\<lambda>r. id_ob r = ''e1'') raced) = [(''e1'', CLAIMED, 1)] \<and>
   snd (markDone ''e1'' (Some 1) 23000 raced) = True"
  by (intro conjI) code_simp+

text \<open>A queue that refuses loses nothing. When the relay cannot enqueue, every event has the
  status, the attempt count and the due time it had, so it is claimable again; when it can, there
  is one job per claimed event, and job ids are distinct, also from those of any other attempt or
  event.\<close>

theorem relay_loses_nothing:
  assumes key: "primary_key rows" and run: "relayEvents parse addBulk now b locked rows = (rows', jobs)"
  shows "(jobs = [] \<longrightarrow> map (\<lambda>r. (id_ob r, status_ob r, retryCount_ob r, nextAttemptAt_ob r)) rows' =
      map (\<lambda>r. (id_ob r, status_ob r, retryCount_ob r, nextAttemptAt_ob r)) rows) \<and>
    (jobs \<noteq> [] \<longrightarrow> map (\<lambda>j. eventId_jd (data_jb j)) jobs =
      map id_ob (selected buildSystemEventsTypePredicate now b locked rows)) \<and>
    distinct (map jobId_jb jobs) \<and> (jobIdFor i m = jobIdFor j n) = (i = j \<and> m = n)"
proof -
  let ?p = buildSystemEventsTypePredicate
  let ?sel = "selected ?p now b locked rows"
  show ?thesis
  proof (intro conjI impI)
    show "(jobIdFor i m = jobIdFor j n) = (i = j \<and> m = n)" by (rule job_ids_unique)
    show "distinct (map jobId_jb jobs)"
      using run relay_job_ids[OF key, of parse ?p now b locked] by (auto simp: relayEvents_def claim_rows[OF key] Let_def split: if_splits)
    show "map (\<lambda>j. eventId_jd (data_jb j)) jobs = map id_ob ?sel" if "jobs \<noteq> []"
      using run that by (auto simp: relayEvents_def claim_rows[OF key] Let_def relay_jobs_def buildSystemEventJob_def
          claimed_columns_def split: if_splits)
    show "map (\<lambda>r. (id_ob r, status_ob r, retryCount_ob r, nextAttemptAt_ob r)) rows' =
      map (\<lambda>r. (id_ob r, status_ob r, retryCount_ob r, nextAttemptAt_ob r)) rows" if "jobs = []"
      using run that released_rows[OF key, of ?p now b locked]
      by (auto simp: relayEvents_def claim_rows[OF key] Let_def relay_jobs_def comp_def split: if_splits)
  qed
qed

lemma relay_loses_nothing_witness:
  "map jobId_jb (snd (relayEvents (\<lambda>t. None) (\<lambda>jobs. True) 100 2 [] sample_rows)) = [''e3.0'', ''e1.0''] \<and>
   distinct (map jobId_jb (snd (relayEvents (\<lambda>t. None) (\<lambda>jobs. True) 100 2 [] sample_rows))) \<and>
   map status_ob (fst (relayEvents (\<lambda>t. None) (\<lambda>jobs. False) 100 2 [] sample_rows)) = [PENDING, PENDING, PENDING, PENDING]"
proof (intro conjI)
  show "distinct (map jobId_jb (snd (relayEvents (\<lambda>t. None) (\<lambda>jobs. True) 100 2 [] sample_rows)))"
    using relay_loses_nothing[OF sample_key(1) prod.collapse[symmetric]] by blast
qed code_simp+

end
