(* ===== verification/VendorBills.thy ===== *)
theory VendorBills
  imports Payables Tax
begin

text \<open>
  Vendor bills (\<open>apps/api/src/vendor-bill-domain\<close>): taxed per line, matched three ways against the
  order and the receipt, approved by someone else, posted to the ledger and paid through the
  payables. Ids and the bill's number are drawn outside and are arguments; column rounding and
  ranges are the database's. Serialization failures, and so the retries of
  \<open>procurementTransaction\<close>, do not occur one transaction after another.
\<close>

section \<open>Tables\<close>

datatype VendorBillStatus =
    DRAFT | SUBMITTED | PENDING_APPROVAL | APPROVED | POSTED | PARTIALLY_PAID | PAID | CLOSED | REJECTED
  | CANCELLED | ARCHIVED

record VendorBillLine =
  productId_bl :: string
  variantId_bl :: "string option"
  purchaseOrderLineId_bl :: "string option"
  grnLineId_bl :: "string option"
  billedQuantity_bl :: decimal
  unitPrice_bl :: decimal
  taxPercentage_bl :: decimal
  taxAmount_bl :: decimal
  totalAmount_bl :: decimal
  isDeleted_bl :: bool

record VendorBill =
  id_b :: string
  shopId_b :: string
  supplierId_b :: string
  purchaseOrderId_b :: "string option"
  goodsReceiptId_b :: "string option"
  billNumber_b :: string
  status_b :: VendorBillStatus
  totalAmount_b :: decimal
  taxAmount_b :: decimal
  outstandingAmount_b :: decimal
  paidAmount_b :: decimal
  createdBy_b :: string
  postingDate_b :: "int option"
  isDeleted_b :: bool
  lines_b :: "VendorBillLine list"

record VendorBillApproval =
  id_ap :: nat
  vendorBillId_ap :: string
  shopId_ap :: string
  step_ap :: nat
  approverId_ap :: string
  status_ap :: string

record VendorBillAudit =
  vendorBillId_au :: string
  shopId_au :: string
  actorId_au :: string
  action_au :: string

record VendorBillStatusHistory =
  vendorBillId_sh :: string
  shopId_sh' :: string
  status_sh :: VendorBillStatus
  actorId_sh :: string

text \<open>The rows of other modules a bill is checked against.\<close>

record PurchaseOrder =
  id_o :: string
  shopId_o :: string
  supplierId_o :: string
  isDeleted_o :: bool

record PurchaseOrderItem =
  id_oi :: string
  shopId_oi :: string
  purchaseOrderId_oi :: string
  productId_oi :: string
  quantity_oi :: decimal
  unitCost_oi :: decimal
  price_oi :: decimal
  discount_oi :: "decimal option"
  isDeleted_oi :: bool

record GoodsReceipt =
  id_g :: string
  shopId_g :: string
  supplierId_g :: string
  status_g :: string
  purchaseOrderId_g :: "string option"
  isDeleted_g :: bool

record GoodsReceiptLine =
  id_gl :: string
  shopId_gl :: string
  goodsReceiptId_gl :: string
  purchaseOrderItemId_gl :: "string option"
  productId_gl :: string
  variantId_gl :: "string option"
  acceptedQuantity_gl :: decimal
  unitPrice_gl :: decimal
  isDeleted_gl :: bool

record CatalogueRow =
  id_cr :: string
  shopId_cr :: string
  type_cr :: string

text \<open>Supplier credit notes, applied to a supplier's bills.\<close>

datatype SupplierCreditStatus =
    CN_DRAFT | CN_SUBMITTED | CN_PENDING_APPROVAL | CN_APPROVED | CN_ISSUED | CN_ALLOCATED | CN_CLOSED | CN_REJECTED
  | CN_CANCELLED | CN_ARCHIVED

record SupplierCreditNote =
  id_cn :: string
  shopId_cn :: string
  supplierId_cn :: string
  status_cn :: SupplierCreditStatus
  allocatedAmount_cn :: decimal
  remainingBalance_cn :: decimal
  isDeleted_cn :: bool

record SupplierCreditAllocation =
  shopId_al :: string
  supplierCreditId_al :: string
  vendorBillId_al :: string
  allocatedAmount_al :: decimal

record purchasing =
  books_w :: books
  bills_w :: "VendorBill list"
  approvals_w :: "VendorBillApproval list"
  audits_w :: "VendorBillAudit list"
  history_w :: "VendorBillStatusHistory list"
  events_w :: "(string \<times> string) list"
  orders_w :: "PurchaseOrder list"
  orderItems_w :: "PurchaseOrderItem list"
  receipts_w :: "GoodsReceipt list"
  receiptLines_w :: "GoodsReceiptLine list"
  products_w :: "CatalogueRow list"
  variants_w :: "CatalogueRow list"
  notes_w :: "SupplierCreditNote list"
  noteHistory_w :: "(string \<times> SupplierCreditStatus) list"
  allocations_w :: "SupplierCreditAllocation list"

datatype bill_error =
    NotFound string | VENDOR_BILL_NOT_FOUND | VENDOR_BILL_TRANSITION_INVALID VendorBillStatus VendorBillStatus
  | VENDOR_BILL_STATE_CONFLICT | VENDOR_BILL_LINE_UNMATCHED | VENDOR_BILL_MATCH_NOT_FOUND | VENDOR_BILL_LINE_MISMATCH
  | VENDOR_BILL_SUPPLIER_MISMATCH | VENDOR_BILL_RECEIPT_NOT_ACCEPTED | VENDOR_BILL_PRICE_MISMATCH
  | VENDOR_BILL_OVER_BILLED | VENDOR_BILL_NOT_PENDING | VENDOR_BILL_NOT_CANCELLABLE | VENDOR_BILL_NOT_PAYABLE
  | VENDOR_BILL_OVERPAYMENT | SEPARATION_OF_DUTIES | PAYMENT_KEY_REUSED | ColumnRange | DuplicateId
  | SUPPLIER_CREDIT_NOT_FOUND | SUPPLIER_CREDIT_NOT_ALLOCATABLE | SUPPLIER_CREDIT_SUPPLIER_MISMATCH
  | SUPPLIER_CREDIT_INSUFFICIENT | SUPPLIER_CREDIT_STATE_CONFLICT
  | SUPPLIER_CREDIT_TRANSITION_INVALID SupplierCreditStatus SupplierCreditStatus
  | LedgerFailure ledger_error

type_synonym 'a purchase = "(purchasing, bill_error, 'a) eff"

text \<open>An id that is present and not empty, as JavaScript tests it.\<close>

definition truthy :: "string option \<Rightarrow> bool" where
  "truthy v = (case v of None \<Rightarrow> False | Some t \<Rightarrow> t \<noteq> [])"

text \<open>A ledger operation inside the bill's transaction.\<close>

definition on_books :: "'a bookkeeping \<Rightarrow> 'a purchase" where
  "on_books m = (\<lambda>w. case m (books_w w) of
       (s, Inl e) \<Rightarrow> (w\<lparr>books_w := s\<rparr>, Inl (LedgerFailure e))
     | (s, Inr x) \<Rightarrow> (w\<lparr>books_w := s\<rparr>, Inr x))"

definition procurementTransaction :: "'a purchase \<Rightarrow> 'a purchase" where
  "procurementTransaction m = (\<lambda>w. case m w of (w', Inl e) \<Rightarrow> (w, Inl e) | (w', Inr x) \<Rightarrow> (w', Inr x))"

definition publish :: "string \<Rightarrow> string \<Rightarrow> unit purchase" where
  "publish eventType i = write_eff (\<lambda>w. w\<lparr>events_w := events_w w @ [(eventType, i)]\<rparr>)"

section \<open>Tax and the order's cost\<close>

record VendorBillLineDto =
  productId_d :: string
  variantId_d :: "string option"
  purchaseOrderLineId_d :: "string option"
  grnLineId_d :: "string option"
  billedQuantity_d :: decimal
  unitPrice_d :: decimal
  taxPercentage_d :: "decimal option"

record VendorBillTaxedLine =
  line_tl :: VendorBillLineDto
  baseAmount_tl :: decimal
  taxAmount_tl :: decimal
  totalAmount_tl :: decimal

record TaxLiability =
  totalBase_tx :: decimal
  totalTax_tx :: decimal
  totalAmount_tx :: decimal
  lines_tx :: "VendorBillTaxedLine list"

definition tax_line :: "decimal_lib \<Rightarrow> GSTMode \<Rightarrow> VendorBillLineDto \<Rightarrow> VendorBillTaxedLine" where
  "tax_line D taxMode l =
     (let r = calculateTax D \<lparr>taxableAmount_x = d_mul D (billedQuantity_d l) (unitPrice_d l),
                gstRate_x = (case taxPercentage_d l of None \<Rightarrow> 0 | Some t \<Rightarrow> t), cessRate_x = 0,
                isInterState_x = False, mode_x = taxMode\<rparr>;
          base = to_dp_half_up D 2 (baseAmount_x r); tax = to_dp_half_up D 2 (totalTaxAmount_x r)
      in \<lparr>line_tl = l, baseAmount_tl = base, taxAmount_tl = tax, totalAmount_tl = d_plus D base tax\<rparr>)"

definition prepareTaxLiability :: "decimal_lib \<Rightarrow> VendorBillLineDto list \<Rightarrow> GSTMode \<Rightarrow> TaxLiability" where
  "prepareTaxLiability D lines taxMode =
     (let taxed = map (tax_line D taxMode) lines;
          totalBase = d_sum D (map baseAmount_tl taxed); totalTax = d_sum D (map taxAmount_tl taxed)
      in \<lparr>totalBase_tx = totalBase, totalTax_tx = totalTax, totalAmount_tx = d_plus D totalBase totalTax, lines_tx = taxed\<rparr>)"

definition netUnitCost :: "decimal_lib \<Rightarrow> PurchaseOrderItem \<Rightarrow> decimal" where
  "netUnitCost D l =
     (let quantity = quantity_oi l
      in if quantity \<le> 0 then unitCost_oi l
         else if 0 < price_oi l then to_dp_half_up D 2 (d_div D (price_oi l) quantity)
         else (let gross = d_minus D (d_mul D quantity (unitCost_oi l)) (case discount_oi l of None \<Rightarrow> 0 | Some d \<Rightarrow> d)
               in to_dp_half_up D 2 (d_div D (max gross 0) quantity)))"

section \<open>The three-way match\<close>

definition ACCEPTED_RECEIPT_STATUSES :: "string list" where
  "ACCEPTED_RECEIPT_STATUSES = [''ACCEPTED'', ''COMPLETED'', ''CLOSED'']"

definition LIVE_BILL_STATUSES_EXCLUDED :: "VendorBillStatus list" where
  "LIVE_BILL_STATUSES_EXCLUDED = [DRAFT, REJECTED, CANCELLED]"

record BillHeader =
  supplierId_bh :: string
  purchaseOrderId_bh :: "string option"
  goodsReceiptId_bh :: "string option"

record BillLineToMatch =
  productId_ml :: string
  variantId_ml :: "string option"
  purchaseOrderLineId_ml :: "string option"
  grnLineId_ml :: "string option"
  billedQuantity_ml :: decimal
  baseAmount_ml :: decimal

record MatchOptions =
  final_mo :: bool
  excludeBillId_mo :: "string option"

definition order_item :: "purchasing \<Rightarrow> string \<Rightarrow> string option \<Rightarrow> (PurchaseOrderItem \<times> PurchaseOrder) option" where
  "order_item w shop i =
     (case find (\<lambda>l. Some (id_oi l) = i \<and> shopId_oi l = shop \<and> \<not> isDeleted_oi l) (orderItems_w w) of
        None \<Rightarrow> None
      | Some l \<Rightarrow> map_option (Pair l) (find (\<lambda>x. id_o x = purchaseOrderId_oi l) (orders_w w)))"

definition receipt_line :: "purchasing \<Rightarrow> string \<Rightarrow> string option \<Rightarrow> (GoodsReceiptLine \<times> GoodsReceipt) option" where
  "receipt_line w shop i =
     (case find (\<lambda>l. Some (id_gl l) = i \<and> shopId_gl l = shop \<and> \<not> isDeleted_gl l) (receiptLines_w w) of
        None \<Rightarrow> None
      | Some l \<Rightarrow> map_option (Pair l) (find (\<lambda>x. id_g x = goodsReceiptId_gl l) (receipts_w w)))"

text \<open>The checks of one line against its order line and receipt line, in the code's order.\<close>

definition match_documents ::
    "BillHeader \<Rightarrow> BillLineToMatch \<Rightarrow> PurchaseOrderItem \<Rightarrow> PurchaseOrder \<Rightarrow> GoodsReceiptLine \<Rightarrow> GoodsReceipt \<Rightarrow> bill_error option" where
  "match_documents bill l p po g gr =
     (if isDeleted_o po \<or> isDeleted_g gr then Some VENDOR_BILL_MATCH_NOT_FOUND
      else if productId_gl g \<noteq> productId_ml l \<or> productId_oi p \<noteq> productId_ml l then Some VENDOR_BILL_LINE_MISMATCH
      else if truthy (variantId_ml l) \<and> variantId_gl g \<noteq> variantId_ml l then Some VENDOR_BILL_LINE_MISMATCH
      else if purchaseOrderItemId_gl g \<noteq> Some (id_oi p) then Some VENDOR_BILL_LINE_MISMATCH
      else if supplierId_o po \<noteq> supplierId_bh bill \<or> supplierId_g gr \<noteq> supplierId_bh bill then Some VENDOR_BILL_SUPPLIER_MISMATCH
      else if truthy (purchaseOrderId_bh bill) \<and> Some (purchaseOrderId_oi p) \<noteq> purchaseOrderId_bh bill then Some VENDOR_BILL_LINE_MISMATCH
      else if truthy (goodsReceiptId_bh bill) \<and> Some (goodsReceiptId_gl g) \<noteq> goodsReceiptId_bh bill then Some VENDOR_BILL_LINE_MISMATCH
      else if status_g gr \<notin> set ACCEPTED_RECEIPT_STATUSES then Some VENDOR_BILL_RECEIPT_NOT_ACCEPTED
      else None)"

text \<open>
  The price check. A quantity of zero (what the column keeps of a smaller one) makes the unit
  price infinite, which is refused, or not a number, which passes every comparison.
\<close>

definition price_differs :: "decimal_lib \<Rightarrow> decimal \<Rightarrow> BillLineToMatch \<Rightarrow> PurchaseOrderItem \<Rightarrow> bool" where
  "price_differs D tolerance l p =
     (let quantity = billedQuantity_ml l; orderedUnit = netUnitCost D p;
          allowed = d_plus D (d_mul D orderedUnit tolerance) (1 / 100)
      in if quantity = 0 then baseAmount_ml l \<noteq> 0
         else allowed < \<bar>d_minus D (d_div D (baseAmount_ml l) quantity) orderedUnit\<bar>)"

text \<open>What the other live bills billed of a receipt line.\<close>

definition live_bill :: "VendorBill \<Rightarrow> bool" where
  "live_bill b \<longleftrightarrow> \<not> isDeleted_b b \<and> status_b b \<notin> set LIVE_BILL_STATUSES_EXCLUDED"

definition line_quantity :: "string \<Rightarrow> VendorBillLine list \<Rightarrow> decimal" where
  "line_quantity g ls = sum_list (map billedQuantity_bl (filter (\<lambda>l. grnLineId_bl l = Some g \<and> \<not> isDeleted_bl l) ls))"

definition prior_billed :: "purchasing \<Rightarrow> string \<Rightarrow> string \<Rightarrow> string option \<Rightarrow> decimal" where
  "prior_billed w shop g exclude =
     sum_list (map (\<lambda>b. line_quantity g (lines_b b))
       (filter (\<lambda>b. shopId_b b = shop \<and> live_bill b \<and> (truthy exclude \<longrightarrow> Some (id_b b) \<noteq> exclude)) (bills_w w)))"

fun match_lines ::
    "decimal_lib \<Rightarrow> decimal \<Rightarrow> purchasing \<Rightarrow> string \<Rightarrow> BillHeader \<Rightarrow> MatchOptions \<Rightarrow> (string \<Rightarrow> decimal) \<Rightarrow>
      BillLineToMatch list \<Rightarrow> bill_error + unit" where
  "match_lines D tolerance w shop bill opts billedPer [] = Inr ()"
| "match_lines D tolerance w shop bill opts billedPer (l # ls) =
     (let referenced = truthy (purchaseOrderLineId_ml l) \<or> truthy (grnLineId_ml l)
      in if \<not> referenced \<and> \<not> final_mo opts \<and> \<not> truthy (purchaseOrderId_bh bill) \<and> \<not> truthy (goodsReceiptId_bh bill)
         then match_lines D tolerance w shop bill opts billedPer ls
         else if \<not> truthy (purchaseOrderLineId_ml l) \<or> \<not> truthy (grnLineId_ml l) then Inl VENDOR_BILL_LINE_UNMATCHED
         else case (order_item w shop (purchaseOrderLineId_ml l), receipt_line w shop (grnLineId_ml l)) of
           (Some (p, po), Some (g, gr)) \<Rightarrow>
             (case match_documents bill l p po g gr of
                Some e \<Rightarrow> Inl e
              | None \<Rightarrow>
                if price_differs D tolerance l p then Inl VENDOR_BILL_PRICE_MISMATCH
                else if \<not> final_mo opts then match_lines D tolerance w shop bill opts billedPer ls
                else (let thisBill = d_plus D (billedPer (id_gl g)) (billedQuantity_ml l);
                          billed = d_plus D thisBill (prior_billed w shop (id_gl g) (excludeBillId_mo opts))
                      in if acceptedQuantity_gl g < billed then Inl VENDOR_BILL_OVER_BILLED
                         else if quantity_oi p < billed then Inl VENDOR_BILL_OVER_BILLED
                         else match_lines D tolerance w shop bill opts (billedPer(id_gl g := thisBill)) ls))
         | _ \<Rightarrow> Inl VENDOR_BILL_MATCH_NOT_FOUND)"

definition enforceThreeWayMatch ::
    "decimal_lib \<Rightarrow> decimal \<Rightarrow> string \<Rightarrow> BillHeader \<Rightarrow> BillLineToMatch list \<Rightarrow> MatchOptions \<Rightarrow> unit purchase" where
  "enforceThreeWayMatch D tolerancePercent shop bill ls opts =
     (\<lambda>w. (w, match_lines D (d_div D tolerancePercent 100) w shop bill opts (\<lambda>_. 0) ls))"

section \<open>The lifecycle\<close>

fun TRANSITIONS :: "VendorBillStatus \<Rightarrow> VendorBillStatus list" where
  "TRANSITIONS DRAFT = [SUBMITTED, CANCELLED]"
| "TRANSITIONS SUBMITTED = [PENDING_APPROVAL, CANCELLED]"
| "TRANSITIONS PENDING_APPROVAL = [APPROVED, REJECTED, CANCELLED]"
| "TRANSITIONS APPROVED = [POSTED]"
| "TRANSITIONS POSTED = [PARTIALLY_PAID, PAID]"
| "TRANSITIONS PARTIALLY_PAID = [PARTIALLY_PAID, PAID]"
| "TRANSITIONS PAID = [CLOSED]"
| "TRANSITIONS CLOSED = [ARCHIVED]"
| "TRANSITIONS REJECTED = [ARCHIVED]"
| "TRANSITIONS CANCELLED = [ARCHIVED]"
| "TRANSITIONS ARCHIVED = []"

definition validateTransition :: "VendorBillStatus \<Rightarrow> VendorBillStatus \<Rightarrow> unit purchase" where
  "validateTransition current target =
     require_eff (target \<in> set (TRANSITIONS current)) (VENDOR_BILL_TRANSITION_INVALID current target)"

definition names_bill :: "string \<Rightarrow> string \<Rightarrow> VendorBill \<Rightarrow> bool" where
  "names_bill shop i b \<longleftrightarrow> id_b b = i \<and> shopId_b b = shop"

definition update_bills :: "(VendorBill \<Rightarrow> bool) \<Rightarrow> (VendorBill \<Rightarrow> VendorBill) \<Rightarrow> unit purchase" where
  "update_bills P g = write_eff (\<lambda>w. w\<lparr>bills_w := update_rows P g (bills_w w)\<rparr>)"

definition record_status :: "string \<Rightarrow> string \<Rightarrow> VendorBillStatus \<Rightarrow> string \<Rightarrow> unit purchase" where
  "record_status i shop status actor = write_eff (\<lambda>w. w\<lparr>history_w := history_w w @
     [\<lparr>vendorBillId_sh = i, shopId_sh' = shop, status_sh = status, actorId_sh = actor\<rparr>]\<rparr>)"

text \<open>Compare-and-set.\<close>

definition transitionStatus ::
    "string \<Rightarrow> string \<Rightarrow> VendorBillStatus \<Rightarrow> VendorBillStatus \<Rightarrow> string \<Rightarrow> unit purchase" where
  "transitionStatus i shop current target actor =
     bind_eff (validateTransition current target) (\<lambda>_.
     bind_eff (read_eff (\<lambda>w. count_rows (\<lambda>b. names_bill shop i b \<and> status_b b = current) (bills_w w))) (\<lambda>moved.
     bind_eff (update_bills (\<lambda>b. names_bill shop i b \<and> status_b b = current) (\<lambda>b. b\<lparr>status_b := target\<rparr>)) (\<lambda>_.
     bind_eff (require_eff (moved \<noteq> 0) VENDOR_BILL_STATE_CONFLICT) (\<lambda>_.
     record_status i shop target actor))))"

text \<open>The bill row under lock, with its live lines.\<close>

definition lockBill :: "string \<Rightarrow> string \<Rightarrow> VendorBill purchase" where
  "lockBill shop i =
     bind_eff (read_eff (\<lambda>w. find (\<lambda>b. names_bill shop i b \<and> \<not> isDeleted_b b) (bills_w w))) (\<lambda>row.
     case row of
       None \<Rightarrow> throw_eff VENDOR_BILL_NOT_FOUND
     | Some b \<Rightarrow> return_eff (b\<lparr>lines_b := filter (\<lambda>l. \<not> isDeleted_bl l) (lines_b b)\<rparr>))"

definition find_bill :: "string \<Rightarrow> string \<Rightarrow> VendorBill option purchase" where
  "find_bill shop i = read_eff (\<lambda>w. find (names_bill shop i) (bills_w w))"

definition audit :: "string \<Rightarrow> string \<Rightarrow> string \<Rightarrow> string \<Rightarrow> unit purchase" where
  "audit i shop actor action = write_eff (\<lambda>w. w\<lparr>audits_w := audits_w w @
     [\<lparr>vendorBillId_au = i, shopId_au = shop, actorId_au = actor, action_au = action\<rparr>]\<rparr>)"

section \<open>Approval\<close>

definition openApproval :: "string \<Rightarrow> string \<Rightarrow> unit purchase" where
  "openApproval shop i =
     bind_eff (read_eff (\<lambda>w. list_ex (\<lambda>a. vendorBillId_ap a = i \<and> shopId_ap a = shop \<and> status_ap a = ''PENDING'')
       (approvals_w w))) (\<lambda>pending.
     if pending then return_eff ()
     else write_eff (\<lambda>w. w\<lparr>approvals_w := approvals_w w @
            [\<lparr>id_ap = length (approvals_w w), vendorBillId_ap = i, shopId_ap = shop, step_ap = 1,
              approverId_ap = ''MANAGER_ROLE'', status_ap = ''PENDING''\<rparr>]\<rparr>))"

text \<open>The pending step with the highest number.\<close>

fun highest_step :: "VendorBillApproval list \<Rightarrow> VendorBillApproval option" where
  "highest_step [] = None"
| "highest_step (a # as) =
     (case highest_step as of None \<Rightarrow> Some a | Some b \<Rightarrow> if step_ap b \<le> step_ap a then Some a else Some b)"

datatype Decision = APPROVE | REJECT

definition processApproval :: "string \<Rightarrow> string \<Rightarrow> string \<Rightarrow> Decision \<Rightarrow> VendorBillStatus purchase" where
  "processApproval shop i actor action =
     bind_eff (read_eff (\<lambda>w. highest_step (filter (\<lambda>a. vendorBillId_ap a = i \<and> shopId_ap a = shop \<and> status_ap a = ''PENDING'')
       (approvals_w w)))) (\<lambda>pending.
     case pending of
       None \<Rightarrow> throw_eff VENDOR_BILL_NOT_PENDING
     | Some p \<Rightarrow>
         bind_eff (find_bill shop i) (\<lambda>bill.
         bind_eff (read_eff (\<lambda>w. list_ex (\<lambda>u. vendorBillId_au u = i \<and> shopId_au u = shop \<and> actorId_au u = actor \<and>
             action_au u \<in> {''CREATED'', ''SUBMITTED''}) (audits_w w))) (\<lambda>createdAudit.
         bind_eff (require_eff (\<not> (map_option createdBy_b bill = Some actor \<or> createdAudit)) SEPARATION_OF_DUTIES) (\<lambda>_.
         let nextStatus = (if action = APPROVE then APPROVED else REJECTED)
         in bind_eff (write_eff (\<lambda>w. w\<lparr>approvals_w := update_rows (\<lambda>a. id_ap a = id_ap p)
              (\<lambda>a. a\<lparr>status_ap := (if action = APPROVE then ''APPROVED'' else ''REJECTED''), approverId_ap := actor\<rparr>)
              (approvals_w w)\<rparr>)) (\<lambda>_.
            return_eff nextStatus)))))"

section \<open>What a bill posts and what a payment leaves\<close>

record BillPlanLine =
  base_pl :: decimal
  tax_pl :: decimal
  receiptValue_pl :: decimal
  stocked_pl :: bool

record VendorBillPostingPlan =
  entries_vp :: "LedgerEntryInput list"
  payableDelta_vp :: decimal

definition plan_entry :: "LedgerAccount \<Rightarrow> LedgerEntryType \<Rightarrow> decimal \<Rightarrow> LedgerEntryInput" where
  "plan_entry a ty x = \<lparr>account_ei = a, type_ei = ty, amount_ei = x, description_ei = None\<rparr>"

definition vendorBillPostingPlan :: "decimal_lib \<Rightarrow> BillPlanLine list \<Rightarrow> VendorBillPostingPlan" where
  "vendorBillPostingPlan D ls =
     (let tax = to_dp_half_up D 2 (d_sum D (map tax_pl ls));
          inventoryDiff = to_dp_half_up D 2 (d_sum D (map (\<lambda>l. d_minus D (base_pl l) (receiptValue_pl l)) (filter stocked_pl ls)));
          expenses = to_dp_half_up D 2 (d_sum D (map base_pl (filter (\<lambda>l. \<not> stocked_pl l) ls)));
          payableDelta = d_plus D (d_plus D tax inventoryDiff) expenses
      in \<lparr>entries_vp =
            (if 0 < tax then [plan_entry INPUT_GST DEBIT tax] else []) @
            (if 0 < inventoryDiff then [plan_entry INVENTORY DEBIT inventoryDiff] else []) @
            (if inventoryDiff < 0 then [plan_entry INVENTORY CREDIT \<bar>inventoryDiff\<bar>] else []) @
            (if 0 < expenses then [plan_entry EXPENSES DEBIT expenses] else []) @
            (if 0 < payableDelta then [plan_entry ACCOUNTS_PAYABLE CREDIT payableDelta] else []) @
            (if payableDelta < 0 then [plan_entry ACCOUNTS_PAYABLE DEBIT \<bar>payableDelta\<bar>] else []),
          payableDelta_vp = payableDelta\<rparr>)"

record BillBalance =
  paidAmount_bb :: decimal
  outstandingAmount_bb :: decimal
  isFullyPaid_bb :: bool

definition processPayment :: "decimal_lib \<Rightarrow> decimal \<Rightarrow> decimal \<Rightarrow> decimal \<Rightarrow> BillBalance purchase" where
  "processPayment D outstanding paid payment =
     (let before = to_dp_half_up D 2 outstanding; amount = to_dp_half_up D 2 payment
      in bind_eff (require_eff (amount \<le> before) VENDOR_BILL_OVERPAYMENT) (\<lambda>_.
         let outstandingAmount = d_minus D before amount
         in return_eff \<lparr>paidAmount_bb = d_plus D paid amount, outstandingAmount_bb = outstandingAmount,
                       isFullyPaid_bb = (outstandingAmount \<le> 0)\<rparr>))"

section \<open>Creating a bill\<close>

definition assertOwned ::
    "string \<Rightarrow> (purchasing \<Rightarrow> 'r list) \<Rightarrow> ('r \<Rightarrow> string) \<Rightarrow> ('r \<Rightarrow> bool) \<Rightarrow> string option \<Rightarrow> unit purchase" where
  "assertOwned model rows key owned i =
     (case i of
        None \<Rightarrow> return_eff ()
      | Some k \<Rightarrow> bind_eff (read_eff (\<lambda>w. list_ex (\<lambda>r. key r = k \<and> owned r) (rows w))) (\<lambda>row.
                  require_eff row (NotFound model)))"

definition assertOwnedMany ::
    "string \<Rightarrow> (purchasing \<Rightarrow> 'r list) \<Rightarrow> ('r \<Rightarrow> string) \<Rightarrow> ('r \<Rightarrow> bool) \<Rightarrow> string option list \<Rightarrow> unit purchase" where
  "assertOwnedMany model rows key owned ids =
     (let wanted = remdups (List.map_filter (\<lambda>i. i) ids)
      in if wanted = [] then return_eff ()
         else bind_eff (read_eff (\<lambda>w. list_all (\<lambda>k. list_ex (\<lambda>r. key r = k \<and> owned r) (rows w)) wanted)) (\<lambda>complete.
              require_eff complete (NotFound model)))"

record CreateVendorBillDto =
  supplierId_cv :: string
  purchaseOrderId_cv :: "string option"
  goodsReceiptId_cv :: "string option"
  lines_cv :: "VendorBillLineDto list"
  taxMode_cv :: "GSTMode option"

definition check_owned :: "string \<Rightarrow> CreateVendorBillDto \<Rightarrow> unit purchase" where
  "check_owned shop p =
     (let ls = lines_cv p
      in bind_eff (assertOwned ''supplier'' (\<lambda>w. suppliers_bk (books_w w)) id_su
             (\<lambda>x. shopId_su x = shop \<and> \<not> isDeleted_su x) (Some (supplierId_cv p))) (\<lambda>_.
         bind_eff (assertOwned ''purchaseOrder'' orders_w id_o (\<lambda>x. shopId_o x = shop) (purchaseOrderId_cv p)) (\<lambda>_.
         bind_eff (assertOwned ''goodsReceipt'' receipts_w id_g (\<lambda>x. shopId_g x = shop) (goodsReceiptId_cv p)) (\<lambda>_.
         bind_eff (assertOwnedMany ''product'' products_w id_cr (\<lambda>x. shopId_cr x = shop) (map (\<lambda>l. Some (productId_d l)) ls)) (\<lambda>_.
         bind_eff (assertOwnedMany ''productVariant'' variants_w id_cr (\<lambda>x. shopId_cr x = shop) (map variantId_d ls)) (\<lambda>_.
         bind_eff (assertOwnedMany ''purchaseOrderItem'' orderItems_w id_oi (\<lambda>x. shopId_oi x = shop) (map purchaseOrderLineId_d ls)) (\<lambda>_.
         assertOwnedMany ''goodsReceiptLine'' receiptLines_w id_gl (\<lambda>x. shopId_gl x = shop) (map grnLineId_d ls))))))))"

definition check_documents :: "string \<Rightarrow> CreateVendorBillDto \<Rightarrow> unit purchase" where
  "check_documents shop p =
     (if \<not> truthy (purchaseOrderId_cv p) \<and> \<not> truthy (goodsReceiptId_cv p) then return_eff ()
      else bind_eff (read_eff (\<lambda>w. if truthy (purchaseOrderId_cv p)
               then find (\<lambda>x. Some (id_o x) = purchaseOrderId_cv p \<and> shopId_o x = shop) (orders_w w) else None)) (\<lambda>po.
           bind_eff (read_eff (\<lambda>w. if truthy (goodsReceiptId_cv p)
               then find (\<lambda>x. Some (id_g x) = goodsReceiptId_cv p \<and> shopId_g x = shop) (receipts_w w) else None)) (\<lambda>grn.
           bind_eff (require_eff (\<not> ((case po of Some x \<Rightarrow> supplierId_o x \<noteq> supplierId_cv p | None \<Rightarrow> False) \<or>
                                   (case grn of Some x \<Rightarrow> supplierId_g x \<noteq> supplierId_cv p | None \<Rightarrow> False)))
             VENDOR_BILL_SUPPLIER_MISMATCH) (\<lambda>_.
           require_eff (\<not> (po \<noteq> None \<and> (case grn of Some x \<Rightarrow> purchaseOrderId_g x \<noteq> purchaseOrderId_cv p | None \<Rightarrow> False)))
             VENDOR_BILL_LINE_MISMATCH))))"

text \<open>The stored rows: what the columns keep of each figure, and whether they can.\<close>

definition stored_bill_line :: "VendorBillTaxedLine \<Rightarrow> VendorBillLine" where
  "stored_bill_line t =
     (let l = line_tl t
      in \<lparr>productId_bl = productId_d l, variantId_bl = variantId_d l, purchaseOrderLineId_bl = purchaseOrderLineId_d l,
          grnLineId_bl = grnLineId_d l, billedQuantity_bl = half_up 3 (billedQuantity_d l),
          unitPrice_bl = half_up 2 (unitPrice_d l),
          taxPercentage_bl = half_up 2 (case taxPercentage_d l of None \<Rightarrow> 0 | Some x \<Rightarrow> x),
          taxAmount_bl = half_up 2 (taxAmount_tl t), totalAmount_bl = half_up 2 (totalAmount_tl t), isDeleted_bl = False\<rparr>)"

definition line_in_range :: "VendorBillLine \<Rightarrow> bool" where
  "line_in_range l \<longleftrightarrow> \<bar>billedQuantity_bl l\<bar> * 1000 < 10 ^ 10 \<and> fits_column 10 (unitPrice_bl l) \<and>
     fits_column 5 (taxPercentage_bl l) \<and> fits_column 10 (taxAmount_bl l) \<and> fits_column 10 (totalAmount_bl l)"

definition stored_bill ::
    "string \<Rightarrow> string \<Rightarrow> string \<Rightarrow> CreateVendorBillDto \<Rightarrow> string \<Rightarrow> TaxLiability \<Rightarrow> VendorBill" where
  "stored_bill i billNumber shop p actor taxed =
     \<lparr>id_b = i, shopId_b = shop, supplierId_b = supplierId_cv p, purchaseOrderId_b = purchaseOrderId_cv p,
      goodsReceiptId_b = goodsReceiptId_cv p, billNumber_b = billNumber, status_b = DRAFT,
      totalAmount_b = half_up 2 (totalAmount_tx taxed), taxAmount_b = half_up 2 (totalTax_tx taxed),
      outstandingAmount_b = half_up 2 (totalAmount_tx taxed), paidAmount_b = 0, createdBy_b = actor,
      postingDate_b = None, isDeleted_b = False, lines_b = map stored_bill_line (lines_tx taxed)\<rparr>"

definition createVendorBill ::
    "decimal_lib \<Rightarrow> decimal \<Rightarrow> string \<Rightarrow> string \<Rightarrow> string \<Rightarrow> CreateVendorBillDto \<Rightarrow> string \<Rightarrow> VendorBill purchase" where
  "createVendorBill D tolerance i billNumber shop p actor =
     procurementTransaction (
     bind_eff (check_owned shop p) (\<lambda>_.
     bind_eff (check_documents shop p) (\<lambda>_.
     let taxed = prepareTaxLiability D (lines_cv p) (case taxMode_cv p of None \<Rightarrow> EXCLUSIVE | Some m \<Rightarrow> m);
         bill = stored_bill i billNumber shop p actor taxed
     in bind_eff (enforceThreeWayMatch D tolerance shop
          \<lparr>supplierId_bh = supplierId_cv p, purchaseOrderId_bh = purchaseOrderId_cv p, goodsReceiptId_bh = goodsReceiptId_cv p\<rparr>
          (map (\<lambda>t. \<lparr>productId_ml = productId_d (line_tl t), variantId_ml = variantId_d (line_tl t),
                     purchaseOrderLineId_ml = purchaseOrderLineId_d (line_tl t), grnLineId_ml = grnLineId_d (line_tl t),
                     billedQuantity_ml = billedQuantity_d (line_tl t), baseAmount_ml = baseAmount_tl t\<rparr>) (lines_tx taxed))
          \<lparr>final_mo = False, excludeBillId_mo = None\<rparr>) (\<lambda>_.
        bind_eff (require_eff (fits_column 10 (totalAmount_b bill) \<and> fits_column 10 (taxAmount_b bill) \<and>
          list_all line_in_range (lines_b bill)) ColumnRange) (\<lambda>_.
        bind_eff (read_eff (\<lambda>w. list_ex (\<lambda>b. id_b b = i) (bills_w w))) (\<lambda>taken.
        bind_eff (require_eff (\<not> taken) DuplicateId) (\<lambda>_.
        bind_eff (write_eff (\<lambda>w. w\<lparr>bills_w := bills_w w @ [bill]\<rparr>)) (\<lambda>_.
        bind_eff (audit i shop actor ''CREATED'') (\<lambda>_.
        bind_eff (publish ''VendorBillCreated'' i) (\<lambda>_.
        return_eff bill))))))))))"

section \<open>Submitting, deciding, withdrawing\<close>

definition submitVendorBill :: "decimal_lib \<Rightarrow> decimal \<Rightarrow> string \<Rightarrow> string \<Rightarrow> string \<Rightarrow> VendorBill option purchase" where
  "submitVendorBill D tolerance shop i actor =
     procurementTransaction (
     bind_eff (lockBill shop i) (\<lambda>bill.
     bind_eff (validateTransition (status_b bill) SUBMITTED) (\<lambda>_.
     bind_eff (enforceThreeWayMatch D tolerance shop
       \<lparr>supplierId_bh = supplierId_b bill, purchaseOrderId_bh = purchaseOrderId_b bill, goodsReceiptId_bh = goodsReceiptId_b bill\<rparr>
       (map (\<lambda>l. \<lparr>productId_ml = productId_bl l, variantId_ml = variantId_bl l,
                  purchaseOrderLineId_ml = purchaseOrderLineId_bl l, grnLineId_ml = grnLineId_bl l,
                  billedQuantity_ml = billedQuantity_bl l, baseAmount_ml = d_minus D (totalAmount_bl l) (taxAmount_bl l)\<rparr>)
          (lines_b bill))
       \<lparr>final_mo = True, excludeBillId_mo = Some (id_b bill)\<rparr>) (\<lambda>_.
     bind_eff (transitionStatus i shop (status_b bill) SUBMITTED actor) (\<lambda>_.
     bind_eff (transitionStatus i shop SUBMITTED PENDING_APPROVAL actor) (\<lambda>_.
     bind_eff (openApproval shop i) (\<lambda>_.
     bind_eff (audit i shop actor ''SUBMITTED'') (\<lambda>_.
     bind_eff (find_bill shop i) (\<lambda>updatedBill.
     bind_eff (publish ''VendorBillSubmitted'' i) (\<lambda>_.
     return_eff updatedBill))))))))))"

definition decide :: "string \<Rightarrow> string \<Rightarrow> string \<Rightarrow> Decision \<Rightarrow> VendorBill option purchase" where
  "decide shop i actor action =
     procurementTransaction (
     bind_eff (lockBill shop i) (\<lambda>bill.
     bind_eff (require_eff (status_b bill = PENDING_APPROVAL) VENDOR_BILL_NOT_PENDING) (\<lambda>_.
     bind_eff (processApproval shop i actor action) (\<lambda>status.
     bind_eff (transitionStatus i shop (status_b bill) status actor) (\<lambda>_.
     bind_eff (publish (if status = APPROVED then ''VendorBillApproved'' else ''VendorBillRejected'') i) (\<lambda>_.
     find_bill shop i))))))"

definition approveVendorBill :: "string \<Rightarrow> string \<Rightarrow> string \<Rightarrow> VendorBill option purchase" where
  "approveVendorBill shop i actor = decide shop i actor APPROVE"

definition rejectVendorBill :: "string \<Rightarrow> string \<Rightarrow> string \<Rightarrow> VendorBill option purchase" where
  "rejectVendorBill shop i actor = decide shop i actor REJECT"

definition CANCELLABLE :: "VendorBillStatus list" where
  "CANCELLABLE = [DRAFT, SUBMITTED, PENDING_APPROVAL]"

definition cancelVendorBill :: "string \<Rightarrow> string \<Rightarrow> string \<Rightarrow> VendorBill option purchase" where
  "cancelVendorBill shop i actor =
     procurementTransaction (
     bind_eff (lockBill shop i) (\<lambda>bill.
     bind_eff (require_eff (status_b bill \<in> set CANCELLABLE) VENDOR_BILL_NOT_CANCELLABLE) (\<lambda>_.
     bind_eff (transitionStatus i shop (status_b bill) CANCELLED actor) (\<lambda>_.
     bind_eff (write_eff (\<lambda>w. w\<lparr>approvals_w := update_rows
         (\<lambda>a. vendorBillId_ap a = i \<and> shopId_ap a = shop \<and> status_ap a = ''PENDING'')
         (\<lambda>a. a\<lparr>status_ap := ''CANCELLED'', approverId_ap := actor\<rparr>) (approvals_w w)\<rparr>)) (\<lambda>_.
     bind_eff (audit i shop actor ''CANCELLED'') (\<lambda>_.
     bind_eff (publish ''VendorBillCancelled'' i) (\<lambda>_.
     find_bill shop i)))))))"

section \<open>Posting, paying, applying a credit note\<close>

definition plan_line :: "decimal_lib \<Rightarrow> purchasing \<Rightarrow> string \<Rightarrow> VendorBillLine \<Rightarrow> BillPlanLine" where
  "plan_line D w shop l =
     (let type = (case find (\<lambda>x. id_cr x = productId_bl l \<and> shopId_cr x = shop) (products_w w) of
                    Some x \<Rightarrow> type_cr x | None \<Rightarrow> ''SIMPLE'');
          stocked = (type \<notin> {''SERVICE'', ''DIGITAL''});
          unitCost = (if truthy (grnLineId_bl l)
             then map_option unitPrice_gl (find (\<lambda>x. Some (id_gl x) = grnLineId_bl l \<and> shopId_gl x = shop) (receiptLines_w w))
             else None)
      in \<lparr>base_pl = d_minus D (totalAmount_bl l) (taxAmount_bl l), tax_pl = taxAmount_bl l,
          receiptValue_pl = (case unitCost of
             Some c \<Rightarrow> if stocked then to_dp_half_up D 2 (d_mul D (billedQuantity_bl l) c) else 0 | None \<Rightarrow> 0),
          stocked_pl = stocked\<rparr>)"

definition bill_posting :: "string \<Rightarrow> VendorBill \<Rightarrow> VendorBillPostingPlan \<Rightarrow> LedgerPosting" where
  "bill_posting shop bill plan =
     \<lparr>shopId_po = shop, sourceType_po = SRC_VENDOR_BILL, sourceId_po = id_b bill, invoiceId_po = None,
      description_po = ''Vendor bill '' @ billNumber_b bill, entries_po = entries_vp plan\<rparr>"

definition post_plan :: "decimal_lib \<Rightarrow> (books \<Rightarrow> string) \<Rightarrow> string \<Rightarrow> VendorBill \<Rightarrow> VendorBillPostingPlan \<Rightarrow> unit purchase" where
  "post_plan D G shop bill plan =
     (if entries_vp plan = [] then return_eff ()
      else bind_eff (on_books (postWithPayable D G (Some (supplierId_b bill)) (bill_posting shop bill plan) (payableDelta_vp plan)))
             (\<lambda>_. return_eff ()))"

definition postVendorBill ::
    "decimal_lib \<Rightarrow> (books \<Rightarrow> string) \<Rightarrow> int \<Rightarrow> string \<Rightarrow> string \<Rightarrow> string \<Rightarrow> VendorBill option purchase" where
  "postVendorBill D G now shop i actor =
     procurementTransaction (
     bind_eff (lockBill shop i) (\<lambda>bill.
     bind_eff (transitionStatus i shop (status_b bill) POSTED actor) (\<lambda>_.
     bind_eff (read_eff (\<lambda>w. vendorBillPostingPlan D (map (plan_line D w shop) (lines_b bill)))) (\<lambda>plan.
     bind_eff (post_plan D G shop bill plan) (\<lambda>_.
     bind_eff (update_bills (\<lambda>b. id_b b = i) (\<lambda>b. b\<lparr>postingDate_b := Some now\<rparr>)) (\<lambda>_.
     bind_eff (publish ''VendorBillPosted'' i) (\<lambda>_.
     find_bill shop i)))))))"

record PayVendorBillDto =
  paymentAmount_pv :: decimal
  tender_pv :: "string option"
  reference_pv :: "string option"
  idempotencyKey_pv :: "string option"

definition bill_payment :: "string \<Rightarrow> VendorBill \<Rightarrow> PayVendorBillDto \<Rightarrow> decimal \<Rightarrow> string \<Rightarrow> SupplierPaymentInput" where
  "bill_payment shop bill p amount actor =
     \<lparr>shopId_in = shop, supplierId_in = supplierId_b bill, amount_in = amount, tender_in = tender_pv p,
      reference_in = reference_pv p, idempotencyKey_in = idempotencyKey_pv p, notes_in = None,
      vendorBillId_in = Some (id_b bill), recordedById_in = Some actor\<rparr>"

text \<open>The payment itself, once the bill may be paid.\<close>

definition settle_bill ::
    "decimal_lib \<Rightarrow> (books \<Rightarrow> string) \<Rightarrow> string \<Rightarrow> string \<Rightarrow> VendorBill \<Rightarrow> PayVendorBillDto \<Rightarrow> string \<Rightarrow> VendorBill option purchase" where
  "settle_bill D G shop i bill p actor =
     (let paymentAmount = to_dp_half_up D 2 (paymentAmount_pv p)
      in bind_eff (processPayment D (outstandingAmount_b bill) (paidAmount_b bill) paymentAmount) (\<lambda>left.
         bind_eff (require_eff (fits_column 10 (half_up 2 (paidAmount_bb left)) \<and>
             fits_column 10 (half_up 2 (outstandingAmount_bb left))) ColumnRange) (\<lambda>_.
         bind_eff (update_bills (\<lambda>b. id_b b = i) (\<lambda>b. b\<lparr>paidAmount_b := half_up 2 (paidAmount_bb left),
             outstandingAmount_b := half_up 2 (outstandingAmount_bb left)\<rparr>)) (\<lambda>_.
         bind_eff (transitionStatus i shop (status_b bill) (if isFullyPaid_bb left then PAID else PARTIALLY_PAID) actor) (\<lambda>_.
         bind_eff (on_books (pay D G (bill_payment shop bill p paymentAmount actor))) (\<lambda>_.
         bind_eff (find_bill shop i) (\<lambda>updatedBill.
         bind_eff (publish ''VendorBillPaid'' i) (\<lambda>_.
         return_eff updatedBill))))))))"

definition bill_payment_found :: "string \<Rightarrow> PayVendorBillDto \<Rightarrow> purchasing \<Rightarrow> SupplierPayment option" where
  "bill_payment_found shop p w =
     (if truthy (idempotencyKey_pv p)
      then find (\<lambda>x. shopId_sp x = shop \<and> idempotencyKey_sp x = idempotencyKey_pv p) (payments_bk (books_w w)) else None)"

definition pay_bill ::
    "decimal_lib \<Rightarrow> (books \<Rightarrow> string) \<Rightarrow> string \<Rightarrow> string \<Rightarrow> VendorBill \<Rightarrow> PayVendorBillDto \<Rightarrow> string \<Rightarrow> SupplierPayment option \<Rightarrow>
      VendorBill option purchase" where
  "pay_bill D G shop i bill p actor existing =
     (case existing of
        Some x \<Rightarrow> if vendorBillId_sp x \<noteq> Some i then throw_eff PAYMENT_KEY_REUSED else find_bill shop i
      | None \<Rightarrow>
          bind_eff (require_eff (status_b bill = POSTED \<or> status_b bill = PARTIALLY_PAID) VENDOR_BILL_NOT_PAYABLE) (\<lambda>_.
          settle_bill D G shop i bill p actor))"

definition payVendorBill ::
    "decimal_lib \<Rightarrow> (books \<Rightarrow> string) \<Rightarrow> string \<Rightarrow> string \<Rightarrow> PayVendorBillDto \<Rightarrow> string \<Rightarrow> VendorBill option purchase" where
  "payVendorBill D G shop i p actor =
     procurementTransaction (
     bind_eff (lockBill shop i) (\<lambda>bill.
     bind_eff (read_eff (bill_payment_found shop p)) (\<lambda>existing.
     pay_bill D G shop i bill p actor existing)))"

definition names_note :: "string \<Rightarrow> string \<Rightarrow> SupplierCreditNote \<Rightarrow> bool" where
  "names_note shop n x \<longleftrightarrow> id_cn x = n \<and> shopId_cn x = shop"

text \<open>The guarded decrements, the bill's status and the mapping row.\<close>

definition move_allocation ::
    "decimal_lib \<Rightarrow> string \<Rightarrow> string \<Rightarrow> string \<Rightarrow> VendorBill \<Rightarrow> decimal \<Rightarrow> string \<Rightarrow> unit purchase" where
  "move_allocation D shop n i bill allocation actor =
     (let funded = (\<lambda>x. names_note shop n x \<and> allocation \<le> remainingBalance_cn x);
          owing = (\<lambda>b. names_bill shop i b \<and> status_b b = status_b bill \<and> allocation \<le> outstandingAmount_b b);
          billStatus = (if d_minus D (outstandingAmount_b bill) allocation \<le> 0 then PAID else PARTIALLY_PAID)
      in bind_eff (read_eff (\<lambda>w. count_rows funded (notes_w w))) (\<lambda>noteMoved.
         bind_eff (write_eff (\<lambda>w. w\<lparr>notes_w := update_rows funded
             (\<lambda>x. x\<lparr>allocatedAmount_cn := allocatedAmount_cn x + allocation,
                    remainingBalance_cn := remainingBalance_cn x - allocation\<rparr>) (notes_w w)\<rparr>)) (\<lambda>_.
         bind_eff (require_eff (noteMoved \<noteq> 0) SUPPLIER_CREDIT_STATE_CONFLICT) (\<lambda>_.
         bind_eff (read_eff (\<lambda>w. count_rows owing (bills_w w))) (\<lambda>billMoved.
         bind_eff (update_bills owing (\<lambda>b. b\<lparr>outstandingAmount_b := outstandingAmount_b b - allocation, status_b := billStatus\<rparr>)) (\<lambda>_.
         bind_eff (require_eff (billMoved \<noteq> 0) VENDOR_BILL_STATE_CONFLICT) (\<lambda>_.
         bind_eff (if billStatus \<noteq> status_b bill then record_status i shop billStatus actor else return_eff ()) (\<lambda>_.
         write_eff (\<lambda>w. w\<lparr>allocations_w := allocations_w w @
             [\<lparr>shopId_al = shop, supplierCreditId_al = n, vendorBillId_al = i, allocatedAmount_al = allocation\<rparr>]\<rparr>)))))))))"

definition allocate_note ::
    "decimal_lib \<Rightarrow> string \<Rightarrow> string \<Rightarrow> string \<Rightarrow> VendorBill \<Rightarrow> SupplierCreditNote option \<Rightarrow> decimal \<Rightarrow> string \<Rightarrow>
      SupplierCreditStatus purchase" where
  "allocate_note D shop n i bill row amount actor =
     (case row of None \<Rightarrow> throw_eff SUPPLIER_CREDIT_NOT_FOUND | Some note \<Rightarrow>
      bind_eff (require_eff (status_cn note = CN_ISSUED \<or> status_cn note = CN_ALLOCATED) SUPPLIER_CREDIT_NOT_ALLOCATABLE) (\<lambda>_.
      bind_eff (require_eff (supplierId_b bill = supplierId_cn note) SUPPLIER_CREDIT_SUPPLIER_MISMATCH) (\<lambda>_.
      bind_eff (require_eff (status_b bill = POSTED \<or> status_b bill = PARTIALLY_PAID) VENDOR_BILL_NOT_PAYABLE) (\<lambda>_.
      bind_eff (require_eff (to_dp_half_up D 2 amount \<le> remainingBalance_cn note) SUPPLIER_CREDIT_INSUFFICIENT) (\<lambda>_.
      bind_eff (require_eff (to_dp_half_up D 2 amount \<le> outstandingAmount_b bill) VENDOR_BILL_OVERPAYMENT) (\<lambda>_.
      bind_eff (move_allocation D shop n i bill (to_dp_half_up D 2 amount) actor) (\<lambda>_.
      return_eff (status_cn note))))))))"

definition processAllocation ::
    "decimal_lib \<Rightarrow> string \<Rightarrow> string \<Rightarrow> string \<Rightarrow> decimal \<Rightarrow> string \<Rightarrow> SupplierCreditStatus purchase" where
  "processAllocation D shop n i amount actor =
     bind_eff (lockBill shop i) (\<lambda>bill.
     bind_eff (read_eff (\<lambda>w. find (\<lambda>x. names_note shop n x \<and> \<not> isDeleted_cn x) (notes_w w))) (\<lambda>row.
     allocate_note D shop n i bill row amount actor))"

fun NOTE_TRANSITIONS :: "SupplierCreditStatus \<Rightarrow> SupplierCreditStatus list" where
  "NOTE_TRANSITIONS CN_DRAFT = [CN_SUBMITTED, CN_CANCELLED]"
| "NOTE_TRANSITIONS CN_SUBMITTED = [CN_PENDING_APPROVAL, CN_CANCELLED]"
| "NOTE_TRANSITIONS CN_PENDING_APPROVAL = [CN_APPROVED, CN_REJECTED, CN_CANCELLED]"
| "NOTE_TRANSITIONS CN_APPROVED = [CN_ISSUED]"
| "NOTE_TRANSITIONS CN_ISSUED = [CN_ALLOCATED, CN_CLOSED]"
| "NOTE_TRANSITIONS CN_ALLOCATED = [CN_CLOSED]"
| "NOTE_TRANSITIONS CN_CLOSED = [CN_ARCHIVED]"
| "NOTE_TRANSITIONS CN_REJECTED = [CN_ARCHIVED, CN_DRAFT]"
| "NOTE_TRANSITIONS CN_CANCELLED = [CN_ARCHIVED]"
| "NOTE_TRANSITIONS CN_ARCHIVED = []"

definition transition_note :: "string \<Rightarrow> string \<Rightarrow> SupplierCreditStatus \<Rightarrow> SupplierCreditStatus \<Rightarrow> unit purchase" where
  "transition_note n shop current target =
     bind_eff (require_eff (target \<in> set (NOTE_TRANSITIONS current)) (SUPPLIER_CREDIT_TRANSITION_INVALID current target)) (\<lambda>_.
     bind_eff (read_eff (\<lambda>w. count_rows (\<lambda>x. names_note shop n x \<and> status_cn x = current) (notes_w w))) (\<lambda>moved.
     bind_eff (write_eff (\<lambda>w. w\<lparr>notes_w := update_rows (\<lambda>x. names_note shop n x \<and> status_cn x = current)
         (\<lambda>x. x\<lparr>status_cn := target\<rparr>) (notes_w w)\<rparr>)) (\<lambda>_.
     bind_eff (require_eff (moved \<noteq> 0) SUPPLIER_CREDIT_STATE_CONFLICT) (\<lambda>_.
     write_eff (\<lambda>w. w\<lparr>noteHistory_w := noteHistory_w w @ [(n, target)]\<rparr>)))))"

definition allocateSupplierCredit ::
    "decimal_lib \<Rightarrow> string \<Rightarrow> string \<Rightarrow> string \<Rightarrow> decimal \<Rightarrow> string \<Rightarrow> SupplierCreditNote option purchase" where
  "allocateSupplierCredit D shop n i amount actor =
     procurementTransaction (
     bind_eff (processAllocation D shop n i amount actor) (\<lambda>noteStatus.
     bind_eff (if noteStatus = CN_ISSUED then transition_note n shop CN_ISSUED CN_ALLOCATED else return_eff ()) (\<lambda>_.
     bind_eff (read_eff (\<lambda>w. find (names_note shop n) (notes_w w))) (\<lambda>updatedScn.
     bind_eff (publish ''SupplierCreditAllocated'' n) (\<lambda>_.
     bind_eff (publish ''OutstandingReduced'' i) (\<lambda>_.
     return_eff updatedScn))))))"

end
