(* ===== verification/VendorBillProperties.thy ===== *)
theory VendorBillProperties
  imports VendorBills BooksProperties
begin

text \<open>
  What each operation on a vendor bill changes when it goes through: the bill it found, the status
  it moved it to, and the rows it added. A refused operation changes nothing.
\<close>

section \<open>The parts of an operation\<close>

definition same_documents :: "purchasing \<Rightarrow> purchasing \<Rightarrow> bool" where
  "same_documents w w' \<longleftrightarrow> orders_w w' = orders_w w \<and> orderItems_w w' = orderItems_w w \<and> receipts_w w' = receipts_w w \<and>
     receiptLines_w w' = receiptLines_w w \<and> products_w w' = products_w w \<and> variants_w w' = variants_w w"

definition same_money :: "purchasing \<Rightarrow> purchasing \<Rightarrow> bool" where
  "same_money w w' \<longleftrightarrow> books_w w' = books_w w \<and> notes_w w' = notes_w w \<and> allocations_w w' = allocations_w w"

definition has_id :: "string \<Rightarrow> VendorBill \<Rightarrow> bool" where
  "has_id i b \<longleftrightarrow> id_b b = i"

definition status_row :: "string \<Rightarrow> string \<Rightarrow> string \<Rightarrow> VendorBillStatus \<Rightarrow> VendorBillStatusHistory" where
  "status_row shop i actor s = \<lparr>vendorBillId_sh = i, shopId_sh' = shop, status_sh = s, actorId_sh = actor\<rparr>"

lemma procurement_Inr: "procurementTransaction m w = (w', Inr r) \<longleftrightarrow> m w = (w', Inr r)"
  by (auto simp: procurementTransaction_def split: prod.splits sum.splits)

lemma procurement_Inl: "procurementTransaction m w = (w', Inl e) \<Longrightarrow> w' = w"
  by (auto simp: procurementTransaction_def split: prod.splits sum.splits)

lemma on_books_Inr:
  "on_books m w = (w', Inr r) \<longleftrightarrow> (\<exists>s. m (books_w w) = (s, Inr r) \<and> w' = w\<lparr>books_w := s\<rparr>)"
  by (auto simp: on_books_def split: prod.splits sum.splits)

lemma lockBill_Inr:
  "lockBill shop i w = (w', Inr b) \<longleftrightarrow> w' = w \<and>
    (\<exists>x. find (\<lambda>b. names_bill shop i b \<and> \<not> isDeleted_b b) (bills_w w) = Some x \<and> b = x\<lparr>lines_b := filter (\<lambda>l. \<not> isDeleted_bl l) (lines_b x)\<rparr>)"
  by (auto simp: lockBill_def split: option.splits)

lemma transition_Inr:
  "transitionStatus i shop c t a w = (w', Inr u) \<longleftrightarrow> t \<in> set (TRANSITIONS c) \<and>
    (\<exists>b \<in> set (bills_w w). names_bill shop i b \<and> status_b b = c) \<and>
    w' = w\<lparr>bills_w := update_rows (\<lambda>b. names_bill shop i b \<and> status_b b = c) (\<lambda>b. b\<lparr>status_b := t\<rparr>) (bills_w w),
           history_w := history_w w @ [status_row shop i a t]\<rparr>"
  by (auto simp: transitionStatus_def validateTransition_def update_bills_def record_status_def status_row_def count_rows_pos split: if_splits)

lemma openApproval_Inr:
  "openApproval shop i w = (w', Inr u) \<Longrightarrow>
    w' = w \<or> w' = w\<lparr>approvals_w := approvals_w w @ [\<lparr>id_ap = length (approvals_w w), vendorBillId_ap = i, shopId_ap = shop,
      step_ap = 1, approverId_ap = ''MANAGER_ROLE'', status_ap = ''PENDING''\<rparr>]\<rparr>"
  by (auto simp: openApproval_def split: if_splits)

lemma enforce_Inr:
  "enforceThreeWayMatch D tp shop h ls opts w = (w', Inr u) \<longleftrightarrow>
    w' = w \<and> match_lines D (d_div D tp 100) w shop h opts (\<lambda>_. 0) ls = Inr ()"
  by (auto simp: enforceThreeWayMatch_def)

lemma same_key: "distinct (map k xs) \<Longrightarrow> x \<in> set xs \<Longrightarrow> y \<in> set xs \<Longrightarrow> k x = k y \<Longrightarrow> x = y"
  by (auto simp: distinct_map dest: inj_onD)

text \<open>With unique ids, the guarded update of the locked bill is the update of the row with its id.\<close>

lemma only_this:
  assumes "distinct (map id_b xs)" and "x \<in> set xs" and "id_b x = i" and "P x" and "\<And>b. P b \<Longrightarrow> id_b b = i"
  shows "update_rows P g xs = update_rows (has_id i) g xs"
  using assms by (intro update_rows_cong) (auto simp: has_id_def distinct_map dest: inj_onD)

lemma update_twice:
  "(\<And>b. id_b (f b) = id_b b) \<Longrightarrow> update_rows (has_id i) g (update_rows (has_id i) f xs) = update_rows (has_id i) (\<lambda>b. g (f b)) xs"
  by (auto simp: update_rows_def has_id_def)

lemma update_ids: "(\<And>b. id_b (f b) = id_b b) \<Longrightarrow> map id_b (update_rows P f xs) = map id_b xs"
  by (rule map_update_rows)

lemma update_member: "x \<in> set xs \<Longrightarrow> id_b x = i \<Longrightarrow> f x \<in> set (update_rows (has_id i) f xs)"
  by (auto simp: set_update_rows has_id_def image_iff intro!: bexI[of _ x])

lemma find_updated:
  assumes "distinct (map id_b xs)" and "x \<in> set xs" and "id_b x = i" and "P x" and "\<And>b. P b \<Longrightarrow> id_b b = i"
  shows "find P xs = Some x"
  using assms by (intro find_unique[where k = id_b]) auto

text \<open>A transition of the bill that was found.\<close>

lemma transition_found:
  assumes "transitionStatus i shop c t a w = (w', Inr u)" and "distinct (map id_b (bills_w w))"
    and "x \<in> set (bills_w w)" and "names_bill shop i x"
  shows "status_b x = c" and "t \<in> set (TRANSITIONS c)"
    and "w' = w\<lparr>bills_w := update_rows (has_id i) (\<lambda>b. b\<lparr>status_b := t\<rparr>) (bills_w w),
                history_w := history_w w @ [status_row shop i a t]\<rparr>"
proof -
  obtain y where y: "y \<in> set (bills_w w)" "names_bill shop i y" "status_b y = c" and t: "t \<in> set (TRANSITIONS c)"
    and w': "w' = w\<lparr>bills_w := update_rows (\<lambda>b. names_bill shop i b \<and> status_b b = c) (\<lambda>b. b\<lparr>status_b := t\<rparr>) (bills_w w),
           history_w := history_w w @ [status_row shop i a t]\<rparr>"
    using assms(1) unfolding transition_Inr by blast
  have "y = x" using assms(2-4) y by (auto simp: names_bill_def distinct_map dest: inj_onD)
  then show "status_b x = c" "t \<in> set (TRANSITIONS c)" using y t by simp_all
  show "w' = w\<lparr>bills_w := update_rows (has_id i) (\<lambda>b. b\<lparr>status_b := t\<rparr>) (bills_w w),
                history_w := history_w w @ [status_row shop i a t]\<rparr>"
    unfolding w' using y by (subst only_this[OF assms(2) y(1), of i]) (auto simp: names_bill_def)
qed

section \<open>The operations that succeeded\<close>

definition audit_row :: "string \<Rightarrow> string \<Rightarrow> string \<Rightarrow> string \<Rightarrow> VendorBillAudit" where
  "audit_row shop i actor action = \<lparr>vendorBillId_au = i, shopId_au = shop, actorId_au = actor, action_au = action\<rparr>"

definition pending_of :: "string \<Rightarrow> string \<Rightarrow> VendorBillApproval \<Rightarrow> bool" where
  "pending_of shop i a \<longleftrightarrow> vendorBillId_ap a = i \<and> shopId_ap a = shop \<and> status_ap a = ''PENDING''"

text \<open>The header and lines a submission matches.\<close>

definition header_of :: "VendorBill \<Rightarrow> BillHeader" where
  "header_of b = \<lparr>supplierId_bh = supplierId_b b, purchaseOrderId_bh = purchaseOrderId_b b, goodsReceiptId_bh = goodsReceiptId_b b\<rparr>"

definition live_lines :: "VendorBill \<Rightarrow> VendorBillLine list" where
  "live_lines b = filter (\<lambda>l. \<not> isDeleted_bl l) (lines_b b)"

definition line_to_match :: "decimal_lib \<Rightarrow> VendorBillLine \<Rightarrow> BillLineToMatch" where
  "line_to_match D l = \<lparr>productId_ml = productId_bl l, variantId_ml = variantId_bl l,
     purchaseOrderLineId_ml = purchaseOrderLineId_bl l, grnLineId_ml = grnLineId_bl l,
     billedQuantity_ml = billedQuantity_bl l, baseAmount_ml = d_minus D (totalAmount_bl l) (taxAmount_bl l)\<rparr>"

definition this_bill :: "string \<Rightarrow> string \<Rightarrow> purchasing \<Rightarrow> VendorBill \<Rightarrow> bool" where
  "this_bill shop i w x \<longleftrightarrow> x \<in> set (bills_w w) \<and> names_bill shop i x \<and> \<not> isDeleted_b x"

lemma locked_bill:
  assumes "find (\<lambda>b. names_bill shop i b \<and> \<not> isDeleted_b b) (bills_w w) = Some x"
  shows "this_bill shop i w x"
  using find_SomeD[OF assms] by (simp add: this_bill_def)

lemma submit_cases:
  assumes run: "submitVendorBill D tp shop i actor w = (w', Inr r)" and ids: "distinct (map id_b (bills_w w))"
  obtains x aps evs where "this_bill shop i w x" "status_b x = DRAFT"
    "match_lines D (d_div D tp 100) w shop (header_of x) \<lparr>final_mo = True, excludeBillId_mo = Some i\<rparr> (\<lambda>_. 0)
       (map (line_to_match D) (live_lines x)) = Inr ()"
    "w' = w\<lparr>bills_w := update_rows (has_id i) (\<lambda>b. b\<lparr>status_b := PENDING_APPROVAL\<rparr>) (bills_w w),
       history_w := history_w w @ [status_row shop i actor SUBMITTED, status_row shop i actor PENDING_APPROVAL],
       approvals_w := approvals_w w @ aps, audits_w := audits_w w @ [audit_row shop i actor ''SUBMITTED''], events_w := evs\<rparr>"
    "\<And>a. a \<in> set aps \<Longrightarrow> vendorBillId_ap a = i \<and> shopId_ap a = shop \<and> status_ap a = ''PENDING'' \<and> id_ap a = length (approvals_w w)"
    "length aps \<le> 1"
proof -
  obtain x w1 w2 w3 where x: "find (\<lambda>b. names_bill shop i b \<and> \<not> isDeleted_b b) (bills_w w) = Some x"
    and valid: "SUBMITTED \<in> set (TRANSITIONS (status_b x))"
    and m: "match_lines D (d_div D tp 100) w shop (header_of x) \<lparr>final_mo = True, excludeBillId_mo = Some (id_b x)\<rparr> (\<lambda>_. 0)
       (map (line_to_match D) (live_lines x)) = Inr ()"
    and t1: "transitionStatus i shop (status_b x) SUBMITTED actor w = (w1, Inr ())"
    and t2: "transitionStatus i shop SUBMITTED PENDING_APPROVAL actor w1 = (w2, Inr ())"
    and ap: "openApproval shop i w2 = (w3, Inr ())"
    and w': "w' = w3\<lparr>audits_w := audits_w w3 @ [audit_row shop i actor ''SUBMITTED''],
      events_w := events_w w3 @ [(''VendorBillSubmitted'', i)]\<rparr>"
    using run unfolding submitVendorBill_def procurement_Inr
    by (auto simp: bind_eff_Inr lockBill_Inr enforce_Inr validateTransition_def audit_def audit_row_def publish_def find_bill_def header_of_def
        live_lines_def line_to_match_def[abs_def] comp_def split: if_splits)
  have found: "this_bill shop i w x" by (rule locked_bill[OF x])
  have bill: "x \<in> set (bills_w w)" "names_bill shop i x" "id_b x = i" using found by (auto simp: this_bill_def names_bill_def)
  have draft: "status_b x = DRAFT" using valid by (cases "status_b x") auto
  note f1 = transition_found[OF t1 ids bill(1,2)]
  let ?x1 = "x\<lparr>status_b := SUBMITTED\<rparr>"
  have "?x1 \<in> set (bills_w w1)" using update_member[OF bill(1,3), of "\<lambda>b. b\<lparr>status_b := SUBMITTED\<rparr>"] by (simp add: f1(3))
  moreover have "distinct (map id_b (bills_w w1))" using ids by (simp add: f1(3) update_ids)
  ultimately have f2: "w2 = w1\<lparr>bills_w := update_rows (has_id i) (\<lambda>b. b\<lparr>status_b := PENDING_APPROVAL\<rparr>) (bills_w w1),
      history_w := history_w w1 @ [status_row shop i actor PENDING_APPROVAL]\<rparr>"
    using transition_found(3)[OF t2, of ?x1] bill(2) by (simp add: names_bill_def)
  have w2: "w2 = w\<lparr>bills_w := update_rows (has_id i) (\<lambda>b. b\<lparr>status_b := PENDING_APPROVAL\<rparr>) (bills_w w),
      history_w := history_w w @ [status_row shop i actor SUBMITTED, status_row shop i actor PENDING_APPROVAL]\<rparr>"
    by (simp add: f2 f1(3) update_twice)
  from openApproval_Inr[OF ap] show thesis
  proof
    assume "w3 = w2"
    then show thesis using w' w2 m bill(3) by (intro that[where aps = "[]", OF found draft]) auto
  next
    assume "w3 = w2\<lparr>approvals_w := approvals_w w2 @ [\<lparr>id_ap = length (approvals_w w2), vendorBillId_ap = i, shopId_ap = shop,
      step_ap = 1, approverId_ap = ''MANAGER_ROLE'', status_ap = ''PENDING''\<rparr>]\<rparr>"
    then show thesis using w' w2 m bill(3)
      by (intro that[where aps = "[\<lparr>id_ap = length (approvals_w w2), vendorBillId_ap = i, shopId_ap = shop,
        step_ap = 1, approverId_ap = ''MANAGER_ROLE'', status_ap = ''PENDING''\<rparr>]", OF found draft]) auto
  qed
qed

lemma highest_step_mem: "highest_step as = Some p \<Longrightarrow> p \<in> set as"
  by (induction as arbitrary: p) (auto split: option.splits if_splits)

lemma decide_cases:
  assumes run: "decide shop i actor action w = (w', Inr r)" and ids: "distinct (map id_b (bills_w w))"
  obtains x p evs where "this_bill shop i w x" "status_b x = PENDING_APPROVAL" "p \<in> set (approvals_w w)" "pending_of shop i p"
    "createdBy_b x \<noteq> actor"
    "\<And>u. u \<in> set (audits_w w) \<Longrightarrow> vendorBillId_au u = i \<Longrightarrow> shopId_au u = shop \<Longrightarrow> actorId_au u = actor \<Longrightarrow>
       action_au u \<notin> {''CREATED'', ''SUBMITTED''}"
    "w' = w\<lparr>approvals_w := update_rows (\<lambda>a. id_ap a = id_ap p)
         (\<lambda>a. a\<lparr>status_ap := (if action = APPROVE then ''APPROVED'' else ''REJECTED''), approverId_ap := actor\<rparr>) (approvals_w w),
       bills_w := update_rows (has_id i) (\<lambda>b. b\<lparr>status_b := (if action = APPROVE then APPROVED else REJECTED)\<rparr>) (bills_w w),
       history_w := history_w w @ [status_row shop i actor (if action = APPROVE then APPROVED else REJECTED)], events_w := evs\<rparr>"
proof -
  let ?s = "if action = APPROVE then APPROVED else REJECTED"
  obtain x p y w1 w2 where x: "find (\<lambda>b. names_bill shop i b \<and> \<not> isDeleted_b b) (bills_w w) = Some x"
    and st: "status_b x = PENDING_APPROVAL"
    and p: "highest_step (filter (pending_of shop i) (approvals_w w)) = Some p"
    and y: "find (names_bill shop i) (bills_w w) = y" "map_option createdBy_b y \<noteq> Some actor"
    and aud: "\<not> list_ex (\<lambda>u. vendorBillId_au u = i \<and> shopId_au u = shop \<and> actorId_au u = actor \<and> action_au u \<in> {''CREATED'', ''SUBMITTED''}) (audits_w w)"
    and w1: "w1 = w\<lparr>approvals_w := update_rows (\<lambda>a. id_ap a = id_ap p)
         (\<lambda>a. a\<lparr>status_ap := (if action = APPROVE then ''APPROVED'' else ''REJECTED''), approverId_ap := actor\<rparr>) (approvals_w w)\<rparr>"
    and t: "transitionStatus i shop (status_b x) ?s actor w1 = (w2, Inr ())"
    and w': "w' = w2\<lparr>events_w := events_w w2 @ [(if ?s = APPROVED then ''VendorBillApproved'' else ''VendorBillRejected'', i)]\<rparr>"
    using run unfolding decide_def procurement_Inr
    by (auto simp: bind_eff_Inr lockBill_Inr processApproval_def publish_def find_bill_def Let_def pending_of_def[abs_def]
        split: option.splits if_splits)
  have found: "this_bill shop i w x" by (rule locked_bill[OF x])
  have bill: "x \<in> set (bills_w w)" "names_bill shop i x" using found by (auto simp: this_bill_def)
  have "y = Some x" using find_updated[OF ids bill(1), of i "names_bill shop i"] bill(2) y(1) by (auto simp: names_bill_def)
  then have "createdBy_b x \<noteq> actor" using y(2) by simp
  moreover have "w2 = w1\<lparr>bills_w := update_rows (has_id i) (\<lambda>b. b\<lparr>status_b := ?s\<rparr>) (bills_w w1),
      history_w := history_w w1 @ [status_row shop i actor ?s]\<rparr>"
    using transition_found(3)[OF t, of x] bill ids by (simp add: w1)
  moreover have "p \<in> set (approvals_w w)" "pending_of shop i p" using highest_step_mem[OF p] by auto
  ultimately show thesis using found st aud w' by (intro that[of x p]) (auto simp: w1 list_ex_iff)
qed

lemma assertOwned_Inr: "assertOwned model rows key owned v w = (w', Inr u) \<Longrightarrow> w' = w"
  by (auto simp: assertOwned_def split: option.splits)

lemma assertOwnedMany_Inr: "assertOwnedMany model rows key owned vs w = (w', Inr u) \<Longrightarrow> w' = w"
  by (auto simp: assertOwnedMany_def Let_def split: if_splits)

lemma check_owned_Inr: "check_owned shop p w = (w', Inr u) \<Longrightarrow> w' = w"
  unfolding check_owned_def Let_def bind_eff_Inr by (auto dest!: assertOwned_Inr assertOwnedMany_Inr)

lemma check_documents_Inr: "check_documents shop p w = (w', Inr u) \<Longrightarrow> w' = w"
  by (auto simp: check_documents_def bind_eff_Inr split: if_splits)

definition new_bill :: "decimal_lib \<Rightarrow> string \<Rightarrow> string \<Rightarrow> string \<Rightarrow> CreateVendorBillDto \<Rightarrow> string \<Rightarrow> VendorBill" where
  "new_bill D i nr shop p actor =
     stored_bill i nr shop p actor (prepareTaxLiability D (lines_cv p) (case taxMode_cv p of None \<Rightarrow> EXCLUSIVE | Some m \<Rightarrow> m))"

lemma create_cases:
  assumes "createVendorBill D tp i nr shop p actor w = (w', Inr r)"
  obtains evs where "r = new_bill D i nr shop p actor" "i \<notin> id_b ` set (bills_w w)"
    "fits_column 10 (totalAmount_b r)" "fits_column 10 (taxAmount_b r)" "list_all line_in_range (lines_b r)"
    "w' = w\<lparr>bills_w := bills_w w @ [r], audits_w := audits_w w @ [audit_row shop i actor ''CREATED''], events_w := evs\<rparr>"
  using assms unfolding createVendorBill_def procurement_Inr
  by (auto simp: bind_eff_Inr Let_def enforce_Inr audit_def audit_row_def publish_def list_ex_iff new_bill_def image_iff
      dest!: check_owned_Inr check_documents_Inr split: if_splits)

lemma cancel_cases:
  assumes run: "cancelVendorBill shop i actor w = (w', Inr r)" and ids: "distinct (map id_b (bills_w w))"
  obtains x evs where "this_bill shop i w x" "status_b x \<in> set CANCELLABLE"
    "w' = w\<lparr>bills_w := update_rows (has_id i) (\<lambda>b. b\<lparr>status_b := CANCELLED\<rparr>) (bills_w w),
       history_w := history_w w @ [status_row shop i actor CANCELLED],
       approvals_w := update_rows (pending_of shop i) (\<lambda>a. a\<lparr>status_ap := ''CANCELLED'', approverId_ap := actor\<rparr>) (approvals_w w),
       audits_w := audits_w w @ [audit_row shop i actor ''CANCELLED''], events_w := evs\<rparr>"
proof -
  obtain x w1 where x: "find (\<lambda>b. names_bill shop i b \<and> \<not> isDeleted_b b) (bills_w w) = Some x"
    and st: "status_b x \<in> set CANCELLABLE"
    and t: "transitionStatus i shop (status_b x) CANCELLED actor w = (w1, Inr ())"
    and w': "w' = w1\<lparr>approvals_w := update_rows (pending_of shop i) (\<lambda>a. a\<lparr>status_ap := ''CANCELLED'', approverId_ap := actor\<rparr>) (approvals_w w1),
       audits_w := audits_w w1 @ [audit_row shop i actor ''CANCELLED''], events_w := events_w w1 @ [(''VendorBillCancelled'', i)]\<rparr>"
    using run unfolding cancelVendorBill_def procurement_Inr
    by (auto simp: bind_eff_Inr lockBill_Inr publish_def audit_def audit_row_def find_bill_def pending_of_def[abs_def] split: if_splits)
  have found: "this_bill shop i w x" by (rule locked_bill[OF x])
  then show thesis using transition_found(3)[OF t ids] st w' by (intro that[of x]) (auto simp: this_bill_def)
qed

definition plan_of :: "decimal_lib \<Rightarrow> purchasing \<Rightarrow> string \<Rightarrow> VendorBill \<Rightarrow> VendorBillPostingPlan" where
  "plan_of D w shop b = vendorBillPostingPlan D (map (plan_line D w shop) (live_lines b))"

lemma plan_line_same:
  "products_w v = products_w w \<Longrightarrow> receiptLines_w v = receiptLines_w w \<Longrightarrow> plan_line D v shop = plan_line D w shop"
  by (simp add: plan_line_def fun_eq_iff Let_def cong: if_cong)

lemma post_plan_lines: "post_plan D G shop (x\<lparr>lines_b := ls\<rparr>) plan = post_plan D G shop x plan"
  by (simp add: post_plan_def bill_posting_def)

lemma post_bill_cases:
  assumes run: "postVendorBill D G now shop i actor w = (w', Inr r)" and ids: "distinct (map id_b (bills_w w))"
  obtains x bk evs where "this_bill shop i w x" "status_b x = APPROVED"
    "entries_vp (plan_of D w shop x) = [] \<and> bk = books_w w \<or>
       (\<exists>q. postWithPayable D G (Some (supplierId_b x)) (bill_posting shop x (plan_of D w shop x))
          (payableDelta_vp (plan_of D w shop x)) (books_w w) = (bk, Inr q))"
    "w' = w\<lparr>history_w := history_w w @ [status_row shop i actor POSTED], books_w := bk,
       bills_w := update_rows (has_id i) (\<lambda>b. b\<lparr>status_b := POSTED, postingDate_b := Some now\<rparr>) (bills_w w), events_w := evs\<rparr>"
proof -
  obtain x w1 w2 where x: "find (\<lambda>b. names_bill shop i b \<and> \<not> isDeleted_b b) (bills_w w) = Some x"
    and t: "transitionStatus i shop (status_b x) POSTED actor w = (w1, Inr ())"
    and b: "post_plan D G shop x (plan_of D w1 shop x) w1 = (w2, Inr ())"
    and w': "w' = w2\<lparr>bills_w := update_rows (has_id i) (\<lambda>b. b\<lparr>postingDate_b := Some now\<rparr>) (bills_w w2),
       events_w := events_w w2 @ [(''VendorBillPosted'', i)]\<rparr>"
    using run unfolding postVendorBill_def procurement_Inr bind_eff_Inr lockBill_Inr
    by (auto simp: publish_def find_bill_def update_bills_def plan_of_def live_lines_def has_id_def[abs_def] post_plan_lines)
  have found: "this_bill shop i w x" by (rule locked_bill[OF x])
  have bill: "x \<in> set (bills_w w)" "names_bill shop i x" using found by (auto simp: this_bill_def)
  note f = transition_found[OF t ids bill]
  have st: "status_b x = APPROVED" using f(2) by (cases "status_b x") auto
  have plan: "plan_of D w1 shop x = plan_of D w shop x"
    unfolding plan_of_def by (subst plan_line_same[of w1 w]) (simp_all add: f(3))
  from b have "entries_vp (plan_of D w shop x) = [] \<and> w2 = w1 \<or>
      (\<exists>q bk. postWithPayable D G (Some (supplierId_b x)) (bill_posting shop x (plan_of D w shop x))
          (payableDelta_vp (plan_of D w shop x)) (books_w w1) = (bk, Inr q) \<and> w2 = w1\<lparr>books_w := bk\<rparr>)"
    unfolding plan by (auto simp: post_plan_def bind_eff_Inr on_books_Inr split: if_splits)
  then show thesis
  proof (elim disjE exE conjE)
    assume "entries_vp (plan_of D w shop x) = []" "w2 = w1"
    then show thesis using w' f(3) by (intro that[where bk = "books_w w", OF found st]) (auto simp: update_twice)
  next
    fix q bk
    assume "postWithPayable D G (Some (supplierId_b x)) (bill_posting shop x (plan_of D w shop x))
          (payableDelta_vp (plan_of D w shop x)) (books_w w1) = (bk, Inr q)" and "w2 = w1\<lparr>books_w := bk\<rparr>"
    then show thesis using w' f(3) by (intro that[where bk = bk, OF found st]) (auto simp: update_twice)
  qed
qed

text \<open>A payment that went through: the bill already carried it, or it was found payable.\<close>

definition paid_after :: "decimal_lib \<Rightarrow> VendorBill \<Rightarrow> decimal \<Rightarrow> decimal" where
  "paid_after D b amount = half_up 2 (d_plus D (paidAmount_b b) (to_dp_half_up D 2 amount))"

definition left_after :: "decimal_lib \<Rightarrow> VendorBill \<Rightarrow> decimal \<Rightarrow> decimal" where
  "left_after D b amount = d_minus D (to_dp_half_up D 2 (outstandingAmount_b b)) (to_dp_half_up D 2 amount)"

definition paid_status :: "decimal_lib \<Rightarrow> VendorBill \<Rightarrow> decimal \<Rightarrow> VendorBillStatus" where
  "paid_status D b amount = (if left_after D b amount \<le> 0 then PAID else PARTIALLY_PAID)"

lemma settle_bill_cases:
  assumes run: "settle_bill D G shop i x p actor w = (w', Inr r)" and ids: "distinct (map id_b (bills_w w))"
    and found: "this_bill shop i w y" and same: "status_b x = status_b y"
  obtains bk out evs where "to_dp_half_up D 2 (to_dp_half_up D 2 (paymentAmount_pv p)) \<le> to_dp_half_up D 2 (outstandingAmount_b x)"
    "fits_column 10 (paid_after D x (to_dp_half_up D 2 (paymentAmount_pv p)))"
    "fits_column 10 (half_up 2 (left_after D x (to_dp_half_up D 2 (paymentAmount_pv p))))"
    "pay D G (bill_payment shop x p (to_dp_half_up D 2 (paymentAmount_pv p)) actor) (books_w w) = (bk, Inr out)"
    "w' = w\<lparr>bills_w := update_rows (has_id i) (\<lambda>b. b\<lparr>paidAmount_b := paid_after D x (to_dp_half_up D 2 (paymentAmount_pv p)),
         outstandingAmount_b := half_up 2 (left_after D x (to_dp_half_up D 2 (paymentAmount_pv p))),
         status_b := paid_status D x (to_dp_half_up D 2 (paymentAmount_pv p))\<rparr>) (bills_w w),
       history_w := history_w w @ [status_row shop i actor (paid_status D x (to_dp_half_up D 2 (paymentAmount_pv p)))],
       books_w := bk, events_w := evs\<rparr>"
proof -
  define a where "a = to_dp_half_up D 2 (paymentAmount_pv p)"
  define f :: "VendorBill \<Rightarrow> VendorBill" where "f = (\<lambda>b. b\<lparr>paidAmount_b := paid_after D x a, outstandingAmount_b := half_up 2 (left_after D x a)\<rparr>)"
  let ?w1 = "w\<lparr>bills_w := update_rows (has_id i) f (bills_w w)\<rparr>"
  obtain w2 bk out where le: "to_dp_half_up D 2 a \<le> to_dp_half_up D 2 (outstandingAmount_b x)"
    and fits: "fits_column 10 (paid_after D x a)" "fits_column 10 (half_up 2 (left_after D x a))"
    and t: "transitionStatus i shop (status_b x) (paid_status D x a) actor ?w1 = (w2, Inr ())"
    and pay: "pay D G (bill_payment shop x p a actor) (books_w w2) = (bk, Inr out)"
    and w': "w' = w2\<lparr>books_w := bk, events_w := events_w w2 @ [(''VendorBillPaid'', i)]\<rparr>"
    using run unfolding settle_bill_def Let_def bind_eff_Inr processPayment_def a_def f_def
    by (auto simp: on_books_Inr publish_def find_bill_def update_bills_def has_id_def[abs_def] paid_after_def left_after_def
        paid_status_def split: if_splits)
  have y: "y \<in> set (bills_w w)" "id_b y = i" "names_bill shop i y" using found by (auto simp: this_bill_def names_bill_def)
  have f: "id_b (f b) = id_b b" "status_b (f b) = status_b b" "names_bill shop i (f b) = names_bill shop i b" for b
    by (simp_all add: f_def names_bill_def)
  have w2: "w2 = w\<lparr>bills_w := update_rows (has_id i) (\<lambda>b. (f b)\<lparr>status_b := paid_status D x a\<rparr>) (bills_w w),
      history_w := history_w w @ [status_row shop i actor (paid_status D x a)]\<rparr>"
    using transition_found(3)[OF t, of "f y"] ids y update_member[of y "bills_w w" i f]
    by (simp add: update_ids update_twice f)
  have books: "books_w w2 = books_w w" by (simp add: w2)
  show thesis
    using le fits pay[unfolded books] w' unfolding w2 f_def a_def
    by (intro that[of bk out "events_w w @ [(''VendorBillPaid'', i)]"]) simp_all
qed

lemma pay_bill_cases:
  assumes run: "payVendorBill D G shop i p actor w = (w', Inr r)" and ids: "distinct (map id_b (bills_w w))"
  obtains (replayed) pm where "w' = w" "pm \<in> set (payments_bk (books_w w))" "shopId_sp pm = shop"
      "idempotencyKey_sp pm = idempotencyKey_pv p" "truthy (idempotencyKey_pv p)" "vendorBillId_sp pm = Some i"
  | (paid) x where "this_bill shop i w x" "status_b x = POSTED \<or> status_b x = PARTIALLY_PAID"
      "\<And>pm. truthy (idempotencyKey_pv p) \<Longrightarrow> pm \<in> set (payments_bk (books_w w)) \<Longrightarrow> shopId_sp pm = shop \<Longrightarrow>
        idempotencyKey_sp pm \<noteq> idempotencyKey_pv p"
      "settle_bill D G shop i (x\<lparr>lines_b := live_lines x\<rparr>) p actor w = (w', Inr r)"
proof -
  obtain x where x: "find (\<lambda>b. names_bill shop i b \<and> \<not> isDeleted_b b) (bills_w w) = Some x"
    and rest: "pay_bill D G shop i (x\<lparr>lines_b := live_lines x\<rparr>) p actor (bill_payment_found shop p w) w = (w', Inr r)"
    using run unfolding payVendorBill_def procurement_Inr bind_eff_Inr lockBill_Inr by (auto simp: live_lines_def)
  show thesis
  proof (cases "bill_payment_found shop p w")
    case None
    then show thesis using rest locked_bill[OF x]
      by (intro paid[of x]) (auto simp: pay_bill_def bill_payment_found_def find_None_iff split: if_splits)
  next
    case (Some pm)
    then have "truthy (idempotencyKey_pv p)" "pm \<in> set (payments_bk (books_w w))" "shopId_sp pm = shop"
      "idempotencyKey_sp pm = idempotencyKey_pv p"
      by (auto simp: bill_payment_found_def dest: find_SomeD split: if_splits)
    then show thesis using rest unfolding Some by (intro replayed[of pm]) (auto simp: pay_bill_def find_bill_def split: if_splits)
  qed
qed

text \<open>A credit note applied: its balance and the bill's move by the same amount.\<close>

definition credited_status :: "decimal_lib \<Rightarrow> VendorBill \<Rightarrow> decimal \<Rightarrow> VendorBillStatus" where
  "credited_status D b a = (if d_minus D (outstandingAmount_b b) a \<le> 0 then PAID else PARTIALLY_PAID)"

definition note_moved :: "string \<Rightarrow> decimal \<Rightarrow> SupplierCreditNote \<Rightarrow> SupplierCreditNote \<Rightarrow> bool" where
  "note_moved n a z z' \<longleftrightarrow> id_cn z' = id_cn z \<and> shopId_cn z' = shopId_cn z \<and> supplierId_cn z' = supplierId_cn z \<and>
     isDeleted_cn z' = isDeleted_cn z \<and> allocatedAmount_cn z' = allocatedAmount_cn z + (if id_cn z = n then a else 0) \<and>
     remainingBalance_cn z' = remainingBalance_cn z - (if id_cn z = n then a else 0)"

lemma move_allocation_cases:
  assumes run: "move_allocation D shop n i b a actor w = (w', Inr u)"
    and ids: "distinct (map id_b (bills_w w))" "distinct (map id_cn (notes_w w))"
    and found: "this_bill shop i w x" "status_b b = status_b x" "outstandingAmount_b b = outstandingAmount_b x"
    and credit: "y \<in> set (notes_w w)" "names_note shop n y" and le: "a \<le> remainingBalance_cn y" "a \<le> outstandingAmount_b x"
  shows "w' = w\<lparr>notes_w := update_rows (\<lambda>z. id_cn z = n) (\<lambda>z. z\<lparr>allocatedAmount_cn := allocatedAmount_cn z + a,
         remainingBalance_cn := remainingBalance_cn z - a\<rparr>) (notes_w w),
       bills_w := update_rows (has_id i) (\<lambda>b. b\<lparr>outstandingAmount_b := outstandingAmount_b b - a,
         status_b := credited_status D x a\<rparr>) (bills_w w),
       history_w := history_w w @ (if credited_status D x a = status_b x then [] else [status_row shop i actor (credited_status D x a)]),
       allocations_w := allocations_w w @ [\<lparr>shopId_al = shop, supplierCreditId_al = n, vendorBillId_al = i, allocatedAmount_al = a\<rparr>]\<rparr>"
proof -
  have x: "x \<in> set (bills_w w)" "id_b x = i" using found(1) by (auto simp: this_bill_def names_bill_def)
  have "update_rows (\<lambda>b. names_bill shop i b \<and> status_b b = status_b x \<and> a \<le> outstandingAmount_b b) f (bills_w w) =
      update_rows (has_id i) f (bills_w w)" for f
    using found(1) le(2) by (intro only_this[OF ids(1) x]) (auto simp: this_bill_def names_bill_def)
  moreover have "update_rows (\<lambda>z. names_note shop n z \<and> a \<le> remainingBalance_cn z) f (notes_w w) = update_rows (\<lambda>z. id_cn z = n) f (notes_w w)" for f
    using ids(2) credit le(1) by (intro update_rows_cong) (auto simp: names_note_def distinct_map dest: inj_onD)
  ultimately show ?thesis using run found(2,3)
    by (auto simp: move_allocation_def Let_def update_bills_def record_status_def status_row_def credited_status_def split: if_splits)
qed

lemma update_note_moved: "list_all2 (note_moved n a) xs (update_rows (\<lambda>z. id_cn z = n) (\<lambda>z. z\<lparr>allocatedAmount_cn := allocatedAmount_cn z + a,
    remainingBalance_cn := remainingBalance_cn z - a\<rparr>) xs)"
  by (induction xs) (auto simp: update_rows_def note_moved_def)

lemma note_moved_status:
  assumes "list_all2 (note_moved n a) xs ys" and "\<And>z. P z \<Longrightarrow> id_cn z = n"
  shows "list_all2 (note_moved n a) xs (update_rows P (\<lambda>z. z\<lparr>status_cn := s\<rparr>) ys)"
  using assms by (induction xs ys rule: list_all2_induct) (auto simp: update_rows_def note_moved_def)

lemma allocate_note_Inr:
  assumes "allocate_note D shop n i b row amount actor w = (w', Inr r)"
  obtains y where "row = Some y" "r = status_cn y" "status_cn y = CN_ISSUED \<or> status_cn y = CN_ALLOCATED"
    "supplierId_cn y = supplierId_b b" "status_b b = POSTED \<or> status_b b = PARTIALLY_PAID"
    "to_dp_half_up D 2 amount \<le> remainingBalance_cn y" "to_dp_half_up D 2 amount \<le> outstandingAmount_b b"
    "move_allocation D shop n i b (to_dp_half_up D 2 amount) actor w = (w', Inr ())"
  using assms by (cases row) (auto simp: allocate_note_def bind_eff_Inr split: if_splits)

lemma allocate_cases:
  assumes run: "allocateSupplierCredit D shop n i amount actor w = (w', Inr r)"
    and ids: "distinct (map id_b (bills_w w))" "distinct (map id_cn (notes_w w))"
  obtains x y a ns nh evs where "this_bill shop i w x" "status_b x = POSTED \<or> status_b x = PARTIALLY_PAID"
    "y \<in> set (notes_w w)" "names_note shop n y" "supplierId_cn y = supplierId_b x" "status_cn y = CN_ISSUED \<or> status_cn y = CN_ALLOCATED"
    "a = to_dp_half_up D 2 amount" "a \<le> remainingBalance_cn y" "a \<le> outstandingAmount_b x"
    "list_all2 (note_moved n a) (notes_w w) ns"
    "w' = w\<lparr>bills_w := update_rows (has_id i) (\<lambda>b. b\<lparr>outstandingAmount_b := outstandingAmount_b b - a,
         status_b := credited_status D x a\<rparr>) (bills_w w),
       history_w := history_w w @ (if credited_status D x a = status_b x then [] else [status_row shop i actor (credited_status D x a)]),
       allocations_w := allocations_w w @ [\<lparr>shopId_al = shop, supplierCreditId_al = n, vendorBillId_al = i, allocatedAmount_al = a\<rparr>],
       notes_w := ns, noteHistory_w := nh, events_w := evs\<rparr>"
proof -
  define a where "a = to_dp_half_up D 2 amount"
  obtain x y w1 w2 where x: "find (\<lambda>b. names_bill shop i b \<and> \<not> isDeleted_b b) (bills_w w) = Some x"
    and y: "find (\<lambda>x. names_note shop n x \<and> \<not> isDeleted_cn x) (notes_w w) = Some y"
    and cn: "status_cn y = CN_ISSUED \<or> status_cn y = CN_ALLOCATED" "supplierId_cn y = supplierId_b x"
    and st: "status_b x = POSTED \<or> status_b x = PARTIALLY_PAID"
    and le: "a \<le> remainingBalance_cn y" "a \<le> outstandingAmount_b x"
    and m: "move_allocation D shop n i (x\<lparr>lines_b := live_lines x\<rparr>) a actor w = (w1, Inr ())"
    and t: "(if status_cn y = CN_ISSUED then transition_note n shop CN_ISSUED CN_ALLOCATED else return_eff ()) w1 = (w2, Inr ())"
    and w': "w' = w2\<lparr>events_w := events_w w2 @ [(''SupplierCreditAllocated'', n), (''OutstandingReduced'', i)]\<rparr>"
  proof -
    obtain x y w1 w2 where x: "find (\<lambda>b. names_bill shop i b \<and> \<not> isDeleted_b b) (bills_w w) = Some x"
      and p: "allocate_note D shop n i (x\<lparr>lines_b := live_lines x\<rparr>) (find (\<lambda>x. names_note shop n x \<and> \<not> isDeleted_cn x) (notes_w w))
        amount actor w = (w1, Inr y)"
      and t: "(if y = CN_ISSUED then transition_note n shop CN_ISSUED CN_ALLOCATED else return_eff ()) w1 = (w2, Inr ())"
      and w': "w' = w2\<lparr>events_w := events_w w2 @ [(''SupplierCreditAllocated'', n), (''OutstandingReduced'', i)]\<rparr>"
      using run unfolding allocateSupplierCredit_def procurement_Inr processAllocation_def bind_eff_Inr lockBill_Inr
      by (auto simp: publish_def live_lines_def)
    show thesis using p by (rule allocate_note_Inr) (use x t w' in \<open>auto simp: a_def intro: that\<close>)
  qed
  have found: "this_bill shop i w x" by (rule locked_bill[OF x])
  have yy: "y \<in> set (notes_w w)" "names_note shop n y" using find_SomeD[OF y] by auto
  note w1 = move_allocation_cases[OF m ids found _ _ yy le, simplified]
  have "\<exists>ns nh. w2 = w1\<lparr>notes_w := ns, noteHistory_w := nh\<rparr> \<and> list_all2 (note_moved n a) (notes_w w) ns"
  proof (cases "status_cn y = CN_ISSUED")
    case True
    then have "w2 = w1\<lparr>notes_w := update_rows (\<lambda>z. names_note shop n z \<and> status_cn z = CN_ISSUED) (\<lambda>z. z\<lparr>status_cn := CN_ALLOCATED\<rparr>) (notes_w w1),
        noteHistory_w := noteHistory_w w1 @ [(n, CN_ALLOCATED)]\<rparr>"
      using t by (auto simp: transition_note_def split: if_splits)
    moreover have "list_all2 (note_moved n a) (notes_w w)
        (update_rows (\<lambda>z. names_note shop n z \<and> status_cn z = CN_ISSUED) (\<lambda>z. z\<lparr>status_cn := CN_ALLOCATED\<rparr>) (notes_w w1))"
      by (rule note_moved_status) (simp_all add: w1 update_note_moved names_note_def)
    ultimately show ?thesis by blast
  next
    case False
    then have "w2 = w1\<lparr>notes_w := notes_w w1, noteHistory_w := noteHistory_w w1\<rparr>" using t by simp
    moreover have "list_all2 (note_moved n a) (notes_w w) (notes_w w1)" by (simp add: w1 update_note_moved)
    ultimately show ?thesis by blast
  qed
  then obtain ns nh where "w2 = w1\<lparr>notes_w := ns, noteHistory_w := nh\<rparr>" "list_all2 (note_moved n a) (notes_w w) ns" by blast
  then show thesis using w' w1 by (intro that[OF found st yy cn(2,1) a_def le, of ns _ nh]) auto
qed

end
