(* ===== verification/VendorBillBooks.thy ===== *)
theory VendorBillBooks
  imports VendorBillProperties
begin

text \<open>
  What a vendor bill does to the books: its stored totals are the sums of its lines, its posting
  moves its supplier's payable by the posting's own net credit, and a payment is one new row of
  the supplier payments.
\<close>

section \<open>A posting that was written\<close>

lemma post_amounts:
  assumes "post D G p s = (s', Inr r)" and "posted_pr r" and "e \<in> set (normalise_entries D (entries_po p))"
  shows "fits_column 14 (amount_ei e)"
proof -
  obtain cur s1 where "post_loop D p (G s) cur (sort_key (\<lambda>e. account_rank (account_ei e)) (normalise_entries D (entries_po p))) s1 = (s', Inr ())"
    using assms(1,2) unfolding post_def postEntries_def
    by (auto simp: Let_def bind_eff_def locked_balances split: if_splits option.splits prod.splits sum.splits)
  from post_loop_amounts[OF this] assms(3) show ?thesis by (simp add: list_all_iff)
qed

context decimal_arith
begin

text \<open>A plan whose three parts are small: its entries are themselves, and its net credit is its payable.\<close>

lemma small_grid_sum:
  assumes "on_grid 2 x" "on_grid 2 y" "\<bar>x\<bar> < 10 ^ 13" "\<bar>y\<bar> < 10 ^ 13"
  shows "d_plus D x y = x + y"
  using assms abs_triangle_ineq[of x y] by (intro d_plus_grid[of 2]) simp_all

lemma plan_parts:
  assumes "plan = vendorBillPostingPlan D ls"
  obtains t v e where "on_grid 2 t" "on_grid 2 v" "on_grid 2 e"
    "t = half_up 2 (d_sum D (map tax_pl ls))"
    "v = half_up 2 (d_sum D (map (\<lambda>l. d_minus D (base_pl l) (receiptValue_pl l)) (filter stocked_pl ls)))"
    "e = half_up 2 (d_sum D (map base_pl (filter (\<lambda>l. \<not> stocked_pl l) ls)))"
    "payableDelta_vp plan = d_plus D (d_plus D t v) e"
    "entries_vp plan = (if 0 < t then [plan_entry INPUT_GST DEBIT t] else []) @
            (if 0 < v then [plan_entry INVENTORY DEBIT v] else []) @
            (if v < 0 then [plan_entry INVENTORY CREDIT \<bar>v\<bar>] else []) @
            (if 0 < e then [plan_entry EXPENSES DEBIT e] else []) @
            (if 0 < payableDelta_vp plan then [plan_entry ACCOUNTS_PAYABLE CREDIT (payableDelta_vp plan)] else []) @
            (if payableDelta_vp plan < 0 then [plan_entry ACCOUNTS_PAYABLE DEBIT \<bar>payableDelta_vp plan\<bar>] else [])"
  by (rule that[OF on_grid_half_up on_grid_half_up on_grid_half_up refl refl refl])
     (simp_all add: assms vendorBillPostingPlan_def Let_def to_dp_half_up)

lemma d_sum_nonneg: "(\<And>x. x \<in> set xs \<Longrightarrow> 0 \<le> x) \<Longrightarrow> 0 \<le> d_sum D xs"
  unfolding d_sum_def by (intro foldl_plus_ge fits_grid[of 0]) simp_all

definition plan_lines_ok :: "BillPlanLine list \<Rightarrow> bool" where
  "plan_lines_ok ls \<longleftrightarrow> list_all (\<lambda>l. 0 \<le> tax_pl l \<and> 0 \<le> base_pl l) ls"

lemma plan_entry_fields [simp]:
  "amount_ei (plan_entry a ty x) = x" "type_ei (plan_entry a ty x) = ty" "account_ei (plan_entry a ty x) = a"
  by (simp_all add: plan_entry_def)

lemma normalise_entry:
  "on_grid 2 x \<Longrightarrow> 0 < x \<Longrightarrow> normalise_entries D (plan_entry a ty x # es) = plan_entry a ty x # normalise_entries D es"
  by (simp add: normalise_entries_def plan_entry_def dp_exact)

lemma normalise_append: "normalise_entries D (xs @ ys) = normalise_entries D xs @ normalise_entries D ys"
  by (simp add: normalise_entries_def)

lemma bill_plan_proper:
  assumes plan: "plan = vendorBillPostingPlan D ls" and ls: "plan_lines_ok ls"
    and post: "post D G (bill_posting shop b plan) s = (s', Inr r)" "posted_pr r"
  shows "posting_fits D (bill_posting shop b plan)"
    and "payableDelta_vp plan = payable_part (normalise_entries D (entries_po (bill_posting shop b plan)))"
proof -
  obtain t v e where g: "on_grid 2 t" "on_grid 2 v" "on_grid 2 e" and t: "t = half_up 2 (d_sum D (map tax_pl ls))"
    and v: "v = half_up 2 (d_sum D (map (\<lambda>l. d_minus D (base_pl l) (receiptValue_pl l)) (filter stocked_pl ls)))"
    and e: "e = half_up 2 (d_sum D (map base_pl (filter (\<lambda>l. \<not> stocked_pl l) ls)))"
    and delta: "payableDelta_vp plan = d_plus D (d_plus D t v) e"
    and entries: "entries_vp plan = (if 0 < t then [plan_entry INPUT_GST DEBIT t] else []) @
            (if 0 < v then [plan_entry INVENTORY DEBIT v] else []) @
            (if v < 0 then [plan_entry INVENTORY CREDIT \<bar>v\<bar>] else []) @
            (if 0 < e then [plan_entry EXPENSES DEBIT e] else []) @
            (if 0 < payableDelta_vp plan then [plan_entry ACCOUNTS_PAYABLE CREDIT (payableDelta_vp plan)] else []) @
            (if payableDelta_vp plan < 0 then [plan_entry ACCOUNTS_PAYABLE DEBIT \<bar>payableDelta_vp plan\<bar>] else [])"
    by (rule plan_parts[OF plan])
  have po: "entries_po (bill_posting shop b plan) = entries_vp plan" by (simp add: bill_posting_def)
  let ?n = "normalise_entries D (entries_vp plan)"
  have fit: "fits_column 14 (amount_ei x)" if "x \<in> set ?n" for x
    by (rule post_amounts[OF post]) (simp add: po that)
  have "0 \<le> t" "0 \<le> e" unfolding t e using ls
    by (auto intro!: half_up_nonneg d_sum_nonneg simp: plan_lines_ok_def list_all_iff)
  moreover have "\<bar>t\<bar> < 10 ^ 12" if "0 < t" using fit[of "plan_entry INPUT_GST DEBIT t"] that g
    by (simp add: entries normalise_append normalise_entry fits_column_def)
  moreover have "\<bar>e\<bar> < 10 ^ 12" if "0 < e" using fit[of "plan_entry EXPENSES DEBIT e"] that g
    by (simp add: entries normalise_append normalise_entry fits_column_def)
  moreover have "\<bar>v\<bar> < 10 ^ 12" if "v \<noteq> 0"
    using that fit[of "plan_entry INVENTORY DEBIT v"] fit[of "plan_entry INVENTORY CREDIT \<bar>v\<bar>"] g on_grid_minus[OF g(2)]
    by (cases "0 < v") (simp_all add: entries normalise_append normalise_entry fits_column_def)
  ultimately have small: "\<bar>t\<bar> < 10 ^ 12" "\<bar>v\<bar> < 10 ^ 12" "\<bar>e\<bar> < 10 ^ 12"
    by (cases "t = 0"; cases "v = 0"; cases "e = 0"; simp)+
  have "\<bar>t + v\<bar> < 10 ^ 13" using small abs_triangle_ineq[of t v] by simp
  then have d: "payableDelta_vp plan = t + v + e" using g small
    unfolding delta by (simp add: small_grid_sum on_grid_add)
  have dg: "on_grid 2 (payableDelta_vp plan)" unfolding d using g by (intro on_grid_add)
  have n: "?n = entries_vp plan"
    unfolding entries using g dg by (auto simp: normalise_append normalise_entry on_grid_minus normalise_entries_def plan_entry_def dp_exact)
  show "payableDelta_vp plan = payable_part (normalise_entries D (entries_po (bill_posting shop b plan)))"
    unfolding po n unfolding entries by (simp add: payable_part_def)
  have "length (entries_vp plan) \<le> 6" unfolding entries by simp
  then have "length ?n \<le> 6" by (simp only: n)
  moreover have "amount_ei x \<le> 10 ^ 12" if "x \<in> set ?n" for x using fit[OF that] by (simp add: fits_column_def)
  then have "sum_list (map amount_ei ?n) \<le> of_nat (length ?n) * 10 ^ 12"
    using sum_list_mono[of ?n amount_ei "\<lambda>_. 10 ^ 12"] by (simp add: sum_list_triv)
  ultimately have "sum_list (map amount_ei ?n) \<le> 6 * 10 ^ 12" by (simp add: order_trans[OF _ mult_right_mono[of "of_nat (length ?n)" 6]])
  then show "posting_fits D (bill_posting shop b plan)" by (simp add: posting_fits_def po)
qed

lemma bill_post_keeps:
  assumes ok: "payables_ok owner s" and ids: "new_ids G" and plan: "plan = vendorBillPostingPlan D ls" "plan_lines_ok ls"
    and own: "owner SRC_VENDOR_BILL shop (id_b b) = Some vendor"
    and run: "postWithPayable D G (Some vendor) (bill_posting shop b plan) (payableDelta_vp plan) s = (s', Inr r)"
  shows "payables_ok owner s' \<and> payments_bk s' = payments_bk s"
proof -
  let ?p = "bill_posting shop b plan"
  obtain s1 where post: "post D G ?p s = (s1, Inr r)" and rest: "(\<not> posted_pr r \<or> payableDelta_vp plan = 0) \<and> s' = s1 \<or>
      posted_pr r \<and> (\<exists>d i. movePayable D shop i d s1 = (s', Inr ()))"
    using run by (cases rule: post_payable_cases) (auto simp: bill_posting_def)
  have pays: "payments_bk s1 = payments_bk s"
    by (rule post_cases[OF payables_okD(1)[OF ok] post]) (simp_all add: posted_books_def)
  have kept: "payments_bk s' = payments_bk s" using rest pays by (auto dest: move_cases)
  show ?thesis
  proof (cases "posted_pr r")
    case True
    have "proper_call D owner (PostPayable (Some vendor) ?p (payableDelta_vp plan))"
      using bill_plan_proper[OF plan post True] own by (simp add: bill_posting_def payable_sources_def)
    then show ?thesis using post_payable_keeps[OF ok ids _ run] kept by blast
  next
    case False
    have "s1 = s" by (rule post_cases[OF payables_okD(1)[OF ok] post]) (use False in simp_all)
    then show ?thesis using rest False ok kept by auto
  qed
qed

end

section \<open>A stored bill is worth its lines\<close>

definition line_good :: "VendorBillLine \<Rightarrow> bool" where
  "line_good l \<longleftrightarrow> line_in_range l \<and> on_grid 3 (billedQuantity_bl l) \<and> 0 \<le> billedQuantity_bl l \<and> on_grid 2 (taxAmount_bl l) \<and>
     on_grid 2 (totalAmount_bl l) \<and> 0 \<le> taxAmount_bl l \<and> taxAmount_bl l \<le> totalAmount_bl l \<and> \<not> isDeleted_bl l"

definition bill_worth :: "VendorBill \<Rightarrow> bool" where
  "bill_worth b \<longleftrightarrow> list_all line_good (lines_b b) \<and> totalAmount_b b = sum_list (map totalAmount_bl (lines_b b)) \<and>
     taxAmount_b b = sum_list (map taxAmount_bl (lines_b b))"

definition valid_line :: "VendorBillLineDto \<Rightarrow> bool" where
  "valid_line l \<longleftrightarrow> 0 < billedQuantity_d l \<and> 0 \<le> unitPrice_d l \<and> (case taxPercentage_d l of None \<Rightarrow> True | Some t \<Rightarrow> 0 \<le> t)"

context decimal_arith
begin

lemma tax_nonneg:
  assumes "0 \<le> taxableAmount_x inp" and "0 \<le> gstRate_x inp" and "cessRate_x inp = 0" and "t = calculateTax D inp"
  shows "0 \<le> baseAmount_x t" and "0 \<le> totalTaxAmount_x t"
proof -
  have base: "0 \<le> tax_base D inp"
    using assms(1-3) by (auto simp: tax_base_def d_div_def d_plus_def intro!: ctx_nonneg divide_nonneg_nonneg add_nonneg_nonneg split: GSTMode.split)
  have part: "0 \<le> tax_part D (tax_base D inp) pct" if "0 \<le> pct" for pct
    using base that unfolding tax_part_def to_dp_half_up d_div_def d_mul_def
    by (intro half_up_nonneg ctx_nonneg divide_nonneg_nonneg mult_nonneg_nonneg) simp_all
  have half: "0 \<le> d_div D (gstRate_x inp) 2" using assms(2) unfolding d_div_def by (intro ctx_nonneg) simp
  show "0 \<le> baseAmount_x t" using base by (simp add: assms(4) calculateTax_def Let_def to_dp_half_up half_up_nonneg)
  have plus: "0 \<le> x \<Longrightarrow> 0 \<le> y \<Longrightarrow> 0 \<le> d_plus D x y" for x y
    unfolding d_plus_def by (intro ctx_nonneg add_nonneg_nonneg)
  show "0 \<le> totalTaxAmount_x t" by (simp add: assms(2-4) calculateTax_def Let_def plus part half)
qed

lemma tax_line_figures:
  assumes "valid_line l"
  shows "on_grid 2 (baseAmount_tl (tax_line D m l))" "0 \<le> baseAmount_tl (tax_line D m l)"
    "on_grid 2 (taxAmount_tl (tax_line D m l))" "0 \<le> taxAmount_tl (tax_line D m l)"
    "totalAmount_tl (tax_line D m l) = d_plus D (baseAmount_tl (tax_line D m l)) (taxAmount_tl (tax_line D m l))"
    "line_tl (tax_line D m l) = l"
proof -
  let ?inp = "\<lparr>taxableAmount_x = d_mul D (billedQuantity_d l) (unitPrice_d l),
     gstRate_x = (case taxPercentage_d l of None \<Rightarrow> 0 | Some t \<Rightarrow> t), cessRate_x = 0, isInterState_x = False, mode_x = m\<rparr>"
  have "0 \<le> d_mul D (billedQuantity_d l) (unitPrice_d l)" using assms unfolding d_mul_def valid_line_def
    by (intro ctx_nonneg mult_nonneg_nonneg) auto
  then have "0 \<le> baseAmount_x (calculateTax D ?inp)" "0 \<le> totalTaxAmount_x (calculateTax D ?inp)"
    using assms by (auto intro!: tax_nonneg[of ?inp] simp: valid_line_def split: option.splits)
  then show "on_grid 2 (baseAmount_tl (tax_line D m l))" "0 \<le> baseAmount_tl (tax_line D m l)"
    "on_grid 2 (taxAmount_tl (tax_line D m l))" "0 \<le> taxAmount_tl (tax_line D m l)"
    "totalAmount_tl (tax_line D m l) = d_plus D (baseAmount_tl (tax_line D m l)) (taxAmount_tl (tax_line D m l))"
    "line_tl (tax_line D m l) = l"
    by (simp_all add: tax_line_def Let_def to_dp_half_up half_up_nonneg)
qed

text \<open>A figure the column keeps was computed exactly.\<close>

lemma kept_small:
  assumes "fits_column 10 (half_up 2 (d_plus D x y))" and "0 \<le> x" and "0 \<le> y"
  shows "x + y < 10 ^ 9"
proof (rule ccontr)
  assume "\<not> x + y < 10 ^ 9"
  moreover have g: "on_grid n (10 ^ 9)" for n using on_grid_of_int[of n "10 ^ 9"] by simp
  ultimately have "10 ^ 9 \<le> d_plus D x y" unfolding d_plus_def by (intro ctx_ge fits_grid[of 0]) simp_all
  then have "10 ^ 9 \<le> half_up 2 (d_plus D x y)" by (intro half_up_ge g)
  then show False using assms(1) by (simp add: fits_column_def)
qed

lemma kept_sum:
  assumes "fits_column 10 (half_up 2 (d_plus D x y))" and "0 \<le> x" "on_grid 2 x" and "0 \<le> y" "on_grid 2 y"
  shows "d_plus D x y = x + y" and "half_up 2 (d_plus D x y) = x + y"
proof -
  show "d_plus D x y = x + y" using kept_small[OF assms(1,2,4)] assms by (intro d_plus_grid[of 2]) simp_all
  then show "half_up 2 (d_plus D x y) = x + y" using assms by (simp add: half_up_exact on_grid_add)
qed

lemma stored_line_good:
  assumes l: "valid_line l" and range: "line_in_range (stored_bill_line (tax_line D m l))"
  shows "line_good (stored_bill_line (tax_line D m l))"
    and "totalAmount_bl (stored_bill_line (tax_line D m l)) = baseAmount_tl (tax_line D m l) + taxAmount_tl (tax_line D m l)"
    and "taxAmount_bl (stored_bill_line (tax_line D m l)) = taxAmount_tl (tax_line D m l)"
proof -
  note f = tax_line_figures[OF l, of m]
  have "fits_column 10 (half_up 2 (d_plus D (baseAmount_tl (tax_line D m l)) (taxAmount_tl (tax_line D m l))))"
    using range by (simp add: line_in_range_def stored_bill_line_def Let_def f(5))
  from kept_sum(2)[OF this f(2,1,4,3)]
  show total: "totalAmount_bl (stored_bill_line (tax_line D m l)) = baseAmount_tl (tax_line D m l) + taxAmount_tl (tax_line D m l)"
    by (simp add: stored_bill_line_def Let_def f(5))
  show tax: "taxAmount_bl (stored_bill_line (tax_line D m l)) = taxAmount_tl (tax_line D m l)"
    by (simp add: stored_bill_line_def Let_def half_up_exact f(3))
  have q: "on_grid 3 (billedQuantity_bl (stored_bill_line t))" "0 \<le> billedQuantity_d (line_tl t) \<Longrightarrow> 0 \<le> billedQuantity_bl (stored_bill_line t)"
    "\<not> isDeleted_bl (stored_bill_line t)" for t
    by (simp_all add: stored_bill_line_def Let_def half_up_nonneg)
  show "line_good (stored_bill_line (tax_line D m l))"
    unfolding line_good_def total tax using range f q[of "tax_line D m l"] l by (simp add: on_grid_add valid_line_def)
qed

lemma new_bill_worth:
  assumes lines: "list_all valid_line (lines_cv p)" and b: "b = new_bill D i nr shop p actor"
    and fits: "fits_column 10 (totalAmount_b b)" "list_all line_in_range (lines_b b)"
  shows "bill_worth b" and "0 \<le> totalAmount_b b" and "on_grid 2 (totalAmount_b b)"
proof -
  define m where "m = (case taxMode_cv p of None \<Rightarrow> EXCLUSIVE | Some m \<Rightarrow> m)"
  define ts where "ts = map (tax_line D m) (lines_cv p)"
  have good: "line_good (stored_bill_line t) \<and> totalAmount_bl (stored_bill_line t) = baseAmount_tl t + taxAmount_tl t \<and>
      taxAmount_bl (stored_bill_line t) = taxAmount_tl t \<and> on_grid 2 (baseAmount_tl t) \<and> 0 \<le> baseAmount_tl t \<and>
      on_grid 2 (taxAmount_tl t) \<and> 0 \<le> taxAmount_tl t" if t: "t \<in> set ts" for t
  proof -
    obtain l where l: "l \<in> set (lines_cv p)" "t = tax_line D m l" using t by (auto simp: ts_def)
    have v: "valid_line l" using lines l(1) by (simp add: list_all_iff)
    have "line_in_range (stored_bill_line t)"
      using fits(2) t by (auto simp: b new_bill_def stored_bill_def prepareTaxLiability_def Let_def list_all_iff ts_def m_def)
    then show ?thesis using stored_line_good[OF v, of m] tax_line_figures[OF v, of m] by (simp add: l(2))
  qed
  define bs xs where "bs = map baseAmount_tl ts" and "xs = map taxAmount_tl ts"
  have bs: "on_grid 2 x \<and> 0 \<le> x" if "x \<in> set bs" for x using that good by (auto simp: bs_def)
  have xs: "on_grid 2 x \<and> 0 \<le> x" if "x \<in> set xs" for x using that good by (auto simp: xs_def)
  have total: "totalAmount_b b = half_up 2 (d_plus D (d_sum D bs) (d_sum D xs))" and tax: "taxAmount_b b = half_up 2 (d_sum D xs)"
    and stored: "lines_b b = map stored_bill_line ts"
    by (simp_all add: b new_bill_def stored_bill_def prepareTaxLiability_def Let_def ts_def m_def bs_def xs_def comp_def)
  have nn: "0 \<le> d_sum D bs" "0 \<le> d_sum D xs" using bs xs by (auto intro: d_sum_nonneg)
  have "d_sum D bs + d_sum D xs < 10 ^ 9" using kept_small fits(1) nn unfolding total by blast
  then have sb: "d_sum D bs = sum_list bs" and sx: "d_sum D xs = sum_list xs"
    using d_sum_exact_small[of bs 2] d_sum_exact_small[of xs 2] bs xs nn by simp_all
  have g: "on_grid 2 (sum_list bs)" "on_grid 2 (sum_list xs)" using bs xs by (auto intro: on_grid_sum_list)
  have t: "totalAmount_b b = sum_list bs + sum_list xs"
    using kept_sum(2)[of "sum_list bs" "sum_list xs"] fits(1) nn g unfolding total sb sx by blast
  then show "0 \<le> totalAmount_b b" "on_grid 2 (totalAmount_b b)" using nn g unfolding sb sx by (simp_all add: on_grid_add)
  have "map totalAmount_bl (lines_b b) = map (\<lambda>t. baseAmount_tl t + taxAmount_tl t) ts" "map taxAmount_bl (lines_b b) = xs"
    using good by (simp_all add: stored xs_def)
  moreover have "sum_list (map (\<lambda>t. baseAmount_tl t + taxAmount_tl t) ts) = sum_list bs + sum_list xs"
    by (simp add: bs_def xs_def sum_list_addf)
  moreover have "list_all line_good (lines_b b)" using good by (simp add: stored list_all_iff)
  ultimately show "bill_worth b" using t tax g by (simp add: bill_worth_def sx half_up_exact)
qed

end

end
