(* ===== verification/VendorBillHistory.thy ===== *)
theory VendorBillHistory
  imports VendorBillBooks
begin

text \<open>
  Histories of vendor bills: bills created, submitted, decided, withdrawn, posted, paid and
  credited, between the other movements of the ledger. What every step keeps: the rows refer to
  each other, a bill's money adds up, receipts are not billed beyond what was accepted, nobody
  approves their own bill, and the statuses follow the lifecycle.
\<close>

section \<open>Histories\<close>

datatype bill_call =
    CreateBill string string string CreateVendorBillDto string
  | SubmitBill string string string
  | DecideBill string string string Decision
  | CancelBill string string string
  | PostBill int string string string
  | PayBill string string PayVendorBillDto string
  | AllocateCredit string string string decimal string
  | LedgerCall ledger_call

fun run_bill :: "decimal_lib \<Rightarrow> (books \<Rightarrow> string) \<Rightarrow> decimal \<Rightarrow> bill_call \<Rightarrow> purchasing \<Rightarrow> purchasing" where
  "run_bill D G tp (CreateBill i nr shop p actor) w = fst (createVendorBill D tp i nr shop p actor w)"
| "run_bill D G tp (SubmitBill shop i actor) w = fst (submitVendorBill D tp shop i actor w)"
| "run_bill D G tp (DecideBill shop i actor action) w = fst (decide shop i actor action w)"
| "run_bill D G tp (CancelBill shop i actor) w = fst (cancelVendorBill shop i actor w)"
| "run_bill D G tp (PostBill now shop i actor) w = fst (postVendorBill D G now shop i actor w)"
| "run_bill D G tp (PayBill shop i p actor) w = fst (payVendorBill D G shop i p actor w)"
| "run_bill D G tp (AllocateCredit shop n i amount actor) w = fst (allocateSupplierCredit D shop n i amount actor w)"
| "run_bill D G tp (LedgerCall c) w = w\<lparr>books_w := run_call D G c (books_w w)\<rparr>"

text \<open>
  What the callers send: validated lines, a bill id that is not empty and that \<open>owner\<close> gives the
  bill's supplier, positive amounts, and payments of bills only through the bills.
\<close>

fun proper_bill ::
    "decimal_lib \<Rightarrow> (LedgerSourceType \<Rightarrow> string \<Rightarrow> string \<Rightarrow> string option) \<Rightarrow> bill_call \<Rightarrow> bool" where
  "proper_bill D owner (CreateBill i nr shop p actor) \<longleftrightarrow>
     i \<noteq> [] \<and> owner SRC_VENDOR_BILL shop i = Some (supplierId_cv p) \<and> list_all valid_line (lines_cv p)"
| "proper_bill D owner (AllocateCredit shop n i amount actor) \<longleftrightarrow> 0 < amount"
| "proper_bill D owner (LedgerCall c) \<longleftrightarrow> proper_call D owner c \<and>
     (case c of PaySupplier i \<Rightarrow> vendorBillId_in i = None | _ \<Rightarrow> True)"
| "proper_bill D owner _ \<longleftrightarrow> True"

section \<open>What the rows say of a bill\<close>

definition paid_on :: "purchasing \<Rightarrow> string \<Rightarrow> decimal" where
  "paid_on w i = sum_list (map amount_sp (filter (\<lambda>x. vendorBillId_sp x = Some i) (payments_bk (books_w w))))"

definition credited_on :: "purchasing \<Rightarrow> string \<Rightarrow> decimal" where
  "credited_on w i = sum_list (map allocatedAmount_al (filter (\<lambda>a. vendorBillId_al a = i) (allocations_w w)))"

definition used_of :: "purchasing \<Rightarrow> string \<Rightarrow> decimal" where
  "used_of w n = sum_list (map allocatedAmount_al (filter (\<lambda>a. supplierCreditId_al a = n) (allocations_w w)))"

definition settled :: "decimal \<Rightarrow> decimal \<Rightarrow> VendorBill \<Rightarrow> bool" where
  "settled paid credited b \<longleftrightarrow> on_grid 2 (totalAmount_b b) \<and> fits_column 10 (totalAmount_b b) \<and>
     on_grid 2 (outstandingAmount_b b) \<and> 0 \<le> outstandingAmount_b b \<and> paidAmount_b b = paid \<and> on_grid 2 paid \<and> 0 \<le> paid \<and>
     0 \<le> credited \<and> paid + credited + outstandingAmount_b b = totalAmount_b b \<and>
     (status_b b = PAID \<longrightarrow> outstandingAmount_b b = 0) \<and> (status_b b = PARTIALLY_PAID \<longrightarrow> 0 < outstandingAmount_b b) \<and>
     (status_b b \<notin> {POSTED, PARTIALLY_PAID, PAID} \<longrightarrow> paid = 0 \<and> credited = 0)"

definition bill_ok ::
    "(LedgerSourceType \<Rightarrow> string \<Rightarrow> string \<Rightarrow> string option) \<Rightarrow> purchasing \<Rightarrow> VendorBill \<Rightarrow> bool" where
  "bill_ok owner w b \<longleftrightarrow> id_b b \<noteq> [] \<and> owner SRC_VENDOR_BILL (shopId_b b) (id_b b) = Some (supplierId_b b) \<and>
     \<not> isDeleted_b b \<and> bill_worth b \<and> settled (paid_on w (id_b b)) (credited_on w (id_b b)) b"

definition bill_ids :: "purchasing \<Rightarrow> string set" where
  "bill_ids w = id_b ` set (bills_w w)"

definition refs_ok :: "purchasing \<Rightarrow> bool" where
  "refs_ok w \<longleftrightarrow> distinct (map id_b (bills_w w)) \<and> distinct (map id_cn (notes_w w)) \<and>
     (\<forall>p \<in> set (payments_bk (books_w w)). \<forall>j. vendorBillId_sp p = Some j \<longrightarrow> j \<in> bill_ids w) \<and>
     (\<forall>a \<in> set (allocations_w w). vendorBillId_al a \<in> bill_ids w)"

definition notes_ok :: "purchasing \<Rightarrow> bool" where
  "notes_ok w \<longleftrightarrow> (\<forall>z \<in> set (notes_w w). 0 \<le> remainingBalance_cn z \<and> allocatedAmount_cn z = used_of w (id_cn z))"

definition money_ok :: "(LedgerSourceType \<Rightarrow> string \<Rightarrow> string \<Rightarrow> string option) \<Rightarrow> purchasing \<Rightarrow> bool" where
  "money_ok owner w \<longleftrightarrow> payables_ok owner (books_w w) \<and> refs_ok w \<and> notes_ok w \<and> (\<forall>b \<in> set (bills_w w). bill_ok owner w b)"

lemma money_okD:
  assumes "money_ok owner w"
  shows "payables_ok owner (books_w w)" "distinct (map id_b (bills_w w))" "distinct (map id_cn (notes_w w))"
    "x \<in> set (bills_w w) \<Longrightarrow> bill_ok owner w x"
  using assms by (auto simp: money_ok_def refs_ok_def)

text \<open>One bill changed, and the sums of the others did not.\<close>

lemma update_all:
  assumes "distinct (map id_b xs)" and "x \<in> set xs" and "id_b x = i"
    and "\<And>b. b \<in> set xs \<Longrightarrow> id_b b \<noteq> i \<Longrightarrow> Q b" and "Q (f x)"
  shows "\<forall>b \<in> set (update_rows (has_id i) f xs). Q b"
proof
  fix b assume "b \<in> set (update_rows (has_id i) f xs)"
  then obtain y where y: "y \<in> set xs" "b = (if id_b y = i then f y else y)" by (auto simp: set_update_rows has_id_def)
  have "id_b y = i \<Longrightarrow> y = x" using assms(1-3) y(1) by (auto simp: distinct_map dest: inj_onD)
  then show "Q b" using assms(4,5) y by auto
qed

lemma bills_step:
  assumes ok: "money_ok owner w" and found: "this_bill shop i w x"
    and bills: "bills_w w' = update_rows (has_id i) f (bills_w w)" and new: "bill_ok owner w' (f x)"
    and rest: "\<And>j. j \<noteq> i \<Longrightarrow> paid_on w' j = paid_on w j \<and> credited_on w' j = credited_on w j"
  shows "\<forall>b \<in> set (bills_w w'). bill_ok owner w' b"
  unfolding bills
proof (rule update_all[where x = x and f = f and Q = "bill_ok owner w'"])
  show "x \<in> set (bills_w w)" "id_b x = i" using found by (auto simp: this_bill_def names_bill_def)
  show "bill_ok owner w' b" if "b \<in> set (bills_w w)" "id_b b \<noteq> i" for b
    using money_okD(4)[OF ok that(1)] rest[OF that(2)] by (simp add: bill_ok_def)
qed (rule money_okD(2)[OF ok] new)+

lemma ids_kept:
  assumes "bills_w w' = update_rows (has_id i) f (bills_w w)" and "\<And>b. id_b (f b) = id_b b"
  shows "bill_ids w' = bill_ids w" and "map id_b (bills_w w') = map id_b (bills_w w)"
  using assms update_ids[of f "has_id i" "bills_w w"] by (auto simp: bill_ids_def simp flip: set_map)

text \<open>A step that moved no money.\<close>

lemma sums_same:
  "books_w w' = books_w w \<Longrightarrow> allocations_w w' = allocations_w w \<Longrightarrow>
    paid_on w' = paid_on w \<and> credited_on w' = credited_on w \<and> used_of w' = used_of w"
  by (simp add: paid_on_def credited_on_def used_of_def fun_eq_iff)

lemma status_step:
  assumes ok: "money_ok owner w" and found: "this_bill shop i w x"
    and bills: "bills_w w' = update_rows (has_id i) f (bills_w w)"
    and f: "\<And>b. (f b)\<lparr>status_b := DRAFT, postingDate_b := None\<rparr> = b\<lparr>status_b := DRAFT, postingDate_b := None\<rparr>"
    and status: "status_b x \<notin> {POSTED, PARTIALLY_PAID, PAID}" "status_b (f x) \<notin> {PARTIALLY_PAID}"
      "status_b (f x) = PAID \<Longrightarrow> False"
    and same: "payables_ok owner (books_w w')" "payments_bk (books_w w') = payments_bk (books_w w)"
      "notes_w w' = notes_w w" "allocations_w w' = allocations_w w"
  shows "money_ok owner w'"
proof -
  have id: "id_b (f b) = id_b b" for b using arg_cong[OF f, of id_b] by simp
  have fx: "shopId_b (f x) = shopId_b x" "supplierId_b (f x) = supplierId_b x" "isDeleted_b (f x) = isDeleted_b x"
    "lines_b (f x) = lines_b x" "totalAmount_b (f x) = totalAmount_b x" "taxAmount_b (f x) = taxAmount_b x"
    "outstandingAmount_b (f x) = outstandingAmount_b x" "paidAmount_b (f x) = paidAmount_b x"
    using arg_cong[OF f, of shopId_b] arg_cong[OF f, of supplierId_b] arg_cong[OF f, of isDeleted_b] arg_cong[OF f, of lines_b]
      arg_cong[OF f, of totalAmount_b] arg_cong[OF f, of taxAmount_b] arg_cong[OF f, of outstandingAmount_b] arg_cong[OF f, of paidAmount_b]
    by simp_all
  have sums: "paid_on w' = paid_on w" "credited_on w' = credited_on w" "used_of w' = used_of w"
    by (simp_all add: paid_on_def credited_on_def used_of_def fun_eq_iff same)
  have "bill_ok owner w x" using found by (intro money_okD(4)[OF ok]) (simp add: this_bill_def)
  then have "bill_ok owner w' (f x)" using status
    by (auto simp: bill_ok_def id fx sums bill_worth_def settled_def)
  then have "\<forall>b \<in> set (bills_w w'). bill_ok owner w' b" by (intro bills_step[OF ok found bills]) (simp_all add: sums)
  moreover have "refs_ok w'" using ok ids_kept[OF bills id] by (simp add: money_ok_def refs_ok_def same)
  moreover have "notes_ok w'" using ok by (simp add: money_ok_def notes_ok_def same sums)
  ultimately show ?thesis using same(1) by (simp add: money_ok_def)
qed

section \<open>Every operation keeps the money\<close>

lemma submit_money:
  assumes ok: "money_ok owner w" and run: "submitVendorBill D tp shop i actor w = (w', Inr r)"
  shows "money_ok owner w'"
proof (rule submit_cases[OF run money_okD(2)[OF ok]])
  fix x aps evs
  assume found: "this_bill shop i w x" "status_b x = DRAFT"
    and w': "w' = w\<lparr>bills_w := update_rows (has_id i) (\<lambda>b. b\<lparr>status_b := PENDING_APPROVAL\<rparr>) (bills_w w),
       history_w := history_w w @ [status_row shop i actor SUBMITTED, status_row shop i actor PENDING_APPROVAL],
       approvals_w := approvals_w w @ aps, audits_w := audits_w w @ [audit_row shop i actor ''SUBMITTED''], events_w := evs\<rparr>"
  show ?thesis
    by (rule status_step[OF ok found(1), of w' "\<lambda>b. b\<lparr>status_b := PENDING_APPROVAL\<rparr>"])
       (use found(2) money_okD(1)[OF ok] in \<open>simp_all add: w'\<close>)
qed

lemma decide_money:
  assumes ok: "money_ok owner w" and run: "decide shop i actor action w = (w', Inr r)"
  shows "money_ok owner w'"
proof (rule decide_cases[OF run money_okD(2)[OF ok]])
  fix x p evs
  let ?f = "\<lambda>b. b\<lparr>status_b := (if action = APPROVE then APPROVED else REJECTED)\<rparr>"
  assume found: "this_bill shop i w x" "status_b x = PENDING_APPROVAL"
    and w': "w' = w\<lparr>approvals_w := update_rows (\<lambda>a. id_ap a = id_ap p)
         (\<lambda>a. a\<lparr>status_ap := (if action = APPROVE then ''APPROVED'' else ''REJECTED''), approverId_ap := actor\<rparr>) (approvals_w w),
       bills_w := update_rows (has_id i) ?f (bills_w w),
       history_w := history_w w @ [status_row shop i actor (if action = APPROVE then APPROVED else REJECTED)], events_w := evs\<rparr>"
  show ?thesis
    by (rule status_step[OF ok found(1), of w' ?f]) (use found(2) money_okD(1)[OF ok] in \<open>auto simp: w' split: if_splits\<close>)
qed

lemma cancel_money:
  assumes ok: "money_ok owner w" and run: "cancelVendorBill shop i actor w = (w', Inr r)"
  shows "money_ok owner w'"
proof (rule cancel_cases[OF run money_okD(2)[OF ok]])
  fix x evs
  assume found: "this_bill shop i w x" "status_b x \<in> set CANCELLABLE"
    and w': "w' = w\<lparr>bills_w := update_rows (has_id i) (\<lambda>b. b\<lparr>status_b := CANCELLED\<rparr>) (bills_w w),
       history_w := history_w w @ [status_row shop i actor CANCELLED],
       approvals_w := update_rows (pending_of shop i) (\<lambda>a. a\<lparr>status_ap := ''CANCELLED'', approverId_ap := actor\<rparr>) (approvals_w w),
       audits_w := audits_w w @ [audit_row shop i actor ''CANCELLED''], events_w := evs\<rparr>"
  show ?thesis
    by (rule status_step[OF ok found(1), of w' "\<lambda>b. b\<lparr>status_b := CANCELLED\<rparr>"])
       (use found(2) money_okD(1)[OF ok] in \<open>auto simp: w' CANCELLABLE_def\<close>)
qed

lemma new_bill_fields [simp]:
  "id_b (new_bill D i nr shop p actor) = i" "shopId_b (new_bill D i nr shop p actor) = shop"
  "supplierId_b (new_bill D i nr shop p actor) = supplierId_cv p" "status_b (new_bill D i nr shop p actor) = DRAFT"
  "paidAmount_b (new_bill D i nr shop p actor) = 0" "isDeleted_b (new_bill D i nr shop p actor) = False"
  "createdBy_b (new_bill D i nr shop p actor) = actor"
  "outstandingAmount_b (new_bill D i nr shop p actor) = totalAmount_b (new_bill D i nr shop p actor)"
  by (simp_all add: new_bill_def stored_bill_def)

lemma sum_none: "(\<And>x. x \<in> set xs \<Longrightarrow> \<not> P x) \<Longrightarrow> sum_list (map f (filter P xs)) = 0"
  by (simp add: filter_empty_conv)

context decimal_arith
begin

lemma create_money:
  assumes ok: "money_ok owner w" and call: "proper_bill D owner (CreateBill i nr shop p actor)"
    and run: "createVendorBill D tp i nr shop p actor w = (w', Inr r)"
  shows "money_ok owner w'"
proof (rule create_cases[OF run])
  fix evs
  assume r: "r = new_bill D i nr shop p actor" "i \<notin> id_b ` set (bills_w w)"
    and fits: "fits_column 10 (totalAmount_b r)" "list_all line_in_range (lines_b r)"
    and w': "w' = w\<lparr>bills_w := bills_w w @ [r], audits_w := audits_w w @ [audit_row shop i actor ''CREATED''], events_w := evs\<rparr>"
  have id: "id_b r = i" by (simp add: r(1))
  have sums: "paid_on w' = paid_on w" "credited_on w' = credited_on w" "used_of w' = used_of w"
    by (simp_all add: paid_on_def credited_on_def used_of_def fun_eq_iff w')
  have refs: "refs_ok w" using ok by (simp add: money_ok_def)
  have "paid_on w i = 0" "credited_on w i = 0"
    unfolding paid_on_def credited_on_def using refs r(2) by (auto simp: refs_ok_def bill_ids_def intro!: sum_none)
  then have "bill_ok owner w' r"
    using new_bill_worth[OF _ r(1) fits] call
    by (simp add: bill_ok_def settled_def sums fits(1)[unfolded r(1)] r(1))
  then have "\<forall>b \<in> set (bills_w w'). bill_ok owner w' b"
    using money_okD(4)[OF ok] by (auto simp: w' bill_ok_def sums[unfolded w'])
  moreover have "refs_ok w'" using refs r(2) by (auto simp: refs_ok_def bill_ids_def w' id)
  moreover have "notes_ok w'" using ok by (simp add: money_ok_def notes_ok_def sums) (simp add: w')
  ultimately show ?thesis using money_okD(1)[OF ok] by (simp add: money_ok_def w')
qed

lemma live_lines_all: "list_all line_good (lines_b b) \<Longrightarrow> live_lines b = lines_b b"
  by (simp add: live_lines_def filter_id_conv list_all_iff line_good_def)

lemma line_base:
  assumes "line_good l"
  shows "d_minus D (totalAmount_bl l) (taxAmount_bl l) = totalAmount_bl l - taxAmount_bl l"
proof -
  have "\<bar>totalAmount_bl l - taxAmount_bl l\<bar> < 10 ^ 8" using assms by (auto simp: line_good_def line_in_range_def fits_column_def)
  then show ?thesis using assms by (intro d_minus_grid[of 2]) (simp_all add: line_good_def)
qed

lemma plan_lines_good: "list_all line_good ls \<Longrightarrow> plan_lines_ok (map (plan_line D w shop) ls)"
  by (auto simp: plan_lines_ok_def list_all_iff plan_line_def Let_def line_base line_good_def)

lemma post_money:
  assumes ok: "money_ok owner w" and ids: "new_ids G" and run: "postVendorBill D G now shop i actor w = (w', Inr r)"
  shows "money_ok owner w'"
proof (rule post_bill_cases[OF run money_okD(2)[OF ok]])
  fix x bk evs
  let ?f = "\<lambda>b. b\<lparr>status_b := POSTED, postingDate_b := Some now\<rparr>"
  assume found: "this_bill shop i w x" "status_b x = APPROVED"
    and books: "entries_vp (plan_of D w shop x) = [] \<and> bk = books_w w \<or>
       (\<exists>q. postWithPayable D G (Some (supplierId_b x)) (bill_posting shop x (plan_of D w shop x))
          (payableDelta_vp (plan_of D w shop x)) (books_w w) = (bk, Inr q))"
    and w': "w' = w\<lparr>history_w := history_w w @ [status_row shop i actor POSTED], books_w := bk,
       bills_w := update_rows (has_id i) ?f (bills_w w), events_w := evs\<rparr>"
  have b: "bill_ok owner w x" using found by (intro money_okD(4)[OF ok]) (simp add: this_bill_def)
  have "payables_ok owner bk \<and> payments_bk bk = payments_bk (books_w w)"
    using books
  proof
    assume "\<exists>q. postWithPayable D G (Some (supplierId_b x)) (bill_posting shop x (plan_of D w shop x))
          (payableDelta_vp (plan_of D w shop x)) (books_w w) = (bk, Inr q)"
    then obtain q where q: "postWithPayable D G (Some (supplierId_b x)) (bill_posting shop x (plan_of D w shop x))
          (payableDelta_vp (plan_of D w shop x)) (books_w w) = (bk, Inr q)" ..
    have "plan_lines_ok (map (plan_line D w shop) (live_lines x))"
      using b by (simp add: live_lines_all bill_ok_def bill_worth_def plan_lines_good)
    then show ?thesis using b found(1)
      by (intro bill_post_keeps[OF money_okD(1)[OF ok] ids plan_of_def _ _ q]) (auto simp: bill_ok_def this_bill_def names_bill_def)
  qed (use money_okD(1)[OF ok] in simp)
  then show ?thesis
    by (intro status_step[OF ok found(1), of w' ?f]) (use found(2) in \<open>simp_all add: w'\<close>)
qed

end

context decimal_arith
begin

lemma list_all2_from: "list_all2 P xs ys \<Longrightarrow> y \<in> set ys \<Longrightarrow> \<exists>x \<in> set xs. P x y"
  by (induction rule: list_all2_induct) auto

text \<open>A payment of a bill that is not a replay is one new row for the bill.\<close>

lemma bill_payment_row:
  assumes ok: "payables_ok owner s" and ids: "new_ids G" and grid: "on_grid 2 a"
    and run: "pay D G (bill_payment shop b p a actor) s = (s', Inr out)"
    and fresh: "\<And>pm. truthy (idempotencyKey_pv p) \<Longrightarrow> pm \<in> set (payments_bk s) \<Longrightarrow> shopId_sp pm = shop \<Longrightarrow>
      idempotencyKey_sp pm \<noteq> idempotencyKey_pv p"
  shows "payables_ok owner s' \<and> 0 < a \<and> (\<exists>pm. payments_bk s' = payments_bk s @ [pm] \<and> vendorBillId_sp pm = Some (id_b b) \<and> amount_sp pm = a)"
  using run
proof (cases rule: pay_cases)
  case (replayed x)
  then have "truthy (idempotencyKey_pv p) \<and> x \<in> set (payments_bk s) \<and> shopId_sp x = shop \<and> idempotencyKey_sp x = idempotencyKey_pv p"
    by (auto simp: find_payment_def bill_payment_def truthy_def dest: find_SomeD split: option.splits if_splits)
  then show ?thesis using fresh by blast
next
  case (paid amount tender shift w)
  have a: "amount = a" using grid by (simp add: paid(1) bill_payment_def dp_exact)
  note b = settled_books[OF ok ids paid(7) _ paid(2)]
  show ?thesis using b grid paid(2) unfolding a by (auto simp: payment_row_def bill_payment_def)
qed

lemma pay_money:
  assumes ok: "money_ok owner w" and ids: "new_ids G" and run: "payVendorBill D G shop i p actor w = (w', Inr r)"
  shows "money_ok owner w'"
proof (cases rule: pay_bill_cases[OF run money_okD(2)[OF ok], case_names replayed paid])
  case replayed
  then show ?thesis using ok by simp
next
  case (paid x)
  define a where "a = half_up 2 (paymentAmount_pv p)"
  let ?x = "x\<lparr>lines_b := live_lines x\<rparr>"
  have b: "bill_ok owner w x" and x: "id_b x = i" "x \<in> set (bills_w w)"
    using paid(1) money_okD(4)[OF ok] by (auto simp: this_bill_def names_bill_def)
  note st = b[unfolded bill_ok_def settled_def x]
  have grid: "on_grid 2 a" and dp: "to_dp_half_up D 2 (to_dp_half_up D 2 (paymentAmount_pv p)) = a" "to_dp_half_up D 2 (paymentAmount_pv p) = a"
    by (simp_all add: a_def to_dp_half_up half_up_exact)
  have adp: "to_dp_half_up D 2 a = a" using grid by (rule dp_exact)
  have "to_dp_half_up D 2 (outstandingAmount_b x) = outstandingAmount_b x" using st by (intro dp_exact) blast
  then have out: "to_dp_half_up D 2 (outstandingAmount_b ?x) = outstandingAmount_b x" by simp
  obtain bk pm evs where le: "a \<le> outstandingAmount_b x" and fits: "fits_column 10 (paid_after D ?x a)"
    and pay: "pay D G (bill_payment shop ?x p a actor) (books_w w) = (bk, Inr pm)"
    and w': "w' = w\<lparr>bills_w := update_rows (has_id i) (\<lambda>b. b\<lparr>paidAmount_b := paid_after D ?x a,
         outstandingAmount_b := half_up 2 (left_after D ?x a), status_b := paid_status D ?x a\<rparr>) (bills_w w),
       history_w := history_w w @ [status_row shop i actor (paid_status D ?x a)], books_w := bk, events_w := evs\<rparr>"
    by (rule settle_bill_cases[OF paid(4) money_okD(2)[OF ok] paid(1)], simp, unfold dp adp out, rule that, assumption+)
  have "payables_ok owner bk \<and> 0 < a \<and> (\<exists>pm. payments_bk bk = payments_bk (books_w w) @ [pm] \<and> vendorBillId_sp pm = Some (id_b ?x) \<and> amount_sp pm = a)"
    by (rule bill_payment_row[OF money_okD(1)[OF ok] ids grid pay paid(3)])
  then obtain pm where pays: "payables_ok owner bk" "0 < a" "payments_bk bk = payments_bk (books_w w) @ [pm]"
    "vendorBillId_sp pm = Some i" "amount_sp pm = a"
    using x by auto
  have small: "\<bar>outstandingAmount_b x\<bar> < 10 ^ 8" "\<bar>paidAmount_b x\<bar> < 10 ^ 8"
    using st by (auto simp: fits_column_def)
  have left: "left_after D ?x a = outstandingAmount_b x - a"
    using st le pays(2) small grid unfolding left_after_def out adp by (subst d_minus_grid[of 2]) simp_all
  have after: "paid_after D ?x a = paidAmount_b x + a"
    using kept_sum(2)[of "paidAmount_b x" a] fits st grid pays(2) by (simp add: paid_after_def adp)
  have sums: "paid_on w' j = paid_on w j + (if j = i then a else 0)" "credited_on w' = credited_on w" "used_of w' = used_of w" for j
    by (auto simp: paid_on_def credited_on_def used_of_def fun_eq_iff w' pays)
  let ?f = "\<lambda>b. b\<lparr>paidAmount_b := paid_after D ?x a, outstandingAmount_b := half_up 2 (left_after D ?x a), status_b := paid_status D ?x a\<rparr>"
  have bills: "bills_w w' = update_rows (has_id i) ?f (bills_w w)" by (simp add: w')
  have grid': "on_grid 2 (outstandingAmount_b x - a)" "on_grid 2 (paidAmount_b x + a)" using st grid by (auto intro: on_grid_add on_grid_diff)
  have "bill_ok owner w' (?f x)"
    using st grid' pays(2) le x by (auto simp: bill_ok_def bill_worth_def settled_def sums left after half_up_exact paid_status_def)
  then have "\<forall>b \<in> set (bills_w w'). bill_ok owner w' b" by (intro bills_step[OF ok paid(1) bills]) (simp_all add: sums)
  moreover have "refs_ok w'" using ok ids_kept[OF bills] x pays(4)
    by (auto simp: money_ok_def refs_ok_def bill_ids_def w' pays(3))
  moreover have "notes_ok w'" using ok by (simp add: money_ok_def notes_ok_def sums) (simp add: w')
  ultimately show ?thesis using pays(1) by (simp add: money_ok_def w')
qed

lemma allocate_money:
  assumes ok: "money_ok owner w" and pos: "0 < amount" and run: "allocateSupplierCredit D shop n i amount actor w = (w', Inr r)"
  shows "money_ok owner w'"
proof (rule allocate_cases[OF run money_okD(2,3)[OF ok]])
  fix x y a ns nh evs
  let ?f = "\<lambda>b. b\<lparr>outstandingAmount_b := outstandingAmount_b b - a, status_b := credited_status D x a\<rparr>"
  assume found: "this_bill shop i w x" "status_b x = POSTED \<or> status_b x = PARTIALLY_PAID"
    and credit: "y \<in> set (notes_w w)" "names_note shop n y"
    and a: "a = to_dp_half_up D 2 amount" "a \<le> remainingBalance_cn y" "a \<le> outstandingAmount_b x"
    and ns: "list_all2 (note_moved n a) (notes_w w) ns"
    and w': "w' = w\<lparr>bills_w := update_rows (has_id i) ?f (bills_w w),
       history_w := history_w w @ (if credited_status D x a = status_b x then [] else [status_row shop i actor (credited_status D x a)]),
       allocations_w := allocations_w w @ [\<lparr>shopId_al = shop, supplierCreditId_al = n, vendorBillId_al = i, allocatedAmount_al = a\<rparr>],
       notes_w := ns, noteHistory_w := nh, events_w := evs\<rparr>"
  have b: "bill_ok owner w x" and x: "id_b x = i" "x \<in> set (bills_w w)"
    using found(1) money_okD(4)[OF ok] by (auto simp: this_bill_def names_bill_def)
  note st = b[unfolded bill_ok_def settled_def x]
  have grid: "on_grid 2 a" "0 \<le> a" using pos by (auto simp: a(1) to_dp_half_up intro: half_up_nonneg)
  have sums: "paid_on w' = paid_on w" "credited_on w' j = credited_on w j + (if j = i then a else 0)"
    "used_of w' j = used_of w j + (if j = n then a else 0)" for j
    by (auto simp: paid_on_def credited_on_def used_of_def fun_eq_iff w')
  have small: "\<bar>outstandingAmount_b x\<bar> < 10 ^ 8" using st by (auto simp: fits_column_def)
  have left: "d_minus D (outstandingAmount_b x) a = outstandingAmount_b x - a"
    using st a(3) small grid by (intro d_minus_grid[of 2]) simp_all
  have bills: "bills_w w' = update_rows (has_id i) ?f (bills_w w)" by (simp add: w')
  have grid': "on_grid 2 (outstandingAmount_b x - a)" using st grid by (auto intro: on_grid_diff)
  have "bill_ok owner w' (?f x)"
    using st grid grid' a(3) x found(2) by (auto simp: bill_ok_def bill_worth_def settled_def sums left credited_status_def)
  then have "\<forall>b \<in> set (bills_w w'). bill_ok owner w' b" by (intro bills_step[OF ok found(1) bills]) (simp_all add: sums)
  moreover have note_ids: "map id_cn ns = map id_cn (notes_w w)" using ns
    by (induction rule: list_all2_induct) (auto simp: note_moved_def)
  then have "refs_ok w'" using ok ids_kept[OF bills] x by (auto simp: money_ok_def refs_ok_def bill_ids_def w')
  moreover have "notes_ok w'"
    unfolding notes_ok_def
  proof
    fix z' assume "z' \<in> set (notes_w w')"
    then obtain z where z: "z \<in> set (notes_w w)" "note_moved n a z z'" using list_all2_from[OF ns] by (auto simp: w')
    have "id_cn z = n \<Longrightarrow> z = y" using z(1) credit money_okD(3)[OF ok] by (auto simp: names_note_def distinct_map dest: inj_onD)
    then show "0 \<le> remainingBalance_cn z' \<and> allocatedAmount_cn z' = used_of w' (id_cn z')"
      using ok z a(2) by (auto simp: money_ok_def notes_ok_def note_moved_def sums)
  qed
  ultimately show ?thesis using money_okD(1)[OF ok] by (simp add: money_ok_def w')
qed

end

context decimal_arith
begin

text \<open>The other movements of the ledger pay no bill.\<close>

lemma post_payments:
  assumes "payables_ok owner s" and "post D G p s = (s', Inr r)"
  shows "payments_bk s' = payments_bk s"
  by (rule post_cases[OF payables_okD(1)[OF assms(1)] assms(2)]) (simp_all add: posted_books_def)

lemma ledger_payments:
  assumes ok: "payables_ok owner s" and ids: "new_ids G" and call: "proper_bill D owner (LedgerCall c)"
  shows "\<exists>ps. payments_bk (run_call D G c s) = payments_bk s @ ps \<and> (\<forall>p \<in> set ps. vendorBillId_sp p = None)"
proof -
  let ?P = "\<lambda>t. \<exists>ps. payments_bk t = payments_bk s @ ps \<and> (\<forall>p \<in> set ps. vendorBillId_sp p = None)"
  have none: "?P t" if "payments_bk t = payments_bk s" for t using that by (intro exI[of _ "[]"]) simp
  note tx = in_transaction_keeps[where P = ?P, OF none[OF refl]]
  show ?thesis
  proof (cases c)
    case (PostEntries p)
    then show ?thesis by (simp only: run_call.simps) (rule tx, rule none, rule post_payments[OF ok])
  next
    case (PostPayable v p delta)
    have "payments_bk s' = payments_bk s" if run: "postWithPayable D G v p delta s = (s', Inr r)" for s' r
      using run by (cases rule: post_payable_cases) (auto dest!: post_payments[OF ok] move_cases)
    then show ?thesis unfolding PostPayable by (simp only: run_call.simps) (rule tx, rule none)
  next
    case (PaySupplier i)
    have "?P s'" if run: "pay D G i s = (s', Inr out)" for s' out
      using run
    proof (cases rule: pay_cases)
      case (paid amount tender shift w)
      have "on_grid 2 amount" by (simp add: paid(1) to_dp_half_up)
      note b = settled_books[OF ok ids paid(7) this paid(2)]
      have "vendorBillId_in i = None" using call by (simp add: PaySupplier)
      then show ?thesis using b by (intro exI[of _ "[payment_out out]"]) (simp add: payment_row_def)
    qed (use none in simp)
    then show ?thesis unfolding PaySupplier by (simp only: run_call.simps) (rule tx)
  qed
qed

lemma ledger_money:
  assumes ok: "money_ok owner w" and ids: "new_ids G" and call: "proper_bill D owner (LedgerCall c)"
  shows "money_ok owner (w\<lparr>books_w := run_call D G c (books_w w)\<rparr>)"
proof -
  let ?w' = "w\<lparr>books_w := run_call D G c (books_w w)\<rparr>"
  obtain ps where ps: "payments_bk (run_call D G c (books_w w)) = payments_bk (books_w w) @ ps" "\<forall>p \<in> set ps. vendorBillId_sp p = None"
    using ledger_payments[OF money_okD(1)[OF ok] ids call] by blast
  have "paid_on ?w' i = paid_on w i" for i
    using sum_none[of ps "\<lambda>x. vendorBillId_sp x = Some i" amount_sp] ps(2) by (auto simp: paid_on_def ps(1))
  then have sums: "paid_on ?w' = paid_on w" "credited_on ?w' = credited_on w" "used_of ?w' = used_of w"
    by (simp_all add: fun_eq_iff credited_on_def used_of_def)
  have "payables_ok owner (run_call D G c (books_w w))"
    by (rule run_call_keeps[OF ids _ money_okD(1)[OF ok]]) (use call in simp)
  moreover have "\<forall>b \<in> set (bills_w w). bill_ok owner ?w' b"
    using ok unfolding money_ok_def bill_ok_def sums by blast
  moreover have "refs_ok ?w'" using ok ps(2) by (auto simp: money_ok_def refs_ok_def bill_ids_def ps(1))
  moreover have "notes_ok ?w'" using ok by (simp add: money_ok_def notes_ok_def sums)
  ultimately show ?thesis by (simp add: money_ok_def)
qed

end

section \<open>Every step\<close>

lemma procurement_keeps:
  assumes "P w" and "\<And>w' r. procurementTransaction m w = (w', Inr r) \<Longrightarrow> P w'"
  shows "P (fst (procurementTransaction m w))"
  using assms procurement_Inl by (cases "procurementTransaction m w"; cases "snd (procurementTransaction m w)") fastforce+

text \<open>A property of the rows is kept by every call when every operation that went through keeps it.\<close>

lemma run_bill_keeps:
  assumes "P w"
    and "\<And>i nr shop p actor w' r. c = CreateBill i nr shop p actor \<Longrightarrow> createVendorBill D tp i nr shop p actor w = (w', Inr r) \<Longrightarrow> P w'"
    and "\<And>shop i actor w' r. c = SubmitBill shop i actor \<Longrightarrow> submitVendorBill D tp shop i actor w = (w', Inr r) \<Longrightarrow> P w'"
    and "\<And>shop i actor action w' r. c = DecideBill shop i actor action \<Longrightarrow> decide shop i actor action w = (w', Inr r) \<Longrightarrow> P w'"
    and "\<And>shop i actor w' r. c = CancelBill shop i actor \<Longrightarrow> cancelVendorBill shop i actor w = (w', Inr r) \<Longrightarrow> P w'"
    and "\<And>now shop i actor w' r. c = PostBill now shop i actor \<Longrightarrow> postVendorBill D G now shop i actor w = (w', Inr r) \<Longrightarrow> P w'"
    and "\<And>shop i p actor w' r. c = PayBill shop i p actor \<Longrightarrow> payVendorBill D G shop i p actor w = (w', Inr r) \<Longrightarrow> P w'"
    and "\<And>shop n i amount actor w' r. c = AllocateCredit shop n i amount actor \<Longrightarrow> allocateSupplierCredit D shop n i amount actor w = (w', Inr r) \<Longrightarrow> P w'"
    and "\<And>c'. c = LedgerCall c' \<Longrightarrow> P (w\<lparr>books_w := run_call D G c' (books_w w)\<rparr>)"
  shows "P (run_bill D G tp c w)"
proof (cases c)
  case (CreateBill i nr shop p actor)
  show ?thesis unfolding CreateBill run_bill.simps createVendorBill_def
    by (rule procurement_keeps[where P = P, OF assms(1)], rule assms(2)[OF CreateBill, unfolded createVendorBill_def], assumption)
next
  case (SubmitBill shop i actor)
  show ?thesis unfolding SubmitBill run_bill.simps submitVendorBill_def
    by (rule procurement_keeps[where P = P, OF assms(1)], rule assms(3)[OF SubmitBill, unfolded submitVendorBill_def], assumption)
next
  case (DecideBill shop i actor action)
  show ?thesis unfolding DecideBill run_bill.simps decide_def
    by (rule procurement_keeps[where P = P, OF assms(1)], rule assms(4)[OF DecideBill, unfolded decide_def], assumption)
next
  case (CancelBill shop i actor)
  show ?thesis unfolding CancelBill run_bill.simps cancelVendorBill_def
    by (rule procurement_keeps[where P = P, OF assms(1)], rule assms(5)[OF CancelBill, unfolded cancelVendorBill_def], assumption)
next
  case (PostBill now shop i actor)
  show ?thesis unfolding PostBill run_bill.simps postVendorBill_def
    by (rule procurement_keeps[where P = P, OF assms(1)], rule assms(6)[OF PostBill, unfolded postVendorBill_def], assumption)
next
  case (PayBill shop i p actor)
  show ?thesis unfolding PayBill run_bill.simps payVendorBill_def
    by (rule procurement_keeps[where P = P, OF assms(1)], rule assms(7)[OF PayBill, unfolded payVendorBill_def], assumption)
next
  case (AllocateCredit shop n i amount actor)
  show ?thesis unfolding AllocateCredit run_bill.simps allocateSupplierCredit_def
    by (rule procurement_keeps[where P = P, OF assms(1)], rule assms(8)[OF AllocateCredit, unfolded allocateSupplierCredit_def], assumption)
next
  case (LedgerCall c')
  then show ?thesis using assms(9) by simp
qed

context decimal_arith
begin

lemma run_bill_money:
  assumes ids: "new_ids G" and call: "proper_bill D owner c" and ok: "money_ok owner w"
  shows "money_ok owner (run_bill D G tp c w)"
proof (rule run_bill_keeps[where P = "money_ok owner"])
  show "createVendorBill D tp i nr shop p actor w = (w', Inr r) \<Longrightarrow> money_ok owner w'" if "c = CreateBill i nr shop p actor"
    for i nr shop p actor w' r using create_money[OF ok] call that by blast
  show "allocateSupplierCredit D shop n i amount actor w = (w', Inr r) \<Longrightarrow> money_ok owner w'" if "c = AllocateCredit shop n i amount actor"
    for shop n i amount actor w' r using allocate_money[OF ok] call that by simp
  show "money_ok owner (w\<lparr>books_w := run_call D G c' (books_w w)\<rparr>)" if "c = LedgerCall c'" for c'
    using ledger_money[OF ok ids] call that by blast
qed (erule submit_money[OF ok] decide_money[OF ok] cancel_money[OF ok] post_money[OF ok ids] pay_money[OF ok ids] | rule ok)+

end

end
