(* ===== verification/VendorBillControls.thy ===== *)
theory VendorBillControls
  imports VendorBillHistory
begin

text \<open>
  The controls around vendor bills over any history: received goods are billed once, a bill is
  approved by someone who neither created nor submitted it, and its statuses follow the lifecycle.
\<close>

section \<open>Received goods are billed once\<close>

definition contribution :: "string \<Rightarrow> string \<Rightarrow> VendorBill \<Rightarrow> decimal" where
  "contribution shop g b = (if shopId_b b = shop \<and> live_bill b then line_quantity g (lines_b b) else 0)"

definition billed_of :: "purchasing \<Rightarrow> GoodsReceiptLine \<Rightarrow> decimal" where
  "billed_of w g = prior_billed w (shopId_gl g) (id_gl g) None"

definition documents_ok :: "purchasing \<Rightarrow> bool" where
  "documents_ok w \<longleftrightarrow> distinct (map id_gl (receiptLines_w w)) \<and> distinct (map id_oi (orderItems_w w)) \<and>
     (\<forall>g \<in> set (receiptLines_w w). 0 \<le> acceptedQuantity_gl g \<and> acceptedQuantity_gl g * 1000 < 10 ^ 10) \<and>
     (\<forall>p \<in> set (orderItems_w w). 0 \<le> quantity_oi p)"

definition within_receipt :: "purchasing \<Rightarrow> GoodsReceiptLine \<Rightarrow> decimal \<Rightarrow> bool" where
  "within_receipt w g q \<longleftrightarrow> q \<le> acceptedQuantity_gl g \<and>
     (\<forall>p \<in> set (orderItems_w w). purchaseOrderItemId_gl g = Some (id_oi p) \<longrightarrow> \<not> isDeleted_oi p \<longrightarrow> q \<le> quantity_oi p)"

definition goods_ok :: "purchasing \<Rightarrow> bool" where
  "goods_ok w \<longleftrightarrow> documents_ok w \<and>
     (\<forall>g \<in> set (receiptLines_w w). \<not> isDeleted_gl g \<longrightarrow> within_receipt w g (billed_of w g))"

lemma sum_filter: "sum_list (map f (filter P xs)) = sum_list (map (\<lambda>x. if P x then f x else 0) xs)" for f :: "'a \<Rightarrow> rat"
  by (induction xs) simp_all

lemma prior_sum: "prior_billed w shop g None = sum_list (map (contribution shop g) (bills_w w))"
  unfolding prior_billed_def sum_filter
  by (rule arg_cong[where f = sum_list], rule map_cong) (auto simp: contribution_def truthy_def)

lemma prior_except:
  assumes "distinct (map id_b (bills_w w))" and "x \<in> set (bills_w w)" and "id_b x = i" and "i \<noteq> []" and "contribution shop g x = 0"
  shows "prior_billed w shop g (Some i) = prior_billed w shop g None"
proof -
  have "contribution shop g b = 0" if "b \<in> set (bills_w w)" "id_b b = i" for b
    using assms(1-3,5) that by (auto simp: distinct_map dest: inj_onD)
  then have "(if shopId_b b = shop \<and> live_bill b \<and> (truthy (Some i) \<longrightarrow> Some (id_b b) \<noteq> Some i) then line_quantity g (lines_b b) else 0)
      = contribution shop g b" if "b \<in> set (bills_w w)" for b
    using that assms(4) by (cases "id_b b = i") (auto simp: contribution_def truthy_def)
  then show ?thesis
    unfolding prior_sum unfolding prior_billed_def sum_filter
    by (intro arg_cong[where f = sum_list] map_cong) simp_all
qed

text \<open>The quantity a bill's lines bill of a receipt line.\<close>

definition match_quantity :: "string \<Rightarrow> BillLineToMatch list \<Rightarrow> decimal" where
  "match_quantity g ls = sum_list (map billedQuantity_ml (filter (\<lambda>l. grnLineId_ml l = Some g) ls))"

lemma match_quantity_lines:
  "match_quantity g (map (line_to_match D) (live_lines b)) = line_quantity g (lines_b b)"
  by (simp add: match_quantity_def line_quantity_def live_lines_def filter_map comp_def line_to_match_def conj_commute)

lemma documents_match:
  "match_documents bill l p po g gr = None \<Longrightarrow> purchaseOrderItemId_gl g = Some (id_oi p)"
  by (auto simp: match_documents_def split: if_splits)

lemma order_item_Some:
  "order_item w shop i = Some (p, po) \<Longrightarrow> p \<in> set (orderItems_w w) \<and> Some (id_oi p) = i"
  by (auto simp: order_item_def split: option.splits dest: find_SomeD)

lemma receipt_line_Some:
  "receipt_line w shop i = Some (g, gr) \<Longrightarrow> g \<in> set (receiptLines_w w) \<and> Some (id_gl g) = i \<and> shopId_gl g = shop \<and> \<not> isDeleted_gl g"
  by (auto simp: receipt_line_def split: option.splits dest: find_SomeD)

context decimal_arith
begin

lemma quantity_plus:
  assumes "on_grid 3 x" "on_grid 3 y" "0 \<le> x" "0 \<le> y" "x < 10 ^ 8" "y < 10 ^ 8"
  shows "d_plus D x y = x + y"
proof (rule d_plus_grid[of 3])
  have "\<bar>x + y\<bar> < 2 * 10 ^ 8" using assms by simp
  then show "\<bar>x + y\<bar> * 10 ^ 3 < 10 ^ 20" by simp
qed (rule assms)+

text \<open>A match that passed: each receipt line stays within what it accepted and what was ordered.\<close>

lemma match_within:
  assumes "match_lines D tol w shop h opts billedPer ls = Inr ()" and opts: "final_mo opts" "excludeBillId_mo opts = Some i"
    and docs: "documents_ok w" and g: "g \<in> set (receiptLines_w w)" "\<not> isDeleted_gl g"
    and prior: "on_grid 3 (prior_billed w shop (id_gl g) (Some i))" "0 \<le> prior_billed w shop (id_gl g) (Some i)"
      "prior_billed w shop (id_gl g) (Some i) < 10 ^ 8"
    and "\<And>l. l \<in> set ls \<Longrightarrow> on_grid 3 (billedQuantity_ml l) \<and> 0 \<le> billedQuantity_ml l \<and> billedQuantity_ml l < 10 ^ 8"
    and "on_grid 3 (billedPer (id_gl g))" and "0 \<le> billedPer (id_gl g)" and "billedPer (id_gl g) < 10 ^ 8"
    and "\<exists>l \<in> set ls. grnLineId_ml l = Some (id_gl g)"
  shows "shopId_gl g = shop \<and>
    within_receipt w g (billedPer (id_gl g) + match_quantity (id_gl g) ls + prior_billed w shop (id_gl g) (Some i))"
  using assms(1,10-)
proof (induction ls arbitrary: billedPer)
  case (Cons l ls)
  have "truthy (purchaseOrderLineId_ml l) \<and> truthy (grnLineId_ml l)"
    using Cons.prems(1) opts(1) by (auto simp: Let_def split: if_splits)
  then obtain p po g' gr where found: "order_item w shop (purchaseOrderLineId_ml l) = Some (p, po)"
      "receipt_line w shop (grnLineId_ml l) = Some (g', gr)" and m: "match_documents h l p po g' gr = None"
    and rest: "(let thisBill = d_plus D (billedPer (id_gl g')) (billedQuantity_ml l);
             billed = d_plus D thisBill (prior_billed w shop (id_gl g') (Some i))
         in if acceptedQuantity_gl g' < billed then Inl VENDOR_BILL_OVER_BILLED
            else if quantity_oi p < billed then Inl VENDOR_BILL_OVER_BILLED
            else match_lines D tol w shop h opts (billedPer(id_gl g' := thisBill)) ls) = Inr ()"
    using Cons.prems(1) opts by (auto split: option.splits if_splits)
  note line = receipt_line_Some[OF found(2)] order_item_Some[OF found(1)]
  have q: "on_grid 3 (billedQuantity_ml l)" "0 \<le> billedQuantity_ml l" "billedQuantity_ml l < 10 ^ 8" using Cons.prems(2) by auto
  show ?case
  proof (cases "id_gl g' = id_gl g")
    case True
    have same: "g' = g" using docs line(1) g(1) True by (auto simp: documents_ok_def distinct_map dest: inj_onD)
    have this_bill: "d_plus D (billedPer (id_gl g)) (billedQuantity_ml l) = billedPer (id_gl g) + billedQuantity_ml l"
      using q Cons.prems(3-5) by (intro quantity_plus)
    let ?t = "billedPer (id_gl g) + billedQuantity_ml l"
    have grid: "on_grid 3 ?t" "0 \<le> ?t" using q Cons.prems(3,4) by (auto intro: on_grid_add)
    have "\<bar>?t + prior_billed w shop (id_gl g) (Some i)\<bar> * 10 ^ 3 < 10 ^ 20" using q prior Cons.prems(4,5) by simp
    then have "d_plus D ?t (prior_billed w shop (id_gl g) (Some i)) = ?t + prior_billed w shop (id_gl g) (Some i)"
      using grid prior(1) by (intro d_plus_grid[of 3])
    then have le: "?t + prior_billed w shop (id_gl g) (Some i) \<le> acceptedQuantity_gl g"
        "?t + prior_billed w shop (id_gl g) (Some i) \<le> quantity_oi p"
      and more: "match_lines D tol w shop h opts (billedPer(id_gl g := ?t)) ls = Inr ()"
      using rest unfolding same this_bill Let_def by (auto split: if_splits)
    have "acceptedQuantity_gl g < 10 ^ 8" using docs g(1) by (auto simp: documents_ok_def)
    then have "?t < 10 ^ 8" using le(1) prior(2) by linarith
    have only: "p' = p" if "p' \<in> set (orderItems_w w)" "purchaseOrderItemId_gl g = Some (id_oi p')" for p'
      using docs line(2) that documents_match[OF m] unfolding same by (auto simp: documents_ok_def distinct_map dest: inj_onD)
    have here: "within_receipt w g (?t + prior_billed w shop (id_gl g) (Some i))"
      using le only by (auto simp: within_receipt_def)
    have split: "match_quantity (id_gl g) (l # ls) = billedQuantity_ml l + match_quantity (id_gl g) ls"
      using line(1) by (simp add: match_quantity_def True)
    show ?thesis
    proof (cases "\<exists>l \<in> set ls. grnLineId_ml l = Some (id_gl g)")
      case True
      have "within_receipt w g (?t + match_quantity (id_gl g) ls + prior_billed w shop (id_gl g) (Some i))"
        using Cons.IH[OF more _ _ _ _ True] Cons.prems(2) grid \<open>?t < 10 ^ 8\<close> by simp
      then show ?thesis using line(1) unfolding split same by (simp add: add.assoc)
    next
      case False
      then have "match_quantity (id_gl g) ls = 0" by (simp add: match_quantity_def filter_empty_conv)
      then show ?thesis using here line(1) unfolding split same by simp
    qed
  next
    case False
    let ?next = "billedPer(id_gl g' := d_plus D (billedPer (id_gl g')) (billedQuantity_ml l))"
    have more: "match_lines D tol w shop h opts ?next ls = Inr ()"
      using rest by (simp add: Let_def split: if_splits)
    have other: "grnLineId_ml l \<noteq> Some (id_gl g)" using line(1) False by auto
    have same: "?next (id_gl g) = billedPer (id_gl g)" using False by simp
    have "match_quantity (id_gl g) (l # ls) = match_quantity (id_gl g) ls" using other by (simp add: match_quantity_def)
    moreover have "\<exists>l \<in> set ls. grnLineId_ml l = Some (id_gl g)" using Cons.prems(6) other by auto
    ultimately show ?thesis using Cons.IH[OF more] Cons.prems(2-5) unfolding same by simp
  qed
qed simp

end

lemma prior_update:
  assumes "distinct (map id_b (bills_w w))" and "x \<in> set (bills_w w)" and "id_b x = i"
    and "bills_w w' = update_rows (has_id i) f (bills_w w)"
  shows "prior_billed w' shop g None = prior_billed w shop g None + (contribution shop g (f x) - contribution shop g x)"
proof -
  have "has_id i = (\<lambda>r. id_b r = id_b x)" using assms(3) by (simp add: has_id_def fun_eq_iff)
  then show ?thesis using sum_list_update_rows[OF assms(1,2), of "contribution shop g" f] by (simp add: prior_sum assms(4))
qed

lemma quantity_lines: "list_all line_good ls \<Longrightarrow> on_grid 3 (line_quantity g ls) \<and> 0 \<le> line_quantity g ls"
  by (auto simp: line_quantity_def line_good_def list_all_iff intro!: on_grid_sum_list sum_list_nonneg)

lemma contribution_figures:
  "bill_worth b \<Longrightarrow> on_grid 3 (contribution shop g b) \<and> 0 \<le> contribution shop g b"
  using quantity_lines[of "lines_b b" g] by (simp add: contribution_def bill_worth_def)

lemma prior_figures:
  "money_ok owner w \<Longrightarrow> on_grid 3 (prior_billed w shop g None) \<and> 0 \<le> prior_billed w shop g None"
  unfolding prior_sum by (auto simp: money_ok_def bill_ok_def contribution_figures intro!: on_grid_sum_list sum_list_nonneg)

lemma within_less: "within_receipt w g q \<Longrightarrow> q' \<le> q \<Longrightarrow> within_receipt w g q'"
  by (auto simp: within_receipt_def elim: order_trans)

lemma within_same: "orderItems_w w' = orderItems_w w \<Longrightarrow> within_receipt w' g q = within_receipt w g q"
  by (simp add: within_receipt_def)

text \<open>A step that bills nothing more.\<close>

lemma goods_step:
  assumes ok: "goods_ok w" and docs: "receiptLines_w w' = receiptLines_w w" "orderItems_w w' = orderItems_w w"
    and less: "\<And>shop g. prior_billed w' shop g None \<le> prior_billed w shop g None"
  shows "goods_ok w'"
  using ok less unfolding goods_ok_def documents_ok_def docs within_same[OF docs(2)] billed_of_def
  by (blast intro: within_less)

lemma goods_update:
  assumes money: "money_ok owner w" and ok: "goods_ok w" and found: "this_bill shop i w x"
    and bills: "bills_w w' = update_rows (has_id i) f (bills_w w)"
    and same: "receiptLines_w w' = receiptLines_w w" "orderItems_w w' = orderItems_w w"
    and f: "shopId_b (f x) = shopId_b x" "lines_b (f x) = lines_b x" "live_bill (f x) \<Longrightarrow> live_bill x"
  shows "goods_ok w'"
proof (rule goods_step[OF ok same])
  fix s g
  have x: "x \<in> set (bills_w w)" "id_b x = i" using found by (auto simp: this_bill_def names_bill_def)
  have "0 \<le> contribution s g x" using money_okD(4)[OF money x(1)] by (simp add: bill_ok_def contribution_figures)
  then have "contribution s g (f x) \<le> contribution s g x" using f by (auto simp: contribution_def)
  then show "prior_billed w' s g None \<le> prior_billed w s g None"
    using prior_update[OF money_okD(2)[OF money] x bills] by simp
qed

context decimal_arith
begin

lemma submit_goods:
  assumes money: "money_ok owner w" and ok: "goods_ok w" and run: "submitVendorBill D tp shop i actor w = (w', Inr r)"
  shows "goods_ok w'"
proof (rule submit_cases[OF run money_okD(2)[OF money]])
  fix x aps evs
  let ?f = "\<lambda>b. b\<lparr>status_b := PENDING_APPROVAL\<rparr>"
  assume found: "this_bill shop i w x" "status_b x = DRAFT"
    and m: "match_lines D (d_div D tp 100) w shop (header_of x) \<lparr>final_mo = True, excludeBillId_mo = Some i\<rparr> (\<lambda>_. 0)
       (map (line_to_match D) (live_lines x)) = Inr ()"
    and w': "w' = w\<lparr>bills_w := update_rows (has_id i) ?f (bills_w w),
       history_w := history_w w @ [status_row shop i actor SUBMITTED, status_row shop i actor PENDING_APPROVAL],
       approvals_w := approvals_w w @ aps, audits_w := audits_w w @ [audit_row shop i actor ''SUBMITTED''], events_w := evs\<rparr>"
  have x: "x \<in> set (bills_w w)" "id_b x = i" "shopId_b x = shop" using found(1) by (auto simp: this_bill_def names_bill_def)
  have b: "bill_ok owner w x" by (rule money_okD(4)[OF money x(1)])
  have docs: "documents_ok w" using ok by (simp add: goods_ok_def)
  have bills: "bills_w w' = update_rows (has_id i) ?f (bills_w w)" by (simp add: w')
  have draft: "contribution s g x = 0" for s g using found(2) by (simp add: contribution_def live_bill_def LIVE_BILL_STATUSES_EXCLUDED_def)
  have "within_receipt w g (billed_of w' g)" if g: "g \<in> set (receiptLines_w w)" "\<not> isDeleted_gl g" for g
  proof -
    let ?q = "match_quantity (id_gl g) (map (line_to_match D) (live_lines x))"
    have now: "billed_of w' g = billed_of w g + contribution (shopId_gl g) (id_gl g) (?f x)"
      unfolding billed_of_def using prior_update[OF money_okD(2)[OF money] x(1,2) bills] draft by simp
    have old: "within_receipt w g (billed_of w g)" using ok g by (simp add: goods_ok_def)
    have contrib: "contribution s (id_gl g) (?f x) = (if s = shop then ?q else 0)" for s
      using x(3) b by (auto simp: contribution_def match_quantity_lines live_bill_def LIVE_BILL_STATUSES_EXCLUDED_def bill_ok_def)
    show ?thesis
    proof (cases "shopId_gl g = shop \<and> (\<exists>l \<in> set (map (line_to_match D) (live_lines x)). grnLineId_ml l = Some (id_gl g))")
      case True
      have before: "prior_billed w shop (id_gl g) (Some i) = billed_of w g"
        using prior_except[OF money_okD(2)[OF money] x(1,2) _ draft] b True by (simp add: bill_ok_def billed_of_def x(2))
      have "billed_of w g < 10 ^ 8" using old docs g(1) by (auto simp: within_receipt_def documents_ok_def)
      moreover have "on_grid 3 (billed_of w g)" "0 \<le> billed_of w g" using prior_figures[OF money] by (simp_all add: billed_of_def)
      moreover have "on_grid 3 (billedQuantity_ml l) \<and> 0 \<le> billedQuantity_ml l \<and> billedQuantity_ml l < 10 ^ 8"
        if "l \<in> set (map (line_to_match D) (live_lines x))" for l
        using b that by (auto simp: bill_ok_def bill_worth_def live_lines_def line_to_match_def list_all_iff line_good_def line_in_range_def)
      ultimately have "within_receipt w g (0 + ?q + billed_of w g)"
        using match_within[OF m _ _ docs g, of i] True by (simp add: before)
      then show ?thesis unfolding now contrib using True by (simp add: add.commute)
    next
      case False
      have "?q = 0" if "shopId_gl g = shop" using False that by (auto simp: match_quantity_def filter_empty_conv)
      then show ?thesis using old unfolding now contrib by simp
    qed
  qed
  then show ?thesis using docs unfolding goods_ok_def documents_ok_def by (simp add: w' within_receipt_def)
qed

end

section \<open>Approved by someone else\<close>

definition approved_by_other :: "purchasing \<Rightarrow> VendorBill \<Rightarrow> bool" where
  "approved_by_other w b \<longleftrightarrow> (\<exists>a \<in> set (approvals_w w). vendorBillId_ap a = id_b b \<and> status_ap a = ''APPROVED'' \<and>
     approverId_ap a \<noteq> createdBy_b b \<and>
     (\<forall>u \<in> set (audits_w w). vendorBillId_au u = id_b b \<longrightarrow> action_au u \<in> {''CREATED'', ''SUBMITTED''} \<longrightarrow> actorId_au u \<noteq> approverId_ap a))"

definition decided_for :: "VendorBillStatus set" where
  "decided_for = {APPROVED, POSTED, PARTIALLY_PAID, PAID}"

definition eyes_ok :: "purchasing \<Rightarrow> bool" where
  "eyes_ok w \<longleftrightarrow> map id_ap (approvals_w w) = [0..<length (approvals_w w)] \<and>
     (\<forall>u \<in> set (audits_w w). \<exists>b \<in> set (bills_w w). id_b b = vendorBillId_au u \<and> shopId_b b = shopId_au u) \<and>
     (\<forall>a \<in> set (approvals_w w). vendorBillId_ap a \<in> bill_ids w) \<and>
     (\<forall>b \<in> set (bills_w w). status_b b \<in> decided_for \<longrightarrow> approved_by_other w b)"

lemma update_audits:
  assumes "\<forall>u \<in> set us. \<exists>b \<in> set xs. id_b b = vendorBillId_au u \<and> shopId_b b = shopId_au u"
    and "\<And>b. id_b (f b) = id_b b \<and> shopId_b (f b) = shopId_b b"
  shows "\<forall>u \<in> set us. \<exists>b \<in> set (update_rows P f xs). id_b b = vendorBillId_au u \<and> shopId_b b = shopId_au u"
proof
  fix u assume "u \<in> set us"
  then obtain b where b: "b \<in> set xs" "id_b b = vendorBillId_au u" "shopId_b b = shopId_au u" using assms(1) by blast
  then show "\<exists>b \<in> set (update_rows P f xs). id_b b = vendorBillId_au u \<and> shopId_b b = shopId_au u"
    using assms(2)[of b] by (intro bexI[of _ "if P b then f b else b"]) (auto simp: set_update_rows)
qed

lemma eyes_step:
  assumes ids: "distinct (map id_b (bills_w w))" and ok: "eyes_ok w" and found: "this_bill shop i w x"
    and bills: "bills_w w' = update_rows (has_id i) f (bills_w w)"
    and f: "\<And>b. id_b (f b) = id_b b \<and> shopId_b (f b) = shopId_b b \<and> createdBy_b (f b) = createdBy_b b"
    and audits: "audits_w w' = audits_w w @ us" "\<And>u. u \<in> set us \<Longrightarrow> vendorBillId_au u = i \<and> shopId_au u = shop"
    and approvals: "map id_ap (approvals_w w') = [0..<length (approvals_w w')]"
      "\<And>a. a \<in> set (approvals_w w') \<Longrightarrow> vendorBillId_ap a \<in> bill_ids w"
      "\<And>a. a \<in> set (approvals_w w) \<Longrightarrow> status_ap a = ''APPROVED'' \<Longrightarrow> a \<in> set (approvals_w w')"
    and quiet: "\<And>u. u \<in> set us \<Longrightarrow> action_au u \<in> {''CREATED'', ''SUBMITTED''} \<Longrightarrow> status_b (f x) \<notin> decided_for"
    and decided: "status_b (f x) \<in> decided_for \<Longrightarrow> status_b x \<in> decided_for \<or> approved_by_other w' (f x)"
  shows "eyes_ok w'"
proof -
  have x: "x \<in> set (bills_w w)" "id_b x = i" "shopId_b x = shop" using found by (auto simp: this_bill_def names_bill_def)
  have old: "approved_by_other w b" if "b \<in> set (bills_w w)" "status_b b \<in> decided_for" for b
    using ok that by (simp add: eyes_ok_def)
  have keep: "approved_by_other w' c" if app: "approved_by_other w b" and c: "id_b c = id_b b" "createdBy_b c = createdBy_b b"
    and us: "id_b b = i \<Longrightarrow> \<forall>u \<in> set us. action_au u \<notin> {''CREATED'', ''SUBMITTED''}" for b c
  proof -
    obtain a where a: "a \<in> set (approvals_w w)" "vendorBillId_ap a = id_b b" "status_ap a = ''APPROVED''"
      "approverId_ap a \<noteq> createdBy_b b" "\<forall>u \<in> set (audits_w w). vendorBillId_au u = id_b b \<longrightarrow>
         action_au u \<in> {''CREATED'', ''SUBMITTED''} \<longrightarrow> actorId_au u \<noteq> approverId_ap a"
      using app unfolding approved_by_other_def by blast
    have "\<forall>u \<in> set us. vendorBillId_au u = id_b b \<longrightarrow> action_au u \<notin> {''CREATED'', ''SUBMITTED''}"
      using us audits(2) by fastforce
    then show ?thesis using a approvals(3)[OF a(1,3)]
      unfolding approved_by_other_def c audits(1) by (intro bexI[of _ a]) auto
  qed
  have "\<forall>b \<in> set (update_rows (has_id i) f (bills_w w)). status_b b \<in> decided_for \<longrightarrow> approved_by_other w' b"
  proof (rule update_all[OF ids x(1,2)])
    show "status_b b \<in> decided_for \<longrightarrow> approved_by_other w' b" if "b \<in> set (bills_w w)" "id_b b \<noteq> i" for b
      using keep[of b b] old that by blast
    show "status_b (f x) \<in> decided_for \<longrightarrow> approved_by_other w' (f x)"
      using decided keep[of x "f x"] old[OF x(1)] quiet f by blast
  qed
  moreover have "\<forall>u \<in> set us. \<exists>b \<in> set (bills_w w). id_b b = vendorBillId_au u \<and> shopId_b b = shopId_au u"
    using audits(2) x by (auto intro!: bexI[of _ x])
  then have "\<forall>u \<in> set (audits_w w'). \<exists>b \<in> set (bills_w w'). id_b b = vendorBillId_au u \<and> shopId_b b = shopId_au u"
    unfolding bills audits(1) using ok f by (intro update_audits) (auto simp: eyes_ok_def)
  moreover have "bill_ids w' = bill_ids w" by (rule ids_kept(1)[OF bills]) (simp add: f)
  ultimately show ?thesis using approvals(1,2) unfolding eyes_ok_def bills by simp
qed

lemma eyes_keep:
  assumes "distinct (map id_b (bills_w w))" and "eyes_ok w" and "this_bill shop i w x"
    and "bills_w w' = update_rows (has_id i) f (bills_w w)"
    and "\<And>b. id_b (f b) = id_b b \<and> shopId_b (f b) = shopId_b b \<and> createdBy_b (f b) = createdBy_b b"
    and "audits_w w' = audits_w w" and "approvals_w w' = approvals_w w" and "status_b x \<in> decided_for"
  shows "eyes_ok w'"
  by (rule eyes_step[OF assms(1-5), of "[]"]) (use assms(2,6-8) in \<open>auto simp: eyes_ok_def\<close>)

lemma create_eyes:
  assumes ok: "eyes_ok w" and run: "createVendorBill D tp i nr shop p actor w = (w', Inr r)"
  shows "eyes_ok w'"
proof (rule create_cases[OF run])
  fix evs
  assume r: "r = new_bill D i nr shop p actor" "i \<notin> id_b ` set (bills_w w)"
    and w': "w' = w\<lparr>bills_w := bills_w w @ [r], audits_w := audits_w w @ [audit_row shop i actor ''CREATED''], events_w := evs\<rparr>"
  have new: "id_b r = i" "shopId_b r = shop" "status_b r = DRAFT" by (simp_all add: r(1))
  have "approved_by_other w' b" if b: "b \<in> set (bills_w w)" "approved_by_other w b" for b
  proof -
    have "id_b b \<noteq> i" using r(2) b(1) by blast
    then show ?thesis using b(2) by (auto simp: approved_by_other_def w' audit_row_def)
  qed
  then have "\<forall>b \<in> set (bills_w w'). status_b b \<in> decided_for \<longrightarrow> approved_by_other w' b"
    using ok new by (auto simp: eyes_ok_def w' decided_for_def)
  moreover have "\<forall>u \<in> set (audits_w w'). \<exists>b \<in> set (bills_w w'). id_b b = vendorBillId_au u \<and> shopId_b b = shopId_au u"
    using ok new by (auto simp: eyes_ok_def w' audit_row_def)
  moreover have "\<forall>a \<in> set (approvals_w w'). vendorBillId_ap a \<in> bill_ids w'" using ok by (auto simp: eyes_ok_def w' bill_ids_def)
  ultimately show ?thesis using ok by (simp add: eyes_ok_def w')
qed

lemma submit_eyes:
  assumes ids: "distinct (map id_b (bills_w w))" and ok: "eyes_ok w" and run: "submitVendorBill D tp shop i actor w = (w', Inr r)"
  shows "eyes_ok w'"
proof (rule submit_cases[OF run ids])
  fix x aps evs
  let ?f = "\<lambda>b. b\<lparr>status_b := PENDING_APPROVAL\<rparr>"
  assume found: "this_bill shop i w x"
    and w': "w' = w\<lparr>bills_w := update_rows (has_id i) ?f (bills_w w),
       history_w := history_w w @ [status_row shop i actor SUBMITTED, status_row shop i actor PENDING_APPROVAL],
       approvals_w := approvals_w w @ aps, audits_w := audits_w w @ [audit_row shop i actor ''SUBMITTED''], events_w := evs\<rparr>"
    and aps: "\<And>a. a \<in> set aps \<Longrightarrow> vendorBillId_ap a = i \<and> shopId_ap a = shop \<and> status_ap a = ''PENDING'' \<and> id_ap a = length (approvals_w w)"
      "length aps \<le> 1"
  have ap_ids: "map id_ap aps = [length (approvals_w w)..<length (approvals_w w) + length aps]"
    using aps by (cases aps) auto
  show ?thesis
    by (rule eyes_step[OF ids ok found, of w' ?f "[audit_row shop i actor ''SUBMITTED'']"])
       (use ok found aps in \<open>auto simp: w' audit_row_def decided_for_def eyes_ok_def ap_ids upt_add_eq_append[of 0] bill_ids_def
          this_bill_def names_bill_def\<close>)
qed

lemma decide_eyes:
  assumes ids: "distinct (map id_b (bills_w w))" and ok: "eyes_ok w" and run: "decide shop i actor action w = (w', Inr r)"
  shows "eyes_ok w'"
proof (rule decide_cases[OF run ids])
  fix x p evs
  let ?s = "if action = APPROVE then APPROVED else REJECTED"
  let ?f = "\<lambda>b. b\<lparr>status_b := ?s\<rparr>"
  let ?g = "\<lambda>a. a\<lparr>status_ap := (if action = APPROVE then ''APPROVED'' else ''REJECTED''), approverId_ap := actor\<rparr>"
  assume found: "this_bill shop i w x" and p: "p \<in> set (approvals_w w)" "pending_of shop i p" and other: "createdBy_b x \<noteq> actor"
    and aud: "\<And>u. u \<in> set (audits_w w) \<Longrightarrow> vendorBillId_au u = i \<Longrightarrow> shopId_au u = shop \<Longrightarrow> actorId_au u = actor \<Longrightarrow>
       action_au u \<notin> {''CREATED'', ''SUBMITTED''}"
    and w': "w' = w\<lparr>approvals_w := update_rows (\<lambda>a. id_ap a = id_ap p) ?g (approvals_w w),
       bills_w := update_rows (has_id i) ?f (bills_w w),
       history_w := history_w w @ [status_row shop i actor ?s], events_w := evs\<rparr>"
  have x: "x \<in> set (bills_w w)" "id_b x = i" "shopId_b x = shop" using found by (auto simp: this_bill_def names_bill_def)
  have d: "distinct (map id_ap (approvals_w w))" using ok by (simp add: eyes_ok_def)
  have mine: "shopId_au u = shop" if u: "u \<in> set (audits_w w)" "vendorBillId_au u = i" for u
  proof -
    obtain b where "b \<in> set (bills_w w)" "id_b b = i" "shopId_b b = shopId_au u" using ok u by (auto simp: eyes_ok_def)
    then show ?thesis using same_key[OF ids _ x(1)] x(2,3) by auto
  qed
  have "approved_by_other w' (?f x)" if "action = APPROVE"
    unfolding approved_by_other_def
  proof (rule bexI[of _ "?g p"])
    show "?g p \<in> set (approvals_w w')" using p(1) by (auto simp: w' set_update_rows image_iff intro!: bexI[of _ p])
    show "vendorBillId_ap (?g p) = id_b (?f x) \<and> status_ap (?g p) = ''APPROVED'' \<and> approverId_ap (?g p) \<noteq> createdBy_b (?f x) \<and>
      (\<forall>u \<in> set (audits_w w'). vendorBillId_au u = id_b (?f x) \<longrightarrow> action_au u \<in> {''CREATED'', ''SUBMITTED''} \<longrightarrow> actorId_au u \<noteq> approverId_ap (?g p))"
      using that other p(2) x aud mine by (auto simp: w' pending_of_def)
  qed
  moreover have "a \<in> set (approvals_w w')" if a: "a \<in> set (approvals_w w)" "status_ap a = ''APPROVED''" for a
  proof -
    have "id_ap a \<noteq> id_ap p" using same_key[OF d a(1) p(1)] a(2) p(2) by (auto simp: pending_of_def)
    then show ?thesis using a(1) by (auto simp: w' set_update_rows image_iff intro!: bexI[of _ a])
  qed
  moreover have "map id_ap (approvals_w w') = map id_ap (approvals_w w)" by (simp add: w' map_update_rows)
  moreover have "vendorBillId_ap a \<in> bill_ids w" if "a \<in> set (approvals_w w')" for a
    using that ok by (auto simp: w' set_update_rows eyes_ok_def)
  moreover have "length (approvals_w w') = length (approvals_w w)" by (simp add: w' update_rows_def)
  ultimately show ?thesis using ok
    by (intro eyes_step[OF ids ok found, of w' ?f "[]"]) (auto simp: w' eyes_ok_def decided_for_def split: if_splits)
qed

lemma cancel_eyes:
  assumes ids: "distinct (map id_b (bills_w w))" and ok: "eyes_ok w" and run: "cancelVendorBill shop i actor w = (w', Inr r)"
  shows "eyes_ok w'"
proof (rule cancel_cases[OF run ids])
  fix x evs
  let ?f = "\<lambda>b. b\<lparr>status_b := CANCELLED\<rparr>"
  assume found: "this_bill shop i w x"
    and w': "w' = w\<lparr>bills_w := update_rows (has_id i) ?f (bills_w w),
       history_w := history_w w @ [status_row shop i actor CANCELLED],
       approvals_w := update_rows (pending_of shop i) (\<lambda>a. a\<lparr>status_ap := ''CANCELLED'', approverId_ap := actor\<rparr>) (approvals_w w),
       audits_w := audits_w w @ [audit_row shop i actor ''CANCELLED''], events_w := evs\<rparr>"
  have "map id_ap (approvals_w w') = map id_ap (approvals_w w)" "length (approvals_w w') = length (approvals_w w)"
    by (simp_all add: w' map_update_rows) (simp add: update_rows_def)
  moreover have "a \<in> set (approvals_w w')" if "a \<in> set (approvals_w w)" "status_ap a = ''APPROVED''" for a
    using that by (auto simp: w' set_update_rows pending_of_def image_iff intro!: bexI[of _ a])
  ultimately show ?thesis using ok
    by (intro eyes_step[OF ids ok found, of w' ?f "[audit_row shop i actor ''CANCELLED'']"])
       (auto simp: w' audit_row_def decided_for_def eyes_ok_def set_update_rows)
qed

section \<open>The lifecycle\<close>

fun follows :: "VendorBillStatus \<Rightarrow> VendorBillStatus list \<Rightarrow> VendorBillStatus \<Rightarrow> bool" where
  "follows s [] t = (s = t)"
| "follows s (x # xs) t = (x \<in> set (TRANSITIONS s) \<and> follows x xs t)"

lemma follows_append: "follows s (xs @ ys) t \<longleftrightarrow> (\<exists>m. follows s xs m \<and> follows m ys t)"
  by (induction xs arbitrary: s) auto

definition statuses_of :: "purchasing \<Rightarrow> string \<Rightarrow> VendorBillStatus list" where
  "statuses_of w i = map status_sh (filter (\<lambda>h. vendorBillId_sh h = i) (history_w w))"

definition path_ok :: "purchasing \<Rightarrow> bool" where
  "path_ok w \<longleftrightarrow> (\<forall>h \<in> set (history_w w). vendorBillId_sh h \<in> bill_ids w) \<and>
     (\<forall>b \<in> set (bills_w w). follows DRAFT (statuses_of w (id_b b)) (status_b b))"

lemma path_step:
  assumes ids: "distinct (map id_b (bills_w w))" and ok: "path_ok w" and found: "this_bill shop i w x"
    and bills: "bills_w w' = update_rows (has_id i) f (bills_w w)" and f: "\<And>b. id_b (f b) = id_b b"
    and hist: "history_w w' = history_w w @ hs" "\<And>h. h \<in> set hs \<Longrightarrow> vendorBillId_sh h = i"
    and path: "follows (status_b x) (map status_sh hs) (status_b (f x))"
  shows "path_ok w'"
proof -
  have x: "x \<in> set (bills_w w)" "id_b x = i" using found by (auto simp: this_bill_def names_bill_def)
  have new: "statuses_of w' j = statuses_of w j @ (if j = i then map status_sh hs else [])" for j
    using hist(2) by (auto simp: statuses_of_def hist(1) filter_empty_conv)
  have old: "follows DRAFT (statuses_of w (id_b b)) (status_b b)" if "b \<in> set (bills_w w)" for b
    using ok that by (simp add: path_ok_def)
  have "follows DRAFT (statuses_of w i @ map status_sh hs) (status_b (f x))"
    unfolding follows_append using path old[OF x(1)] x(2) by auto
  then have "\<forall>b \<in> set (bills_w w'). follows DRAFT (statuses_of w' (id_b b)) (status_b b)"
    unfolding bills using old x f by (intro update_all[OF ids x]) (auto simp: new)
  moreover have "bill_ids w' = bill_ids w" by (rule ids_kept(1)[OF bills f])
  moreover have "i \<in> bill_ids w" using x by (auto simp: bill_ids_def)
  ultimately show ?thesis using ok hist(2) by (auto simp: path_ok_def hist(1))
qed

lemma create_path:
  assumes ok: "path_ok w" and run: "createVendorBill D tp i nr shop p actor w = (w', Inr r)"
  shows "path_ok w'"
proof (rule create_cases[OF run])
  fix evs
  assume r: "r = new_bill D i nr shop p actor" "i \<notin> id_b ` set (bills_w w)"
    and w': "w' = w\<lparr>bills_w := bills_w w @ [r], audits_w := audits_w w @ [audit_row shop i actor ''CREATED''], events_w := evs\<rparr>"
  have "statuses_of w i = []" using ok r(2) by (auto simp: statuses_of_def path_ok_def bill_ids_def filter_empty_conv)
  then show ?thesis using ok by (auto simp: path_ok_def w' r(1) bill_ids_def statuses_of_def)
qed

section \<open>Every step keeps the controls\<close>

definition kept_parts :: "(VendorBill \<Rightarrow> VendorBill) \<Rightarrow> bool" where
  "kept_parts f \<longleftrightarrow> (\<forall>b. id_b (f b) = id_b b \<and> shopId_b (f b) = shopId_b b \<and> createdBy_b (f b) = createdBy_b b \<and> lines_b (f b) = lines_b b)"

text \<open>A step on a bill past its approval: its money and status move, nothing else that the controls read.\<close>

definition decided_step :: "string \<Rightarrow> string \<Rightarrow> purchasing \<Rightarrow> purchasing \<Rightarrow> bool" where
  "decided_step shop i w w' \<longleftrightarrow> (\<exists>x f hs. this_bill shop i w x \<and> kept_parts f \<and>
     status_b x \<in> decided_for \<and> status_b (f x) \<in> decided_for \<and> follows (status_b x) (map status_sh hs) (status_b (f x)) \<and>
     (\<forall>h \<in> set hs. vendorBillId_sh h = i) \<and>
     bills_w w' = update_rows (has_id i) f (bills_w w) \<and> history_w w' = history_w w @ hs \<and>
     audits_w w' = audits_w w \<and> approvals_w w' = approvals_w w \<and>
     receiptLines_w w' = receiptLines_w w \<and> orderItems_w w' = orderItems_w w)"

lemma decided_live: "status_b b \<in> decided_for \<Longrightarrow> live_bill b \<longleftrightarrow> \<not> isDeleted_b b"
  by (auto simp: live_bill_def decided_for_def LIVE_BILL_STATUSES_EXCLUDED_def)

lemma post_decided:
  assumes "postVendorBill D G now shop i actor w = (w', Inr r)" and "distinct (map id_b (bills_w w))"
  shows "decided_step shop i w w'"
proof (rule post_bill_cases[OF assms])
  fix x bk evs
  let ?f = "\<lambda>b. b\<lparr>status_b := POSTED, postingDate_b := Some now\<rparr>"
  assume "this_bill shop i w x" "status_b x = APPROVED"
    and w': "w' = w\<lparr>history_w := history_w w @ [status_row shop i actor POSTED], books_w := bk,
       bills_w := update_rows (has_id i) ?f (bills_w w), events_w := evs\<rparr>"
  then show ?thesis unfolding decided_step_def
    by (intro exI[of _ x] exI[of _ ?f] exI[of _ "[status_row shop i actor POSTED]"])
       (simp add: kept_parts_def decided_for_def status_row_def)
qed

lemma pay_decided:
  assumes "payVendorBill D G shop i p actor w = (w', Inr r)" and "distinct (map id_b (bills_w w))"
  shows "w' = w \<or> decided_step shop i w w'"
proof (cases rule: pay_bill_cases[OF assms, case_names replayed paid])
  case (paid x)
  let ?x = "x\<lparr>lines_b := live_lines x\<rparr>" and ?a = "to_dp_half_up D 2 (paymentAmount_pv p)"
  let ?f = "\<lambda>b. b\<lparr>paidAmount_b := paid_after D ?x ?a, outstandingAmount_b := half_up 2 (left_after D ?x ?a), status_b := paid_status D ?x ?a\<rparr>"
  obtain bk evs where w': "w' = w\<lparr>bills_w := update_rows (has_id i) ?f (bills_w w),
      history_w := history_w w @ [status_row shop i actor (paid_status D ?x ?a)], books_w := bk, events_w := evs\<rparr>"
    by (rule settle_bill_cases[OF paid(4) assms(2) paid(1)], simp) (rule that, assumption)
  show ?thesis unfolding decided_step_def
    by (intro disjI2 exI[of _ x] exI[of _ ?f] exI[of _ "[status_row shop i actor (paid_status D ?x ?a)]"])
       (use paid(1,2) in \<open>auto simp: w' kept_parts_def decided_for_def status_row_def paid_status_def\<close>)
qed simp

lemma allocate_decided:
  assumes "allocateSupplierCredit D shop n i amount actor w = (w', Inr r)"
    and "distinct (map id_b (bills_w w))" "distinct (map id_cn (notes_w w))"
  shows "decided_step shop i w w'"
proof (rule allocate_cases[OF assms])
  fix x y a ns nh evs
  let ?f = "\<lambda>b. b\<lparr>outstandingAmount_b := outstandingAmount_b b - a, status_b := credited_status D x a\<rparr>"
  let ?hs = "if credited_status D x a = status_b x then [] else [status_row shop i actor (credited_status D x a)]"
  assume "this_bill shop i w x" "status_b x = POSTED \<or> status_b x = PARTIALLY_PAID"
    and w': "w' = w\<lparr>bills_w := update_rows (has_id i) ?f (bills_w w), history_w := history_w w @ ?hs,
       allocations_w := allocations_w w @ [\<lparr>shopId_al = shop, supplierCreditId_al = n, vendorBillId_al = i, allocatedAmount_al = a\<rparr>],
       notes_w := ns, noteHistory_w := nh, events_w := evs\<rparr>"
  then show ?thesis unfolding decided_step_def
    by (intro exI[of _ x] exI[of _ ?f] exI[of _ ?hs])
       (auto simp: kept_parts_def decided_for_def status_row_def credited_status_def)
qed

definition controls_ok :: "(LedgerSourceType \<Rightarrow> string \<Rightarrow> string \<Rightarrow> string option) \<Rightarrow> purchasing \<Rightarrow> bool" where
  "controls_ok owner w \<longleftrightarrow> money_ok owner w \<and> goods_ok w \<and> eyes_ok w \<and> path_ok w"

lemma decided_controls:
  assumes money: "money_ok owner w" "money_ok owner w'" and ok: "controls_ok owner w" and run: "decided_step shop i w w'"
  shows "controls_ok owner w'"
proof -
  obtain x f hs where found: "this_bill shop i w x" and f: "kept_parts f" and st: "status_b x \<in> decided_for" "status_b (f x) \<in> decided_for"
      "follows (status_b x) (map status_sh hs) (status_b (f x))" "\<forall>h \<in> set hs. vendorBillId_sh h = i"
    and w': "bills_w w' = update_rows (has_id i) f (bills_w w)" "history_w w' = history_w w @ hs"
      "audits_w w' = audits_w w" "approvals_w w' = approvals_w w"
      "receiptLines_w w' = receiptLines_w w" "orderItems_w w' = orderItems_w w"
    using run unfolding decided_step_def by blast
  have x: "x \<in> set (bills_w w)" "id_b x = i" "\<not> isDeleted_b x" using found by (auto simp: this_bill_def names_bill_def)
  note fx = f[unfolded kept_parts_def, rule_format]
  have "goods_ok w'" using ok st(1) fx x(3) decided_live
    by (intro goods_update[OF money(1) _ found w'(1,5,6)]) (auto simp: controls_ok_def)
  moreover have "eyes_ok w'" using ok fx by (intro eyes_keep[OF money_okD(2)[OF money(1)] _ found w'(1) _ w'(3,4) st(1)]) (auto simp: controls_ok_def)
  moreover have "path_ok w'" using ok fx st by (intro path_step[OF money_okD(2)[OF money(1)] _ found w'(1) _ w'(2)]) (auto simp: controls_ok_def)
  ultimately show ?thesis using money(2) by (simp add: controls_ok_def)
qed

lemma undecided_goods_path:
  assumes money: "money_ok owner w" and ok: "goods_ok w" "path_ok w" and found: "this_bill shop i w x"
    and bills: "bills_w w' = update_rows (has_id i) f (bills_w w)" and f: "kept_parts f"
    and same: "receiptLines_w w' = receiptLines_w w" "orderItems_w w' = orderItems_w w"
    and live: "live_bill (f x) \<Longrightarrow> live_bill x"
    and hist: "history_w w' = history_w w @ [status_row shop i actor (status_b (f x))]" "status_b (f x) \<in> set (TRANSITIONS (status_b x))"
  shows "goods_ok w' \<and> path_ok w'"
proof
  note fx = f[unfolded kept_parts_def, rule_format]
  show "goods_ok w'" using fx live by (intro goods_update[OF money ok(1) found bills same]) auto
  show "path_ok w'" using fx hist(2)
    by (intro path_step[OF money_okD(2)[OF money] ok(2) found bills _ hist(1)]) (auto simp: status_row_def)
qed

context decimal_arith
begin

lemma create_controls:
  assumes ok: "controls_ok owner w" and call: "proper_bill D owner (CreateBill i nr shop p actor)"
    and run: "createVendorBill D tp i nr shop p actor w = (w', Inr r)"
  shows "controls_ok owner w'"
proof -
  have parts: "money_ok owner w" "goods_ok w" "eyes_ok w" "path_ok w" using ok by (simp_all add: controls_ok_def)
  have "goods_ok w'"
  proof (rule create_cases[OF run])
    fix evs
    assume r: "r = new_bill D i nr shop p actor"
      and w': "w' = w\<lparr>bills_w := bills_w w @ [r], audits_w := audits_w w @ [audit_row shop i actor ''CREATED''], events_w := evs\<rparr>"
    have "contribution s g r = 0" for s g by (simp add: contribution_def r live_bill_def LIVE_BILL_STATUSES_EXCLUDED_def)
    then show ?thesis by (intro goods_step[OF parts(2)]) (simp_all add: w' prior_sum)
  qed
  then show ?thesis using create_money[OF parts(1) call run] create_eyes[OF parts(3) run] create_path[OF parts(4) run]
    by (simp add: controls_ok_def)
qed

lemma submit_controls:
  assumes ok: "controls_ok owner w" and run: "submitVendorBill D tp shop i actor w = (w', Inr r)"
  shows "controls_ok owner w'"
proof -
  have parts: "money_ok owner w" "goods_ok w" "eyes_ok w" "path_ok w" using ok by (simp_all add: controls_ok_def)
  note ids = money_okD(2)[OF parts(1)]
  have "path_ok w'"
    by (rule submit_cases[OF run ids], rule path_step[OF ids parts(4), of shop i _ w' "\<lambda>b. b\<lparr>status_b := PENDING_APPROVAL\<rparr>"
          "[status_row shop i actor SUBMITTED, status_row shop i actor PENDING_APPROVAL]"])
       (auto simp: status_row_def)
  then show ?thesis using submit_money[OF parts(1) run] submit_goods[OF parts(1,2) run] submit_eyes[OF ids parts(3) run]
    by (simp add: controls_ok_def)
qed

lemma decide_controls:
  assumes ok: "controls_ok owner w" and run: "decide shop i actor action w = (w', Inr r)"
  shows "controls_ok owner w'"
proof -
  have parts: "money_ok owner w" "goods_ok w" "eyes_ok w" "path_ok w" using ok by (simp_all add: controls_ok_def)
  note ids = money_okD(2)[OF parts(1)]
  have "goods_ok w' \<and> path_ok w'"
    by (rule decide_cases[OF run ids], rule undecided_goods_path[OF parts(1,2,4), of shop i _ w'
          "\<lambda>b. b\<lparr>status_b := (if action = APPROVE then APPROVED else REJECTED)\<rparr>" actor])
       (auto simp: kept_parts_def live_bill_def LIVE_BILL_STATUSES_EXCLUDED_def)
  then show ?thesis using decide_money[OF parts(1) run] decide_eyes[OF ids parts(3) run] by (simp add: controls_ok_def)
qed

lemma cancel_controls:
  assumes ok: "controls_ok owner w" and run: "cancelVendorBill shop i actor w = (w', Inr r)"
  shows "controls_ok owner w'"
proof -
  have parts: "money_ok owner w" "goods_ok w" "eyes_ok w" "path_ok w" using ok by (simp_all add: controls_ok_def)
  note ids = money_okD(2)[OF parts(1)]
  have "goods_ok w' \<and> path_ok w'"
    by (rule cancel_cases[OF run ids], rule undecided_goods_path[OF parts(1,2,4), of shop i _ w' "\<lambda>b. b\<lparr>status_b := CANCELLED\<rparr>" actor])
       (auto simp: kept_parts_def live_bill_def LIVE_BILL_STATUSES_EXCLUDED_def CANCELLABLE_def)
  then show ?thesis using cancel_money[OF parts(1) run] cancel_eyes[OF ids parts(3) run] by (simp add: controls_ok_def)
qed

lemma ledger_controls:
  assumes ok: "controls_ok owner w" and ids: "new_ids G" and call: "proper_bill D owner (LedgerCall c)"
  shows "controls_ok owner (w\<lparr>books_w := run_call D G c (books_w w)\<rparr>)"
proof -
  let ?w' = "w\<lparr>books_w := run_call D G c (books_w w)\<rparr>"
  have same: "goods_ok ?w' = goods_ok w" "eyes_ok ?w' = eyes_ok w" "path_ok ?w' = path_ok w"
    by (simp_all add: goods_ok_def documents_ok_def within_receipt_def billed_of_def prior_billed_def eyes_ok_def approved_by_other_def
        bill_ids_def path_ok_def statuses_of_def)
  show ?thesis using ok ledger_money[OF _ ids call] by (simp add: controls_ok_def same)
qed

lemma run_bill_controls:
  assumes ids: "new_ids G" and call: "proper_bill D owner c" and ok: "controls_ok owner w"
  shows "controls_ok owner (run_bill D G tp c w)"
proof (rule run_bill_keeps[where P = "controls_ok owner", OF ok])
  have money: "money_ok owner w" using ok by (simp add: controls_ok_def)
  note d = money_okD(2,3)[OF money]
  show "controls_ok owner w'" if "c = CreateBill i nr shop p actor" "createVendorBill D tp i nr shop p actor w = (w', Inr r)"
    for i nr shop p actor w' r using create_controls[OF ok] call that by blast
  show "controls_ok owner w'" if "postVendorBill D G now shop i actor w = (w', Inr r)" for now shop i actor w' r
    by (rule decided_controls[OF money post_money[OF money ids that] ok post_decided[OF that d(1)]])
  show "controls_ok owner w'" if "payVendorBill D G shop i p actor w = (w', Inr r)" for shop i p actor w' r
    using pay_decided[OF that d(1)] decided_controls[OF money pay_money[OF money ids that] ok] ok by blast
  show "controls_ok owner w'" if "c = AllocateCredit shop n i amount actor" "allocateSupplierCredit D shop n i amount actor w = (w', Inr r)"
    for shop n i amount actor w' r
    using decided_controls[OF money _ ok allocate_decided[OF that(2) d]] allocate_money[OF money _ that(2)] call that(1) by simp
  show "controls_ok owner (w\<lparr>books_w := run_call D G c' (books_w w)\<rparr>)" if "c = LedgerCall c'" for c'
    using ledger_controls[OF ok ids] call that by blast
qed (erule submit_controls[OF ok] decide_controls[OF ok] cancel_controls[OF ok])+

end

end
