(* ===== verification/VendorBillBehaviour.thy ===== *)
theory VendorBillBehaviour
  imports VendorBillControls
begin

text \<open>
  The properties of vendor bills over any history from an opening state, with a worked history:
  money, goods, approval, lifecycle and books; and what two submissions that do not see each
  other do.
\<close>

section \<open>From an opening state\<close>

text \<open>No bills yet; the documents, the catalogue and the credit notes of \<open>w\<close>, none of them used.\<close>

definition opening_purchasing :: "purchasing \<Rightarrow> Supplier list \<Rightarrow> Shift list \<Rightarrow> purchasing" where
  "opening_purchasing w sups shifts =
     w\<lparr>books_w := opening_books sups shifts, bills_w := [], approvals_w := [], audits_w := [], history_w := [],
       allocations_w := [], notes_w := map (\<lambda>z. z\<lparr>allocatedAmount_cn := 0\<rparr>) (notes_w w)\<rparr>"

definition documents_open :: "purchasing \<Rightarrow> bool" where
  "documents_open w \<longleftrightarrow> documents_ok w \<and> distinct (map id_cn (notes_w w)) \<and> list_all (\<lambda>z. 0 \<le> remainingBalance_cn z) (notes_w w)"

definition after_bills ::
    "decimal_lib \<Rightarrow> (books \<Rightarrow> string) \<Rightarrow> decimal \<Rightarrow> bill_call list \<Rightarrow> purchasing \<Rightarrow> Supplier list \<Rightarrow> Shift list \<Rightarrow> purchasing" where
  "after_bills D G tp calls w sups shifts = fold (run_bill D G tp) calls (opening_purchasing w sups shifts)"

lemma opening_controls:
  assumes "suppliers_open sups" and "documents_open w"
  shows "controls_ok owner (opening_purchasing w sups shifts)"
proof -
  let ?w = "opening_purchasing w sups shifts"
  have "payables_ok owner (books_w ?w)" using opening_ok[OF assms(1)] by (simp add: opening_purchasing_def)
  moreover have "refs_ok ?w" using assms(2)
    by (simp add: refs_ok_def opening_purchasing_def opening_books_def documents_open_def comp_def)
  moreover have "notes_ok ?w" using assms(2) by (auto simp: notes_ok_def opening_purchasing_def used_of_def documents_open_def list_all_iff)
  moreover have "goods_ok ?w" using assms(2)
    by (auto simp: goods_ok_def documents_open_def documents_ok_def opening_purchasing_def within_receipt_def billed_of_def prior_sum)
  ultimately show ?thesis by (simp add: controls_ok_def money_ok_def eyes_ok_def path_ok_def opening_purchasing_def)
qed

context decimal_arith
begin

lemma bills_step_system: "new_ids G \<Longrightarrow> step_system (run_bill D G tp) (proper_bill D owner) (controls_ok owner)"
  by unfold_locales (rule run_bill_controls)

lemma bills_history:
  assumes "new_ids G" and "list_all (proper_bill D owner) calls" and "suppliers_open sups" and "documents_open w"
  shows "controls_ok owner (after_bills D G tp calls w sups shifts)"
  unfolding after_bills_def
  by (rule step_system.history[OF bills_step_system[OF assms(1)] assms(2) opening_controls[OF assms(3,4)]])

text \<open>Sums with mixed signs, exact while the magnitudes are.\<close>

lemma foldl_plus_mixed:
  assumes "on_grid n acc" and "\<And>x. x \<in> set xs \<Longrightarrow> on_grid n x" and "(\<bar>acc\<bar> + sum_list (map abs xs)) * 10 ^ n < 10 ^ 20"
  shows "foldl (d_plus D) acc xs = acc + sum_list xs"
  using assms
proof (induction xs arbitrary: acc)
  case (Cons x xs)
  have nn: "0 \<le> sum_list (map abs xs)" by (intro sum_list_nonneg) auto
  have tri: "\<bar>acc + x\<bar> + sum_list (map abs xs) \<le> \<bar>acc\<bar> + sum_list (map abs (x # xs))" by simp
  then have b: "(\<bar>acc + x\<bar> + sum_list (map abs xs)) * 10 ^ n < 10 ^ 20"
    using Cons.prems(3) by (elim order.strict_trans1[rotated] mult_right_mono) simp
  have "\<bar>acc + x\<bar> * 10 ^ n \<le> (\<bar>acc + x\<bar> + sum_list (map abs xs)) * 10 ^ n" using nn by (intro mult_right_mono) simp_all
  from order.strict_trans1[OF this b] have "d_plus D acc x = acc + x" using Cons.prems(1,2) by (intro d_plus_grid) auto
  moreover have "foldl (d_plus D) (acc + x) xs = acc + x + sum_list xs"
    using Cons.prems b by (intro Cons.IH on_grid_add) auto
  ultimately show ?case by (simp add: add.assoc)
qed simp

lemma d_sum_mixed:
  "(\<And>x. x \<in> set xs \<Longrightarrow> on_grid n x) \<Longrightarrow> sum_list (map abs xs) * 10 ^ n < 10 ^ 20 \<Longrightarrow> d_sum D xs = sum_list xs"
  using foldl_plus_mixed[of n 0 xs] by (simp add: d_sum_def)

end

section \<open>What a posted bill moves\<close>

text \<open>The receipt value of a bill's lines: what the goods receipt already put into the payable.\<close>

definition receipt_total :: "decimal_lib \<Rightarrow> purchasing \<Rightarrow> string \<Rightarrow> VendorBill \<Rightarrow> decimal" where
  "receipt_total D w shop b = sum_list (map (\<lambda>l. receiptValue_pl (plan_line D w shop l)) (lines_b b))"

lemma sum_split: "sum_list (map f xs) = sum_list (map f (filter P xs)) + sum_list (map f (filter (\<lambda>x. \<not> P x) xs))" for f :: "'a \<Rightarrow> rat"
  by (induction xs) simp_all

lemma sum_diff: "sum_list (map (\<lambda>x. f x - g x) xs) = sum_list (map f xs) - sum_list (map g xs)" for f g :: "'a \<Rightarrow> rat"
  by (induction xs) simp_all

lemma sum_abs_le:
  "(\<And>x. x \<in> set xs \<Longrightarrow> \<bar>f x\<bar> \<le> g x + h x) \<Longrightarrow> sum_list (map abs (map f xs)) \<le> sum_list (map g xs) + sum_list (map h xs)"
  for f g h :: "'a \<Rightarrow> rat"
proof (induction xs)
  case (Cons x xs)
  have "\<bar>f x\<bar> \<le> g x + h x" "sum_list (map abs (map f xs)) \<le> sum_list (map g xs) + sum_list (map h xs)" using Cons by simp_all
  then show ?case by simp
qed simp

definition plan_line_good :: "BillPlanLine \<Rightarrow> bool" where
  "plan_line_good l \<longleftrightarrow> on_grid 2 (base_pl l) \<and> 0 \<le> base_pl l \<and> on_grid 2 (tax_pl l) \<and> 0 \<le> tax_pl l \<and>
     on_grid 2 (receiptValue_pl l) \<and> 0 \<le> receiptValue_pl l \<and> (\<not> stocked_pl l \<longrightarrow> receiptValue_pl l = 0)"

context decimal_arith
begin

lemma plan_delta:
  assumes ls: "list_all plan_line_good ls" and base: "sum_list (map base_pl ls) < 10 ^ 9" and tax: "sum_list (map tax_pl ls) < 10 ^ 9"
    and receipt: "sum_list (map receiptValue_pl ls) < 10 ^ 17" and plan: "plan = vendorBillPostingPlan D ls"
  shows "payableDelta_vp plan = sum_list (map base_pl ls) + sum_list (map tax_pl ls) - sum_list (map receiptValue_pl ls)"
    and "on_grid 2 (payableDelta_vp plan)"
    and "normalise_entries D (entries_vp plan) = entries_vp plan"
    and "entries_vp plan = [] \<Longrightarrow> payableDelta_vp plan = 0"
proof -
  let ?st = "filter stocked_pl ls" and ?un = "filter (\<lambda>l. \<not> stocked_pl l) ls"
  have l: "on_grid 2 (base_pl x)" "0 \<le> base_pl x" "on_grid 2 (tax_pl x)" "0 \<le> tax_pl x" "on_grid 2 (receiptValue_pl x)"
    "0 \<le> receiptValue_pl x" if "x \<in> set ls" for x using ls that by (auto simp: list_all_iff plan_line_good_def)
  have sb: "sum_list (map base_pl ?st) \<le> sum_list (map base_pl ls)" "sum_list (map base_pl ?un) \<le> sum_list (map base_pl ls)"
    and sr: "sum_list (map receiptValue_pl ?st) \<le> sum_list (map receiptValue_pl ls)"
    using l by (auto intro: sum_filter_le)
  have each: "base_pl x \<le> sum_list (map base_pl ls)" "receiptValue_pl x \<le> sum_list (map receiptValue_pl ls)" if "x \<in> set ls" for x
    using that l by (auto intro!: member_le_sum_list)
  have diff: "d_minus D (base_pl x) (receiptValue_pl x) = base_pl x - receiptValue_pl x" if "x \<in> set ls" for x
  proof (rule d_minus_grid[of 2])
    have "\<bar>base_pl x - receiptValue_pl x\<bar> < 2 * 10 ^ 17" using each[OF that] l[OF that] base receipt by (auto simp: abs_if)
    then show "\<bar>base_pl x - receiptValue_pl x\<bar> * 10 ^ 2 < 10 ^ 20" by simp
  qed (use l[OF that] in simp_all)
  have st: "map (\<lambda>l. d_minus D (base_pl l) (receiptValue_pl l)) ?st = map (\<lambda>l. base_pl l - receiptValue_pl l) ?st" using diff by simp
  have "sum_list (map abs (map (\<lambda>l. base_pl l - receiptValue_pl l) ?st)) \<le> sum_list (map base_pl ?st) + sum_list (map receiptValue_pl ?st)"
    using l by (intro sum_abs_le) (auto simp: abs_if)
  then have "sum_list (map abs (map (\<lambda>l. base_pl l - receiptValue_pl l) ?st)) * 10 ^ 2 < 10 ^ 20" using sb sr base receipt by simp
  then have v: "d_sum D (map (\<lambda>l. d_minus D (base_pl l) (receiptValue_pl l)) ?st) = sum_list (map base_pl ?st) - sum_list (map receiptValue_pl ?st)"
    unfolding st using l by (subst d_sum_mixed[of _ 2]) (auto simp: sum_diff intro: on_grid_diff)
  have t: "d_sum D (map tax_pl ls) = sum_list (map tax_pl ls)" using l tax by (intro d_sum_exact[of _ 2]) auto
  have e: "d_sum D (map base_pl ?un) = sum_list (map base_pl ?un)" using l base sb by (intro d_sum_exact[of _ 2]) auto
  have gt: "on_grid 2 (sum_list (map tax_pl ls))" and ge: "on_grid 2 (sum_list (map base_pl ?un))"
    and gv: "on_grid 2 (sum_list (map base_pl ?st) - sum_list (map receiptValue_pl ?st))"
    using l by (auto intro!: on_grid_sum_list on_grid_diff)
  obtain t' v' e' where parts: "t' = sum_list (map tax_pl ls)" "v' = sum_list (map base_pl ?st) - sum_list (map receiptValue_pl ?st)"
      "e' = sum_list (map base_pl ?un)" "payableDelta_vp plan = d_plus D (d_plus D t' v') e'"
      "entries_vp plan = (if 0 < t' then [plan_entry INPUT_GST DEBIT t'] else []) @
            (if 0 < v' then [plan_entry INVENTORY DEBIT v'] else []) @
            (if v' < 0 then [plan_entry INVENTORY CREDIT \<bar>v'\<bar>] else []) @
            (if 0 < e' then [plan_entry EXPENSES DEBIT e'] else []) @
            (if 0 < payableDelta_vp plan then [plan_entry ACCOUNTS_PAYABLE CREDIT (payableDelta_vp plan)] else []) @
            (if payableDelta_vp plan < 0 then [plan_entry ACCOUNTS_PAYABLE DEBIT \<bar>payableDelta_vp plan\<bar>] else [])"
    by (rule plan_parts[OF plan], unfold t v e half_up_exact[OF gt] half_up_exact[OF gv] half_up_exact[OF ge], rule that, assumption+)
  note g = gt[folded parts(1)] gv[folded parts(2)] ge[folded parts(3)]
  have nn: "0 \<le> t'" "0 \<le> e'" "0 \<le> sum_list (map base_pl ?st)" "0 \<le> sum_list (map receiptValue_pl ?st)"
    unfolding parts using l by (auto intro!: sum_list_nonneg)
  have "\<bar>v'\<bar> < 2 * 10 ^ 17" using nn(3,4) sb sr base receipt unfolding parts(2) by (auto simp: abs_if)
  moreover have "t' < 10 ^ 9" "e' < 10 ^ 9" using tax sb base unfolding parts(1,3) by simp_all
  ultimately have small: "\<bar>t' + v'\<bar> < 3 * 10 ^ 17" "\<bar>t' + v' + e'\<bar> < 4 * 10 ^ 17" using nn(1,2) by (auto simp: abs_if split: if_splits)
  have "d_plus D t' v' = t' + v'" using g small by (intro d_plus_grid[of 2]) simp_all
  moreover have "d_plus D (t' + v') e' = t' + v' + e'" using g small by (intro d_plus_grid[of 2] on_grid_add) simp_all
  ultimately have d: "payableDelta_vp plan = t' + v' + e'" using parts(4) by simp
  have "map receiptValue_pl ?un = map (\<lambda>_. 0) ?un" using ls by (auto simp: list_all_iff plan_line_good_def)
  then have un: "sum_list (map receiptValue_pl ?un) = 0" by (simp only: sum_list_0)
  show "payableDelta_vp plan = sum_list (map base_pl ls) + sum_list (map tax_pl ls) - sum_list (map receiptValue_pl ls)"
    unfolding d parts(1-3) using sum_split[of base_pl ls stocked_pl] sum_split[of receiptValue_pl ls stocked_pl] un by simp
  show dg: "on_grid 2 (payableDelta_vp plan)" unfolding d using g by (intro on_grid_add)
  show "normalise_entries D (entries_vp plan) = entries_vp plan"
    unfolding parts(5) using g dg by (auto simp: normalise_append normalise_entry on_grid_minus normalise_entries_def plan_entry_def dp_exact)
  show "payableDelta_vp plan = 0" if "entries_vp plan = []" using that parts(5) by (auto split: if_splits)
qed

end

lemma post_posts:
  assumes "post D G p s = (s', Inr r)" and "normalise_entries D (entries_po p) \<noteq> []" and "find_posting p s = None"
  shows "posted_pr r"
  using assms unfolding post_def postEntries_def
  by (auto simp: Let_def bind_eff_def split: prod.splits sum.splits if_splits)

lemma update_rows_add_0: "update_rows P (add_payable 0) xs = xs"
  by (simp add: update_rows_none)

context decimal_arith
begin

lemma plan_line_fine: "line_good l \<Longrightarrow> receiptValue_pl (plan_line D w shop l) \<ge> 0 \<Longrightarrow> plan_line_good (plan_line D w shop l)"
  by (auto simp: plan_line_good_def plan_line_def Let_def line_base line_good_def to_dp_half_up intro: on_grid_diff split: option.splits if_splits)

lemma plan_line_cost:
  assumes "line_good l" and "list_all (\<lambda>g. 0 \<le> unitPrice_gl g) (receiptLines_w w)"
  shows "0 \<le> receiptValue_pl (plan_line D w shop l)"
proof -
  have "0 \<le> unitPrice_gl g" if "find P (receiptLines_w w) = Some g" for P g
    using find_SomeD[OF that] assms(2) by (simp add: list_all_iff)
  then have "0 \<le> d_mul D (billedQuantity_bl l) (unitPrice_gl g)" if "find P (receiptLines_w w) = Some g" for P g
    using assms(1) that unfolding d_mul_def by (intro ctx_nonneg mult_nonneg_nonneg) (auto simp: line_good_def)
  then show ?thesis by (auto simp: plan_line_def Let_def to_dp_half_up intro!: half_up_nonneg split: option.split)
qed

text \<open>Posting moves the supplier's payable by the bill's total less its receipt value, and no other supplier's.\<close>

lemma post_moves:
  assumes money: "money_ok owner w" and run: "postVendorBill D G now shop i actor w = (w', Inr r)"
    and x: "x \<in> set (bills_w w)" "id_b x = i"
    and costs: "\<And>l. l \<in> set (lines_b x) \<Longrightarrow> 0 \<le> receiptValue_pl (plan_line D w shop l)" "receipt_total D w shop x < 10 ^ 17"
    and fresh: "find_posting (bill_posting shop x (plan_of D w shop x)) (books_w w) = None"
  shows "suppliers_bk (books_w w') = update_rows (is_supplier shop (supplierId_b x))
    (add_payable (totalAmount_b x - receipt_total D w shop x)) (suppliers_bk (books_w w))"
proof (rule post_bill_cases[OF run money_okD(2)[OF money]])
  fix y bk evs
  assume found: "this_bill shop i w y"
    and books: "entries_vp (plan_of D w shop y) = [] \<and> bk = books_w w \<or>
       (\<exists>q. postWithPayable D G (Some (supplierId_b y)) (bill_posting shop y (plan_of D w shop y))
          (payableDelta_vp (plan_of D w shop y)) (books_w w) = (bk, Inr q))"
    and w': "w' = w\<lparr>history_w := history_w w @ [status_row shop i actor POSTED], books_w := bk,
       bills_w := update_rows (has_id i) (\<lambda>b. b\<lparr>status_b := POSTED, postingDate_b := Some now\<rparr>) (bills_w w), events_w := evs\<rparr>"
  have y: "y = x" using same_key[OF money_okD(2)[OF money] _ x(1)] found x(2) by (auto simp: this_bill_def names_bill_def)
  have b: "bill_ok owner w x" by (rule money_okD(4)[OF money x(1)])
  have good: "list_all line_good (lines_b x)" and total: "totalAmount_b x = sum_list (map totalAmount_bl (lines_b x))"
    using b by (simp_all add: bill_ok_def bill_worth_def)
  let ?ls = "map (plan_line D w shop) (lines_b x)" and ?plan = "plan_of D w shop x"
  have live: "live_lines x = lines_b x" by (rule live_lines_all[OF good])
  have plan: "?plan = vendorBillPostingPlan D ?ls" by (simp add: plan_of_def live)
  have fields: "base_pl (plan_line D w shop l) = totalAmount_bl l - taxAmount_bl l" "tax_pl (plan_line D w shop l) = taxAmount_bl l"
    if "l \<in> set (lines_b x)" for l using good that by (simp_all add: plan_line_def Let_def line_base list_all_iff)
  have ok: "list_all plan_line_good ?ls" using good costs(1) by (auto simp: list_all_iff plan_line_fine)
  have tax: "sum_list (map tax_pl ?ls) = sum_list (map taxAmount_bl (lines_b x))"
    using fields(2) by (intro arg_cong[where f = sum_list]) simp
  have base: "sum_list (map base_pl ?ls) = totalAmount_b x - sum_list (map taxAmount_bl (lines_b x))"
    unfolding total sum_diff[symmetric] using fields(1) by (intro arg_cong[where f = sum_list]) simp
  have nn: "0 \<le> sum_list (map base_pl ?ls)" "0 \<le> sum_list (map tax_pl ?ls)"
    using ok by (auto simp: list_all_iff plan_line_good_def intro!: sum_list_nonneg)
  have "totalAmount_b x < 10 ^ 9" using b by (auto simp: bill_ok_def settled_def fits_column_def)
  then have small: "sum_list (map base_pl ?ls) < 10 ^ 9" "sum_list (map tax_pl ?ls) < 10 ^ 9" using nn base tax by simp_all
  have receipt: "sum_list (map receiptValue_pl ?ls) = receipt_total D w shop x" by (simp add: receipt_total_def comp_def)
  note d = plan_delta[OF ok small costs(2)[folded receipt] plan]
  have delta: "payableDelta_vp ?plan = totalAmount_b x - receipt_total D w shop x"
    unfolding d(1) receipt base tax by simp
  have "suppliers_bk bk = update_rows (is_supplier shop (supplierId_b x)) (add_payable (payableDelta_vp ?plan)) (suppliers_bk (books_w w))"
    using books unfolding y
  proof
    assume "entries_vp ?plan = [] \<and> bk = books_w w"
    then show ?thesis using d(4) by (simp add: update_rows_add_0)
  next
    assume "\<exists>q. postWithPayable D G (Some (supplierId_b x)) (bill_posting shop x ?plan) (payableDelta_vp ?plan) (books_w w) = (bk, Inr q)"
    then obtain q where q: "postWithPayable D G (Some (supplierId_b x)) (bill_posting shop x ?plan) (payableDelta_vp ?plan) (books_w w) = (bk, Inr q)" ..
    have led: "ledger_ok (books_w w)" by (rule payables_okD(1)[OF money_okD(1)[OF money]])
    have same: "suppliers_bk s1 = suppliers_bk (books_w w)" if "post D G (bill_posting shop x ?plan) (books_w w) = (s1, Inr q)" for s1
      by (rule post_cases[OF led that]) (simp_all add: posted_books_def)
    from q show ?thesis
    proof (cases rule: post_payable_cases)
      case (1 s1)
      have "payableDelta_vp ?plan = 0"
      proof (cases "entries_vp ?plan = []")
        case False
        then have "posted_pr q" using post_posts[OF 1(1) _ fresh] d(3) by (simp add: bill_posting_def)
        then show ?thesis using 1(2) by simp
      qed (rule d(4))
      then show ?thesis using same[OF 1(1)] 1(3) by (simp add: update_rows_add_0)
    next
      case (2 s1 v)
      then show ?thesis using same[OF 2(1)] move_cases[OF 2(4)] d(2) by (simp add: dp_exact bill_posting_def)
    qed
  qed
  then show ?thesis by (simp add: w' delta)
qed

end

section \<open>A worked history\<close>

text \<open>
  Ten pieces ordered at 100 and received; a bill for them with GST, submitted and approved by
  another.
\<close>

definition sample_documents :: purchasing where
  "sample_documents = \<lparr>books_w = opening_books [] [], bills_w = [], approvals_w = [], audits_w = [], history_w = [], events_w = [],
     orders_w = [\<lparr>id_o = ''o1'', shopId_o = ''sh'', supplierId_o = ''s1'', isDeleted_o = False\<rparr>],
     orderItems_w = [\<lparr>id_oi = ''oi1'', shopId_oi = ''sh'', purchaseOrderId_oi = ''o1'', productId_oi = ''p1'', quantity_oi = 10,
       unitCost_oi = 100, price_oi = 1000, discount_oi = None, isDeleted_oi = False\<rparr>],
     receipts_w = [\<lparr>id_g = ''g1'', shopId_g = ''sh'', supplierId_g = ''s1'', status_g = ''ACCEPTED'', purchaseOrderId_g = Some ''o1'',
       isDeleted_g = False\<rparr>],
     receiptLines_w = [\<lparr>id_gl = ''gl1'', shopId_gl = ''sh'', goodsReceiptId_gl = ''g1'', purchaseOrderItemId_gl = Some ''oi1'',
       productId_gl = ''p1'', variantId_gl = None, acceptedQuantity_gl = 10, unitPrice_gl = 100, isDeleted_gl = False\<rparr>],
     products_w = [\<lparr>id_cr = ''p1'', shopId_cr = ''sh'', type_cr = ''SIMPLE''\<rparr>], variants_w = [],
     notes_w = [\<lparr>id_cn = ''n1'', shopId_cn = ''sh'', supplierId_cn = ''s1'', status_cn = CN_ISSUED, allocatedAmount_cn = 0,
       remainingBalance_cn = 80, isDeleted_cn = False\<rparr>], noteHistory_w = [], allocations_w = []\<rparr>"

definition bill_suppliers :: "Supplier list" where
  "bill_suppliers = [\<lparr>id_su = ''s1'', shopId_su = ''sh'', pendingPayables_su = 0, openingPayables_su = 1000, isDeleted_su = False\<rparr>]"

definition bill_owner :: "LedgerSourceType \<Rightarrow> string \<Rightarrow> string \<Rightarrow> string option" where
  "bill_owner ty shop i = (if ty = SRC_VENDOR_BILL then Some ''s1'' else None)"

definition sample_bill :: "rat \<Rightarrow> rat \<Rightarrow> CreateVendorBillDto" where
  "sample_bill q rate = \<lparr>supplierId_cv = ''s1'', purchaseOrderId_cv = Some ''o1'', goodsReceiptId_cv = Some ''g1'',
     lines_cv = [\<lparr>productId_d = ''p1'', variantId_d = None, purchaseOrderLineId_d = Some ''oi1'', grnLineId_d = Some ''gl1'',
       billedQuantity_d = q, unitPrice_d = 100, taxPercentage_d = Some rate\<rparr>], taxMode_cv = None\<rparr>"

definition approved_calls :: "rat \<Rightarrow> bill_call list" where
  "approved_calls rate = [CreateBill ''b1'' ''VB-1'' ''sh'' (sample_bill 10 rate) ''u1'', SubmitBill ''sh'' ''b1'' ''u1'',
     DecideBill ''sh'' ''b1'' ''u2'' APPROVE]"

definition approved_state :: purchasing where
  "approved_state = after_bills decimal_js fresh_id 0 (approved_calls 18) sample_documents bill_suppliers []"

text \<open>What the properties read of that state.\<close>

definition bill_view ::
    "purchasing \<Rightarrow> VendorBillStatus list \<times> decimal list \<times> VendorBillStatus list \<times> (string \<times> bool \<times> decimal) list \<times> (string \<times> decimal) list" where
  "bill_view w = (map status_b (bills_w w), map totalAmount_b (bills_w w), map status_sh (history_w w),
     map (\<lambda>g. (id_gl g, isDeleted_gl g, sum_list (map (contribution (shopId_gl g) (id_gl g)) (bills_w w)))) (receiptLines_w w),
     map (\<lambda>x. (id_su x, pendingPayables_su x)) (suppliers_bk (books_w w)))"

lemma approved_view:
  "bill_view approved_state = ([APPROVED], [1180], [SUBMITTED, PENDING_APPROVAL, APPROVED], [(''gl1'', False, 10)], [(''s1'', 1000)])"
  by code_simp

lemma approved_bill:
  obtains b where "bills_w approved_state = [b]" "status_b b = APPROVED" "totalAmount_b b = 1180"
  using approved_view by (auto simp: bill_view_def map_eq_Cons_conv)

lemma approved_receipt:
  obtains g where "receiptLines_w approved_state = [g]" "\<not> isDeleted_gl g" "prior_billed approved_state (shopId_gl g) (id_gl g) None = 10"
  using approved_view by (auto simp: bill_view_def map_eq_Cons_conv prior_sum)

lemma approved_supplier:
  obtains x where "suppliers_bk (books_w approved_state) = [x]" "pendingPayables_su x = 1000"
  using approved_view by (auto simp: bill_view_def map_eq_Cons_conv)

lemma sample_bill_calls: "list_all (proper_bill decimal_js bill_owner) (approved_calls 18)"
  by code_simp

lemma sample_documents_open: "documents_open sample_documents" "suppliers_open bill_suppliers"
  by code_simp+

interpretation bills: step_system "run_bill decimal_js fresh_id tp" "proper_bill decimal_js owner" "controls_ok owner"
  by (rule js.bills_step_system[OF fresh_id_new])

lemma controlsD:
  assumes "controls_ok owner w"
  shows "money_ok owner w" "goods_ok w" "eyes_ok w" "path_ok w"
  using assms by (simp_all add: controls_ok_def)

section \<open>What a credit note has to give\<close>

text \<open>What a note gave and what it has left, per note: no call changes the sum.\<close>

definition note_funds :: "purchasing \<Rightarrow> (string \<times> decimal) list" where
  "note_funds w = map (\<lambda>z. (id_cn z, allocatedAmount_cn z + remainingBalance_cn z)) (notes_w w)"

lemma note_funds_same: "notes_w w' = notes_w w \<Longrightarrow> note_funds w' = note_funds w"
  by (simp add: note_funds_def)

lemma note_funds_moved: "list_all2 (note_moved n a) (notes_w w) ns \<Longrightarrow> notes_w w' = ns \<Longrightarrow> note_funds w' = note_funds w"
  by (auto simp: note_funds_def note_moved_def list_eq_iff_nth_eq list_all2_conv_all_nth)

lemma run_bill_funds:
  assumes "money_ok owner w"
  shows "note_funds (run_bill D G tp c w) = note_funds w"
proof (rule run_bill_keeps[where P = "\<lambda>w'. note_funds w' = note_funds w"])
  note ids = money_okD(2,3)[OF assms]
  show "note_funds w' = note_funds w" if "createVendorBill D tp i nr shop p actor w = (w', Inr r)" for i nr shop p actor w' r
    by (rule create_cases[OF that]) (rule note_funds_same, simp)
  show "note_funds w' = note_funds w" if "submitVendorBill D tp shop i actor w = (w', Inr r)" for shop i actor w' r
    by (rule submit_cases[OF that ids(1)]) (rule note_funds_same, simp)
  show "note_funds w' = note_funds w" if "decide shop i actor action w = (w', Inr r)" for shop i actor action w' r
    by (rule decide_cases[OF that ids(1)]) (rule note_funds_same, simp)
  show "note_funds w' = note_funds w" if "cancelVendorBill shop i actor w = (w', Inr r)" for shop i actor w' r
    by (rule cancel_cases[OF that ids(1)]) (rule note_funds_same, simp)
  show "note_funds w' = note_funds w" if "postVendorBill D G now shop i actor w = (w', Inr r)" for now shop i actor w' r
    by (rule post_bill_cases[OF that ids(1)]) (rule note_funds_same, simp)
  show "note_funds w' = note_funds w" if "payVendorBill D G shop i p actor w = (w', Inr r)" for shop i p actor w' r
  proof (cases rule: pay_bill_cases[OF that ids(1), case_names replayed paid])
    case (paid x)
    show ?thesis by (rule settle_bill_cases[OF paid(4) ids(1) paid(1)], simp) (rule note_funds_same, simp)
  qed simp
  show "note_funds w' = note_funds w" if "allocateSupplierCredit D shop n i amount actor w = (w', Inr r)" for shop n i amount actor w' r
    by (rule allocate_cases[OF that ids]) (erule note_funds_moved, simp)
qed (simp_all add: note_funds_def)

section \<open>The properties\<close>

text \<open>A note of a history, and the note it was when the history opened.\<close>

lemma notes_history:
  assumes "decimal_arith D" and "new_ids G" and "list_all (proper_bill D owner) calls" and "suppliers_open sups" and "documents_open w0"
    and w: "w = after_bills D G tp calls w0 sups shifts" and z: "z \<in> set (notes_w w)"
  obtains z0 where "z0 \<in> set (notes_w w0)" "id_cn z0 = id_cn z" "0 \<le> remainingBalance_cn z"
    "used_of w (id_cn z) + remainingBalance_cn z = remainingBalance_cn z0"
proof -
  let ?I = "\<lambda>v. controls_ok owner v \<and> note_funds v = note_funds (opening_purchasing w0 sups shifts)"
  have step: "step_system (run_bill D G tp) (proper_bill D owner) ?I"
    using decimal_arith.run_bill_controls[OF assms(1,2)] run_bill_funds[OF controlsD(1)] by unfold_locales auto
  have I: "?I w"
    unfolding w after_bills_def
    by (rule step_system.history[OF step assms(3)]) (simp add: opening_controls[OF assms(4,5)])
  then have "(id_cn z, allocatedAmount_cn z + remainingBalance_cn z) \<in> set (note_funds (opening_purchasing w0 sups shifts))"
    using z by (metis (mono_tags, lifting) note_funds_def image_eqI set_map)
  then obtain z0 where "z0 \<in> set (notes_w w0)" "id_cn z0 = id_cn z" "allocatedAmount_cn z + remainingBalance_cn z = remainingBalance_cn z0"
    by (auto simp: note_funds_def opening_purchasing_def)
  moreover have "0 \<le> remainingBalance_cn z \<and> allocatedAmount_cn z = used_of w (id_cn z)"
    using controlsD(1)[of owner w] I z by (auto simp: money_ok_def notes_ok_def)
  ultimately show thesis using that by simp
qed

text \<open>C22: A vendor bill's money adds up, and so does a credit note's. After any history of bills created,
  submitted, decided, posted, paid and credited between the other movements of the ledger: a bill is
  worth the sum of its lines, its paid amount is the sum of the supplier payments made for it, and what
  was paid, what credit notes settled and what is outstanding make its total, never below zero; a PAID
  bill owes nothing and a partly paid one something. What a credit note settled, over all bills, and
  what it has left make what it had at the opening, so it never gives more than it had.\<close>

theorem bill_money_adds_up:
  assumes "decimal_arith D" and "new_ids G" and "list_all (proper_bill D owner) calls" and "suppliers_open sups" and "documents_open w0"
    and w: "w = after_bills D G tp calls w0 sups shifts"
  shows "(\<forall>b \<in> set (bills_w w). totalAmount_b b = sum_list (map totalAmount_bl (lines_b b)) \<and>
      taxAmount_b b = sum_list (map taxAmount_bl (lines_b b)) \<and>
      paidAmount_b b = paid_on w (id_b b) \<and> 0 \<le> paidAmount_b b \<and> 0 \<le> credited_on w (id_b b) \<and> 0 \<le> outstandingAmount_b b \<and>
      paidAmount_b b + credited_on w (id_b b) + outstandingAmount_b b = totalAmount_b b \<and>
      (status_b b = PAID \<longrightarrow> outstandingAmount_b b = 0) \<and> (status_b b = PARTIALLY_PAID \<longrightarrow> 0 < outstandingAmount_b b)) \<and>
    (\<forall>z \<in> set (notes_w w). 0 \<le> remainingBalance_cn z \<and>
      (\<exists>z0 \<in> set (notes_w w0). id_cn z0 = id_cn z \<and> used_of w (id_cn z) + remainingBalance_cn z = remainingBalance_cn z0))"
proof (intro conjI ballI)
  fix z assume "z \<in> set (notes_w w)"
  note z = notes_history[OF assms this]
  show "0 \<le> remainingBalance_cn z" by (rule z)
  show "\<exists>z0 \<in> set (notes_w w0). id_cn z0 = id_cn z \<and> used_of w (id_cn z) + remainingBalance_cn z = remainingBalance_cn z0"
    by (rule z) blast
next
  fix b assume b: "b \<in> set (bills_w w)"
  have "bill_ok owner w b"
    by (rule money_okD(4)[OF controlsD(1)[OF decimal_arith.bills_history[OF assms(1-5), of tp shifts, folded w]] b])
  note ok = this[unfolded bill_ok_def bill_worth_def settled_def]
  show "totalAmount_b b = sum_list (map totalAmount_bl (lines_b b))" "taxAmount_b b = sum_list (map taxAmount_bl (lines_b b))"
    "paidAmount_b b = paid_on w (id_b b)" "0 \<le> paidAmount_b b" "0 \<le> credited_on w (id_b b)" "0 \<le> outstandingAmount_b b"
    "paidAmount_b b + credited_on w (id_b b) + outstandingAmount_b b = totalAmount_b b"
    "status_b b = PAID \<longrightarrow> outstandingAmount_b b = 0" "status_b b = PARTIALLY_PAID \<longrightarrow> 0 < outstandingAmount_b b"
    using ok by auto
qed

lemma bill_money_adds_up_witness:
  "\<exists>b. bills_w approved_state = [b] \<and> outstandingAmount_b b = 1180 - paid_on approved_state (id_b b) - credited_on approved_state (id_b b) \<and>
     sum_list (map totalAmount_bl (lines_b b)) = 1180 \<and>
     list_all (\<lambda>z. used_of approved_state (id_cn z) + remainingBalance_cn z = 80) (notes_w approved_state)"
proof -
  obtain b where b: "bills_w approved_state = [b]" "totalAmount_b b = 1180" by (rule approved_bill)
  from bill_money_adds_up[OF js.decimal_arith_axioms fresh_id_new sample_bill_calls sample_documents_open(2,1) approved_state_def] b
  show ?thesis by (intro exI[of _ b]) (auto simp: list_all_iff sample_documents_def)
qed

text \<open>C23: Received goods are billed once. After any history the quantity billed for a receipt line,
  over every bill that is not a draft, rejected or cancelled, is at most what the line accepted and
  at most what its order line ordered.\<close>

theorem goods_billed_once:
  assumes "decimal_arith D" and "new_ids G" and "list_all (proper_bill D owner) calls" and "suppliers_open sups" and "documents_open w0"
    and w: "w = after_bills D G tp calls w0 sups shifts" and g: "g \<in> set (receiptLines_w w)" "\<not> isDeleted_gl g"
  shows "prior_billed w (shopId_gl g) (id_gl g) None \<le> acceptedQuantity_gl g \<and>
    (\<forall>p \<in> set (orderItems_w w). purchaseOrderItemId_gl g = Some (id_oi p) \<longrightarrow> \<not> isDeleted_oi p \<longrightarrow>
       prior_billed w (shopId_gl g) (id_gl g) None \<le> quantity_oi p)"
  using controlsD(2)[OF decimal_arith.bills_history[OF assms(1-5), of tp shifts, folded w]] g
  by (simp add: goods_ok_def within_receipt_def billed_of_def)

lemma goods_billed_once_witness:
  "\<exists>g. receiptLines_w approved_state = [g] \<and> prior_billed approved_state (shopId_gl g) (id_gl g) None = 10 \<and> 10 \<le> acceptedQuantity_gl g"
proof -
  obtain g where g: "receiptLines_w approved_state = [g]" "\<not> isDeleted_gl g"
    "prior_billed approved_state (shopId_gl g) (id_gl g) None = 10" by (rule approved_receipt)
  have "g \<in> set (receiptLines_w approved_state)" by (simp add: g(1))
  from goods_billed_once[OF js.decimal_arith_axioms fresh_id_new sample_bill_calls sample_documents_open(2,1) approved_state_def this g(2)] g show ?thesis by auto
qed

text \<open>C24: Four eyes. After any history a bill that is approved, posted or paid carries an approval by
  someone who did not create it and of whom no audit row says that they created or submitted it.\<close>

theorem approved_by_another:
  assumes "decimal_arith D" and "new_ids G" and "list_all (proper_bill D owner) calls" and "suppliers_open sups" and "documents_open w0"
    and w: "w = after_bills D G tp calls w0 sups shifts" and b: "b \<in> set (bills_w w)"
    and st: "status_b b \<in> {APPROVED, POSTED, PARTIALLY_PAID, PAID}"
  shows "\<exists>a \<in> set (approvals_w w). vendorBillId_ap a = id_b b \<and> status_ap a = ''APPROVED'' \<and> approverId_ap a \<noteq> createdBy_b b \<and>
    (\<forall>u \<in> set (audits_w w). vendorBillId_au u = id_b b \<and> action_au u \<in> {''CREATED'', ''SUBMITTED''} \<longrightarrow> actorId_au u \<noteq> approverId_ap a)"
proof -
  have "approved_by_other w b"
    using controlsD(3)[OF decimal_arith.bills_history[OF assms(1-5), of tp shifts, folded w]] b st
    unfolding eyes_ok_def decided_for_def by blast
  then show ?thesis unfolding approved_by_other_def by blast
qed

lemma approved_by_another_witness:
  "\<exists>b a. bills_w approved_state = [b] \<and> a \<in> set (approvals_w approved_state) \<and> status_ap a = ''APPROVED'' \<and> approverId_ap a \<noteq> createdBy_b b"
proof -
  obtain b where b: "bills_w approved_state = [b]" "status_b b = APPROVED" by (rule approved_bill)
  have "b \<in> set (bills_w approved_state)" "status_b b \<in> {APPROVED, POSTED, PARTIALLY_PAID, PAID}" by (simp_all add: b)
  from approved_by_another[OF js.decimal_arith_axioms fresh_id_new sample_bill_calls sample_documents_open(2,1) approved_state_def this] b(1) show ?thesis by blast
qed

text \<open>C25: The statuses follow the lifecycle. After any history the statuses recorded for a bill are a
  path from DRAFT along the allowed transitions that ends at the bill's status.\<close>

theorem bill_lifecycle:
  assumes "decimal_arith D" and "new_ids G" and "list_all (proper_bill D owner) calls" and "suppliers_open sups" and "documents_open w0"
    and w: "w = after_bills D G tp calls w0 sups shifts" and b: "b \<in> set (bills_w w)"
  shows "follows DRAFT (statuses_of w (id_b b)) (status_b b)"
  using controlsD(4)[OF decimal_arith.bills_history[OF assms(1-5), of tp shifts, folded w]] b by (simp add: path_ok_def)

lemma bill_lifecycle_witness:
  "\<exists>b. bills_w approved_state = [b] \<and> follows DRAFT (statuses_of approved_state (id_b b)) APPROVED"
proof -
  obtain b where b: "bills_w approved_state = [b]" "status_b b = APPROVED" by (rule approved_bill)
  have "b \<in> set (bills_w approved_state)" by (simp add: b(1))
  from bill_lifecycle[OF js.decimal_arith_axioms fresh_id_new sample_bill_calls sample_documents_open(2,1) approved_state_def this] b show ?thesis by simp
qed

text \<open>C26: Bills keep the books. After any history of vendor bills between postings, goods movements and
  payments, what every supplier is shown to owe is what the ledger's rows of its documents and
  payments imply, and in every shop the debit-normal accounts hold what the credit-normal hold.\<close>

theorem bills_keep_books:
  assumes "decimal_arith D" and "new_ids G" and "list_all (proper_bill D owner) calls" and "suppliers_open sups" and "documents_open w0"
    and s: "s = books_w (after_bills D G tp calls w0 sups shifts)" and x: "x \<in> set (suppliers_bk s)"
  shows "payablesFromLedger D owner (shopId_su x) (id_su x) s = (s, Inr (pendingPayables_su x)) \<and>
    sum_list (map (account_balance s shop) DEBIT_NORMAL) = sum_list (map (account_balance s shop) CREDIT_NORMAL)"
proof -
  have ok: "payables_ok owner s"
    unfolding s by (rule money_okD(1)[OF controlsD(1)[OF decimal_arith.bills_history[OF assms(1-5)]]])
  show ?thesis using decimal_arith.payable_recomputed[OF assms(1) ok x] trial_balance[OF payables_okD(1)[OF ok]] by blast
qed

lemma bills_keep_books_witness:
  "\<exists>x. suppliers_bk (books_w approved_state) = [x] \<and>
     snd (payablesFromLedger decimal_js bill_owner (shopId_su x) (id_su x) (books_w approved_state)) = Inr 1000"
proof -
  obtain x where x: "suppliers_bk (books_w approved_state) = [x]" "pendingPayables_su x = 1000" by (rule approved_supplier)
  have "x \<in> set (suppliers_bk (books_w approved_state))" by (simp add: x(1))
  from bills_keep_books[OF js.decimal_arith_axioms fresh_id_new sample_bill_calls sample_documents_open(2,1) arg_cong[OF approved_state_def, of books_w] this] x show ?thesis by simp
qed

text \<open>Posting a bill moves what its supplier is owed by exactly the bill's total less the value the
  goods receipts already put there, and no other supplier's payable: after the posting the payable
  of the goods is the bill's total.\<close>

theorem posting_moves_payable:
  assumes "decimal_arith D" and "new_ids G" and "list_all (proper_bill D owner) calls" and "suppliers_open sups" and "documents_open w0"
    and w: "w = after_bills D G tp calls w0 sups shifts" and run: "postVendorBill D G now shop i actor w = (w', Inr r)"
    and x: "x \<in> set (bills_w w)" "id_b x = i"
    and costs: "list_all (\<lambda>g. 0 \<le> unitPrice_gl g) (receiptLines_w w)" "receipt_total D w shop x < 10 ^ 17"
    and fresh: "find_posting (bill_posting shop x (plan_of D w shop x)) (books_w w) = None"
  shows "suppliers_bk (books_w w') = update_rows (is_supplier shop (supplierId_b x))
    (add_payable (totalAmount_b x - receipt_total D w shop x)) (suppliers_bk (books_w w))"
proof (rule decimal_arith.post_moves[OF assms(1) _ run x _ costs(2) fresh])
  show money: "money_ok owner w" by (rule controlsD(1)[OF decimal_arith.bills_history[OF assms(1-5), of tp shifts, folded w]])
  have "list_all line_good (lines_b x)" using money_okD(4)[OF money x(1)] by (simp add: bill_ok_def bill_worth_def)
  then show "0 \<le> receiptValue_pl (plan_line D w shop l)" if "l \<in> set (lines_b x)" for l
    using decimal_arith.plan_line_cost[OF assms(1) _ costs(1)] that by (simp add: list_all_iff)
qed

text \<open>The approved bill of the worked history posts: 180 of tax above the 1000 the receipt was worth.\<close>

definition posting_view :: "purchasing \<Rightarrow> (string \<times> string \<times> bool \<times> string \<times> string) \<times> decimal \<times> bool \<times> VendorBillPostingPlan" where
  "posting_view w =
     ((id_b (hd (bills_w w)), shopId_b (hd (bills_w w)), isDeleted_b (hd (bills_w w)), supplierId_b (hd (bills_w w)), billNumber_b (hd (bills_w w))),
      receipt_total decimal_js w ''sh'' (hd (bills_w w)), list_all (\<lambda>g. 0 \<le> unitPrice_gl g) (receiptLines_w w),
      plan_of decimal_js w ''sh'' (hd (bills_w w)))"

lemma approved_posts:
  "posting_view approved_state = ((''b1'', ''sh'', False, ''s1'', ''VB-1''), 1000, True,
     \<lparr>entries_vp = [plan_entry INPUT_GST DEBIT 180, plan_entry ACCOUNTS_PAYABLE CREDIT 180], payableDelta_vp = 180\<rparr>)"
  by code_simp

definition sample_bill_posting :: LedgerPosting where
  "sample_bill_posting = \<lparr>shopId_po = ''sh'', sourceType_po = SRC_VENDOR_BILL, sourceId_po = ''b1'', invoiceId_po = None,
     description_po = ''Vendor bill VB-1'', entries_po = [plan_entry INPUT_GST DEBIT 180, plan_entry ACCOUNTS_PAYABLE CREDIT 180]\<rparr>"

lemma sample_bill_posted:
  "\<not> isl (snd (postWithPayable decimal_js fresh_id (Some ''s1'') sample_bill_posting 180 (opening_books bill_suppliers [])))"
  "find_posting sample_bill_posting (opening_books bill_suppliers []) = None"
  by code_simp+

text \<open>Bills before their posting leave the books alone.\<close>

fun before_posting :: "bill_call \<Rightarrow> bool" where
  "before_posting (CreateBill i nr shop p actor) = True"
| "before_posting (SubmitBill shop i actor) = True"
| "before_posting (DecideBill shop i actor action) = True"
| "before_posting _ = False"

lemma books_unmoved:
  assumes "controls_ok owner w" and "before_posting c"
  shows "books_w (run_bill D G tp c w) = books_w w"
proof -
  note ids = money_okD(2)[OF controlsD(1)[OF assms(1)]]
  show ?thesis
  proof (rule run_bill_keeps[where P = "\<lambda>w'. books_w w' = books_w w"])
    show "books_w w' = books_w w" if "createVendorBill D tp i nr shop p actor w = (w', Inr r)" for i nr shop p actor w' r
      by (rule create_cases[OF that]) simp
    show "books_w w' = books_w w" if "submitVendorBill D tp shop i actor w = (w', Inr r)" for shop i actor w' r
      by (rule submit_cases[OF that ids]) simp
    show "books_w w' = books_w w" if "decide shop i actor action w = (w', Inr r)" for shop i actor action w' r
      by (rule decide_cases[OF that ids]) simp
  qed (use assms(2) in simp_all)
qed

lemma approved_books: "books_w approved_state = opening_books bill_suppliers []"
proof -
  let ?run = "run_bill decimal_js fresh_id 0"
  let ?w0 = "opening_purchasing sample_documents bill_suppliers []"
  have c0: "controls_ok bill_owner ?w0" by (rule opening_controls[OF sample_documents_open(2,1)])
  obtain c1 c2 c3 where cs: "approved_calls 18 = [c1, c2, c3]" and calls: "proper_bill decimal_js bill_owner c1" "proper_bill decimal_js bill_owner c2"
    and quiet: "before_posting c1" "before_posting c2" "before_posting c3"
    using sample_bill_calls by (auto simp: approved_calls_def)
  have c1: "controls_ok bill_owner (?run c1 ?w0)" by (rule bills.step[OF calls(1) c0])
  have c2: "controls_ok bill_owner (?run c2 (?run c1 ?w0))" by (rule bills.step[OF calls(2) c1])
  note kept = books_unmoved[OF c0 quiet(1)] books_unmoved[OF c1 quiet(2)] books_unmoved[OF c2 quiet(3)]
  show ?thesis by (simp add: approved_state_def after_bills_def cs kept) (simp add: opening_purchasing_def)
qed

lemma approved_bill_posts:
  obtains b w' r where "bills_w approved_state = [b]" "id_b b = ''b1''" "supplierId_b b = ''s1''" "totalAmount_b b = 1180"
    "receipt_total decimal_js approved_state ''sh'' b = 1000" "list_all (\<lambda>g. 0 \<le> unitPrice_gl g) (receiptLines_w approved_state)"
    "find_posting (bill_posting ''sh'' b (plan_of decimal_js approved_state ''sh'' b)) (books_w approved_state) = None"
    "postVendorBill decimal_js fresh_id 0 ''sh'' ''b1'' ''u1'' approved_state = (w', Inr r)"
proof -
  obtain b where b: "bills_w approved_state = [b]" "status_b b = APPROVED" "totalAmount_b b = 1180" by (rule approved_bill)
  have v: "id_b b = ''b1''" "shopId_b b = ''sh''" "\<not> isDeleted_b b" "supplierId_b b = ''s1''" "billNumber_b b = ''VB-1''"
    "receipt_total decimal_js approved_state ''sh'' b = 1000" "list_all (\<lambda>g. 0 \<le> unitPrice_gl g) (receiptLines_w approved_state)"
    "plan_of decimal_js approved_state ''sh'' b = \<lparr>entries_vp = [plan_entry INPUT_GST DEBIT 180, plan_entry ACCOUNTS_PAYABLE CREDIT 180], payableDelta_vp = 180\<rparr>"
    using approved_posts by (simp_all add: posting_view_def b(1))
  have posting: "bill_posting ''sh'' b (plan_of decimal_js approved_state ''sh'' b) = sample_bill_posting"
    by (simp add: v bill_posting_def sample_bill_posting_def)
  let ?w1 = "approved_state\<lparr>bills_w := [b\<lparr>status_b := POSTED\<rparr>], history_w := history_w approved_state @ [status_row ''sh'' ''b1'' ''u1'' POSTED]\<rparr>"
  have lock: "lockBill ''sh'' ''b1'' approved_state = (approved_state, Inr (b\<lparr>lines_b := live_lines b\<rparr>))"
    by (simp add: lockBill_Inr b v names_bill_def live_lines_def)
  have trans: "transitionStatus ''b1'' ''sh'' APPROVED POSTED ''u1'' approved_state = (?w1, Inr ())"
    by (simp add: transition_Inr b v names_bill_def update_rows_def)
  have plan: "vendorBillPostingPlan decimal_js (map (plan_line decimal_js ?w1 ''sh'') (live_lines b)) = plan_of decimal_js approved_state ''sh'' b"
    unfolding plan_of_def by (subst plan_line_same[of ?w1 approved_state]) simp_all
  obtain bk q where "postWithPayable decimal_js fresh_id (Some ''s1'') sample_bill_posting 180 (opening_books bill_suppliers []) = (bk, Inr q)"
    using run_parts[OF sample_bill_posted(1)] by blast
  then have "post_plan decimal_js fresh_id ''sh'' b (plan_of decimal_js approved_state ''sh'' b) ?w1 = (?w1\<lparr>books_w := bk\<rparr>, Inr ())"
    using posting by (simp add: post_plan_def on_books_def bind_eff_def approved_books v)
  then have "\<exists>w' r. postVendorBill decimal_js fresh_id 0 ''sh'' ''b1'' ''u1'' approved_state = (w', Inr r)"
    unfolding postVendorBill_def procurement_Inr
    by (simp add: bind_eff_def lock trans b(2) plan post_plan_lines update_bills_def publish_def find_bill_def)
  then show thesis using that b v sample_bill_posted(2) unfolding posting[symmetric] approved_books[symmetric] by blast
qed

lemma posting_moves_payable_witness:
  "\<exists>w' r. postVendorBill decimal_js fresh_id 0 ''sh'' ''b1'' ''u1'' approved_state = (w', Inr r) \<and>
     suppliers_bk (books_w w') = update_rows (is_supplier ''sh'' ''s1'') (add_payable 180) (suppliers_bk (books_w approved_state))"
proof -
  obtain b w' r where b: "bills_w approved_state = [b]" "id_b b = ''b1''" "supplierId_b b = ''s1''" "totalAmount_b b = 1180"
    "receipt_total decimal_js approved_state ''sh'' b = 1000" "list_all (\<lambda>g. 0 \<le> unitPrice_gl g) (receiptLines_w approved_state)"
    "find_posting (bill_posting ''sh'' b (plan_of decimal_js approved_state ''sh'' b)) (books_w approved_state) = None"
    "postVendorBill decimal_js fresh_id 0 ''sh'' ''b1'' ''u1'' approved_state = (w', Inr r)" by (rule approved_bill_posts)
  have "b \<in> set (bills_w approved_state)" "receipt_total decimal_js approved_state ''sh'' b < 10 ^ 17" by (simp_all add: b)
  from posting_moves_payable[OF js.decimal_arith_axioms fresh_id_new sample_bill_calls sample_documents_open(2,1) approved_state_def b(8) this(1) b(2,6) this(2) b(7)] b
  show ?thesis by (intro exI[of _ w'] exI[of _ r]) simp
qed

section \<open>Two submissions that do not see each other\<close>

text \<open>
  Each submission locks its own bill and reads what the other live bills billed. Two submissions of
  different bills for the same receipt line, each in its own READ COMMITTED transaction, both read
  before either commits: both pass the match, and the goods are billed twice.
\<close>

definition double_state :: purchasing where
  "double_state = after_bills decimal_js fresh_id 0
     [CreateBill ''b1'' ''VB-1'' ''sh'' (sample_bill 10 0) ''u1'', CreateBill ''b2'' ''VB-2'' ''sh'' (sample_bill 10 0) ''u1'']
     sample_documents bill_suppliers []"

definition match_of :: "purchasing \<Rightarrow> VendorBill \<Rightarrow> bill_error + unit" where
  "match_of w b = match_lines decimal_js 0 w ''sh'' (header_of b) \<lparr>final_mo = True, excludeBillId_mo = Some (id_b b)\<rparr> (\<lambda>_. 0)
     (map (line_to_match decimal_js) (live_lines b))"

definition both_submitted :: "purchasing \<Rightarrow> purchasing" where
  "both_submitted w = w\<lparr>bills_w := map (\<lambda>b. b\<lparr>status_b := PENDING_APPROVAL\<rparr>) (bills_w w)\<rparr>"

definition double_view :: "purchasing \<Rightarrow> (bill_error + unit) list \<times> (decimal \<times> decimal) list" where
  "double_view w = (map (match_of w) (bills_w w),
     map (\<lambda>g. (acceptedQuantity_gl g, sum_list (map (contribution (shopId_gl g) (id_gl g)) (bills_w (both_submitted w))))) (receiptLines_w w))"

lemma concurrent_submits_over_bill:
  "double_view double_state = ([Inr (), Inr ()], [(10, 20)])"
  by code_simp

end
