(* ===== verification/States.thy ===== *)
theory States
  imports Prelude
begin

text \<open>
  Indian states and union territories (\<open>apps/api/src/common/india/states.ts\<close>,
  \<open>is-indian-state.ts\<close>): the stored spelling of a typed name, and the form in which a place of
  supply is compared with the shop's state. \<open>toLowerCase\<close> is modelled on the ASCII letters.
\<close>

definition INDIAN_STATES :: "string list" where
  "INDIAN_STATES =
     [''Andaman and Nicobar Islands'', ''Andhra Pradesh'', ''Arunachal Pradesh'', ''Assam'', ''Bihar'', ''Chandigarh'',
      ''Chhattisgarh'', ''Dadra and Nagar Haveli and Daman and Diu'', ''Delhi'', ''Goa'', ''Gujarat'', ''Haryana'',
      ''Himachal Pradesh'', ''Jammu and Kashmir'', ''Jharkhand'', ''Karnataka'', ''Kerala'', ''Ladakh'', ''Lakshadweep'',
      ''Madhya Pradesh'', ''Maharashtra'', ''Manipur'', ''Meghalaya'', ''Mizoram'', ''Nagaland'', ''Odisha'',
      ''Puducherry'', ''Punjab'', ''Rajasthan'', ''Sikkim'', ''Tamil Nadu'', ''Telangana'', ''Tripura'',
      ''Uttar Pradesh'', ''Uttarakhand'', ''West Bengal'']"

definition STATE_ALIASES :: "(string \<times> string) list" where
  "STATE_ALIASES =
     [(''orissa'', ''Odisha''), (''pondicherry'', ''Puducherry''), (''new delhi'', ''Delhi''), (''nct of delhi'', ''Delhi''),
      (''delhi ncr'', ''Delhi''), (''uttaranchal'', ''Uttarakhand''), (''jammu & kashmir'', ''Jammu and Kashmir''),
      (''j&k'', ''Jammu and Kashmir''), (''andaman & nicobar islands'', ''Andaman and Nicobar Islands''),
      (''andaman and nicobar'', ''Andaman and Nicobar Islands''),
      (''dadra and nagar haveli'', ''Dadra and Nagar Haveli and Daman and Diu''),
      (''daman and diu'', ''Dadra and Nagar Haveli and Daman and Diu'')]"

definition js_lower_char :: "char \<Rightarrow> char" where
  "js_lower_char c = (let k = of_char c :: nat in if 65 \<le> k \<and> k \<le> 90 then char_of (k + 32) else c)"

text \<open>\<open>replace(/\s+/g, ' ')\<close>: every run of white space becomes one blank.\<close>

fun collapse_spaces :: "string \<Rightarrow> string" where
  "collapse_spaces [] = []"
| "collapse_spaces [c] = (if js_space c then '' '' else [c])"
| "collapse_spaces (c # d # s) =
     (if js_space c then (if js_space d then collapse_spaces (d # s) else CHR '' '' # collapse_spaces (d # s))
      else c # collapse_spaces (d # s))"

definition fold_name :: "string \<Rightarrow> string" where
  "fold_name v = collapse_spaces (map js_lower_char (js_trim v))"

text \<open>The \<open>Map\<close> of folded names: a later entry under the same key would replace an earlier one.\<close>

definition BY_FOLDED :: "(string \<times> string) list" where
  "BY_FOLDED = map (\<lambda>s. (fold_name s, s)) INDIAN_STATES @ STATE_ALIASES"

definition canonicalState :: "string \<Rightarrow> string option" where
  "canonicalState v = map_of (rev BY_FOLDED) (fold_name v)"

definition comparableState :: "string option \<Rightarrow> string option" where
  "comparableState v =
     (case v of
        None \<Rightarrow> None
      | Some t \<Rightarrow>
          if js_trim t = [] then None
          else Some (case canonicalState t of Some s \<Rightarrow> s | None \<Rightarrow> fold_name t))"

section \<open>Only listed states are stored\<close>

lemma canonicalState_listed: "canonicalState v = Some s \<Longrightarrow> s \<in> set INDIAN_STATES"
proof -
  have "snd ` set BY_FOLDED \<subseteq> set INDIAN_STATES"
    by (auto simp: BY_FOLDED_def STATE_ALIASES_def INDIAN_STATES_def)
  then show "canonicalState v = Some s \<Longrightarrow> s \<in> set INDIAN_STATES"
    by (force simp: canonicalState_def dest!: map_of_SomeD)
qed

text \<open>A blank name compares with nothing, so a shop without a state never bills IGST.\<close>

lemma comparableState_blank: "comparableState v = None \<longleftrightarrow> v = None \<or> (\<exists>t. v = Some t \<and> (\<forall>c \<in> set t. js_space c))"
  by (cases v) (auto simp: comparableState_def js_trim_Nil_iff split: option.splits if_splits)

end
