(* ===== verification/Checkout.thy ===== *)
theory Checkout
  imports InvoiceCalc Pricing InventoryMutation Payables States
begin

text \<open>
  The POS checkout (\<open>apps/api/src/billing/billing.service.ts\<close>): the request is normalised, a
  repeated key is answered, the bill is calculated and checked against the actor's authority,
  stock is checked, and one transaction writes the invoice, its tenders, the stock, the
  customer's credit, the shift, the ledger, the audit row and the event. It composes the money
  engine, the inventory engine, the ledger and the document numbers.

  A number of a request is the decimal it prints as; a text the code makes of a Decimal is read
  back as that Decimal. Redis only ever answers a precheck: its answer is a parameter and the
  commands sent to it are a log. The time zone, the collation of product ids, the request hash
  and the row ids are parameters too. Message texts and metrics are not modelled.
\<close>

section \<open>Requests\<close>

record CustomItemDto =
  name_ci :: string
  unitPrice_ci :: rat
  gstRate_ci :: string
  unit_ci :: "string option"

record InvoiceItemDto =
  productId_ii :: "string option"
  custom_ii :: "CustomItemDto option"
  quantity_ii :: rat
  discountPercent_ii :: "rat option"

record PaymentTenderDto =
  tender_pt :: string
  amount_pt :: rat
  tenderedAmount_pt :: "rat option"
  reference_pt :: "string option"

record CreateInvoiceDto =
  idempotencyKey_ni :: string
  items_ni :: "InvoiceItemDto list"
  customerId_ni :: "string option"
  placeOfSupply_ni :: "string option"
  notes_ni :: "string option"
  shiftId_ni :: "string option"
  discountAmount_ni :: "rat option"
  discountPercentage_ni :: "rat option"
  discountType_ni :: "string option"
  discountReason_ni :: "string option"
  payments_ni :: "PaymentTenderDto list option"
  udharAmount_ni :: "rat option"
  paymentMode_ni :: "string option"
  amountPaid_ni :: "rat option"

record BillingActor =
  shopId_a :: string
  userId_a :: string
  role_a :: string

record CustomLine =
  name_cu :: string
  unitPrice_cu :: decimal
  gstRate_cu :: string
  unit_cu :: string

record NormalisedLine =
  key_nl :: string
  productId_nl :: "string option"
  custom_nl :: "CustomLine option"
  quantity_nl :: rat
  discountPercent_nl :: rat

text \<open>The request as the hash sees it: in the legacy form the cash tendered takes part.\<close>

record CanonicalRequest =
  lines_cq :: "NormalisedLine list"
  customerId_cq :: "string option"
  discountAmount_cq :: "rat option"
  discountPercentage_cq :: "rat option"
  discountType_cq :: "string option"
  tenders_cq :: "(string \<times> rat \<times> rat option option) list"
  udhar_cq :: decimal
  placeOfSupply_cq :: "string option"

section \<open>Rows\<close>

record InvoiceItem =
  productId_li :: "string option"
  isCustom_li :: bool
  productName_li :: string
  productSku_li :: string
  unit_li :: string
  costPrice_li :: decimal
  sellingPrice_li :: decimal
  mrp_li :: decimal
  gstRate_li :: string
  quantity_li :: decimal
  discountPercent_li :: decimal
  discountAmount_li :: decimal
  taxableAmount_li :: decimal
  cgstAmount_li :: decimal
  sgstAmount_li :: decimal
  igstAmount_li :: decimal
  cessAmount_li :: decimal
  totalAmount_li :: decimal

record Invoice =
  id_inv :: string
  invoiceNumber_inv :: string
  financialYear_inv :: string
  shopId_inv :: string
  idempotencyKey_inv :: string
  requestHash_inv :: string
  customerId_inv :: "string option"
  cashierId_inv :: string
  paymentMode_inv :: InvoicePaymentMode
  subtotal_inv :: decimal
  discountAmount_inv :: decimal
  discountPercentage_inv :: "decimal option"
  discountType_inv :: "string option"
  discountReason_inv :: "string option"
  approvedBy_inv :: "string option"
  taxableAmount_inv :: decimal
  taxAmount_inv :: decimal
  cgstAmount_inv :: decimal
  sgstAmount_inv :: decimal
  igstAmount_inv :: decimal
  roundOffAmount_inv :: decimal
  totalAmount_inv :: decimal
  paidAmount_inv :: decimal
  changeAmount_inv :: decimal
  udharAmount_inv :: decimal
  paymentRef_inv :: "string option"
  isInterState_inv :: bool
  notes_inv :: "string option"
  shiftId_inv :: "string option"
  createdAt_inv :: int
  items_inv :: "InvoiceItem list"

record InvoicePayment =
  invoiceId_ip :: string
  shopId_ip :: string
  tender_ip :: TenderType
  amount_ip :: decimal
  tenderedAmount_ip :: decimal
  changeAmount_ip :: decimal
  reference_ip :: "string option"

record Customer =
  id_cs :: string
  shopId_cs :: string
  state_cs :: "string option"
  outstandingBalance_cs :: decimal
  creditLimit_cs :: decimal
  totalPurchases_cs :: decimal
  lastPurchaseAt_cs :: "int option"
  isActive_cs :: bool
  isDeleted_cs :: bool

text \<open>A credit sale's row (\<open>type: 'CREDIT'\<close>).\<close>

record UdharTransaction =
  customerId_ut :: string
  invoiceId_ut :: string
  shopId_ut :: string
  recordedById_ut :: string
  amount_ut :: decimal
  balanceBefore_ut :: decimal
  balanceAfter_ut :: decimal

record AuditRow =
  shopId_ar :: string
  userId_ar :: string
  action_ar :: string
  entityId_ar :: string

record StagedEvent =
  shopId_se :: string
  type_se :: string
  entityId_se :: string
  items_se :: "(string \<times> rat \<times> rat) list"

datatype StockPrecheck = PRE_OK | PRE_INSUFFICIENT | PRE_MISS

datatype redis_command =
    DecrementStock string string rat StockPrecheck
  | RestoreStock string string rat
  | SyncStock string string rat

record counter =
  world_k :: world
  books_k :: books
  invoices_k :: "Invoice list"
  payments_k :: "InvoicePayment list"
  customers_k :: "Customer list"
  udhar_k :: "UdharTransaction list"
  sequences_k :: "string \<times> string \<times> string \<rightharpoonup> nat"
  audits_k :: "AuditRow list"
  outbox_k :: "StagedEvent list"
  redis_k :: "redis_command list"

datatype checkout_error =
    EngineRejected thrown | EngineCrash thrown | QUANTITY_INVALID | CUSTOM_ITEM_INVALID | DUPLICATE_DISCOUNTS
  | PRODUCT_NOT_FOUND | PRICE_ABOVE_MRP | CUSTOMER_NOT_FOUND | CUSTOMER_INACTIVE | CUSTOMER_REQUIRED | FEATURE_PAUSED
  | DISCOUNT_REQUIRES_APPROVAL | CUSTOM_LINE_REQUIRES_APPROVAL | OUT_OF_STOCK | SHIFT_INVALID | SHIFT_FORBIDDEN
  | OUTSTANDING_BALANCE_TOO_LARGE | CREDIT_LIMIT_EXCEEDED | KEY_REUSED | NumberRefused | NumberTaken | KeyTaken
  | ValueOutOfRange | OccRetry | SerializationFailure | StockFailed inventory_error | LedgerFailed ledger_error
  | RowMissing

type_synonym 'a checkout = "(counter, checkout_error, 'a) eff"

record StockOutcome =
  productId_so :: string
  quantity_so :: rat
  balanceAfter_so :: rat
  productStockAfter_so :: rat

record CreateInvoiceResult =
  invoice_cr :: Invoice
  stock_cr :: "StockOutcome list"
  shiftId_cr :: "string option"
  replayed_cr :: bool

text \<open>The parameters and the configuration (\<open>billing-feature.config.ts\<close>).\<close>

record checkout_env =
  dec_env :: decimal_lib
  json_env :: "InvoiceMathInput \<Rightarrow> 16 word list"
  stock_id_env :: "world \<Rightarrow> string"
  posting_id_env :: "books \<Rightarrow> string"
  invoice_id_env :: "counter \<Rightarrow> string"
  sha256_env :: "CanonicalRequest \<Rightarrow> string"
  locale_le_env :: "string \<Rightarrow> string \<Rightarrow> bool"
  redis_env :: "redis_command list \<Rightarrow> string \<Rightarrow> rat \<Rightarrow> StockPrecheck"
  financialYear_env :: "int \<Rightarrow> string"
  creditSales_env :: bool
  cashierMaxDiscountPercent_env :: rat
  cashierMaxCustomLineAmount_env :: rat
  cashierMaxCustomTotalAmount_env :: rat

section \<open>Normalising a request\<close>

definition MANAGER_ROLES :: "string list" where
  "MANAGER_ROLES = [''OWNER'', ''ADMIN'', ''SUPER_ADMIN'', ''MANAGER'']"

definition isManager :: "string \<Rightarrow> bool" where
  "isManager role = (role \<in> set MANAGER_ROLES)"

definition CUSTOM_LINE_PREFIX :: string where "CUSTOM_LINE_PREFIX = ''custom:''"

definition custom_line :: "decimal_lib \<Rightarrow> nat \<Rightarrow> CustomItemDto \<Rightarrow> rat \<Rightarrow> rat \<Rightarrow> checkout_error + NormalisedLine" where
  "custom_line D index c quantity discount =
     (let name = js_trim (name_ci c) in
      if name = [] \<or> \<not> 0 < unitPrice_ci c then Inl CUSTOM_ITEM_INVALID
      else Inr \<lparr>key_nl = CUSTOM_LINE_PREFIX @ nat_text index, productId_nl = None,
          custom_nl = Some \<lparr>name_cu = name, unitPrice_cu = to_dp_half_up D 2 (unitPrice_ci c), gstRate_cu = gstRate_ci c,
             unit_cu = (case unit_ci c of None \<Rightarrow> ''PCS'' | Some u \<Rightarrow> u)\<rparr>,
          quantity_nl = quantity, discountPercent_nl = discount\<rparr>)"

text \<open>A catalogue line joins the one its product already has.\<close>

definition merge_line :: "decimal_lib \<Rightarrow> string \<Rightarrow> rat \<Rightarrow> rat \<Rightarrow> NormalisedLine list \<Rightarrow> checkout_error + NormalisedLine list" where
  "merge_line D p quantity discount merged =
     (case find (\<lambda>l. key_nl l = p) merged of
        Some l \<Rightarrow>
          if discountPercent_nl l \<noteq> discount then Inl DUPLICATE_DISCOUNTS
          else Inr (map (\<lambda>x. if key_nl x = p then x\<lparr>quantity_nl := to_dp_half_up D 3 (d_plus D (quantity_nl x) quantity)\<rparr> else x) merged)
      | None \<Rightarrow>
          Inr (merged @ [\<lparr>key_nl = p, productId_nl = Some p, custom_nl = None, quantity_nl = quantity, discountPercent_nl = discount\<rparr>]))"

fun gather_lines ::
    "decimal_lib \<Rightarrow> nat \<Rightarrow> InvoiceItemDto list \<Rightarrow> NormalisedLine list \<Rightarrow> NormalisedLine list \<Rightarrow>
      checkout_error + (NormalisedLine list \<times> NormalisedLine list)" where
  "gather_lines D index [] merged customs = Inr (merged, customs)"
| "gather_lines D index (item # its) merged customs =
     (let discount = (case discountPercent_ii item of None \<Rightarrow> 0 | Some d \<Rightarrow> d);
          quantity = to_dp_half_up D 3 (quantity_ii item)
      in if \<not> 0 < quantity then Inl QUANTITY_INVALID
         else case (custom_ii item, productId_ii item) of
           (Some c, Some p) \<Rightarrow> Inl CUSTOM_ITEM_INVALID
         | (Some c, None) \<Rightarrow>
             bind_res (custom_line D index c quantity discount) (\<lambda>l. gather_lines D (Suc index) its merged (customs @ [l]))
         | (None, p) \<Rightarrow>
             if \<not> truthy p then Inl CUSTOM_ITEM_INVALID
             else bind_res (merge_line D (the p) quantity discount merged) (\<lambda>m. gather_lines D (Suc index) its m customs))"

text \<open>The stable sort by product id.\<close>

fun insert_line :: "(string \<Rightarrow> string \<Rightarrow> bool) \<Rightarrow> NormalisedLine \<Rightarrow> NormalisedLine list \<Rightarrow> NormalisedLine list" where
  "insert_line le x [] = [x]"
| "insert_line le x (y # ys) = (if le (key_nl x) (key_nl y) then x # y # ys else y # insert_line le x ys)"

definition normaliseLines :: "checkout_env \<Rightarrow> InvoiceItemDto list \<Rightarrow> checkout_error + NormalisedLine list" where
  "normaliseLines E its =
     bind_res (gather_lines (dec_env E) 0 its [] []) (\<lambda>(merged, customs).
     Inr (foldr (insert_line (locale_le_env E)) merged [] @ customs))"

definition productIds :: "NormalisedLine list \<Rightarrow> string list" where
  "productIds ls = map (\<lambda>l. the (productId_nl l)) (filter (\<lambda>l. truthy (productId_nl l)) ls)"

text \<open>Requests of older clients.\<close>

definition legacyPayments :: "CreateInvoiceDto \<Rightarrow> PaymentTenderDto list" where
  "legacyPayments dto =
     (let mode = (case paymentMode_ni dto of None \<Rightarrow> ''CASH'' | Some m \<Rightarrow> m);
          paid = (case amountPaid_ni dto of None \<Rightarrow> 0 | Some a \<Rightarrow> a)
      in if mode = ''UDHAR'' \<or> paid = 0 then []
         else [\<lparr>tender_pt = (if mode = ''SPLIT'' then ''CASH'' else mode), amount_pt = paid, tenderedAmount_pt = None,
                reference_pt = None\<rparr>])"

definition legacyUdhar :: "CreateInvoiceDto \<Rightarrow> rat" where
  "legacyUdhar dto =
     (let udhar = udharAmount_ni dto
      in if paymentMode_ni dto = Some ''UDHAR''
         then (case udhar of Some u \<Rightarrow> u | None \<Rightarrow> (case amountPaid_ni dto of Some a \<Rightarrow> a | None \<Rightarrow> 0))
         else (case udhar of Some u \<Rightarrow> u | None \<Rightarrow> 0))"

definition numeric_opt :: "rat option \<Rightarrow> numeric_input" where
  "numeric_opt v = (case v of None \<Rightarrow> NUndefined | Some x \<Rightarrow> NNumber x)"

definition toPaymentInput :: "PaymentTenderDto list \<Rightarrow> rat \<Rightarrow> PaymentInput" where
  "toPaymentInput payments udhar =
     \<lparr>tenders_pi = map (\<lambda>p. \<lparr>type_ti = tender_pt p, amount_ti = NNumber (amount_pt p),
         tenderedAmount_ti = numeric_opt (tenderedAmount_pt p), reference_ti = reference_pt p\<rparr>) payments,
      udharAmount_pi = NDecimal udhar\<rparr>"

definition request_payments :: "CreateInvoiceDto \<Rightarrow> PaymentTenderDto list" where
  "request_payments dto = (case payments_ni dto of Some ps \<Rightarrow> ps | None \<Rightarrow> legacyPayments dto)"

definition request_udhar :: "CreateInvoiceDto \<Rightarrow> rat" where
  "request_udhar dto =
     (case udharAmount_ni dto of
        Some u \<Rightarrow> u
      | None \<Rightarrow> (case payments_ni dto of Some _ \<Rightarrow> 0 | None \<Rightarrow> legacyUdhar dto))"

definition hashRequest :: "checkout_env \<Rightarrow> NormalisedLine list \<Rightarrow> CreateInvoiceDto \<Rightarrow> bool \<Rightarrow> string" where
  "hashRequest E ls dto legacy =
     sha256_env E \<lparr>lines_cq = ls, customerId_cq = customerId_ni dto, discountAmount_cq = discountAmount_ni dto,
       discountPercentage_cq = discountPercentage_ni dto, discountType_cq = discountType_ni dto,
       tenders_cq = map (\<lambda>p. (tender_pt p, amount_pt p, if legacy then Some (tenderedAmount_pt p) else None)) (request_payments dto),
       udhar_cq = to_dp_half_up (dec_env E) 2 (request_udhar dto),
       placeOfSupply_cq = (if \<not> legacy \<and> truthy (placeOfSupply_ni dto) then placeOfSupply_ni dto else None)\<rparr>"

section \<open>Products, place of supply, authority\<close>

text \<open>The live, active rows of the shop under the ids; every id must have one.\<close>

definition product_row :: "string \<Rightarrow> world \<Rightarrow> string \<Rightarrow> Product option" where
  "product_row shop w i = find (\<lambda>p. id_pr p = i \<and> shopId_pr p = shop \<and> \<not> isDeleted_pr p \<and> isActive_pr p) (products w)"

definition loadProducts :: "string \<Rightarrow> string list \<Rightarrow> (string \<Rightarrow> Product option) checkout" where
  "loadProducts shop ids =
     bind_eff (read_eff (\<lambda>s i. if i \<in> set ids then product_row shop (world_k s) i else None)) (\<lambda>rows.
     bind_eff (require_eff (list_all (\<lambda>i. rows i \<noteq> None) ids) PRODUCT_NOT_FOUND) (\<lambda>_.
     return_eff rows))"

definition resolveInterState :: "string \<Rightarrow> string option \<Rightarrow> string option \<Rightarrow> bool checkout" where
  "resolveInterState shop customerId placeOfSupply =
     bind_eff (read_eff (\<lambda>s. case find (\<lambda>x. Shop.id_sh x = shop) (shops (world_k s)) of
         None \<Rightarrow> None | Some x \<Rightarrow> state_shop x)) (\<lambda>shopState.
     bind_eff (if truthy customerId
         then bind_eff (read_eff (\<lambda>s. list_ex (\<lambda>c. Some (id_cs c) = customerId \<and> shopId_cs c = shop \<and> \<not> isDeleted_cs c)
                (customers_k s))) (\<lambda>found. require_eff found CUSTOMER_NOT_FOUND)
         else return_eff ()) (\<lambda>_.
     let supplyState = comparableState placeOfSupply; homeState = comparableState shopState
     in return_eff (supplyState \<noteq> None \<and> homeState \<noteq> None \<and> supplyState \<noteq> homeState)))"

text \<open>The first catalogue line one unit of which sells above its printed price.\<close>

fun assertWithinMrp :: "decimal_lib \<Rightarrow> (string \<Rightarrow> Product option) \<Rightarrow> NormalisedLine list \<Rightarrow> checkout_error + unit" where
  "assertWithinMrp D rows [] = Inr ()"
| "assertWithinMrp D rows (l # ls) =
     (case productId_nl l of
        None \<Rightarrow> assertWithinMrp D rows ls
      | Some i \<Rightarrow>
          (case rows i of
             None \<Rightarrow> Inl RowMissing
           | Some p \<Rightarrow>
               if \<not> 0 < mrp_pr p then assertWithinMrp D rows ls
               else (case inclusiveUnitPrice D (NDecimal (sellingPrice_pr p)) (NText (gstRate_pr p)) (NDecimal (cessRate_pr p)) of
                       Inl e \<Rightarrow> Inl (EngineCrash e)
                     | Inr t \<Rightarrow> if mrp_pr p < t then Inl PRICE_ABOVE_MRP else assertWithinMrp D rows ls)))"

definition toMathItem :: "(string \<Rightarrow> Product option) \<Rightarrow> bool \<Rightarrow> NormalisedLine \<Rightarrow> InvoiceItemMathInput" where
  "toMathItem rows interState l =
     (case custom_nl l of
        Some c \<Rightarrow>
          \<lparr>productId_i = key_nl l, quantity_i = NNumber (quantity_nl l), unitPrice_i = NDecimal (unitPrice_cu c),
           discountPercent_i = NNumber (discountPercent_nl l), gstRateStr_i = Some (gstRate_cu c), gstRate_i = NUndefined,
           cessRate_i = NDecimal 0, isInterState_i = interState\<rparr>
      | None \<Rightarrow>
          (let p = the (rows (the (productId_nl l)))
           in \<lparr>productId_i = the (productId_nl l), quantity_i = NNumber (quantity_nl l), unitPrice_i = NDecimal (sellingPrice_pr p),
               discountPercent_i = NNumber (discountPercent_nl l), gstRateStr_i = Some (gstRate_pr p), gstRate_i = NUndefined,
               cessRate_i = NDecimal (cessRate_pr p), isInterState_i = interState\<rparr>))"

definition engine_input ::
    "(string \<Rightarrow> Product option) \<Rightarrow> bool \<Rightarrow> NormalisedLine list \<Rightarrow> CreateInvoiceDto \<Rightarrow> InvoiceMathInput" where
  "engine_input rows interState ls dto =
     \<lparr>items_m = map (toMathItem rows interState) ls, discountAmount_m = numeric_opt (discountAmount_ni dto),
      discountPercentage_m = numeric_opt (discountPercentage_ni dto), discountType_m = discountType_ni dto,
      discountReason_m = discountReason_ni dto,
      payment_m = Some (toPaymentInput (request_payments dto) (request_udhar dto)),
      paymentMode_m = None, amountPaid_m = NUndefined, udharAmount_m = NUndefined\<rparr>"

definition runEngine :: "checkout_env \<Rightarrow> InvoiceMathInput \<Rightarrow> checkout_error + InvoiceCalculationResultV1" where
  "runEngine E m =
     (case calculate (dec_env E) (json_env E) m of
        Inl DecimalError \<Rightarrow> Inl (EngineCrash DecimalError)
      | Inl e \<Rightarrow> Inl (EngineRejected e)
      | Inr r \<Rightarrow> Inr r)"

text \<open>The invoice discount as applied: its type, and the percentage where it was one.\<close>

definition appliedInvoiceDiscount :: "CreateInvoiceDto \<Rightarrow> InvoiceCalculationResultV1 \<Rightarrow> string option \<times> rat option" where
  "appliedInvoiceDiscount dto math =
     (if \<not> 0 < invoiceDiscount_r math then (None, None)
      else (let type = js_upper (case discountType_ni dto of None \<Rightarrow> '''' | Some t \<Rightarrow> t);
                percentage = (type = ''PERCENTAGE'' \<or>
                  (type = '''' \<and> discountAmount_ni dto = None \<and> discountPercentage_ni dto \<noteq> None))
            in if percentage then (Some ''PERCENTAGE'', discountPercentage_ni dto) else (Some ''FIXED_AMOUNT'', None)))"

text \<open>The custom lines of the calculated bill, each and together within the cashier's caps.\<close>

fun custom_lines_over :: "decimal_lib \<Rightarrow> rat \<Rightarrow> rat \<Rightarrow> NormalisedLine list \<Rightarrow> decimal \<Rightarrow> InvoiceLineResult list \<Rightarrow> bool" where
  "custom_lines_over D cap totalCap source customTotal [] = (totalCap < customTotal)"
| "custom_lines_over D cap totalCap source customTotal (l # ls) =
     (case find (\<lambda>x. key_nl x = productId_l l) source of
        None \<Rightarrow> custom_lines_over D cap totalCap source customTotal ls
      | Some x \<Rightarrow>
          if custom_nl x = None then custom_lines_over D cap totalCap source customTotal ls
          else if cap < lineSubtotal_l l then True
          else custom_lines_over D cap totalCap source (d_plus D customTotal (lineSubtotal_l l)) ls)"

definition enforceDiscountAuthority ::
    "checkout_env \<Rightarrow> string \<Rightarrow> NormalisedLine list \<Rightarrow> InvoiceCalculationResultV1 \<Rightarrow> rat option \<Rightarrow> checkout_error + unit" where
  "enforceDiscountAuthority E role ls math requestedInvoicePercent =
     (if isManager role then Inr ()
      else let D = dec_env E; limit = cashierMaxDiscountPercent_env E;
               maxLine = foldl max 0 (map discountPercent_nl ls)
           in (case discountLimitAmounts D math (NDecimal limit) of
                 Inl e \<Rightarrow> Inl (EngineCrash e)
               | Inr (invoice, effective) \<Rightarrow>
                   if limit < maxLine \<or>
                      (0 < invoiceDiscount_r math \<and> (case requestedInvoicePercent of None \<Rightarrow> False | Some p \<Rightarrow> limit < p)) \<or>
                      invoice < invoiceDiscount_r math \<or> effective < totalDiscount_r math
                   then Inl DISCOUNT_REQUIRES_APPROVAL
                   else if custom_lines_over D (cashierMaxCustomLineAmount_env E) (cashierMaxCustomTotalAmount_env E) ls 0 (lines_r math)
                   then Inl CUSTOM_LINE_REQUIRES_APPROVAL else Inr ()))"

definition lift_res :: "'e + 'a \<Rightarrow> ('s, 'e, 'a) eff" where
  "lift_res r = (\<lambda>s. (s, r))"

text \<open>The bill of the products as they are, within the printed prices and the actor's authority.\<close>

definition priced_bill ::
    "checkout_env \<Rightarrow> BillingActor \<Rightarrow> CreateInvoiceDto \<Rightarrow> NormalisedLine list \<Rightarrow> bool \<Rightarrow> (string \<Rightarrow> Product option) \<Rightarrow>
      (InvoiceCalculationResultV1 \<Rightarrow> rat option) \<Rightarrow> InvoiceCalculationResultV1 checkout" where
  "priced_bill E actor dto ls interState rows requested =
     bind_eff (lift_res (runEngine E (engine_input rows interState ls dto))) (\<lambda>math.
     bind_eff (lift_res (enforceDiscountAuthority E (role_a actor) ls math (requested math))) (\<lambda>_.
     return_eff math))"

section \<open>Availability and the Redis precheck\<close>

definition STOCKED_TYPES :: "ProductType list" where
  "STOCKED_TYPES = [SIMPLE, VARIABLE, BUNDLE, COMBO]"

definition stockedLines :: "(string \<Rightarrow> Product option) \<Rightarrow> NormalisedLine list \<Rightarrow> NormalisedLine list" where
  "stockedLines rows ls =
     filter (\<lambda>l. truthy (productId_nl l) \<and>
       (case rows (the (productId_nl l)) of None \<Rightarrow> False | Some p \<Rightarrow> type_pr p \<in> set STOCKED_TYPES)) ls"

definition available_stock :: "world \<Rightarrow> string \<Rightarrow> string \<Rightarrow> Product \<Rightarrow> rat" where
  "available_stock w shop loc p =
     (case find (\<lambda>i. shopId_it i = shop \<and> locationId_it i = loc \<and> variantKey_it i = ''-'' \<and> \<not> isDeleted_it i \<and>
             productId_it i = id_pr p) (items w) of
        Some i \<Rightarrow> onHand_it i - reserved_it i
      | None \<Rightarrow>
          if list_ex (\<lambda>i. shopId_it i = shop \<and> \<not> isDeleted_it i \<and> productId_it i = id_pr p) (items w) then 0
          else currentStock_pr p)"

definition first_short :: "world \<Rightarrow> string \<Rightarrow> string \<Rightarrow> (string \<Rightarrow> Product option) \<Rightarrow> NormalisedLine list \<Rightarrow> bool" where
  "first_short w shop loc rows ls =
     list_ex (\<lambda>l. available_stock w shop loc (the (rows (the (productId_nl l)))) < quantity_nl l) (stockedLines rows ls)"

definition auditRejected :: "BillingActor \<Rightarrow> string \<Rightarrow> unit checkout" where
  "auditRejected actor code = write_eff (\<lambda>s. s\<lparr>audits_k := audits_k s @
     [\<lparr>shopId_ar = shopId_a actor, userId_ar = userId_a actor, action_ar = ''INVOICE_REJECTED'', entityId_ar = code\<rparr>]\<rparr>)"

definition redis_send :: "redis_command list \<Rightarrow> unit checkout" where
  "redis_send cs = write_eff (\<lambda>s. s\<lparr>redis_k := redis_k s @ cs\<rparr>)"

text \<open>The lines whose decrement Redis accepted; a counter it finds too low is repaired.\<close>

fun redis_precheck ::
    "checkout_env \<Rightarrow> string \<Rightarrow> (string \<Rightarrow> Product option) \<Rightarrow> NormalisedLine list \<Rightarrow> NormalisedLine list checkout" where
  "redis_precheck E shop rows [] = return_eff []"
| "redis_precheck E shop rows (l # ls) =
     bind_eff (read_eff (\<lambda>s. redis_env E (redis_k s) (the (productId_nl l)) (quantity_nl l))) (\<lambda>status.
     bind_eff (redis_send (DecrementStock shop (the (productId_nl l)) (quantity_nl l) status #
         (if status = PRE_INSUFFICIENT
          then [SyncStock shop (the (productId_nl l)) (currentStock_pr (the (rows (the (productId_nl l)))))] else []))) (\<lambda>_.
     bind_eff (redis_precheck E shop rows ls) (\<lambda>taken.
     return_eff (if status = PRE_OK then l # taken else taken))))"

definition restoreRedis :: "string \<Rightarrow> NormalisedLine list \<Rightarrow> unit checkout" where
  "restoreRedis shop ls =
     redis_send (map (\<lambda>l. RestoreStock shop (the (productId_nl l)) (quantity_nl l)) (filter (\<lambda>l. truthy (productId_nl l)) ls))"

definition afterStockChange :: "string \<Rightarrow> StockOutcome list \<Rightarrow> unit checkout" where
  "afterStockChange shop stock = redis_send (map (\<lambda>x. SyncStock shop (productId_so x) (productStockAfter_so x)) stock)"

section \<open>Operations of the other components\<close>

text \<open>An inventory or a ledger operation on its tables.\<close>

definition on_stock :: "(inventory_error \<Rightarrow> checkout_error) \<Rightarrow> 'a inv \<Rightarrow> 'a checkout" where
  "on_stock fault m = (\<lambda>s. case m (world_k s) of
       (w, Inl e) \<Rightarrow> (s\<lparr>world_k := w\<rparr>, Inl (fault e))
     | (w, Inr x) \<Rightarrow> (s\<lparr>world_k := w\<rparr>, Inr x))"

definition on_ledger :: "'a bookkeeping \<Rightarrow> 'a checkout" where
  "on_ledger m = (\<lambda>s. case m (books_k s) of
       (b, Inl e) \<Rightarrow> (s\<lparr>books_k := b\<rparr>, Inl (LedgerFailed e))
     | (b, Inr x) \<Rightarrow> (s\<lparr>books_k := b\<rparr>, Inr x))"

text \<open>A failed transaction leaves the tables as they were; the process keeps its location cache.\<close>

definition atomically :: "'a checkout \<Rightarrow> 'a checkout" where
  "atomically m = (\<lambda>s. case m s of
       (s', Inl e) \<Rightarrow> (s\<lparr>world_k := (world_k s)\<lparr>saleLocationCache := saleLocationCache (world_k s'),
                          warehouseBinCache := warehouseBinCache (world_k s')\<rparr>\<rparr>, Inl e)
     | (s', Inr x) \<Rightarrow> (s', Inr x))"

section \<open>Document numbers\<close>

definition all_digits :: "string \<Rightarrow> bool" where
  "all_digits t = list_all is_digit t"

text \<open>\<open>2026-27\<close> becomes \<open>2627\<close>; any other form of the label is refused.\<close>

definition compactFinancialYear :: "string \<Rightarrow> string option" where
  "compactFinancialYear fy =
     (if length fy = 7 \<and> all_digits (take 4 fy) \<and> fy ! 4 = CHR ''-'' \<and> all_digits (drop 5 fy)
      then Some (take 2 (drop 2 fy) @ drop 5 fy) else None)"

definition posDocumentPrefix :: "string \<Rightarrow> string \<Rightarrow> string option" where
  "posDocumentPrefix kind fy = map_option (\<lambda>c. kind @ ''-'' @ c @ ''-'') (compactFinancialYear fy)"

definition isGstDocumentNumber :: "string \<Rightarrow> bool" where
  "isGstDocumentNumber v \<longleftrightarrow> 1 \<le> length v \<and> length v \<le> 16 \<and>
     list_all (\<lambda>c. (let k = of_char c :: nat in (48 \<le> k \<and> k \<le> 57) \<or> (65 \<le> k \<and> k \<le> 90) \<or> (97 \<le> k \<and> k \<le> 122)) \<or>
       c = CHR ''/'' \<or> c = CHR ''-'') v"

definition padStart :: "nat \<Rightarrow> string \<Rightarrow> string" where
  "padStart n t = replicate (n - length t) (CHR ''0'') @ t"

text \<open>The locked row of the series, created at zero; the number after its last.\<close>

definition sequence_number :: "string \<Rightarrow> nat \<Rightarrow> string" where
  "sequence_number prefix n = prefix @ padStart 6 (nat_text n)"

definition next_number :: "string \<Rightarrow> string \<Rightarrow> string \<Rightarrow> string checkout" where
  "next_number shop entityType prefix =
     bind_eff (read_eff (\<lambda>s. case sequences_k s (shop, entityType, prefix) of None \<Rightarrow> 1 | Some n \<Rightarrow> Suc n)) (\<lambda>sequence.
     bind_eff (write_eff (\<lambda>s. s\<lparr>sequences_k := (sequences_k s)((shop, entityType, prefix) \<mapsto> sequence)\<rparr>)) (\<lambda>_.
     return_eff (sequence_number prefix sequence)))"

definition invoice_number :: "string \<Rightarrow> string \<Rightarrow> string checkout" where
  "invoice_number shop fy =
     (case posDocumentPrefix ''INV'' fy of
        None \<Rightarrow> throw_eff NumberRefused
      | Some prefix \<Rightarrow>
          bind_eff (next_number shop ''POS_INVOICE'' prefix) (\<lambda>number.
          bind_eff (require_eff (isGstDocumentNumber number) NumberRefused) (\<lambda>_.
          return_eff number)))"

section \<open>The steps of the transaction\<close>

definition is_shift :: "string \<Rightarrow> string \<Rightarrow> Shift \<Rightarrow> bool" where
  "is_shift shop i x \<longleftrightarrow> Shift.id_sh x = i \<and> shopId_sh x = shop \<and> open_sh x \<and> \<not> isDeleted_sh x"

definition lockShift :: "BillingActor \<Rightarrow> string option \<Rightarrow> string option checkout" where
  "lockShift actor shiftId =
     (if truthy shiftId
      then bind_eff (read_eff (\<lambda>s. find (is_shift (shopId_a actor) (the shiftId)) (shifts_bk (books_k s)))) (\<lambda>row.
           case row of
             None \<Rightarrow> throw_eff SHIFT_INVALID
           | Some x \<Rightarrow> bind_eff (require_eff (openedById_sh x = userId_a actor \<or> isManager (role_a actor)) SHIFT_FORBIDDEN) (\<lambda>_.
                        return_eff (Some (Shift.id_sh x))))
      else read_eff (\<lambda>s. map_option Shift.id_sh (latest_shift
             (filter (\<lambda>x. shopId_sh x = shopId_a actor \<and> openedById_sh x = userId_a actor \<and> open_sh x \<and> \<not> isDeleted_sh x)
                (shifts_bk (books_k s))))))"

definition is_customer :: "string \<Rightarrow> string \<Rightarrow> Customer \<Rightarrow> bool" where
  "is_customer shop i c \<longleftrightarrow> id_cs c = i \<and> shopId_cs c = shop \<and> \<not> isDeleted_cs c"

definition lockCustomer :: "string \<Rightarrow> string \<Rightarrow> Customer checkout" where
  "lockCustomer shop i =
     bind_eff (read_eff (\<lambda>s. find (is_customer shop i) (customers_k s))) (\<lambda>row.
     case row of
       None \<Rightarrow> throw_eff CUSTOMER_NOT_FOUND
     | Some c \<Rightarrow> bind_eff (require_eff (isActive_cs c) CUSTOMER_INACTIVE) (\<lambda>_. return_eff c))"

text \<open>The credit a bill may add to the customer's balance.\<close>

definition check_credit :: "decimal_lib \<Rightarrow> BillingActor \<Rightarrow> Customer \<Rightarrow> decimal \<Rightarrow> unit checkout" where
  "check_credit D actor c udhar =
     (if \<not> 0 < udhar then return_eff ()
      else let projected = d_plus D (outstandingBalance_cs c) (money D udhar)
           in bind_eff (require_eff (projected \<le> MONEY_MAX) OUTSTANDING_BALANCE_TOO_LARGE) (\<lambda>_.
              require_eff (projected \<le> creditLimit_cs c \<or> isManager (role_a actor)) CREDIT_LIMIT_EXCEEDED))"

definition lock_credit :: "decimal_lib \<Rightarrow> BillingActor \<Rightarrow> string option \<Rightarrow> decimal \<Rightarrow> Customer option checkout" where
  "lock_credit D actor customerId udhar =
     (if truthy customerId
      then bind_eff (lockCustomer (shopId_a actor) (the customerId)) (\<lambda>c.
           bind_eff (check_credit D actor c udhar) (\<lambda>_. return_eff (Some c)))
      else return_eff None)"

definition CUSTOM_SKU :: string where "CUSTOM_SKU = ''CUSTOM''"

definition invoiceItemData ::
    "decimal_lib \<Rightarrow> (string \<Rightarrow> Product option) \<Rightarrow> NormalisedLine \<Rightarrow> InvoiceLineResult \<Rightarrow> checkout_error + InvoiceItem" where
  "invoiceItemData D rows line m =
     (let item = (\<lambda>pid custom name sku unit cost price mrp gst.
          \<lparr>productId_li = pid, isCustom_li = custom, productName_li = name, productSku_li = sku, unit_li = unit,
           costPrice_li = cost, sellingPrice_li = price, mrp_li = mrp, gstRate_li = gst,
           quantity_li = to_dp_half_up D 3 (quantity_l m), discountPercent_li = half_up 2 (discountPercent_nl line),
           discountAmount_li = money D (discountAmount_l m), taxableAmount_li = money D (taxableAmount_l m),
           cgstAmount_li = money D (cgstAmount_l m), sgstAmount_li = money D (sgstAmount_l m),
           igstAmount_li = money D (igstAmount_l m), cessAmount_li = money D (cessAmount_l m),
           totalAmount_li = money D (lineTotal_l m)\<rparr>)
      in case custom_nl line of
           Some c \<Rightarrow>
             (case inclusiveUnitPrice D (NDecimal (unitPrice_cu c)) (NText (gstRate_cu c)) (NNumber 0) of
                Inl e \<Rightarrow> Inl (EngineCrash e)
              | Inr t \<Rightarrow> Inr (item None True (name_cu c) CUSTOM_SKU (unit_cu c) 0 (unitPrice_cu c) (money D t) (gstRate_cu c)))
         | None \<Rightarrow>
             (case rows (the (productId_nl line)) of
                None \<Rightarrow> Inl RowMissing
              | Some p \<Rightarrow> Inr (item (Some (id_pr p)) False (name_pr p) (sku_pr p) (unit_pr p) (costPrice_pr p)
                                  (sellingPrice_pr p) (mrp_pr p) (gstRate_pr p))))"

definition invoice_items ::
    "decimal_lib \<Rightarrow> (string \<Rightarrow> Product option) \<Rightarrow> NormalisedLine list \<Rightarrow> InvoiceLineResult list \<Rightarrow> checkout_error + InvoiceItem list" where
  "invoice_items D rows ls ms =
     map_res (\<lambda>m. case find (\<lambda>l. key_nl l = productId_l m) ls of None \<Rightarrow> Inl RowMissing | Some l \<Rightarrow> invoiceItemData D rows l m) ms"

fun join_refs :: "string list \<Rightarrow> string" where
  "join_refs [] = []"
| "join_refs [r] = r"
| "join_refs (r # s # rs) = r @ '','' @ join_refs (s # rs)"

definition payment_ref :: "TenderResult list \<Rightarrow> string option" where
  "payment_ref ts =
     (let r = join_refs (map the (filter truthy (map reference_t ts))) in if r = [] then None else Some r)"

text \<open>The invoice's columns, and whether they hold.\<close>

definition invoice_row ::
    "checkout_env \<Rightarrow> BillingActor \<Rightarrow> CreateInvoiceDto \<Rightarrow> string \<Rightarrow> bool \<Rightarrow> InvoiceCalculationResultV1 \<Rightarrow> PaymentResult \<Rightarrow>
      string \<Rightarrow> string \<Rightarrow> string option \<Rightarrow> int \<Rightarrow> InvoiceItem list \<Rightarrow> Invoice" where
  "invoice_row E actor dto hash interState math payment i number shift now its =
     (let D = dec_env E; applied = appliedInvoiceDiscount dto math
      in \<lparr>id_inv = i, invoiceNumber_inv = number, financialYear_inv = financialYear_env E now, shopId_inv = shopId_a actor,
          idempotencyKey_inv = idempotencyKey_ni dto, requestHash_inv = hash, customerId_inv = customerId_ni dto,
          cashierId_inv = userId_a actor, paymentMode_inv = paymentMode_p payment, subtotal_inv = money D (subtotal_r math),
          discountAmount_inv = money D (totalDiscount_r math), discountPercentage_inv = map_option (half_up 2) (snd applied),
          discountType_inv = fst applied,
          discountReason_inv = (if 0 < invoiceDiscount_r math then discountReason_ni dto else None),
          approvedBy_inv = (if 0 < invoiceDiscount_r math \<or> 0 < totalItemDiscount_r math then Some (userId_a actor) else None),
          taxableAmount_inv = money D (taxableTotal_r math), taxAmount_inv = money D (totalTax_r math),
          cgstAmount_inv = money D (totalCgst_r math), sgstAmount_inv = money D (totalSgst_r math),
          igstAmount_inv = money D (totalIgst_r math), roundOffAmount_inv = money D (roundOff_r math),
          totalAmount_inv = money D (finalTotal_r math), paidAmount_inv = money D (paidAmount_p payment),
          changeAmount_inv = money D (changeAmount_p payment), udharAmount_inv = money D (udharAmount_p payment),
          paymentRef_inv = payment_ref (tenders_p payment), isInterState_inv = interState, notes_inv = notes_ni dto,
          shiftId_inv = shift, createdAt_inv = now, items_inv = its\<rparr>)"

definition item_fits :: "InvoiceItem \<Rightarrow> bool" where
  "item_fits i \<longleftrightarrow> \<bar>quantity_li i\<bar> * 1000 < 10 ^ 10 \<and> fits_column 5 (discountPercent_li i) \<and>
     list_all (fits_column 10) [costPrice_li i, sellingPrice_li i, mrp_li i, discountAmount_li i, taxableAmount_li i,
       cgstAmount_li i, sgstAmount_li i, igstAmount_li i, cessAmount_li i, totalAmount_li i]"

definition invoice_fits :: "Invoice \<Rightarrow> bool" where
  "invoice_fits i \<longleftrightarrow>
     list_all (fits_column 10) [subtotal_inv i, discountAmount_inv i, taxableAmount_inv i, taxAmount_inv i, cgstAmount_inv i,
       sgstAmount_inv i, igstAmount_inv i, roundOffAmount_inv i, totalAmount_inv i, paidAmount_inv i, changeAmount_inv i,
       udharAmount_inv i] \<and>
     (case discountPercentage_inv i of None \<Rightarrow> True | Some p \<Rightarrow> fits_column 5 p) \<and> list_all item_fits (items_inv i)"

text \<open>\<open>INSERT\<close>: the columns' ranges and the two unique keys of the table.\<close>

definition create_invoice :: "Invoice \<Rightarrow> unit checkout" where
  "create_invoice i =
     bind_eff (require_eff (invoice_fits i) ValueOutOfRange) (\<lambda>_.
     bind_eff (read_eff (\<lambda>s. list_ex (\<lambda>x. shopId_inv x = shopId_inv i \<and> financialYear_inv x = financialYear_inv i \<and>
         invoiceNumber_inv x = invoiceNumber_inv i) (invoices_k s))) (\<lambda>numbered.
     bind_eff (require_eff (\<not> numbered) NumberTaken) (\<lambda>_.
     bind_eff (read_eff (\<lambda>s. list_ex (\<lambda>x. shopId_inv x = shopId_inv i \<and> idempotencyKey_inv x = idempotencyKey_inv i)
         (invoices_k s))) (\<lambda>keyed.
     bind_eff (require_eff (\<not> keyed) KeyTaken) (\<lambda>_.
     write_eff (\<lambda>s. s\<lparr>invoices_k := invoices_k s @ [i]\<rparr>))))))"

definition tender_row :: "decimal_lib \<Rightarrow> string \<Rightarrow> string \<Rightarrow> TenderResult \<Rightarrow> InvoicePayment" where
  "tender_row D shop i t =
     \<lparr>invoiceId_ip = i, shopId_ip = shop, tender_ip = type_t t, amount_ip = money D (amount_t t),
      tenderedAmount_ip = money D (tenderedAmount_t t), changeAmount_ip = money D (changeAmount_t t), reference_ip = reference_t t\<rparr>"

definition create_tenders :: "InvoicePayment list \<Rightarrow> unit checkout" where
  "create_tenders rows =
     bind_eff (require_eff (list_all (\<lambda>r. fits_column 10 (amount_ip r) \<and> fits_column 10 (tenderedAmount_ip r) \<and>
       fits_column 10 (changeAmount_ip r)) rows) ValueOutOfRange) (\<lambda>_.
     write_eff (\<lambda>s. s\<lparr>payments_k := payments_k s @ rows\<rparr>))"

section \<open>Stock, credit, shift and ledger of a sale\<close>

definition sale_request :: "BillingActor \<Rightarrow> string \<Rightarrow> string \<Rightarrow> string \<Rightarrow> string \<Rightarrow> rat \<Rightarrow> InventoryMutationRequest" where
  "sale_request actor loc number i pid quantity =
     \<lparr>shopId_q = shopId_a actor, locationId_q = loc, productId_q = pid, quantity_q = Some quantity, mutationType_q = SALE,
      reason_q = Some (''Sale '' @ number), referenceId_q = i, variantId_q = None, performedBy_q = userId_a actor,
      allowNegative_q = False, direction_q = None, expectedProductVersion_q = None,
      expectedInventoryItemVersion_q = None, idempotencyKey_q = None\<rparr>"

definition stock_fault :: "inventory_error \<Rightarrow> checkout_error" where
  "stock_fault e = (if e = OPTIMISTIC_LOCK_CONFLICT then OccRetry else if e = INSUFFICIENT_STOCK then OUT_OF_STOCK else StockFailed e)"

text \<open>One mutation per catalogue line; the stock that left and what it had cost.\<close>

fun sell_lines ::
    "checkout_env \<Rightarrow> BillingActor \<Rightarrow> string \<Rightarrow> string \<Rightarrow> string \<Rightarrow> (string \<Rightarrow> Product option) \<Rightarrow> NormalisedLine list \<Rightarrow>
      StockOutcome list \<Rightarrow> decimal \<Rightarrow> (StockOutcome list \<times> decimal) checkout" where
  "sell_lines E actor loc number i rows [] stock cost = return_eff (stock, cost)"
| "sell_lines E actor loc number i rows (l # ls) stock cost =
     (if \<not> truthy (productId_nl l) then sell_lines E actor loc number i rows ls stock cost
      else let pid = the (productId_nl l) in
        bind_eff (on_stock stock_fault (mutateStock (stock_id_env E) (sale_request actor loc number i pid (quantity_nl l)))) (\<lambda>r.
        if bypassed_rs r then sell_lines E actor loc number i rows ls stock cost
        else
          bind_eff (lift_res (case costOfGoodsSlice (dec_env E) (NDecimal (costPrice_pr (the (rows pid)))) (NNumber 0) (NNumber (quantity_nl l)) of
              Inl e \<Rightarrow> Inl (EngineCrash e) | Inr c \<Rightarrow> Inr c)) (\<lambda>c.
          sell_lines E actor loc number i rows ls
            (stock @ [\<lparr>productId_so = pid, quantity_so = quantity_nl l, balanceAfter_so = balanceAfter_rs r,
                       productStockAfter_so = productStockAfter_rs r\<rparr>])
            (d_plus (dec_env E) cost c))))"

definition update_customer :: "string \<Rightarrow> (Customer \<Rightarrow> Customer) \<Rightarrow> unit checkout" where
  "update_customer i f = write_eff (\<lambda>s. s\<lparr>customers_k := update_rows (\<lambda>c. id_cs c = i) f (customers_k s)\<rparr>)"

definition book_credit :: "decimal_lib \<Rightarrow> BillingActor \<Rightarrow> string \<Rightarrow> int \<Rightarrow> Customer option \<Rightarrow> decimal \<Rightarrow> decimal \<Rightarrow> unit checkout" where
  "book_credit D actor i now customer udhar final =
     (case customer of
        None \<Rightarrow> return_eff ()
      | Some c \<Rightarrow>
          let bought = (\<lambda>x. x\<lparr>totalPurchases_cs := totalPurchases_cs x + money D final, lastPurchaseAt_cs := Some now\<rparr>)
          in bind_eff (require_eff (fits_column 14 (totalPurchases_cs c + money D final)) ValueOutOfRange) (\<lambda>_.
             if \<not> 0 < udhar then update_customer (id_cs c) bought
             else let before = outstandingBalance_cs c; after = d_plus D before (money D udhar)
               in bind_eff (write_eff (\<lambda>s. s\<lparr>udhar_k := udhar_k s @
                      [\<lparr>customerId_ut = id_cs c, invoiceId_ut = i, shopId_ut = shopId_a actor, recordedById_ut = userId_a actor,
                        amount_ut = money D udhar, balanceBefore_ut = before, balanceAfter_ut = after\<rparr>]\<rparr>)) (\<lambda>_.
                  update_customer (id_cs c) (\<lambda>x. bought (x\<lparr>outstandingBalance_cs := after\<rparr>)))))"

definition tender_sum :: "decimal_lib \<Rightarrow> TenderType list \<Rightarrow> TenderResult list \<Rightarrow> decimal" where
  "tender_sum D types ts = money D (d_sum D (map amount_t (filter (\<lambda>t. type_t t \<in> set types) ts)))"

definition cash_bucket :: "decimal_lib \<Rightarrow> TenderResult list \<Rightarrow> decimal" where "cash_bucket D = tender_sum D [CASH]"
definition upi_bucket :: "decimal_lib \<Rightarrow> TenderResult list \<Rightarrow> decimal" where "upi_bucket D = tender_sum D [UPI]"
definition card_bucket :: "decimal_lib \<Rightarrow> TenderResult list \<Rightarrow> decimal" where "card_bucket D = tender_sum D [TenderType.CARD, BANK_TRANSFER]"
definition bank_bucket :: "decimal_lib \<Rightarrow> TenderResult list \<Rightarrow> decimal" where "bank_bucket D = tender_sum D [UPI, TenderType.CARD, BANK_TRANSFER]"

definition shift_sale :: "decimal_lib \<Rightarrow> InvoiceCalculationResultV1 \<Rightarrow> PaymentResult \<Rightarrow> Shift \<Rightarrow> Shift" where
  "shift_sale D math payment x =
     x\<lparr>totalSales_sh := totalSales_sh x + money D (finalTotal_r math),
       cashSales_sh := cashSales_sh x + cash_bucket D (tenders_p payment),
       upiSales_sh := upiSales_sh x + upi_bucket D (tenders_p payment),
       cardSales_sh := cardSales_sh x + card_bucket D (tenders_p payment),
       udharSales_sh := udharSales_sh x + money D (udharAmount_p payment),
       expectedCash_sh := expectedCash_sh x + cash_bucket D (tenders_p payment)\<rparr>"

definition shift_fits :: "Shift \<Rightarrow> bool" where
  "shift_fits x \<longleftrightarrow> list_all (fits_column 10)
     [totalSales_sh x, cashSales_sh x, upiSales_sh x, cardSales_sh x, udharSales_sh x, expectedCash_sh x]"

definition book_shift :: "decimal_lib \<Rightarrow> string option \<Rightarrow> InvoiceCalculationResultV1 \<Rightarrow> PaymentResult \<Rightarrow> unit checkout" where
  "book_shift D shift math payment =
     (case shift of
        None \<Rightarrow> return_eff ()
      | Some i \<Rightarrow>
          bind_eff (read_eff (\<lambda>s. shifts_bk (books_k s))) (\<lambda>rows.
          bind_eff (require_eff (list_ex (\<lambda>x. Shift.id_sh x = i) rows) RowMissing) (\<lambda>_.
          let rows' = update_rows (\<lambda>x. Shift.id_sh x = i) (shift_sale D math payment) rows
          in bind_eff (require_eff (list_all (\<lambda>x. Shift.id_sh x = i \<longrightarrow> shift_fits x) rows') ValueOutOfRange) (\<lambda>_.
             write_eff (\<lambda>s. s\<lparr>books_k := (books_k s)\<lparr>shifts_bk := rows'\<rparr>\<rparr>)))))"

definition splitRevenue :: "decimal_lib \<Rightarrow> decimal \<Rightarrow> decimal \<Rightarrow> decimal \<Rightarrow> decimal \<times> decimal" where
  "splitRevenue D taxable tax roundOff =
     (let revenue = money D (d_plus D taxable roundOff); gst = money D tax
      in if revenue < 0 then (0, max (d_plus D gst revenue) 0) else (revenue, gst))"

definition ledger_entry :: "LedgerAccount \<Rightarrow> LedgerEntryType \<Rightarrow> decimal \<Rightarrow> LedgerEntryInput" where
  "ledger_entry a ty x = \<lparr>account_ei = a, type_ei = ty, amount_ei = x, description_ei = None\<rparr>"

definition saleLedgerEntries :: "decimal_lib \<Rightarrow> TenderResult list \<Rightarrow> decimal \<Rightarrow> InvoiceCalculationResultV1 \<Rightarrow> decimal \<Rightarrow> LedgerEntryInput list" where
  "saleLedgerEntries D ts udhar math costOfGoods =
     (let (revenue, gst) = splitRevenue D (taxableTotal_r math) (totalTax_r math) (roundOff_r math)
      in [ledger_entry A_CASH DEBIT (cash_bucket D ts), ledger_entry A_BANK DEBIT (bank_bucket D ts),
          ledger_entry ACCOUNTS_RECEIVABLE DEBIT (money D udhar), ledger_entry SALES_REVENUE CREDIT revenue,
          ledger_entry GST_PAYABLE CREDIT gst] @
         (if 0 < costOfGoods then [ledger_entry COST_OF_GOODS DEBIT (money D costOfGoods),
                                   ledger_entry INVENTORY CREDIT (money D costOfGoods)] else []))"

definition sale_posting ::
    "decimal_lib \<Rightarrow> string \<Rightarrow> string \<Rightarrow> string \<Rightarrow> InvoiceCalculationResultV1 \<Rightarrow> PaymentResult \<Rightarrow> decimal \<Rightarrow> LedgerPosting" where
  "sale_posting D shop i number math payment cost =
     \<lparr>shopId_po = shop, sourceType_po = SRC_SALE, sourceId_po = i, invoiceId_po = Some i, description_po = ''Sale '' @ number,
      entries_po = saleLedgerEntries D (tenders_p payment) (udharAmount_p payment) math cost\<rparr>"

section \<open>The checkout\<close>

text \<open>What is known of a request before its transaction runs.\<close>

record prepared =
  lines_pre' :: "NormalisedLine list"
  requestHash_pre :: string
  isInterState_pre :: bool
  requestedPercent_pre :: "rat option"
  locationId_pre :: string
  decremented_pre :: "NormalisedLine list"

text \<open>One attempt of the transaction, at the instant \<open>now\<close>.\<close>

definition sale_transaction ::
    "checkout_env \<Rightarrow> CreateInvoiceDto \<Rightarrow> BillingActor \<Rightarrow> int \<Rightarrow> prepared \<Rightarrow> CreateInvoiceResult checkout" where
  "sale_transaction E dto actor now p =
     (let D = dec_env E; shop = shopId_a actor; ls = lines_pre' p
      in bind_eff (loadProducts shop (productIds ls)) (\<lambda>rows.
         bind_eff (lift_res (assertWithinMrp D rows ls)) (\<lambda>_.
         bind_eff (priced_bill E actor dto ls (isInterState_pre p) rows (\<lambda>_. requestedPercent_pre p)) (\<lambda>math.
         bind_eff (lift_res (case payment_r math of None \<Rightarrow> Inl RowMissing | Some x \<Rightarrow> Inr x)) (\<lambda>payment.
         bind_eff (lockShift actor (shiftId_ni dto)) (\<lambda>shift.
         bind_eff (lock_credit D actor (customerId_ni dto) (udharAmount_p payment)) (\<lambda>customer.
         bind_eff (invoice_number shop (financialYear_env E now)) (\<lambda>number.
         bind_eff (on_stock stock_fault (lockProducts shop (productIds ls))) (\<lambda>_.
         bind_eff (lift_res (invoice_items D rows ls (lines_r math))) (\<lambda>its.
         bind_eff (read_eff (invoice_id_env E)) (\<lambda>i.
         let invoice = invoice_row E actor dto (requestHash_pre p) (isInterState_pre p) math payment i number shift now its
         in bind_eff (create_invoice invoice) (\<lambda>_.
         bind_eff (create_tenders (map (tender_row D shop i)
             (filter (\<lambda>t. 0 < amount_t t \<or> 0 < changeAmount_t t) (tenders_p payment)))) (\<lambda>_.
         bind_eff (sell_lines E actor (locationId_pre p) number i rows ls [] 0) (\<lambda>(stock, cost).
         bind_eff (book_credit D actor i now customer (udharAmount_p payment) (finalTotal_r math)) (\<lambda>_.
         bind_eff (book_shift D shift math payment) (\<lambda>_.
         bind_eff (on_ledger (post D (posting_id_env E) (sale_posting D shop i number math payment cost))) (\<lambda>_.
         bind_eff (write_eff (\<lambda>s. s\<lparr>audits_k := audits_k s @ [\<lparr>shopId_ar = shop, userId_ar = userId_a actor,
             action_ar = ''INVOICE_CREATED'', entityId_ar = i\<rparr>]\<rparr>)) (\<lambda>_.
         bind_eff (write_eff (\<lambda>s. s\<lparr>outbox_k := outbox_k s @ [\<lparr>shopId_se = shop, type_se = ''INVOICE_CREATED'', entityId_se = i,
             items_se = map (\<lambda>x. (productId_so x, quantity_so x, productStockAfter_so x)) stock\<rparr>]\<rparr>)) (\<lambda>_.
         bind_eff (read_eff (\<lambda>s. find (\<lambda>x. id_inv x = i) (invoices_k s))) (\<lambda>row.
         case row of
           None \<Rightarrow> throw_eff RowMissing
         | Some x \<Rightarrow> return_eff \<lparr>invoice_cr = x, stock_cr = stock, shiftId_cr = shift, replayed_cr = False\<rparr>))))))))))))))))))))"

definition replayOrReject ::
    "checkout_env \<Rightarrow> NormalisedLine list \<Rightarrow> CreateInvoiceDto \<Rightarrow> string \<Rightarrow> Invoice \<Rightarrow> checkout_error + CreateInvoiceResult" where
  "replayOrReject E ls dto hash existing =
     (if requestHash_inv existing \<noteq> [] \<and> requestHash_inv existing \<noteq> hash \<and> requestHash_inv existing \<noteq> hashRequest E ls dto True
      then Inl KEY_REUSED
      else Inr \<lparr>invoice_cr = existing, stock_cr = [], shiftId_cr = shiftId_inv existing, replayed_cr = True\<rparr>)"

definition find_keyed :: "string \<Rightarrow> string \<Rightarrow> counter \<Rightarrow> Invoice option" where
  "find_keyed shop key s = find (\<lambda>x. idempotencyKey_inv x = key \<and> shopId_inv x = shop) (invoices_k s)"

text \<open>
  Everything before the transaction: a replay (\<open>Inl\<close>), or the request prepared (\<open>Inr\<close>). Nothing
  of it runs inside a transaction.
\<close>

definition prepare_sale :: "checkout_env \<Rightarrow> CreateInvoiceDto \<Rightarrow> BillingActor \<Rightarrow> (CreateInvoiceResult + prepared) checkout" where
  "prepare_sale E dto actor =
     (let shop = shopId_a actor; D = dec_env E
      in bind_eff (lift_res (normaliseLines E (items_ni dto))) (\<lambda>ls.
         let hash = hashRequest E ls dto False
         in bind_eff (read_eff (find_keyed shop (idempotencyKey_ni dto))) (\<lambda>existing.
         case existing of
           Some x \<Rightarrow> bind_eff (lift_res (replayOrReject E ls dto hash x)) (\<lambda>r. return_eff (Inl r))
         | None \<Rightarrow>
             bind_eff (loadProducts shop (productIds ls)) (\<lambda>rows.
             bind_eff (lift_res (assertWithinMrp D rows ls)) (\<lambda>_.
             bind_eff (resolveInterState shop (customerId_ni dto) (placeOfSupply_ni dto)) (\<lambda>interState.
             bind_eff (require_eff (\<not> (0 < request_udhar dto \<and> \<not> creditSales_env E)) FEATURE_PAUSED) (\<lambda>_.
             bind_eff (require_eff (\<not> (0 < request_udhar dto \<and> \<not> truthy (customerId_ni dto))) CUSTOMER_REQUIRED) (\<lambda>_.
             bind_eff (priced_bill E actor dto ls interState rows (\<lambda>math. snd (appliedInvoiceDiscount dto math))) (\<lambda>math.
             bind_eff (on_stock StockFailed (resolveSaleLocation (stock_id_env E) shop)) (\<lambda>loc.
             bind_eff (read_eff (\<lambda>s. first_short (world_k s) shop loc rows ls)) (\<lambda>short.
             bind_eff (if short then auditRejected actor ''INSUFFICIENT_STOCK'' else return_eff ()) (\<lambda>_.
             bind_eff (require_eff (\<not> short) OUT_OF_STOCK) (\<lambda>_.
             bind_eff (redis_precheck E shop rows (stockedLines rows ls)) (\<lambda>taken.
             return_eff (Inr \<lparr>lines_pre' = ls, requestHash_pre = hash, isInterState_pre = interState,
               requestedPercent_pre = snd (appliedInvoiceDiscount dto math), locationId_pre = loc,
               decremented_pre = taken\<rparr>)))))))))))))))"

text \<open>
  The retry loop: \<open>aborts\<close> says which attempts the database rolls back (a deadlock or a lock
  wait), the rest run to their end. An attempt that lost the race for its key is answered from
  the invoice that won it; after any other failure but a retry what Redis gave is returned.
\<close>

definition MAX_RETRIES :: nat where "MAX_RETRIES = 3"

definition one_attempt :: "bool \<Rightarrow> 'a checkout \<Rightarrow> 'a checkout" where
  "one_attempt aborted m = (if aborted then throw_eff SerializationFailure else atomically m)"

definition retryable :: "checkout_error \<Rightarrow> bool" where
  "retryable e \<longleftrightarrow> e = OccRetry \<or> e = SerializationFailure"

definition fail_sale :: "BillingActor \<Rightarrow> NormalisedLine list \<Rightarrow> checkout_error \<Rightarrow> 'a checkout" where
  "fail_sale actor taken e =
     bind_eff (restoreRedis (shopId_a actor) taken) (\<lambda>_.
     bind_eff (if e = CREDIT_LIMIT_EXCEEDED then auditRejected actor ''CREDIT_LIMIT_EXCEEDED''
               else if e = OUT_OF_STOCK then auditRejected actor ''INSUFFICIENT_STOCK'' else return_eff ()) (\<lambda>_.
     throw_eff e))"

fun attempt_sale ::
    "nat \<Rightarrow> checkout_env \<Rightarrow> CreateInvoiceDto \<Rightarrow> BillingActor \<Rightarrow> (int \<times> bool) list \<Rightarrow> prepared \<Rightarrow> CreateInvoiceResult checkout" where
  "attempt_sale 0 E dto actor clock p = fail_sale actor (decremented_pre p) OccRetry"
| "attempt_sale (Suc left) E dto actor clock p =
     (\<lambda>s. let (now, aborted) = (case clock of [] \<Rightarrow> (0, False) | c # _ \<Rightarrow> c)
      in case one_attempt aborted (sale_transaction E dto actor now p) s of
           (s', Inr r) \<Rightarrow> bind_eff (afterStockChange (shopId_a actor) (stock_cr r)) (\<lambda>_. return_eff r) s'
         | (s', Inl e) \<Rightarrow>
             if e = KeyTaken \<and> find_keyed (shopId_a actor) (idempotencyKey_ni dto) s' \<noteq> None then
               (case replayOrReject E (lines_pre' p) dto (requestHash_pre p)
                       (the (find_keyed (shopId_a actor) (idempotencyKey_ni dto) s')) of
                  Inr r \<Rightarrow> bind_eff (restoreRedis (shopId_a actor) (decremented_pre p)) (\<lambda>_. return_eff r) s'
                | Inl e' \<Rightarrow> fail_sale actor (decremented_pre p) e' s')
             else if retryable e \<and> 0 < left then
               (case loadProducts (shopId_a actor) (productIds (lines_pre' p)) s' of
                  (s'', Inl e') \<Rightarrow> fail_sale actor (decremented_pre p) e' s''
                | (s'', Inr _) \<Rightarrow> attempt_sale left E dto actor (tl clock) p s'')
             else fail_sale actor (decremented_pre p) e s')"

definition finish_sale ::
    "checkout_env \<Rightarrow> CreateInvoiceDto \<Rightarrow> BillingActor \<Rightarrow> (int \<times> bool) list \<Rightarrow> prepared \<Rightarrow> CreateInvoiceResult checkout" where
  "finish_sale E dto actor clock p = attempt_sale MAX_RETRIES E dto actor clock p"

definition createInvoice ::
    "checkout_env \<Rightarrow> CreateInvoiceDto \<Rightarrow> BillingActor \<Rightarrow> (int \<times> bool) list \<Rightarrow> CreateInvoiceResult checkout" where
  "createInvoice E dto actor clock =
     bind_eff (prepare_sale E dto actor) (\<lambda>r.
     case r of Inl replay \<Rightarrow> return_eff replay | Inr p \<Rightarrow> finish_sale E dto actor clock p)"

end
