(* ===== verification/CheckoutMoney.thy ===== *)
theory CheckoutMoney
  imports Checkout InvoiceProperties LedgerProperties
begin

text \<open>
  The amounts a checkout books: what a calculated bill and its payment guarantee, the tenders in
  their buckets, the revenue and tax the ledger gets, and that the posting of a sale balances.
\<close>

definition tender_ok :: "TenderResult \<Rightarrow> bool" where
  "tender_ok t \<longleftrightarrow> paise MONEY_MAX (amount_t t)"

text \<open>What the money engine promises of a bill with a payment.\<close>

definition bill_ok :: "InvoiceCalculationResultV1 \<Rightarrow> PaymentResult \<Rightarrow> bool" where
  "bill_ok r pm \<longleftrightarrow>
     paise MONEY_MAX (taxableTotal_r r) \<and> paise (5 * MONEY_MAX) (totalTax_r r) \<and> on_grid 2 (roundOff_r r) \<and>
     \<bar>roundOff_r r\<bar> \<le> 1 / 2 \<and> taxableTotal_r r + totalTax_r r + roundOff_r r = finalTotal_r r \<and>
     paise MONEY_MAX (finalTotal_r r) \<and> paise (finalTotal_r r) (udharAmount_p pm) \<and>
     sum_list (map amount_t (tenders_p pm)) + udharAmount_p pm = finalTotal_r r \<and>
     list_all tender_ok (tenders_p pm)"

lemma money_max_small: "MONEY_MAX \<le> 10 ^ 8"
  by (simp add: MONEY_MAX_def)

lemma calculate_bill:
  assumes D: "decimal_arith D" and c: "calculate D J raw = Inr r" and p: "payment_r r = Some pm"
  shows "bill_ok r pm"
proof -
  obtain h td d where ok: "\<And>l. l \<in> set (lines_r r) \<Longrightarrow> line_ok l"
    and t: "r\<lparr>payment_r := None\<rparr> = totals D h td d (lines_r r)" and small: "subtotal_r r \<le> MONEY_MAX"
    using decimal_arith.calculate_totals[OF D c] by metis
  have T: "taxableTotal_r r = sum_list (map taxableAmount_l (lines_r r))"
    "totalTax_r r = sum_list (map taxAmount_l (lines_r r))"
    "subtotal_r r = sum_list (map lineSubtotal_l (lines_r r))"
    "finalTotal_r r = half_up 0 (grandTotal_r r)" "roundOff_r r = finalTotal_r r - grandTotal_r r"
    "grandTotal_r r = taxableTotal_r r + totalTax_r r" "paise (5 * MONEY_MAX) (grandTotal_r r)"
    using decimal_arith.totals_exact[OF D ok t] small by simp_all
  have l: "on_grid 2 (taxableAmount_l x) \<and> 0 \<le> taxableAmount_l x \<and> taxableAmount_l x \<le> lineSubtotal_l x \<and>
      on_grid 2 (taxAmount_l x) \<and> 0 \<le> taxAmount_l x" if "x \<in> set (lines_r r)" for x
    using ok[OF that] unfolding line_ok_def paise_def by (auto intro!: grid_intros)
  have "taxableTotal_r r \<le> subtotal_r r" unfolding T(1,3) using l by (intro sum_list_mono) auto
  then have taxable: "paise MONEY_MAX (taxableTotal_r r)"
    using small l unfolding T(1) by (auto simp: paise_def intro!: grid_intros sum_list_nonneg)
  have tax: "paise (5 * MONEY_MAX) (totalTax_r r)"
  proof -
    have "0 \<le> totalTax_r r" "on_grid 2 (totalTax_r r)" unfolding T(2) using l by (auto intro!: grid_intros sum_list_nonneg)
    then show ?thesis using T(6,7) taxable by (simp add: paise_def)
  qed
  have fin: "paise MONEY_MAX (finalTotal_r r)" using calculate_final_paise[OF D c] .
  have off: "on_grid 2 (roundOff_r r)" "\<bar>roundOff_r r\<bar> \<le> 1 / 2"
    using fin T(5,7) half_up_error[of 0 "grandTotal_r r"] T(4) by (auto simp: paise_def intro: grid_intros)
  have "(normalisePayment D (json_input raw) = Inr None \<and> payment_r r = None) \<or>
     (\<exists>q x. normalisePayment D (json_input raw) = Inr (Some q) \<and>
        settlePayment D q (finalTotal_r r) = Inr x \<and> payment_r r = Some x)"
    by (rule decimal_arith.calculate_InrE[OF D c]) simp
  then obtain q where "settlePayment D q (finalTotal_r r) = Inr pm" using p by auto
  note S = decimal_arith.settlePayment_Inr[OF D this fin]
  have "taxableTotal_r r + totalTax_r r + roundOff_r r = finalTotal_r r" unfolding T(5,6) by simp
  moreover have "list_all tender_ok (tenders_p pm)" using S(4) by (simp add: list_all_iff tender_ok_def)
  ultimately show ?thesis unfolding bill_ok_def using taxable tax off fin S(1,3) by blast
qed

section \<open>Buckets\<close>

context decimal_arith
begin

lemma money_grid: "on_grid 2 x \<Longrightarrow> money D x = x"
  by (simp add: money_def MONEY_DP_def to_dp_half_up half_up_exact)

lemma tender_sum_exact:
  assumes "list_all tender_ok ts" and "sum_list (map amount_t ts) \<le> MONEY_MAX"
  shows "tender_sum D types ts = sum_list (map amount_t (filter (\<lambda>t. type_t t \<in> set types) ts))"
    and "paise MONEY_MAX (tender_sum D types ts)"
proof -
  let ?xs = "map amount_t (filter (\<lambda>t. type_t t \<in> set types) ts)"
  have g: "on_grid 2 x \<and> 0 \<le> x" if "x \<in> set ?xs" for x
    using that assms(1) by (auto simp: list_all_iff tender_ok_def paise_def)
  have le: "sum_list ?xs \<le> MONEY_MAX"
    using sum_filter_le[of ts amount_t "\<lambda>t. type_t t \<in> set types"] assms by (simp add: list_all_iff tender_ok_def paise_def)
  then have "d_sum D ?xs = sum_list ?xs" using g money_max_small by (intro d_sum_exact[of _ 2]) auto
  moreover have "paise MONEY_MAX (sum_list ?xs)" using g le by (auto simp: paise_def intro!: grid_intros sum_list_nonneg)
  ultimately show "tender_sum D types ts = sum_list ?xs" "paise MONEY_MAX (tender_sum D types ts)"
    by (simp_all add: tender_sum_def money_grid paise_def)
qed

lemma cash_and_bank: "sum_list (map amount_t (filter (\<lambda>t. type_t t \<in> set [CASH]) ts)) +
    sum_list (map amount_t (filter (\<lambda>t. type_t t \<in> set [UPI, TenderType.CARD, BANK_TRANSFER]) ts)) = sum_list (map amount_t ts)"
proof (induction ts)
  case (Cons t ts)
  then show ?case by (cases "type_t t") (simp_all add: algebra_simps)
qed simp

text \<open>Revenue and tax are non-negative paise and together the final total.\<close>

lemma splitRevenue_exact:
  assumes b: "bill_ok r pm"
    and s: "splitRevenue D (taxableTotal_r r) (totalTax_r r) (roundOff_r r) = (revenue, gst)"
  shows "paise (2 * 10 ^ 8) revenue" "paise (6 * 10 ^ 8) gst" "revenue + gst = finalTotal_r r"
proof -
  note b' = b[unfolded bill_ok_def] and m = money_max_small
  let ?rev = "taxableTotal_r r + roundOff_r r"
  have g: "on_grid 2 ?rev" "on_grid 2 (totalTax_r r)" using b' by (auto simp: paise_def intro: grid_intros)
  have "\<bar>?rev\<bar> \<le> 2 * 10 ^ 8" using b' m by (auto simp: paise_def)
  then have rev: "money D (d_plus D (taxableTotal_r r) (roundOff_r r)) = ?rev" and small: "?rev \<le> 2 * 10 ^ 8"
    using b' g by (auto simp: d_plus_grid[of 2] paise_def money_grid)
  have tot: "?rev + totalTax_r r = finalTotal_r r" using b' by simp
  then have gst: "d_plus D (totalTax_r r) ?rev = finalTotal_r r" "0 \<le> finalTotal_r r" "finalTotal_r r \<le> 10 ^ 8"
    using g b' m by (simp_all add: d_plus_grid[of 2] paise_def add.commute)
  show "paise (2 * 10 ^ 8) revenue" "paise (6 * 10 ^ 8) gst" "revenue + gst = finalTotal_r r"
    using s b' m rev small gst tot g
    by (auto simp: splitRevenue_def Let_def money_grid paise_def split: if_splits)
qed

section \<open>The posting of a sale\<close>

lemma normalise_grid:
  assumes "\<And>e. e \<in> set es \<Longrightarrow> on_grid 2 (amount_ei e)"
  shows "normalise_entries D es = filter (\<lambda>e. 0 < amount_ei e) es"
proof -
  have "map (\<lambda>e. e\<lparr>amount_ei := to_dp_half_up D 2 (amount_ei e)\<rparr>) es = es"
    using assms by (intro map_idI) (simp add: to_dp_half_up half_up_exact)
  then show ?thesis by (simp add: normalise_entries_def)
qed

lemma sum_side:
  assumes "\<And>e. e \<in> set es \<Longrightarrow> on_grid 2 (amount_ei e) \<and> 0 \<le> amount_ei e"
  shows "sum_list (map amount_ei (filter P (normalise_entries D es))) = sum_list (map amount_ei (filter P es))"
proof -
  have "sum_list (map amount_ei (filter P (filter (\<lambda>e. 0 < amount_ei e) xs))) = sum_list (map amount_ei (filter P xs))"
    if "\<And>e. e \<in> set xs \<Longrightarrow> 0 \<le> amount_ei e" for xs
    using that by (induction xs) (auto simp: order.order_iff_strict)
  then show ?thesis using assms by (simp add: normalise_grid)
qed

lemma sale_entries:
  assumes b: "bill_ok r pm" and cost: "paise (10 ^ 17) cost"
  shows "e \<in> set (saleLedgerEntries D (tenders_p pm) (udharAmount_p pm) r cost) \<Longrightarrow> on_grid 2 (amount_ei e) \<and> 0 \<le> amount_ei e"
    and "sum_list (map amount_ei (filter (\<lambda>e. type_ei e = DEBIT)
           (saleLedgerEntries D (tenders_p pm) (udharAmount_p pm) r cost))) = finalTotal_r r + cost"
    and "sum_list (map amount_ei (filter (\<lambda>e. type_ei e = CREDIT)
           (saleLedgerEntries D (tenders_p pm) (udharAmount_p pm) r cost))) = finalTotal_r r + cost"
proof -
  obtain rev gst where s: "splitRevenue D (taxableTotal_r r) (totalTax_r r) (roundOff_r r) = (rev, gst)" by force
  note S = splitRevenue_exact[OF b s]
  note b' = b[unfolded bill_ok_def]
  have ts: "list_all tender_ok (tenders_p pm)" "sum_list (map amount_t (tenders_p pm)) \<le> MONEY_MAX"
    using b' by (auto simp: paise_def)
  have bank: "cash_bucket D (tenders_p pm) + bank_bucket D (tenders_p pm) + udharAmount_p pm = finalTotal_r r"
    using b' cash_and_bank[of "tenders_p pm"] by (simp add: cash_bucket_def bank_bucket_def tender_sum_exact(1)[OF ts])
  have ok: "paise MONEY_MAX (cash_bucket D (tenders_p pm))" "paise MONEY_MAX (bank_bucket D (tenders_p pm))"
    by (simp_all add: cash_bucket_def bank_bucket_def tender_sum_exact(2)[OF ts])
  have m: "money D (udharAmount_p pm) = udharAmount_p pm" "money D cost = cost"
    using b' cost by (auto simp: paise_def money_grid)
  show "e \<in> set (saleLedgerEntries D (tenders_p pm) (udharAmount_p pm) r cost) \<Longrightarrow> on_grid 2 (amount_ei e) \<and> 0 \<le> amount_ei e"
    using S ok b' cost m by (auto simp: saleLedgerEntries_def ledger_entry_def s paise_def)
  show "sum_list (map amount_ei (filter (\<lambda>e. type_ei e = DEBIT)
      (saleLedgerEntries D (tenders_p pm) (udharAmount_p pm) r cost))) = finalTotal_r r + cost"
    using bank cost m by (auto simp: saleLedgerEntries_def ledger_entry_def s paise_def)
  show "sum_list (map amount_ei (filter (\<lambda>e. type_ei e = CREDIT)
      (saleLedgerEntries D (tenders_p pm) (udharAmount_p pm) r cost))) = finalTotal_r r + cost"
    using S(3) cost m by (auto simp: saleLedgerEntries_def ledger_entry_def s paise_def)
qed

lemma sum_both_sides:
  "sum_list (map amount_ei es) = sum_list (map amount_ei (filter (\<lambda>e. type_ei e = DEBIT) es)) +
     sum_list (map amount_ei (filter (\<lambda>e. type_ei e = CREDIT) es))"
proof (induction es)
  case (Cons e es)
  then show ?case by (cases "type_ei e") simp_all
qed simp

lemma sale_posting_fits:
  assumes b: "bill_ok r pm" and cost: "paise (10 ^ 17) cost"
  shows "posting_fits D (sale_posting D shop i number r pm cost)"
proof -
  let ?es = "saleLedgerEntries D (tenders_p pm) (udharAmount_p pm) r cost"
  have "sum_list (map amount_ei (normalise_entries D ?es)) = 2 * (finalTotal_r r + cost)"
    using sum_side[of ?es "\<lambda>e. type_ei e = DEBIT"] sum_side[of ?es "\<lambda>e. type_ei e = CREDIT"] sale_entries[OF b cost]
    by (simp add: sum_both_sides[of "normalise_entries D ?es"])
  moreover have "finalTotal_r r \<le> 10 ^ 8" using b money_max_small by (auto simp: bill_ok_def paise_def)
  ultimately show ?thesis using cost by (simp add: posting_fits_def sale_posting_def paise_def)
qed

lemma sale_sides:
  assumes b: "bill_ok r pm" and cost: "paise (10 ^ 17) cost"
  shows "side_total D ty (normalise_entries D (saleLedgerEntries D (tenders_p pm) (udharAmount_p pm) r cost)) = finalTotal_r r + cost"
proof -
  have "side_total D ty (normalise_entries D (entries_po (sale_posting D [] [] [] r pm cost))) = finalTotal_r r + cost"
    using side_total_exact[OF sale_posting_fits[OF b cost], of ty "[]" "[]" "[]"] sum_side sale_entries[OF b cost]
    by (cases ty) (simp_all add: sale_posting_def)
  then show ?thesis by (simp add: sale_posting_def)
qed

end

end
