(* ===== verification/CheckoutSteps.thy ===== *)
theory CheckoutSteps
  imports CheckoutMoney InventoryProperties
begin

text \<open>
  The steps of the sale transaction: what each reads, the tables it writes, and the state a
  completed transaction leaves, table by table.
\<close>

lemma option_case_eff: "(case v of None \<Rightarrow> throw_eff e | Some x \<Rightarrow> f x) s = (s', Inr r) \<longleftrightarrow> (\<exists>x. v = Some x \<and> f x s = (s', Inr r))"
  by (cases v) simp_all

lemma lift_res_run [simp]: "lift_res r s = (s, r)"
  by (simp add: lift_res_def)

lemma lockShift_state: "fst (lockShift actor i s) = s"
  by (auto simp: lockShift_def bind_eff_def split: option.splits)

lemma lockCustomer_state: "fst (lockCustomer shop i s) = s"
  by (auto simp: lockCustomer_def bind_eff_def split: option.splits)

lemma check_credit_state: "fst (check_credit D actor c u s) = s"
  by (simp add: check_credit_def Let_def)

lemma lock_credit_state: "fst (lock_credit D actor i u s) = s"
  using lockCustomer_state[of "shopId_a actor" "the i" s]
  by (auto simp: lock_credit_def bind_eff_def check_credit_state split: sum.splits prod.splits)
     (metis check_credit_state fst_conv)+

lemma lockCustomer_Inr:
  "lockCustomer shop i s = (s', Inr c) \<longleftrightarrow> s' = s \<and> find (is_customer shop i) (customers_k s) = Some c \<and> isActive_cs c"
  by (auto simp: lockCustomer_def split: option.splits)

lemma lock_credit_Inr:
  "lock_credit D actor i u s = (s', Inr co) \<Longrightarrow>
     s' = s \<and> (case co of
       None \<Rightarrow> \<not> truthy i
     | Some c \<Rightarrow> truthy i \<and> find (is_customer (shopId_a actor) (the i)) (customers_k s) = Some c \<and> isActive_cs c \<and>
         (0 < u \<longrightarrow> d_plus D (outstandingBalance_cs c) (money D u) \<le> MONEY_MAX \<and>
            (d_plus D (outstandingBalance_cs c) (money D u) \<le> creditLimit_cs c \<or> isManager (role_a actor))))"
  by (auto simp: lock_credit_def eff_simps lockCustomer_Inr check_credit_def Let_def split: if_splits)

lemma next_number_run:
  "next_number shop ty prefix s =
     (let k = (case sequences_k s (shop, ty, prefix) of None \<Rightarrow> 1 | Some n \<Rightarrow> Suc n)
      in (s\<lparr>sequences_k := (sequences_k s)((shop, ty, prefix) \<mapsto> k)\<rparr>, Inr (sequence_number prefix k)))"
  by (simp add: next_number_def Let_def)

definition sequence_of :: "string \<Rightarrow> string \<Rightarrow> counter \<Rightarrow> nat" where
  "sequence_of shop prefix s = (case sequences_k s (shop, ''POS_INVOICE'', prefix) of None \<Rightarrow> 0 | Some n \<Rightarrow> n)"

lemma invoice_number_Inr:
  assumes "invoice_number shop fy s = (s', Inr n)"
  shows "\<exists>prefix. posDocumentPrefix ''INV'' fy = Some prefix \<and> n = sequence_number prefix (Suc (sequence_of shop prefix s)) \<and>
    isGstDocumentNumber n \<and>
    s' = s\<lparr>sequences_k := (sequences_k s)((shop, ''POS_INVOICE'', prefix) \<mapsto> Suc (sequence_of shop prefix s))\<rparr>"
  using assms
  by (auto simp: invoice_number_def eff_simps next_number_run Let_def sequence_of_def split: option.splits if_splits)

lemma on_stock_Inr: "on_stock f m s = (s', Inr x) \<longleftrightarrow> (\<exists>w. m (world_k s) = (w, Inr x) \<and> s' = s\<lparr>world_k := w\<rparr>)"
  by (auto simp: on_stock_def split: prod.splits sum.splits)

lemma on_ledger_Inr: "on_ledger m s = (s', Inr x) \<longleftrightarrow> (\<exists>b. m (books_k s) = (b, Inr x) \<and> s' = s\<lparr>books_k := b\<rparr>)"
  by (auto simp: on_ledger_def split: prod.splits sum.splits)

lemma lockProducts_Inr: "lockProducts shop ids w = (w', Inr ls) \<Longrightarrow> w' = w"
  using lock_each_Inr by (auto simp: lockProducts_def split: if_splits)

lemma on_stock_lock: "on_stock f (lockProducts shop ids) s = (s', Inr ls) \<Longrightarrow> s' = s"
  using lockProducts_Inr by (fastforce simp: on_stock_Inr)

lemma create_invoice_Inr:
  "create_invoice i s = (s', Inr u) \<longleftrightarrow>
     invoice_fits i \<and> s' = s\<lparr>invoices_k := invoices_k s @ [i]\<rparr> \<and>
     (\<forall>x \<in> set (invoices_k s). shopId_inv x = shopId_inv i \<longrightarrow> idempotencyKey_inv x \<noteq> idempotencyKey_inv i \<and>
        \<not> (financialYear_inv x = financialYear_inv i \<and> invoiceNumber_inv x = invoiceNumber_inv i))"
  by (auto simp: create_invoice_def list_ex_iff split: if_splits)

lemma create_tenders_Inr: "create_tenders rows s = (s', Inr u) \<Longrightarrow> s' = s\<lparr>payments_k := payments_k s @ rows\<rparr>"
  by (simp add: create_tenders_def split: if_splits)

section \<open>Stock\<close>

text \<open>The mutations a sale asks of the inventory engine, one per catalogue line.\<close>

definition sale_calls :: "BillingActor \<Rightarrow> string \<Rightarrow> string \<Rightarrow> string \<Rightarrow> NormalisedLine list \<Rightarrow> inventory_call list" where
  "sale_calls actor loc number i ls =
     map (\<lambda>l. Mutate (sale_request actor loc number i (the (productId_nl l)) (quantity_nl l)))
       (filter (\<lambda>l. truthy (productId_nl l)) ls)"

lemma sale_calls_simps [simp]:
  "sale_calls actor loc number i [] = []"
  "sale_calls actor loc number i (l # ls) =
     (if truthy (productId_nl l) then [Mutate (sale_request actor loc number i (the (productId_nl l)) (quantity_nl l))] else []) @
     sale_calls actor loc number i ls"
  by (simp_all add: sale_calls_def)

lemma mutate_transaction: "mutateStock G req w = (w', Inr r) \<Longrightarrow> fst (transaction (mutateStock G req) w) = w'"
  by (simp add: transaction_def)

text \<open>The stock of a completed sale is the inventory engine's history over those mutations.\<close>

lemma sell_lines_Inr:
  "sell_lines E actor loc number i rows ls stock cost s = (s', Inr (stock', cost')) \<Longrightarrow>
     s' = s\<lparr>world_k := history (stock_id_env E) (sale_calls actor loc number i ls) (world_k s)\<rparr>"
proof (induction ls arbitrary: stock cost s)
  case Nil
  then show ?case by (simp add: history_def)
next
  case (Cons l ls)
  show ?case
  proof (cases "truthy (productId_nl l)")
    case False
    then show ?thesis using Cons by (simp add: history_def)
  next
    case True
    let ?req = "sale_request actor loc number i (the (productId_nl l)) (quantity_nl l)"
    from Cons.prems True obtain w r stock1 cost1 where m: "mutateStock (stock_id_env E) ?req (world_k s) = (w, Inr r)"
      and rest: "sell_lines E actor loc number i rows ls stock1 cost1 (s\<lparr>world_k := w\<rparr>) = (s', Inr (stock', cost'))"
      by (auto simp: Let_def bind_eff_Inr on_stock_Inr split: if_splits)
    from Cons.IH[OF rest] show ?thesis using True mutate_transaction[OF m] by (simp add: history_def)
  qed
qed

definition grid_lines :: "NormalisedLine list \<Rightarrow> bool" where
  "grid_lines ls \<longleftrightarrow> list_all (\<lambda>l. on_grid 3 (quantity_nl l)) ls"

lemma sale_calls_guarded:
  "grid_lines ls \<Longrightarrow> fresh_ids G \<Longrightarrow> list_all call_guarded (map (Pair G) (sale_calls actor loc number i ls))"
  by (induction ls) (auto simp: grid_lines_def grid_quantity_def sale_request_def)

lemma guarded_allowed: "call_guarded c \<Longrightarrow> call_allowed c"
  by (cases c rule: call_guarded.cases) simp_all

section \<open>Credit, shift and ledger\<close>

lemma update_customer_run [simp]:
  "update_customer i f s = (s\<lparr>customers_k := update_rows (\<lambda>c. id_cs c = i) f (customers_k s)\<rparr>, Inr ())"
  by (simp add: update_customer_def)

text \<open>A customer after a bill.\<close>

definition charged :: "decimal_lib \<Rightarrow> int \<Rightarrow> decimal \<Rightarrow> decimal \<Rightarrow> Customer \<Rightarrow> Customer \<Rightarrow> Customer" where
  "charged D now udhar final c x =
     (let y = (if 0 < udhar then x\<lparr>outstandingBalance_cs := d_plus D (outstandingBalance_cs c) (money D udhar)\<rparr> else x)
      in y\<lparr>totalPurchases_cs := totalPurchases_cs y + money D final, lastPurchaseAt_cs := Some now\<rparr>)"

definition credit_row :: "decimal_lib \<Rightarrow> BillingActor \<Rightarrow> string \<Rightarrow> decimal \<Rightarrow> Customer \<Rightarrow> UdharTransaction" where
  "credit_row D actor i udhar c =
     \<lparr>customerId_ut = id_cs c, invoiceId_ut = i, shopId_ut = shopId_a actor, recordedById_ut = userId_a actor,
      amount_ut = money D udhar, balanceBefore_ut = outstandingBalance_cs c,
      balanceAfter_ut = d_plus D (outstandingBalance_cs c) (money D udhar)\<rparr>"

lemma book_credit_Inr:
  assumes "book_credit D actor i now co udhar final s = (s', Inr u)"
  shows "s' = (case co of None \<Rightarrow> s | Some c \<Rightarrow>
     s\<lparr>udhar_k := udhar_k s @ (if 0 < udhar then [credit_row D actor i udhar c] else []),
       customers_k := update_rows (\<lambda>x. id_cs x = id_cs c) (charged D now udhar final c) (customers_k s)\<rparr>)"
proof (cases co)
  case None
  then show ?thesis using assms by (simp add: book_credit_def)
next
  case (Some c)
  then show ?thesis
    using assms by (auto simp: book_credit_def Let_def charged_def[abs_def] credit_row_def split: if_splits)
qed

lemma book_shift_Inr:
  assumes "book_shift D shift math pm s = (s', Inr u)"
  shows "s' = (case shift of None \<Rightarrow> s | Some i \<Rightarrow>
     s\<lparr>books_k := (books_k s)\<lparr>shifts_bk := update_rows (\<lambda>x. Shift.id_sh x = i) (shift_sale D math pm) (shifts_bk (books_k s))\<rparr>\<rparr>)"
  using assms by (auto simp: book_shift_def Let_def split: option.splits if_splits)

section \<open>A completed transaction\<close>

text \<open>The products of the request as the transaction reads them.\<close>

definition sale_rows :: "string \<Rightarrow> prepared \<Rightarrow> counter \<Rightarrow> string \<Rightarrow> Product option" where
  "sale_rows shop p s = (\<lambda>i. if i \<in> set (productIds (lines_pre' p)) then product_row shop (world_k s) i else None)"

lemma option_eff_Inr:
  "(case v of None \<Rightarrow> throw_eff e | Some x \<Rightarrow> f x) s = (s', Inr r) \<longleftrightarrow> (\<exists>x. v = Some x \<and> f x s = (s', Inr r))"
  by (cases v) simp_all

lemma lift_option_Inr: "(case v of None \<Rightarrow> Inl e | Some x \<Rightarrow> Inr x) = Inr y \<longleftrightarrow> v = Some y"
  by (cases v) simp_all

lemma lift_res_Inr: "lift_res r s = (s', Inr x) \<longleftrightarrow> s' = s \<and> r = Inr x"
  by (auto simp: lift_res_def)

lemma sale_steps:
  assumes "sale_transaction E dto actor now p s = (s', Inr res)"
  obtains rows math pm shift co number its stock cost pr s1 s2 s3 s4 s5 s6 s7 inv x i where
    "rows = sale_rows (shopId_a actor) p s"
    "list_all (\<lambda>k. \<exists>y. rows k = Some y) (productIds (lines_pre' p))"
    "assertWithinMrp (dec_env E) rows (lines_pre' p) = Inr ()"
    "runEngine E (engine_input rows (isInterState_pre p) (lines_pre' p) dto) = Inr math"
    "enforceDiscountAuthority E (role_a actor) (lines_pre' p) math (requestedPercent_pre p) = Inr ()"
    "payment_r math = Some pm"
    "snd (lockShift actor (shiftId_ni dto) s) = Inr shift"
    "snd (lock_credit (dec_env E) actor (customerId_ni dto) (udharAmount_p pm) s) = Inr co"
    "invoice_number (shopId_a actor) (financialYear_env E now) s = (s1, Inr number)"
    "invoice_items (dec_env E) rows (lines_pre' p) (lines_r math) = Inr its"
    "i = invoice_id_env E s1"
    "inv = invoice_row E actor dto (requestHash_pre p) (isInterState_pre p) math pm i number shift now its"
    "create_invoice inv s1 = (s2, Inr ())"
    "create_tenders (map (tender_row (dec_env E) (shopId_a actor) i)
       (filter (\<lambda>t. 0 < amount_t t \<or> 0 < changeAmount_t t) (tenders_p pm))) s2 = (s3, Inr ())"
    "sell_lines E actor (locationId_pre p) number i rows (lines_pre' p) [] 0 s3 = (s4, Inr (stock, cost))"
    "book_credit (dec_env E) actor i now co (udharAmount_p pm) (finalTotal_r math) s4 = (s5, Inr ())"
    "book_shift (dec_env E) shift math pm s5 = (s6, Inr ())"
    "on_ledger (post (dec_env E) (posting_id_env E) (sale_posting (dec_env E) (shopId_a actor) i number math pm cost)) s6 = (s7, Inr pr)"
    "s' = s7\<lparr>audits_k := audits_k s7 @ [\<lparr>shopId_ar = shopId_a actor, userId_ar = userId_a actor, action_ar = ''INVOICE_CREATED'', entityId_ar = i\<rparr>],
        outbox_k := outbox_k s7 @ [\<lparr>shopId_se = shopId_a actor, type_se = ''INVOICE_CREATED'', entityId_se = i,
             items_se = map (\<lambda>x. (productId_so x, quantity_so x, productStockAfter_so x)) stock\<rparr>]\<rparr>"
    "find (\<lambda>x. id_inv x = i) (invoices_k s7) = Some x"
    "res = \<lparr>invoice_cr = x, stock_cr = stock, shiftId_cr = shift, replayed_cr = False\<rparr>"
proof -
  have sh: "lockShift actor (shiftId_ni dto) s = (t, Inr v) \<Longrightarrow> t = s \<and> snd (lockShift actor (shiftId_ni dto) s) = Inr v" for t v
    using lockShift_state[of actor "shiftId_ni dto" s] by simp
  have cr: "lock_credit (dec_env E) actor (customerId_ni dto) u s = (t, Inr v) \<Longrightarrow> t = s \<and> snd (lock_credit (dec_env E) actor (customerId_ni dto) u s) = Inr v" for t v u
    using lock_credit_state[of "dec_env E" actor "customerId_ni dto" u s] by simp
  from assms show thesis
    unfolding sale_transaction_def Let_def loadProducts_def priced_bill_def sale_rows_def[symmetric]
    by (auto simp: bind_eff_Inr option_eff_Inr lift_res_Inr lift_option_Inr sale_rows_def[symmetric, abs_def] dest!: sh cr on_stock_lock simp del: lift_res_run split: if_splits)
       (rule that, (rule refl | assumption)+)
qed

text \<open>The journal rows a sale leaves.\<close>

definition created_audit :: "BillingActor \<Rightarrow> string \<Rightarrow> AuditRow" where
  "created_audit actor i = \<lparr>shopId_ar = shopId_a actor, userId_ar = userId_a actor, action_ar = ''INVOICE_CREATED'', entityId_ar = i\<rparr>"

definition created_event :: "BillingActor \<Rightarrow> string \<Rightarrow> StockOutcome list \<Rightarrow> StagedEvent" where
  "created_event actor i stock =
     \<lparr>shopId_se = shopId_a actor, type_se = ''INVOICE_CREATED'', entityId_se = i,
      items_se = map (\<lambda>x. (productId_so x, quantity_so x, productStockAfter_so x)) stock\<rparr>"

definition shift_books :: "decimal_lib \<Rightarrow> string option \<Rightarrow> InvoiceCalculationResultV1 \<Rightarrow> PaymentResult \<Rightarrow> books \<Rightarrow> books" where
  "shift_books D shift math pm b = (case shift of None \<Rightarrow> b | Some i \<Rightarrow>
     b\<lparr>shifts_bk := update_rows (\<lambda>x. Shift.id_sh x = i) (shift_sale D math pm) (shifts_bk b)\<rparr>)"

definition customer_rows :: "decimal_lib \<Rightarrow> int \<Rightarrow> decimal \<Rightarrow> decimal \<Rightarrow> Customer option \<Rightarrow> Customer list \<Rightarrow> Customer list" where
  "customer_rows D now udhar final co rows =
     (case co of None \<Rightarrow> rows | Some c \<Rightarrow> update_rows (\<lambda>x. id_cs x = id_cs c) (charged D now udhar final c) rows)"

definition udhar_rows :: "decimal_lib \<Rightarrow> BillingActor \<Rightarrow> string \<Rightarrow> decimal \<Rightarrow> Customer option \<Rightarrow> UdharTransaction list" where
  "udhar_rows D actor i udhar co =
     (case co of None \<Rightarrow> [] | Some c \<Rightarrow> if 0 < udhar then [credit_row D actor i udhar c] else [])"

text \<open>A completed transaction, table by table.\<close>

lemma sale_completed:
  assumes "sale_transaction E dto actor now p s = (s', Inr res)"
  obtains rows math pm shift co number prefix its stock cost pr inv i x where
    "rows = sale_rows (shopId_a actor) p s"
    "list_all (\<lambda>k. \<exists>y. rows k = Some y) (productIds (lines_pre' p))"
    "assertWithinMrp (dec_env E) rows (lines_pre' p) = Inr ()"
    "runEngine E (engine_input rows (isInterState_pre p) (lines_pre' p) dto) = Inr math"
    "enforceDiscountAuthority E (role_a actor) (lines_pre' p) math (requestedPercent_pre p) = Inr ()"
    "payment_r math = Some pm"
    "snd (lockShift actor (shiftId_ni dto) s) = Inr shift"
    "snd (lock_credit (dec_env E) actor (customerId_ni dto) (udharAmount_p pm) s) = Inr co"
    "posDocumentPrefix ''INV'' (financialYear_env E now) = Some prefix"
    "number = sequence_number prefix (Suc (sequence_of (shopId_a actor) prefix s))" "isGstDocumentNumber number"
    "invoice_items (dec_env E) rows (lines_pre' p) (lines_r math) = Inr its"
    "inv = invoice_row E actor dto (requestHash_pre p) (isInterState_pre p) math pm i number shift now its"
    "\<exists>t. invoices_k t = invoices_k s \<and> books_k t = books_k s \<and> i = invoice_id_env E t"
    "invoice_fits inv"
    "\<forall>y \<in> set (invoices_k s). shopId_inv y = shopId_a actor \<longrightarrow> idempotencyKey_inv y \<noteq> idempotencyKey_ni dto \<and>
        \<not> (financialYear_inv y = financialYear_env E now \<and> invoiceNumber_inv y = number)"
    "invoices_k s' = invoices_k s @ [inv]"
    "payments_k s' = payments_k s @ map (tender_row (dec_env E) (shopId_a actor) i)
       (filter (\<lambda>t. 0 < amount_t t \<or> 0 < changeAmount_t t) (tenders_p pm))"
    "world_k s' = history (stock_id_env E) (sale_calls actor (locationId_pre p) number i (lines_pre' p)) (world_k s)"
    "customers_k s' = customer_rows (dec_env E) now (udharAmount_p pm) (finalTotal_r math) co (customers_k s)"
    "udhar_k s' = udhar_k s @ udhar_rows (dec_env E) actor i (udharAmount_p pm) co"
    "sequences_k s' = (sequences_k s)((shopId_a actor, ''POS_INVOICE'', prefix) \<mapsto> Suc (sequence_of (shopId_a actor) prefix s))"
    "post (dec_env E) (posting_id_env E) (sale_posting (dec_env E) (shopId_a actor) i number math pm cost)
       (shift_books (dec_env E) shift math pm (books_k s)) = (books_k s', Inr pr)"
    "audits_k s' = audits_k s @ [created_audit actor i]" "outbox_k s' = outbox_k s @ [created_event actor i stock]"
    "redis_k s' = redis_k s"
    "find (\<lambda>y. id_inv y = i) (invoices_k s') = Some x"
    "res = \<lparr>invoice_cr = x, stock_cr = stock, shiftId_cr = shift, replayed_cr = False\<rparr>"
proof -
  from assms show thesis
  proof (cases rule: sale_steps)
    case (1 rows math pm shift co number its stock cost pr s1 s2 s3 s4 s5 s6 s7 inv x i)
    from invoice_number_Inr[OF 1(9)] obtain prefix where pre: "posDocumentPrefix ''INV'' (financialYear_env E now) = Some prefix"
      "number = sequence_number prefix (Suc (sequence_of (shopId_a actor) prefix s))" "isGstDocumentNumber number"
      and s1: "s1 = s\<lparr>sequences_k := (sequences_k s)((shopId_a actor, ''POS_INVOICE'', prefix) \<mapsto>
        Suc (sequence_of (shopId_a actor) prefix s))\<rparr>" by blast
    note ci = 1(13)[unfolded create_invoice_Inr]
    note s3 = create_tenders_Inr[OF 1(14)] and s4 = sell_lines_Inr[OF 1(15)] and s5 = book_credit_Inr[OF 1(16)]
      and s6 = book_shift_Inr[OF 1(17)]
    from 1(18) obtain b where b: "post (dec_env E) (posting_id_env E)
        (sale_posting (dec_env E) (shopId_a actor) i number math pm cost) (books_k s6) = (b, Inr pr)"
      and s7: "s7 = s6\<lparr>books_k := b\<rparr>" by (auto simp: on_ledger_Inr)
    have s2: "s2 = s1\<lparr>invoices_k := invoices_k s1 @ [inv]\<rparr>" and fits: "invoice_fits inv" using ci by blast+
    have key: "shopId_inv inv = shopId_a actor" "idempotencyKey_inv inv = idempotencyKey_ni dto"
      "financialYear_inv inv = financialYear_env E now" "invoiceNumber_inv inv = number"
      by (simp_all add: 1(12) invoice_row_def Let_def)
    have fresh: "\<forall>y \<in> set (invoices_k s). shopId_inv y = shopId_a actor \<longrightarrow> idempotencyKey_inv y \<noteq> idempotencyKey_ni dto \<and>
        \<not> (financialYear_inv y = financialYear_env E now \<and> invoiceNumber_inv y = number)"
      using ci unfolding key s1 by simp
    have id: "\<exists>t. invoices_k t = invoices_k s \<and> books_k t = books_k s \<and> i = invoice_id_env E t"
      using 1(11) s1 by (intro exI[of _ s1]) simp
    note path = 1(19) s7 s6 s5 s4 s3 s2 s1
    have tables: "invoices_k s' = invoices_k s @ [inv]"
      "payments_k s' = payments_k s @ map (tender_row (dec_env E) (shopId_a actor) i)
         (filter (\<lambda>t. 0 < amount_t t \<or> 0 < changeAmount_t t) (tenders_p pm))"
      "world_k s' = history (stock_id_env E) (sale_calls actor (locationId_pre p) number i (lines_pre' p)) (world_k s)"
      "customers_k s' = customer_rows (dec_env E) now (udharAmount_p pm) (finalTotal_r math) co (customers_k s)"
      "udhar_k s' = udhar_k s @ udhar_rows (dec_env E) actor i (udharAmount_p pm) co"
      "sequences_k s' = (sequences_k s)((shopId_a actor, ''POS_INVOICE'', prefix) \<mapsto> Suc (sequence_of (shopId_a actor) prefix s))"
      "audits_k s' = audits_k s @ [created_audit actor i]" "outbox_k s' = outbox_k s @ [created_event actor i stock]"
      "redis_k s' = redis_k s" "books_k s' = b" "books_k s6 = shift_books (dec_env E) shift math pm (books_k s)"
      by (simp_all add: path created_audit_def created_event_def customer_rows_def udhar_rows_def shift_books_def split: option.split)
    have found: "find (\<lambda>y. id_inv y = i) (invoices_k s') = Some x" using 1(19,20) by simp
    show thesis
      by (rule that[OF 1(1-8) pre 1(10,12) id fits fresh tables(1-6) _ tables(7-9) found 1(21)]) (use b tables(10,11) in simp)
  qed
qed

end
