(* ===== verification/CheckoutRuns.thy ===== *)
theory CheckoutRuns
  imports CheckoutSteps
begin

text \<open>
  The runs of a checkout: what a request that is refused or answered from a stored invoice may
  touch, what it asks of Redis, and where in a run the one completed transaction stands.
\<close>

section \<open>What a request may touch outside its transaction\<close>

definition untouched :: "string \<Rightarrow> counter \<Rightarrow> counter \<Rightarrow> bool" where
  "untouched shop s s' \<longleftrightarrow>
     places_only shop (world_k s) (world_k s') \<and> books_k s' = books_k s \<and> invoices_k s' = invoices_k s \<and>
     payments_k s' = payments_k s \<and> customers_k s' = customers_k s \<and> udhar_k s' = udhar_k s \<and>
     sequences_k s' = sequences_k s \<and> outbox_k s' = outbox_k s \<and>
     (\<exists>as. audits_k s' = audits_k s @ as \<and> (\<forall>a \<in> set as. shopId_ar a = shop \<and> action_ar a = ''INVOICE_REJECTED''))"

lemma untouched_refl [simp]: "untouched shop s s"
  using reflp_places_only[of shop] by (simp add: untouched_def reflp_def)

lemma reflp_untouched [simp, intro]: "reflp (untouched shop)"
  by (simp add: reflp_def)

lemma untouched_trans: "untouched shop s t \<Longrightarrow> untouched shop t u \<Longrightarrow> untouched shop s u"
  using transp_places_only[of shop] unfolding untouched_def transp_def by fastforce

lemma transp_untouched [simp, intro]: "transp (untouched shop)"
  by (meson transpI untouched_trans)

lemma untouched_redis [simp]: "untouched shop s (s\<lparr>redis_k := r\<rparr>)"
  using reflp_places_only[of shop] by (simp add: untouched_def reflp_def)

lemma untouched_world: "places_only shop (world_k s) w \<Longrightarrow> untouched shop s (s\<lparr>world_k := w\<rparr>)"
  by (simp add: untouched_def)

lemma redis_send_keeps: "keeps (untouched shop) (redis_send cs)"
  unfolding redis_send_def by (intro keeps_intros) simp

lemma auditRejected_keeps: "keeps (untouched (shopId_a actor)) (auditRejected actor code)"
  unfolding auditRejected_def using reflp_places_only[of "shopId_a actor"]
  by (intro keeps_intros) (simp add: untouched_def reflp_def)

lemma keeps_lift [keeps_intros]: "reflp R \<Longrightarrow> keeps R (lift_res r)"
  by (simp add: keeps_def reflp_def)

lemma keeps_on_stock: "keeps (places_only shop) m \<Longrightarrow> keeps (untouched shop) (on_stock f m)"
  unfolding keeps_def on_stock_def by (auto simp: untouched_world split: prod.split sum.split) (metis fst_conv untouched_world)+

lemma loadProducts_state: "fst (loadProducts shop ids s) = s"
  by (simp add: loadProducts_def bind_eff_def)

lemma resolveInterState_state: "fst (resolveInterState shop c v s) = s"
  by (auto simp: resolveInterState_def bind_eff_def Let_def)

lemma priced_bill_state: "fst (priced_bill E actor dto ls i rows f s) = s"
  by (auto simp: priced_bill_def bind_eff_def split: sum.split)

lemma redis_precheck_keeps: "keeps (untouched shop) (redis_precheck E shop rows ls)"
proof (induction ls)
  case Nil
  show ?case unfolding redis_precheck.simps by (rule keeps_return) simp
next
  case (Cons l ls)
  then show ?case unfolding redis_precheck.simps by (intro keeps_intros redis_send_keeps) simp_all
qed

lemma prepare_sale_keeps: "keeps (untouched (shopId_a actor)) (prepare_sale E dto actor)"
proof -
  note same = keeps_same[OF reflp_untouched]
  have sum: "keeps R (case v of Inl a \<Rightarrow> f a | Inr b \<Rightarrow> g b)" if "\<And>a. keeps R (f a)" "\<And>b. keeps R (g b)" for R v f g
    using that by (cases v) simp_all
  show ?thesis
    unfolding prepare_sale_def Let_def
    by (intro keeps_intros reflp_untouched transp_untouched same[OF loadProducts_state] same[OF resolveInterState_state]
        same[OF priced_bill_state] keeps_on_stock[OF resolveSaleLocation_keeps] auditRejected_keeps redis_precheck_keeps)
qed

lemma fail_sale_run: "\<exists>s'. fail_sale actor taken e s = (s', Inl e) \<and> untouched (shopId_a actor) s s' \<and>
   redis_k s' = redis_k s @ map (\<lambda>l. RestoreStock (shopId_a actor) (the (productId_nl l)) (quantity_nl l))
     (filter (\<lambda>l. truthy (productId_nl l)) taken)"
  using reflp_places_only[of "shopId_a actor"]
  by (auto simp: fail_sale_def restoreRedis_def redis_send_def auditRejected_def untouched_def reflp_def)

section \<open>Redis\<close>

text \<open>What a list of commands took from a product's counter and did not give back.\<close>

fun held_by :: "string \<Rightarrow> string \<Rightarrow> redis_command \<Rightarrow> rat" where
  "held_by shop p (DecrementStock sh q x status) = (if sh = shop \<and> q = p \<and> status = PRE_OK then x else 0)"
| "held_by shop p (RestoreStock sh q x) = (if sh = shop \<and> q = p then - x else 0)"
| "held_by shop p (SyncStock sh q x) = 0"

definition held :: "string \<Rightarrow> string \<Rightarrow> redis_command list \<Rightarrow> rat" where
  "held shop p cs = sum_list (map (held_by shop p) cs)"

lemma held_simps [simp]: "held shop p [] = 0" "held shop p (c # cs) = held_by shop p c + held shop p cs"
  "held shop p (cs @ ds) = held shop p cs + held shop p ds"
  by (simp_all add: held_def)

definition restores :: "string \<Rightarrow> NormalisedLine list \<Rightarrow> redis_command list" where
  "restores shop ls = map (\<lambda>l. RestoreStock shop (the (productId_nl l)) (quantity_nl l)) (filter (\<lambda>l. truthy (productId_nl l)) ls)"

lemma restoreRedis_run: "restoreRedis shop ls s = (s\<lparr>redis_k := redis_k s @ restores shop ls\<rparr>, Inr ())"
  by (simp add: restoreRedis_def redis_send_def restores_def)

definition returnable :: "string \<Rightarrow> NormalisedLine list \<Rightarrow> redis_command list \<Rightarrow> bool" where
  "returnable shop taken cs \<longleftrightarrow> (\<forall>p. held shop p (cs @ restores shop taken) = 0)"

lemma redis_precheck_run:
  "\<forall>l \<in> set ls. truthy (productId_nl l) \<Longrightarrow>
   \<exists>taken cs. redis_precheck E shop rows ls s = (s\<lparr>redis_k := redis_k s @ cs\<rparr>, Inr taken) \<and> returnable shop taken cs"
proof (induction ls arbitrary: s)
  case Nil
  show ?case by (intro exI[of _ "[]"]) (simp add: returnable_def restores_def)
next
  case (Cons l ls)
  let ?p = "the (productId_nl l)"
  define status where "status = redis_env E (redis_k s) ?p (quantity_nl l)"
  define c where "c = DecrementStock shop ?p (quantity_nl l) status #
     (if status = PRE_INSUFFICIENT then [SyncStock shop ?p (currentStock_pr (the (rows ?p)))] else [])"
  obtain taken cs where ih: "redis_precheck E shop rows ls (s\<lparr>redis_k := redis_k s @ c\<rparr>) =
      (s\<lparr>redis_k := (redis_k s @ c) @ cs\<rparr>, Inr taken)" and r: "returnable shop taken cs"
    using Cons.IH[of "s\<lparr>redis_k := redis_k s @ c\<rparr>"] Cons.prems by auto
  have "redis_precheck E shop rows (l # ls) s =
      (s\<lparr>redis_k := redis_k s @ (c @ cs)\<rparr>, Inr (if status = PRE_OK then l # taken else taken))"
    using ih by (simp add: redis_send_def bind_eff_def status_def[symmetric] c_def[symmetric])
  moreover have "returnable shop (if status = PRE_OK then l # taken else taken) (c @ cs)"
    using r Cons.prems by (auto simp: returnable_def restores_def c_def algebra_simps)
  ultimately show ?case by blast
qed

section \<open>Before the transaction\<close>

lemma on_stock_redis: "on_stock f m s = (s', r) \<Longrightarrow> redis_k s' = redis_k s \<and> invoices_k s' = invoices_k s"
  by (auto simp: on_stock_def split: prod.splits sum.splits)

lemma stocked_truthy: "l \<in> set (stockedLines rows ls) \<Longrightarrow> truthy (productId_nl l)"
  by (auto simp: stockedLines_def)

lemma loadProducts_out: "loadProducts shop ids s = (s', r) \<Longrightarrow> s' = s"
  using loadProducts_state[of shop ids s] by simp

lemma resolveInterState_out: "resolveInterState shop c v s = (s', r) \<Longrightarrow> s' = s"
  using resolveInterState_state[of shop c v s] by simp

lemma priced_bill_out: "priced_bill E actor dto ls i rows f s = (s', r) \<Longrightarrow> s' = s"
  using priced_bill_state[of E actor dto ls i rows f s] by simp

lemma auditRejected_run: "auditRejected actor code s = (s', r) \<Longrightarrow> redis_k s' = redis_k s \<and> invoices_k s' = invoices_k s"
  by (auto simp: auditRejected_def)

text \<open>A request is refused, answered from the invoice of its key, or prepared.\<close>

lemma prepare_refused:
  assumes "prepare_sale E dto actor s = (s', Inl e)"
  shows "redis_k s' = redis_k s"
proof -
  have pre: "\<not> (redis_precheck E shop rows (stockedLines rows ls) t = (t', Inl e))" for shop rows ls t t'
    using redis_precheck_run[of "stockedLines rows ls" E shop rows t] stocked_truthy by fastforce
  show ?thesis
    using assms unfolding prepare_sale_def Let_def
    by (auto simp: bind_eff_Inl pre split: option.splits if_splits
        dest!: loadProducts_out resolveInterState_out priced_bill_out on_stock_redis auditRejected_run)
qed

lemma prepare_replayed:
  assumes "prepare_sale E dto actor s = (s', Inr (Inl r))"
  shows "s' = s \<and> (\<exists>ls x. normaliseLines E (items_ni dto) = Inr ls \<and> find_keyed (shopId_a actor) (idempotencyKey_ni dto) s = Some x \<and>
    replayOrReject E ls dto (hashRequest E ls dto False) x = Inr r)"
  using assms unfolding prepare_sale_def Let_def
  by (auto simp: bind_eff_Inr split: option.splits if_splits)

lemma prepare_ready:
  assumes "prepare_sale E dto actor s = (s', Inr (Inr p))"
  shows "normaliseLines E (items_ni dto) = Inr (lines_pre' p)"
    and "requestHash_pre p = hashRequest E (lines_pre' p) dto False"
    and "find_keyed (shopId_a actor) (idempotencyKey_ni dto) s = None"
    and "\<exists>cs. redis_k s' = redis_k s @ cs \<and> returnable (shopId_a actor) (decremented_pre p) cs"
    and "0 < request_udhar dto \<Longrightarrow> truthy (customerId_ni dto) \<and> creditSales_env E"
proof -
  have pre: "\<exists>cs. redis_k t' = redis_k t @ cs \<and> returnable shop taken cs"
    if "redis_precheck E shop rows (stockedLines rows ls) t = (t', Inr taken)" for shop rows ls t t' taken
    using redis_precheck_run[of "stockedLines rows ls" E shop rows t] stocked_truthy that by fastforce
  from assms have "normaliseLines E (items_ni dto) = Inr (lines_pre' p) \<and>
      requestHash_pre p = hashRequest E (lines_pre' p) dto False \<and>
      find_keyed (shopId_a actor) (idempotencyKey_ni dto) s = None \<and>
      (0 < request_udhar dto \<longrightarrow> truthy (customerId_ni dto) \<and> creditSales_env E) \<and>
      (\<exists>rows t. redis_k t = redis_k s \<and>
        redis_precheck E (shopId_a actor) rows (stockedLines rows (lines_pre' p)) t = (s', Inr (decremented_pre p)))"
    unfolding prepare_sale_def Let_def
    by (auto simp: bind_eff_Inr split: option.splits if_splits
        dest!: loadProducts_out resolveInterState_out priced_bill_out on_stock_redis auditRejected_run) blast+
  then show "normaliseLines E (items_ni dto) = Inr (lines_pre' p)" "requestHash_pre p = hashRequest E (lines_pre' p) dto False"
    "find_keyed (shopId_a actor) (idempotencyKey_ni dto) s = None"
    "\<exists>cs. redis_k s' = redis_k s @ cs \<and> returnable (shopId_a actor) (decremented_pre p) cs"
    "0 < request_udhar dto \<Longrightarrow> truthy (customerId_ni dto) \<and> creditSales_env E"
    using pre by metis+
qed

section \<open>The attempts\<close>

lemma one_attempt_Inl:
  "one_attempt aborted m s = (s', Inl e) \<Longrightarrow> untouched shop s s' \<and> redis_k s' = redis_k s"
  by (auto simp: one_attempt_def atomically_def untouched_def places_only_def split: if_splits prod.splits sum.splits)

lemma one_attempt_Inr: "one_attempt aborted m s = (s', Inr r) \<Longrightarrow> m s = (s', Inr r)"
  by (auto simp: one_attempt_def atomically_def split: if_splits prod.splits sum.splits)

definition syncs :: "string \<Rightarrow> StockOutcome list \<Rightarrow> redis_command list" where
  "syncs shop stock = map (\<lambda>x. SyncStock shop (productId_so x) (productStockAfter_so x)) stock"

text \<open>How a checkout from \<open>s\<close> to \<open>s'\<close> may end: \<open>p\<close> is what it had prepared.\<close>

definition refused_run :: "BillingActor \<Rightarrow> prepared \<Rightarrow> counter \<Rightarrow> counter \<Rightarrow> bool" where
  "refused_run actor p s s' \<longleftrightarrow> untouched (shopId_a actor) s s' \<and>
     redis_k s' = redis_k s @ restores (shopId_a actor) (decremented_pre p)"

definition replayed_run ::
    "checkout_env \<Rightarrow> CreateInvoiceDto \<Rightarrow> BillingActor \<Rightarrow> prepared \<Rightarrow> counter \<Rightarrow> counter \<Rightarrow> CreateInvoiceResult \<Rightarrow> bool" where
  "replayed_run E dto actor p s s' r \<longleftrightarrow> refused_run actor p s s' \<and>
     (\<exists>x. find_keyed (shopId_a actor) (idempotencyKey_ni dto) s' = Some x \<and>
        replayOrReject E (lines_pre' p) dto (requestHash_pre p) x = Inr r)"

definition sold_run ::
    "checkout_env \<Rightarrow> CreateInvoiceDto \<Rightarrow> BillingActor \<Rightarrow> prepared \<Rightarrow> counter \<Rightarrow> counter \<Rightarrow> CreateInvoiceResult \<Rightarrow> bool" where
  "sold_run E dto actor p s s' r \<longleftrightarrow>
     (\<exists>t t' now. untouched (shopId_a actor) s t \<and> redis_k t = redis_k s \<and>
        sale_transaction E dto actor now p t = (t', Inr r) \<and>
        s' = t'\<lparr>redis_k := redis_k t' @ syncs (shopId_a actor) (stock_cr r)\<rparr>)"

lemma fail_sale_refused: "fail_sale actor (decremented_pre p) e s = (s', out) \<Longrightarrow> out = Inl e \<and> refused_run actor p s s'"
  using fail_sale_run[of actor "decremented_pre p" e s] unfolding refused_run_def restores_def by (metis prod.inject)

lemma refused_run_trans:
  "untouched (shopId_a actor) s t \<Longrightarrow> redis_k t = redis_k s \<Longrightarrow> refused_run actor p t s' \<Longrightarrow> refused_run actor p s s'"
  by (auto simp: refused_run_def intro: untouched_trans)

lemma attempt_sale_cases:
  "attempt_sale n E dto actor clock p s = (s', out) \<Longrightarrow>
     (case out of Inl e \<Rightarrow> refused_run actor p s s'
      | Inr r \<Rightarrow> replayed_run E dto actor p s s' r \<or> sold_run E dto actor p s s' r)"
proof (induction n arbitrary: clock s)
  case 0
  then show ?case by (auto dest: fail_sale_refused)
next
  case (Suc n)
  obtain now aborted where c: "(case clock of [] \<Rightarrow> (0, False) | c # _ \<Rightarrow> c) = (now, aborted)" by fastforce
  obtain t a where att: "one_attempt aborted (sale_transaction E dto actor now p) s = (t, a)" by fastforce
  show ?case
  proof (cases a)
    case (Inr r)
    have "s' = t\<lparr>redis_k := redis_k t @ syncs (shopId_a actor) (stock_cr r)\<rparr> \<and> out = Inr r"
      using Suc.prems att c Inr by (auto simp: afterStockChange_def redis_send_def syncs_def)
    moreover have "sale_transaction E dto actor now p s = (t, Inr r)" using att Inr by (blast dest: one_attempt_Inr)
    ultimately have "sold_run E dto actor p s s' r" "out = Inr r" unfolding sold_run_def using untouched_refl by blast+
    then show ?thesis by simp
  next
    case (Inl e)
    note q = one_attempt_Inl[OF att[unfolded Inl], of "shopId_a actor"]
    let ?keyed = "find_keyed (shopId_a actor) (idempotencyKey_ni dto) t"
    consider (taken) x where "e = KeyTaken" "?keyed = Some x"
      | (retry) "\<not> (e = KeyTaken \<and> ?keyed \<noteq> None)" "retryable e \<and> 0 < n"
      | (failed) "\<not> (e = KeyTaken \<and> ?keyed \<noteq> None)" "\<not> (retryable e \<and> 0 < n)" by blast
    then show ?thesis
    proof cases
      case taken
      let ?ans = "replayOrReject E (lines_pre' p) dto (requestHash_pre p) x"
      show ?thesis
      proof (cases ?ans)
        case (Inr r)
        then have "s' = t\<lparr>redis_k := redis_k t @ restores (shopId_a actor) (decremented_pre p)\<rparr>" "out = Inr r"
          using Suc.prems att c \<open>a = Inl e\<close> taken by (auto simp: bind_eff_def restoreRedis_run)
        moreover from this have "refused_run actor p s s'" using q by (auto simp: refused_run_def intro: untouched_trans)
        ultimately show ?thesis using taken(2) Inr by (auto simp: replayed_run_def find_keyed_def)
      next
        case (Inl e')
        then have "fail_sale actor (decremented_pre p) e' t = (s', out)" using Suc.prems att c \<open>a = Inl e\<close> taken by simp
        then show ?thesis using q refused_run_trans by (fastforce dest: fail_sale_refused)
      qed
    next
      case retry
      obtain l where l: "loadProducts (shopId_a actor) (productIds (lines_pre' p)) t = (t, l)"
        by (metis loadProducts_state prod.collapse)
      show ?thesis
      proof (cases l)
        case (Inl e')
        then have "fail_sale actor (decremented_pre p) e' t = (s', out)" using Suc.prems att c \<open>a = Inl e\<close> retry l by auto
        then show ?thesis using q refused_run_trans by (fastforce dest: fail_sale_refused)
      next
        case (Inr rows)
        then have "attempt_sale n E dto actor (tl clock) p t = (s', out)" using Suc.prems att c \<open>a = Inl e\<close> retry l by auto
        from Suc.IH[OF this] show ?thesis
          using q refused_run_trans[of actor s t p s'] untouched_trans[of "shopId_a actor" s t]
          by (auto simp: replayed_run_def sold_run_def split: sum.splits) metis
      qed
    next
      case failed
      then have "fail_sale actor (decremented_pre p) e t = (s', out)" using Suc.prems att c Inl by auto
      then show ?thesis using q refused_run_trans by (fastforce dest: fail_sale_refused)
    qed
  qed
qed

text \<open>A checkout ends refused, answered, or with the one transaction that completed.\<close>

lemma checkout_cases:
  assumes "createInvoice E dto actor clock s = (s', out)"
  obtains (refused) e cs where "out = Inl e" "untouched (shopId_a actor) s s'" "redis_k s' = redis_k s @ cs"
      "\<forall>q. held (shopId_a actor) q cs = 0"
  | (answered) r ls x cs where "out = Inr r" "untouched (shopId_a actor) s s'" "redis_k s' = redis_k s @ cs"
      "\<forall>q. held (shopId_a actor) q cs = 0" "normaliseLines E (items_ni dto) = Inr ls"
      "find_keyed (shopId_a actor) (idempotencyKey_ni dto) s' = Some x"
      "replayOrReject E ls dto (hashRequest E ls dto False) x = Inr r"
  | (sold) r p t t' now where "out = Inr r" "untouched (shopId_a actor) s t"
      "normaliseLines E (items_ni dto) = Inr (lines_pre' p)" "requestHash_pre p = hashRequest E (lines_pre' p) dto False"
      "sale_transaction E dto actor now p t = (t', Inr r)"
      "s' = t'\<lparr>redis_k := redis_k t' @ syncs (shopId_a actor) (stock_cr r)\<rparr>"
      "0 < request_udhar dto \<longrightarrow> truthy (customerId_ni dto) \<and> creditSales_env E"
proof -
  obtain t a where prep: "prepare_sale E dto actor s = (t, a)" by fastforce
  have u: "untouched (shopId_a actor) s t" using keepsD[OF prepare_sale_keeps prep] .
  consider (no) e where "a = Inl e" | (old) r where "a = Inr (Inl r)" | (new) p where "a = Inr (Inr p)"
    by (metis sum.exhaust)
  then show thesis
  proof cases
    case (no e)
    then show thesis using refused[of e "[]"] prepare_refused[of E dto actor s t e] prep u assms
      by (simp add: createInvoice_def bind_eff_def)
  next
    case (old r)
    then show thesis using prepare_replayed[of E dto actor s t r] prep assms
        answered[of r "[]"] by (auto simp: createInvoice_def bind_eff_def)
  next
    case (new p)
    note P = prepare_ready[OF prep[unfolded new]]
    obtain cs where cs: "redis_k t = redis_k s @ cs" "returnable (shopId_a actor) (decremented_pre p) cs" using P(4) by blast
    have fin: "attempt_sale MAX_RETRIES E dto actor clock p t = (s', out)"
      using assms prep new by (simp add: createInvoice_def bind_eff_def finish_sale_def)
    have R: "untouched (shopId_a actor) s s' \<and> redis_k s' = redis_k s @ (cs @ restores (shopId_a actor) (decremented_pre p)) \<and>
        (\<forall>q. held (shopId_a actor) q (cs @ restores (shopId_a actor) (decremented_pre p)) = 0)" if "refused_run actor p t s'"
      using that u cs unfolding refused_run_def returnable_def by (auto intro: untouched_trans)
    show thesis
    proof (cases out)
      case (Inl e)
      with attempt_sale_cases[OF fin] R refused show thesis by simp
    next
      case (Inr r)
      then consider "replayed_run E dto actor p t s' r" | "sold_run E dto actor p t s' r" using attempt_sale_cases[OF fin] by auto
      then show thesis
      proof cases
        case 1
        with R answered[OF Inr _ _ _ P(1)] P(2) show thesis unfolding replayed_run_def by auto
      next
        case 2
        then obtain t1 t' now where "untouched (shopId_a actor) t t1" "sale_transaction E dto actor now p t1 = (t', Inr r)"
          "s' = t'\<lparr>redis_k := redis_k t' @ syncs (shopId_a actor) (stock_cr r)\<rparr>" unfolding sold_run_def by blast
        with sold[OF Inr _ P(1,2)] u P(5) show thesis by (blast intro: untouched_trans)
      qed
    qed
  qed
qed

end
