(* ===== verification/CheckoutLaws.thy ===== *)
theory CheckoutLaws
  imports CheckoutRuns
begin

text \<open>
  What every completed checkout keeps: the stock and its journal, the ledger, the invoice
  numbers and keys, and the customers' credit; and that a checkout which does not complete keeps
  them too. A history may interleave the transactions of several tills and other stock movements.
\<close>

section \<open>Stock\<close>

definition stock_ok :: "world \<Rightarrow> bool" where
  "stock_ok w \<longleftrightarrow> rows_ok w \<and> balanced w \<and> floor_ok w \<and> journal_ok w"

lemma stock_ok_history:
  assumes "list_all call_guarded (map (Pair G) calls)" and "stock_ok w"
  shows "stock_ok (history G calls w)"
proof -
  have al: "list_all call_allowed (map (Pair G) calls)" using assms(1) guarded_allowed by (auto simp: list_all_iff)
  show ?thesis
    using aggregate.history[OF al, of w] shelf.history[OF assms(1), of w] bookkeeping.history[OF al, of w] assms(2)
    by (simp add: stock_ok_def history_def)
qed

lemma stock_ok_places: "places_only shop w w' \<Longrightarrow> stock_ok w \<Longrightarrow> stock_ok w'"
  using rows_ok_cong[of w' w] live_stock_cong[of w' w]
  by (simp add: places_only_def stock_ok_def balanced_def floor_ok_def journal_ok_def)

section \<open>Books\<close>

lemma ledger_ok_shift [simp]: "ledger_ok (shift_books D shift math pm b) = ledger_ok b"
  by (simp add: shift_books_def ledger_ok_def trial_ok_def account_balance_def split: option.split)

lemma shift_books_fields [simp]:
  "postings_bk (shift_books D shift math pm b) = postings_bk b" "transactions_bk (shift_books D shift math pm b) = transactions_bk b"
  "balances_bk (shift_books D shift math pm b) = balances_bk b" "account_balance (shift_books D shift math pm b) = account_balance b"
  by (simp_all add: shift_books_def account_balance_def fun_eq_iff split: option.split)

lemma new_posting_amounts:
  assumes "post D G p s = (s', Inr r)" and "find_posting p s = None"
  shows "list_all (\<lambda>e. fits_column 14 (amount_ei e)) (normalise_entries D (entries_po p))"
proof (cases "normalise_entries D (entries_po p) = []")
  case False
  let ?es = "sort_key (\<lambda>e. account_rank (account_ei e)) (normalise_entries D (entries_po p))"
  from assms False obtain cur t t' u where "post_loop D p (G s) cur ?es t = (t', Inr u)"
    unfolding post_def postEntries_def by (auto simp: Let_def bind_eff_Inr split: if_splits)
  from post_loop_amounts[OF this] show ?thesis by (simp add: list_all_iff)
qed simp

context decimal_arith
begin

text \<open>A posting the columns took, with few entries, is one the arithmetic added exactly.\<close>

lemma posted_fits:
  assumes "post D G p s = (s', Inr r)" and "find_posting p s = None" and "length (entries_po p) \<le> 7"
  shows "posting_fits D p"
proof -
  let ?es = "normalise_entries D (entries_po p)"
  have "\<bar>amount_ei e\<bar> * 100 < 10 ^ 14" if "e \<in> set ?es" for e
    using new_posting_amounts[OF assms(1,2)] that by (simp add: list_all_iff fits_column_def)
  then have "amount_ei e \<le> 10 ^ 12" if "e \<in> set ?es" for e using that by fastforce
  then have "sum_list (map amount_ei ?es) \<le> of_nat (length ?es) * 10 ^ 12"
    using sum_list_mono[of ?es amount_ei "\<lambda>_. 10 ^ 12"] by (simp add: sum_list_triv)
  moreover have "length ?es \<le> 7" using assms(3) by (simp add: normalise_entries_def le_trans[OF length_filter_le])
  then have "(of_nat (length ?es) :: rat) * 10 ^ 12 \<le> 7 * 10 ^ 12" by (intro mult_right_mono) simp_all
  ultimately have "sum_list (map amount_ei ?es) \<le> 7 * 10 ^ 12" by linarith
  then show ?thesis by (simp add: posting_fits_def)
qed

lemma post_few_keeps:
  assumes ok: "ledger_ok s" and ids: "new_ids G" and few: "length (entries_po p) \<le> 7" and run: "post D G p s = (s', Inr r)"
  shows "ledger_ok s'"
  using ok run
proof (cases rule: post_cases)
  case posted
  from post_keeps_ledger[OF ok ids posted_fits[OF run posted(4) few] run] show ?thesis .
qed (use ok in simp)

end

lemma sale_posting_few: "length (entries_po (sale_posting D shop i number math pm cost)) \<le> 7"
  by (simp add: sale_posting_def saleLedgerEntries_def split_def Let_def)

section \<open>Numbers and keys\<close>

definition numbers_of :: "string \<Rightarrow> string \<Rightarrow> counter \<Rightarrow> string list" where
  "numbers_of shop prefix s = map invoiceNumber_inv
     (filter (\<lambda>x. shopId_inv x = shop \<and> posDocumentPrefix ''INV'' (financialYear_inv x) = Some prefix) (invoices_k s))"

definition invoice_key :: "Invoice \<Rightarrow> string \<times> string" where
  "invoice_key x = (shopId_inv x, idempotencyKey_inv x)"

text \<open>The numbers of a series are 1, 2, 3, ... in the order of issue, and a key has one invoice.\<close>

definition numbers_ok :: "counter \<Rightarrow> bool" where
  "numbers_ok s \<longleftrightarrow> distinct (map invoice_key (invoices_k s)) \<and>
     (\<forall>shop prefix. numbers_of shop prefix s = map (sequence_number prefix) [1..<Suc (sequence_of shop prefix s)])"

lemma numbers_ok_untouched: "untouched shop s s' \<Longrightarrow> numbers_ok s' = numbers_ok s"
  by (simp add: untouched_def numbers_ok_def numbers_of_def sequence_of_def)

lemma sale_numbers:
  assumes "sale_transaction E dto actor now p s = (s', Inr res)" and "numbers_ok s"
  shows "numbers_ok s'"
  using assms(1)
proof (cases rule: sale_completed)
  case (1 rows math pm shift co number prefix its stock cost pr inv i x)
  have inv: "shopId_inv inv = shopId_a actor" "financialYear_inv inv = financialYear_env E now" "invoiceNumber_inv inv = number"
    "idempotencyKey_inv inv = idempotencyKey_ni dto"
    using 1(13) by (simp_all add: invoice_row_def Let_def)
  have "invoice_key inv \<notin> invoice_key ` set (invoices_k s)" using 1(16) by (auto simp: invoice_key_def inv)
  moreover have "numbers_of shop pre s' = map (sequence_number pre) [1..<Suc (sequence_of shop pre s')]" for shop pre
    using assms(2) 1(9,10,17,22) by (auto simp: numbers_ok_def numbers_of_def sequence_of_def inv)
  ultimately show ?thesis using assms(2) 1(17) by (simp add: numbers_ok_def)
qed

section \<open>Credit\<close>

text \<open>A customer's credit rows in order: each starts at the balance the one before left.\<close>

fun credit_chain :: "decimal \<Rightarrow> UdharTransaction list \<Rightarrow> decimal \<Rightarrow> bool" where
  "credit_chain b [] e \<longleftrightarrow> b = e"
| "credit_chain b (r # rs) e \<longleftrightarrow> balanceBefore_ut r = b \<and> 0 < amount_ut r \<and> balanceAfter_ut r = b + amount_ut r \<and>
     credit_chain (balanceAfter_ut r) rs e"

lemma credit_chain_snoc:
  "credit_chain b rs e \<Longrightarrow> balanceBefore_ut r = e \<Longrightarrow> 0 < amount_ut r \<Longrightarrow> balanceAfter_ut r = e + amount_ut r \<Longrightarrow>
     credit_chain b (rs @ [r]) (balanceAfter_ut r)"
  by (induction rs arbitrary: b) auto

lemma credit_chain_sum: "credit_chain b rs e \<Longrightarrow> e = b + sum_list (map amount_ut rs)"
proof (induction rs arbitrary: b)
  case (Cons r rs)
  then have "e = balanceAfter_ut r + sum_list (map amount_ut rs)" "balanceAfter_ut r = b + amount_ut r" by auto
  then show ?case by simp
qed simp

definition rows_of_customer :: "string \<Rightarrow> counter \<Rightarrow> UdharTransaction list" where
  "rows_of_customer i s = filter (\<lambda>r. customerId_ut r = i) (udhar_k s)"

definition credit_ok :: "(string \<Rightarrow> decimal) \<Rightarrow> counter \<Rightarrow> bool" where
  "credit_ok opening s \<longleftrightarrow> distinct (map id_cs (customers_k s)) \<and>
     (\<forall>c \<in> set (customers_k s). paise MONEY_MAX (outstandingBalance_cs c) \<and>
        credit_chain (opening (id_cs c)) (rows_of_customer (id_cs c) s) (outstandingBalance_cs c))"

lemma credit_ok_cong:
  assumes "map (\<lambda>c. (id_cs c, outstandingBalance_cs c)) (customers_k s') = map (\<lambda>c. (id_cs c, outstandingBalance_cs c)) (customers_k s)"
    and "udhar_k s' = udhar_k s"
  shows "credit_ok opening s' = credit_ok opening s"
proof -
  have eq: "credit_ok opening t \<longleftrightarrow> (let ps = map (\<lambda>c. (id_cs c, outstandingBalance_cs c)) (customers_k t)
      in distinct (map fst ps) \<and> (\<forall>(i, b) \<in> set ps. paise MONEY_MAX b \<and>
           credit_chain (opening i) (filter (\<lambda>r. customerId_ut r = i) (udhar_k t)) b))" for t
    by (simp add: credit_ok_def rows_of_customer_def Let_def comp_def)
  show ?thesis unfolding eq assms ..
qed

lemma credit_ok_untouched: "untouched shop s s' \<Longrightarrow> credit_ok opening s' = credit_ok opening s"
  by (simp add: untouched_def credit_ok_def rows_of_customer_def)

lemma runEngine_Inr: "runEngine E m = Inr math \<longleftrightarrow> calculate (dec_env E) (json_env E) m = Inr math"
  by (auto simp: runEngine_def split: sum.splits thrown.splits)

lemma lock_credit_state_Inr:
  "snd (lock_credit D actor i u s) = Inr co \<Longrightarrow> lock_credit D actor i u s = (s, Inr co)"
  using lock_credit_state[of D actor i u s] by (metis prod.collapse)

lemma charged_fields [simp]: "id_cs (charged D now u final c x) = id_cs x" "shopId_cs (charged D now u final c x) = shopId_cs x"
  "creditLimit_cs (charged D now u final c x) = creditLimit_cs x" "isActive_cs (charged D now u final c x) = isActive_cs x"
  "outstandingBalance_cs (charged D now u final c x) =
     (if 0 < u then d_plus D (outstandingBalance_cs c) (money D u) else outstandingBalance_cs x)"
  by (simp_all add: charged_def Let_def)

lemma credit_row_fields [simp]: "customerId_ut (credit_row D actor i u c) = id_cs c"
  "balanceBefore_ut (credit_row D actor i u c) = outstandingBalance_cs c" "amount_ut (credit_row D actor i u c) = money D u"
  "balanceAfter_ut (credit_row D actor i u c) = d_plus D (outstandingBalance_cs c) (money D u)"
  by (simp_all add: credit_row_def)

lemma sale_credit:
  assumes run: "sale_transaction E dto actor now p s = (s', Inr res)" and D: "decimal_arith (dec_env E)"
    and ok: "credit_ok opening s"
  shows "credit_ok opening s'"
  using run
proof (cases rule: sale_completed)
  case (1 rows math pm shift co number prefix its stock cost pr inv i x)
  let ?D = "dec_env E" and ?u = "udharAmount_p pm"
  have bill: "bill_ok math pm" using calculate_bill[OF D] 1(4,6) by (simp add: runEngine_Inr)
  show ?thesis
  proof (cases "co = None \<or> \<not> 0 < ?u")
    case True
    then have "udhar_k s' = udhar_k s" using 1(21) by (auto simp: udhar_rows_def split: option.splits)
    moreover have "map (\<lambda>x. (id_cs x, outstandingBalance_cs x)) (customers_k s') = map (\<lambda>x. (id_cs x, outstandingBalance_cs x)) (customers_k s)"
      using True 1(20) by (auto simp: customer_rows_def update_rows_def split: option.splits)
    ultimately show ?thesis using ok credit_ok_cong by blast
  next
    case False
    then obtain c where c: "co = Some c" and u: "0 < ?u" by auto
    note L = lock_credit_Inr[OF lock_credit_state_Inr[OF 1(8)], unfolded c, simplified]
    have mem: "c \<in> set (customers_k s)" using L by (auto dest: find_SomeD)
    have old: "paise MONEY_MAX (outstandingBalance_cs c)"
      "credit_chain (opening (id_cs c)) (rows_of_customer (id_cs c) s) (outstandingBalance_cs c)"
      using ok mem by (auto simp: credit_ok_def)
    have mu: "money ?D ?u = ?u" "on_grid 2 ?u" "?u \<le> MONEY_MAX"
      using bill D by (auto simp: bill_ok_def paise_def decimal_arith.money_grid)
    have plus: "d_plus ?D (outstandingBalance_cs c) ?u = outstandingBalance_cs c + ?u"
      using old(1) mu u money_max_small by (intro decimal_arith.d_plus_grid[OF D, of 2]) (auto simp: paise_def)
    have new: "paise MONEY_MAX (outstandingBalance_cs c + ?u)"
      using L u old(1) mu plus by (auto simp: paise_def intro: grid_intros)
    have one: "y = c" if "y \<in> set (customers_k s)" "id_cs y = id_cs c" for y
      using that mem ok by (auto simp: credit_ok_def distinct_map inj_on_def)
    have cs: "customers_k s' = update_rows (\<lambda>x. id_cs x = id_cs c) (charged ?D now ?u (finalTotal_r math) c) (customers_k s)"
      and ut: "udhar_k s' = udhar_k s @ [credit_row ?D actor i ?u c]"
      using 1(20,21) c u by (simp_all add: customer_rows_def udhar_rows_def)
    have "map id_cs (customers_k s') = map id_cs (customers_k s)" by (simp add: cs update_rows_def)
    moreover have "paise MONEY_MAX (outstandingBalance_cs y) \<and>
        credit_chain (opening (id_cs y)) (rows_of_customer (id_cs y) s') (outstandingBalance_cs y)"
      if y: "y \<in> set (customers_k s')" for y
    proof (cases "id_cs y = id_cs c")
      case True
      then have "outstandingBalance_cs y = outstandingBalance_cs c + ?u"
        using y u plus mu by (auto simp: cs set_update_rows)
      moreover have "credit_chain (opening (id_cs c)) (rows_of_customer (id_cs c) s @ [credit_row ?D actor i ?u c])
          (balanceAfter_ut (credit_row ?D actor i ?u c))"
        using old(2) u plus mu by (intro credit_chain_snoc) simp_all
      ultimately show ?thesis using True new plus mu by (simp add: rows_of_customer_def ut)
    next
      case False
      then have "y \<in> set (customers_k s)" using y by (auto simp: cs set_update_rows split: if_splits)
      then show ?thesis using False ok by (auto simp: credit_ok_def rows_of_customer_def ut)
    qed
    ultimately show ?thesis using ok by (simp add: credit_ok_def)
  qed
qed

end
