(* ===== verification/CheckoutTies.thy ===== *)
theory CheckoutTies
  imports CheckoutLaws
begin

text \<open>
  How the documents of one sale tie up: the invoice with its lines and tenders, the cash drawer of
  the shift with the cash account, the customer's credit with the receivables, and what the
  actor's authority and the printed prices allow.
\<close>

text \<open>The identifiers drawn for invoices are new, to the invoices and to the ledger's sources.\<close>

definition new_invoice_ids :: "(counter \<Rightarrow> string) \<Rightarrow> bool" where
  "new_invoice_ids G \<longleftrightarrow> (\<forall>s. G s \<notin> id_inv ` set (invoices_k s) \<and> G s \<notin> sourceId_pst ` set (postings_bk (books_k s)))"

section \<open>The invoice\<close>

lemma invoice_row_fields [simp]:
  "id_inv (invoice_row E actor dto h st math pm i number shift now its) = i"
  "shopId_inv (invoice_row E actor dto h st math pm i number shift now its) = shopId_a actor"
  "idempotencyKey_inv (invoice_row E actor dto h st math pm i number shift now its) = idempotencyKey_ni dto"
  "requestHash_inv (invoice_row E actor dto h st math pm i number shift now its) = h"
  "shiftId_inv (invoice_row E actor dto h st math pm i number shift now its) = shift"
  "items_inv (invoice_row E actor dto h st math pm i number shift now its) = its"
  "customerId_inv (invoice_row E actor dto h st math pm i number shift now its) = customerId_ni dto"
  "subtotal_inv (invoice_row E actor dto h st math pm i number shift now its) = money (dec_env E) (subtotal_r math)"
  "discountAmount_inv (invoice_row E actor dto h st math pm i number shift now its) = money (dec_env E) (totalDiscount_r math)"
  "taxableAmount_inv (invoice_row E actor dto h st math pm i number shift now its) = money (dec_env E) (taxableTotal_r math)"
  "taxAmount_inv (invoice_row E actor dto h st math pm i number shift now its) = money (dec_env E) (totalTax_r math)"
  "roundOffAmount_inv (invoice_row E actor dto h st math pm i number shift now its) = money (dec_env E) (roundOff_r math)"
  "totalAmount_inv (invoice_row E actor dto h st math pm i number shift now its) = money (dec_env E) (finalTotal_r math)"
  "paidAmount_inv (invoice_row E actor dto h st math pm i number shift now its) = money (dec_env E) (paidAmount_p pm)"
  "udharAmount_inv (invoice_row E actor dto h st math pm i number shift now its) = money (dec_env E) (udharAmount_p pm)"
  by (simp_all add: invoice_row_def Let_def)

text \<open>The row returned is the row written.\<close>

lemma sale_invoice:
  assumes "sale_transaction E dto actor now p s = (s', Inr res)" and "new_invoice_ids (invoice_id_env E)"
  obtains rows math pm shift i number its where
    "rows = sale_rows (shopId_a actor) p s"
    "calculate (dec_env E) (json_env E) (engine_input rows (isInterState_pre p) (lines_pre' p) dto) = Inr math"
    "payment_r math = Some pm"
    "invoice_items (dec_env E) rows (lines_pre' p) (lines_r math) = Inr its"
    "invoice_cr res = invoice_row E actor dto (requestHash_pre p) (isInterState_pre p) math pm i number shift now its"
    "invoices_k s' = invoices_k s @ [invoice_cr res]"
    "payments_k s' = payments_k s @ map (tender_row (dec_env E) (shopId_a actor) i)
       (filter (\<lambda>t. 0 < amount_t t \<or> 0 < changeAmount_t t) (tenders_p pm))"
    "\<forall>y \<in> set (invoices_k s). shopId_inv y = shopId_a actor \<longrightarrow> idempotencyKey_inv y \<noteq> idempotencyKey_ni dto"
  using assms(1)
proof (cases rule: sale_completed)
  case (1 rows math pm shift co number prefix its stock cost pr inv i x)
  have "i \<notin> id_inv ` set (invoices_k s)" using 1(14) assms(2) unfolding new_invoice_ids_def by metis
  then have "find (\<lambda>y. id_inv y = i) (invoices_k s @ [inv]) = Some inv" using 1(13) by (intro find_snoc) auto
  then have "invoice_cr res = inv" using 1(17,27,28) by simp
  then show thesis using that[OF 1(1) _ 1(6,12) _ _ 1(18)] 1(4,13,16,17) by (simp add: runEngine_Inr)
qed

lemma invoiceItemData_amounts:
  "invoiceItemData D rows l m = Inr it \<Longrightarrow>
     totalAmount_li it = money D (lineTotal_l m) \<and> taxableAmount_li it = money D (taxableAmount_l m) \<and>
     cgstAmount_li it = money D (cgstAmount_l m) \<and> sgstAmount_li it = money D (sgstAmount_l m) \<and>
     igstAmount_li it = money D (igstAmount_l m) \<and> cessAmount_li it = money D (cessAmount_l m) \<and>
     discountAmount_li it = money D (discountAmount_l m)"
  by (auto simp: invoiceItemData_def Let_def split: option.splits sum.splits)

definition tax_of_item :: "InvoiceItem \<Rightarrow> decimal" where
  "tax_of_item it = cgstAmount_li it + sgstAmount_li it + igstAmount_li it + cessAmount_li it"

context decimal_arith
begin

lemma item_amounts:
  assumes "line_ok m" and "invoiceItemData D rows l m = Inr it"
  shows "totalAmount_li it = lineTotal_l m \<and> taxableAmount_li it = taxableAmount_l m \<and> tax_of_item it = taxAmount_l m \<and>
    discountAmount_li it = discountAmount_l m"
proof -
  have g: "on_grid 2 (taxableAmount_l m)" "on_grid 2 (cgstAmount_l m)" "on_grid 2 (sgstAmount_l m)" "on_grid 2 (igstAmount_l m)"
    "on_grid 2 (cessAmount_l m)" "on_grid 2 (itemDiscountAmount_l m)" "on_grid 2 (invoiceDiscountShare_l m)"
    using assms(1) unfolding line_ok_def paise_def by blast+
  have e: "discountAmount_l m = itemDiscountAmount_l m + invoiceDiscountShare_l m"
    "taxAmount_l m = cgstAmount_l m + sgstAmount_l m + igstAmount_l m + cessAmount_l m" "lineTotal_l m = taxableAmount_l m + taxAmount_l m"
    using assms(1) unfolding line_ok_def by blast+
  have "on_grid 2 (discountAmount_l m)" "on_grid 2 (lineTotal_l m)" unfolding e by (intro grid_intros g)+
  then show ?thesis using invoiceItemData_amounts[OF assms(2)] g e by (simp add: money_grid tax_of_item_def)
qed

lemma invoice_items_amounts:
  assumes "\<And>m. m \<in> set ms \<Longrightarrow> line_ok m" and "invoice_items D rows ls ms = Inr its"
  shows "map totalAmount_li its = map lineTotal_l ms \<and> map taxableAmount_li its = map taxableAmount_l ms \<and>
    map tax_of_item its = map taxAmount_l ms \<and> map discountAmount_li its = map discountAmount_l ms"
  using assms
proof (induction ms arbitrary: its)
  case (Cons m ms)
  from Cons.prems(2) obtain l it its' where i: "invoiceItemData D rows l m = Inr it" "its = it # its'"
    "invoice_items D rows ls ms = Inr its'"
    by (auto simp: invoice_items_def bind_res_eq_Inr split: option.splits)
  with item_amounts[OF _ i(1)] Cons show ?case by simp
qed (simp add: invoice_items_def)

end

lemma sum_drop_zero:
  fixes f :: "'a \<Rightarrow> rat"
  shows "(\<And>x. x \<in> set xs \<Longrightarrow> \<not> P x \<Longrightarrow> f x = 0) \<Longrightarrow> sum_list (map f (filter P xs)) = sum_list (map f xs)"
  by (induction xs) auto

lemma tender_row_fields [simp]: "amount_ip (tender_row D shop i t) = money D (amount_t t)" "tender_ip (tender_row D shop i t) = type_t t"
  by (simp_all add: tender_row_def)

text \<open>The tender rows of a type add up to the tenders of that type.\<close>

lemma tender_rows_sum:
  assumes D: "decimal_arith D" and ok: "list_all tender_ok ts"
  shows "sum_list (map amount_ip (filter (\<lambda>r. Q (tender_ip r)) (map (tender_row D shop i)
      (filter (\<lambda>t. 0 < amount_t t \<or> 0 < changeAmount_t t) ts)))) = sum_list (map amount_t (filter (\<lambda>t. Q (type_t t)) ts))"
  using ok
proof (induction ts)
  case (Cons t ts)
  then have "money D (amount_t t) = amount_t t" "0 \<le> amount_t t"
    using decimal_arith.money_grid[OF D] by (auto simp: tender_ok_def paise_def)
  with Cons show ?case by auto
qed simp

section \<open>The ledger\<close>

definition account_change :: "LedgerAccount \<Rightarrow> LedgerEntryInput list \<Rightarrow> decimal" where
  "account_change a es = sum_list (map (\<lambda>e. signed_entry a (type_ei e) (amount_ei e)) (filter (\<lambda>e. account_ei e = a) es))"

lemma moved_change: "LedgerProperties.moved cur es a = cur a + account_change a es"
proof (induction es arbitrary: cur)
  case (Cons e es)
  show ?case using Cons[of "bump cur e"] by (cases "account_ei e = a") (auto simp: account_change_def)
qed (simp add: account_change_def)

lemma account_change_sort: "account_change a (sort_key k es) = account_change a es"
  by (simp add: account_change_def sum_list_sort)

lemma account_change_positive:
  "(\<And>e. e \<in> set es \<Longrightarrow> 0 \<le> amount_ei e) \<Longrightarrow> account_change a (filter (\<lambda>e. 0 < amount_ei e) es) = account_change a es"
  by (induction es) (auto simp: account_change_def signed_entry_def order.order_iff_strict)

context decimal_arith
begin

lemma post_change:
  assumes ok: "ledger_ok s" and run: "post D G p s = (s', Inr r)" and new: "find_posting p s = None"
    and g: "\<And>e. e \<in> set (entries_po p) \<Longrightarrow> on_grid 2 (amount_ei e) \<and> 0 \<le> amount_ei e"
  shows "account_balance s' (shopId_po p) a = account_balance s (shopId_po p) a + account_change a (entries_po p)"
    and "shifts_bk s' = shifts_bk s"
proof -
  have es: "account_change a (normalise_entries D (entries_po p)) = account_change a (entries_po p)"
    using g by (simp add: normalise_grid account_change_positive)
  from ok run have "account_balance s' (shopId_po p) a = account_balance s (shopId_po p) a + account_change a (entries_po p) \<and>
      shifts_bk s' = shifts_bk s"
  proof (cases rule: post_cases)
    case replayed
    then have "normalise_entries D (entries_po p) = []" using post_new[OF run new] by blast
    then have "account_change a (entries_po p) = 0" using es by (simp add: account_change_def)
    then show ?thesis using replayed by simp
  next
    case posted
    then show ?thesis
      by (simp add: posted_balance moved_change sorted_entries_def account_change_sort es) (simp add: posted_books_def)
  qed
  then show "account_balance s' (shopId_po p) a = account_balance s (shopId_po p) a + account_change a (entries_po p)"
    "shifts_bk s' = shifts_bk s" by simp_all
qed

end

text \<open>What a sale moves: cash, bank and receivables by the tenders and the credit.\<close>

lemma sale_changes:
  assumes D: "decimal_arith D" and b: "bill_ok r pm"
  shows "account_change A_CASH (saleLedgerEntries D (tenders_p pm) (udharAmount_p pm) r cost) = cash_bucket D (tenders_p pm)"
    and "account_change A_BANK (saleLedgerEntries D (tenders_p pm) (udharAmount_p pm) r cost) = bank_bucket D (tenders_p pm)"
    and "account_change ACCOUNTS_RECEIVABLE (saleLedgerEntries D (tenders_p pm) (udharAmount_p pm) r cost) = udharAmount_p pm"
  using b
  by (simp_all add: account_change_def saleLedgerEntries_def split_def Let_def ledger_entry_def signed_entry_def grows_def DEBIT_NORMAL_def
      bill_ok_def paise_def decimal_arith.money_grid[OF D])

lemma sale_entries_ok:
  assumes D: "decimal_arith D" and b: "bill_ok r pm"
    and e: "e \<in> set (saleLedgerEntries D (tenders_p pm) (udharAmount_p pm) r cost)"
  shows "on_grid 2 (amount_ei e) \<and> 0 \<le> amount_ei e"
proof -
  obtain rev gst where s: "splitRevenue D (taxableTotal_r r) (totalTax_r r) (roundOff_r r) = (rev, gst)" by force
  note S = decimal_arith.splitRevenue_exact[OF D b s]
  have ts: "list_all tender_ok (tenders_p pm)" "sum_list (map amount_t (tenders_p pm)) \<le> MONEY_MAX"
    using b by (auto simp: bill_ok_def paise_def)
  have ok: "paise MONEY_MAX (cash_bucket D (tenders_p pm))" "paise MONEY_MAX (bank_bucket D (tenders_p pm))"
    by (simp_all add: cash_bucket_def bank_bucket_def decimal_arith.tender_sum_exact(2)[OF D ts])
  have "on_grid 2 (money D cost) \<and> (0 < cost \<longrightarrow> 0 \<le> money D cost)"
    by (simp add: money_def MONEY_DP_def decimal_arith.to_dp_half_up[OF D] half_up_nonneg)
  moreover have "money D (udharAmount_p pm) = udharAmount_p pm" "0 \<le> udharAmount_p pm" "on_grid 2 (udharAmount_p pm)"
    using b by (auto simp: bill_ok_def paise_def decimal_arith.money_grid[OF D])
  ultimately show ?thesis using e S(1,2) ok by (auto simp: saleLedgerEntries_def ledger_entry_def s paise_def split: if_splits)
qed

text \<open>The drawer, the bank, the receivables and the shift move by the tender rows and the credit of the invoice.\<close>

lemma sale_moves:
  assumes run: "sale_transaction E dto actor now p s = (s', Inr res)" and D: "decimal_arith (dec_env E)"
    and ids: "new_invoice_ids (invoice_id_env E)" and ok: "ledger_ok (books_k s)"
  obtains math pm cost where "bill_ok math pm" "totalAmount_inv (invoice_cr res) = finalTotal_r math"
    "udharAmount_inv (invoice_cr res) = udharAmount_p pm"
    "\<And>a. account_balance (books_k s') (shopId_a actor) a = account_balance (books_k s) (shopId_a actor) a +
        account_change a (saleLedgerEntries (dec_env E) (tenders_p pm) (udharAmount_p pm) math cost)"
    "shifts_bk (books_k s') = shifts_bk (shift_books (dec_env E) (shiftId_cr res) math pm (books_k s))"
    "\<And>Q. sum_list (map amount_ip (filter (\<lambda>r. Q (tender_ip r)) (drop (length (payments_k s)) (payments_k s')))) =
        sum_list (map amount_t (filter (\<lambda>t. Q (type_t t)) (tenders_p pm)))"
  using run
proof (cases rule: sale_completed)
  case (1 rows math pm shift co number prefix its stock cost pr inv i x)
  have bill: "bill_ok math pm" using calculate_bill[OF D] 1(4,6) by (simp add: runEngine_Inr)
  have fresh: "i \<notin> id_inv ` set (invoices_k s)" "i \<notin> sourceId_pst ` set (postings_bk (books_k s))"
    using 1(14) ids unfolding new_invoice_ids_def by metis+
  have "find (\<lambda>y. id_inv y = i) (invoices_k s @ [inv]) = Some inv" using 1(13) fresh(1) by (intro find_snoc) auto
  then have cr: "invoice_cr res = inv" using 1(17,27,28) by simp
  let ?p = "sale_posting (dec_env E) (shopId_a actor) i number math pm cost"
  have new: "find_posting ?p (shift_books (dec_env E) shift math pm (books_k s)) = None"
    using fresh(2) by (auto simp: find_posting_def find_None_iff sale_posting_def)
  have es: "on_grid 2 (amount_ei e) \<and> 0 \<le> amount_ei e" if "e \<in> set (entries_po ?p)" for e
    using that sale_entries_ok[OF D bill] by (simp add: sale_posting_def)
  note pc = decimal_arith.post_change[OF D _ 1(23) new es]
  have bal: "account_balance (books_k s') (shopId_a actor) a = account_balance (books_k s) (shopId_a actor) a +
      account_change a (saleLedgerEntries (dec_env E) (tenders_p pm) (udharAmount_p pm) math cost)" for a
    using pc(1)[of a] ok by (simp add: sale_posting_def)
  have sh: "shifts_bk (books_k s') = shifts_bk (shift_books (dec_env E) (shiftId_cr res) math pm (books_k s))"
    using pc(2) ok 1(28) by simp
  have g: "money (dec_env E) (finalTotal_r math) = finalTotal_r math" "money (dec_env E) (udharAmount_p pm) = udharAmount_p pm"
    "list_all tender_ok (tenders_p pm)"
    using bill by (auto simp: bill_ok_def paise_def decimal_arith.money_grid[OF D])
  have rows: "sum_list (map amount_ip (filter (\<lambda>r. Q (tender_ip r)) (drop (length (payments_k s)) (payments_k s')))) =
      sum_list (map amount_t (filter (\<lambda>t. Q (type_t t)) (tenders_p pm)))" for Q
    using tender_rows_sum[OF D g(3)] by (simp add: 1(18))
  show thesis using that[OF bill _ _ bal sh rows] g 1(13) cr by simp
qed

section \<open>Authority and printed prices\<close>

lemma within_mrp:
  assumes "assertWithinMrp D rows ls = Inr ()" and "l \<in> set ls" and "productId_nl l = Some i"
  shows "\<exists>p. rows i = Some p \<and> (0 < mrp_pr p \<longrightarrow>
    (\<exists>t. inclusiveUnitPrice D (NDecimal (sellingPrice_pr p)) (NText (gstRate_pr p)) (NDecimal (cessRate_pr p)) = Inr t \<and> t \<le> mrp_pr p))"
  using assms
  by (induction ls) (auto simp: not_less split: option.splits if_splits sum.splits)

context decimal_arith
begin

text \<open>A percentage of an amount, to the nearest paisa.\<close>

lemma share_bound:
  assumes "paise MONEY_MAX x" and "on_grid 2 L" "0 \<le> L" "L \<le> 100"
  shows "money D (d_div D (d_mul D x L) 100) \<le> x * L / 100 + 1 / 200"
    and "paise x (money D (d_div D (d_mul D x L) 100))"
proof -
  have x: "on_grid 2 x" "0 \<le> x" "x \<le> 10 ^ 8" using assms(1) money_max_small by (auto simp: paise_def)
  have g4: "on_grid 4 (x * L)" using on_grid_mult[OF x(1) assms(2)] by simp
  have xl: "0 \<le> x * L" "x * L \<le> 10 ^ 10" using x assms(3,4) mult_mono[of x "10 ^ 8" L 100] by simp_all
  have "\<bar>y\<bar> * 10 ^ 4 < 10 ^ 20" if "0 \<le> y" "y \<le> 10 ^ 10" for y :: rat using that by simp
  from this[OF xl] have "\<bar>x * L\<bar> * 10 ^ 4 < 10 ^ 20" .
  then have m: "d_mul D x L = x * L" unfolding d_mul_def using g4 by (intro ctx_grid[of 4])
  obtain k where k: "x * L = of_int k / 10 ^ 4" using g4 by (auto simp: on_grid_iff)
  have g6: "on_grid 6 (x * L / 100)" unfolding on_grid_iff k by (intro exI[of _ k]) simp
  have "\<bar>y / 100\<bar> * 10 ^ 6 < 10 ^ 20" if "0 \<le> y" "y \<le> 10 ^ 10" for y :: rat using that by simp
  from this[OF xl] have d: "d_div D (x * L) 100 = x * L / 100" unfolding d_div_def using g6 by (intro ctx_grid[of 6])
  show "money D (d_div D (d_mul D x L) 100) \<le> x * L / 100 + 1 / 200"
  proof -
    have "y \<le> z + 1 / 200" if "\<bar>y - z\<bar> \<le> 1 / 2 / 10 ^ 2" for y z :: rat
      using abs_ge_self[of "y - z"] that by simp
    from this[OF half_up_error] show ?thesis by (simp only: m d money_def MONEY_DP_def to_dp_half_up)
  qed
  have "x * L / 100 \<le> x" using mult_left_mono[OF assms(4) x(2)] by simp
  then show "paise x (money D (d_div D (d_mul D x L) 100))"
    using xl x(1) by (simp add: m d money_def MONEY_DP_def to_dp_half_up paise_def half_up_nonneg half_up_le)
qed

lemma effective_limit_bound:
  assumes c: "calculate D J raw = Inr r" and L: "on_grid 2 L" "0 \<le> L" "L \<le> 100"
    and lim: "discountLimitAmounts D r (NDecimal L) = Inr (bill, eff)"
  shows "eff \<le> subtotal_r r * L / 100 + of_nat (length (lines_r r)) / 200"
proof -
  have D: "decimal_arith D" by unfold_locales
  let ?share = "\<lambda>x. money D (d_div D (d_mul D x L) 100)"
  obtain h td d where ok: "\<And>l. l \<in> set (lines_r r) \<Longrightarrow> line_ok l" and small: "subtotal_r r \<le> MONEY_MAX"
    using calculate_totals[OF c] by metis
  have sub: "subtotal_r r = sum_list (map lineSubtotal_l (lines_r r))" using calculate_balance[OF D c] by blast
  have l: "paise MONEY_MAX (lineSubtotal_l x)" if "x \<in> set (lines_r r)" for x using ok[OF that] unfolding line_ok_def by blast
  have subp: "paise MONEY_MAX (subtotal_r r)"
    using small l unfolding sub by (auto simp: paise_def intro!: grid_intros sum_list_nonneg)
  have ne: "lines_r r \<noteq> []" using calculate_stages[OF c] stages_lines unfolding stages_def by fastforce
  have sh: "?share (lineSubtotal_l x) \<le> lineSubtotal_l x * L / 100 + 1 / 200" "paise (lineSubtotal_l x) (?share (lineSubtotal_l x))"
    if "x \<in> set (lines_r r)" for x
    using share_bound[OF l[OF that] L] by simp_all
  have tot: "sum_list (map (\<lambda>x. ?share (lineSubtotal_l x)) (lines_r r)) \<le> subtotal_r r"
    unfolding sub using sh(2) by (intro sum_list_mono) (auto simp: paise_def)
  have "d_sum D (map (\<lambda>x. ?share (lineSubtotal_l x)) (lines_r r)) = sum_list (map (\<lambda>x. ?share (lineSubtotal_l x)) (lines_r r))"
    using sh(2) tot small money_max_small by (intro d_sum_exact[of _ 2]) (auto simp: paise_def)
  also have "\<dots> \<le> sum_list (map (\<lambda>x. lineSubtotal_l x * L / 100 + 1 / 200) (lines_r r))"
    using sh(1) by (intro sum_list_mono) auto
  also have "\<dots> = subtotal_r r * L / 100 + of_nat (length (lines_r r)) / 200"
  proof -
    have "sum_list (map (\<lambda>x. lineSubtotal_l x * L / 100 + 1 / 200) ls) = sum_list (map lineSubtotal_l ls) * L / 100 + of_nat (length ls) / 200"
      for ls by (induction ls) (simp_all add: field_simps)
    then show ?thesis unfolding sub .
  qed
  finally have per: "d_sum D (map (\<lambda>x. ?share (lineSubtotal_l x)) (lines_r r)) \<le> \<dots>" .
  have "(1 :: rat) \<le> of_nat (length (lines_r r))" using ne by (simp add: Suc_le_eq)
  then have "?share (subtotal_r r) \<le> subtotal_r r * L / 100 + of_nat (length (lines_r r)) / 200"
    using share_bound(1)[OF subp L] by linarith
  then show ?thesis using lim per by (auto simp: discountLimitAmounts_def Let_def)
qed

end

text \<open>The credit of the payment is the credit asked for.\<close>

lemma bill_credit:
  assumes D: "decimal_arith D" and c: "calculate D J (engine_input rows st ls dto) = Inr math" and p: "payment_r math = Some pm"
  shows "udharAmount_p pm = money D (request_udhar dto)"
proof -
  let ?in = "engine_input rows st ls dto"
  have "(normalisePayment D (json_input ?in) = Inr None \<and> payment_r math = None) \<or>
     (\<exists>q x. normalisePayment D (json_input ?in) = Inr (Some q) \<and>
        settlePayment D q (finalTotal_r math) = Inr x \<and> payment_r math = Some x)"
    by (rule decimal_arith.calculate_InrE[OF D c]) simp
  then obtain q where q: "normalisePayment D (json_input ?in) = Inr (Some q)" and s: "settlePayment D q (finalTotal_r math) = Inr pm"
    using p by auto
  have "udharAmount_pi q = NDecimal (request_udhar dto)"
    using q by (auto simp: normalisePayment_def json_input_def engine_input_def toPaymentInput_def json_payment_def)
  then show ?thesis using s by (auto simp: settlePayment_def Let_def bind_res_eq_Inr split: if_splits)
qed

lemma bill_paid:
  assumes D: "decimal_arith D" and c: "calculate D J raw = Inr math" and p: "payment_r math = Some pm"
  shows "paidAmount_p pm = sum_list (map amount_t (tenders_p pm))"
proof -
  have "(normalisePayment D (json_input raw) = Inr None \<and> payment_r math = None) \<or>
     (\<exists>q x. normalisePayment D (json_input raw) = Inr (Some q) \<and>
        settlePayment D q (finalTotal_r math) = Inr x \<and> payment_r math = Some x)"
    by (rule decimal_arith.calculate_InrE[OF D c]) simp
  then obtain q where "settlePayment D q (finalTotal_r math) = Inr pm" using p by auto
  from decimal_arith.settlePayment_Inr(2)[OF D this calculate_final_paise[OF D c]] show ?thesis .
qed

text \<open>The totals of a bill are amounts in whole paise.\<close>

lemma bill_grid:
  assumes D: "decimal_arith D" and c: "calculate D J raw = Inr math"
  shows "on_grid 2 (subtotal_r math)" "on_grid 2 (totalDiscount_r math)"
proof -
  obtain h td d where ok: "\<And>l. l \<in> set (lines_r math) \<Longrightarrow> line_ok l"
    using decimal_arith.calculate_totals[OF D c] by metis
  have s: "subtotal_r math = sum_list (map lineSubtotal_l (lines_r math))" "totalDiscount_r math = sum_list (map discountAmount_l (lines_r math))"
    using calculate_balance[OF D c] by blast+
  have "on_grid 2 (lineSubtotal_l l) \<and> on_grid 2 (discountAmount_l l)" if "l \<in> set (lines_r math)" for l
    using ok[OF that] unfolding line_ok_def paise_def by (auto intro: grid_intros)
  then show "on_grid 2 (subtotal_r math)" "on_grid 2 (totalDiscount_r math)" unfolding s by (auto intro!: grid_intros)
qed

text \<open>The amounts of the invoice written are those of the bill.\<close>

lemma sale_documents:
  assumes run: "sale_transaction E dto actor now p s = (s', Inr res)" and D: "decimal_arith (dec_env E)"
    and ids: "new_invoice_ids (invoice_id_env E)"
  obtains math pm where "bill_ok math pm"
    "calculate (dec_env E) (json_env E) (engine_input (sale_rows (shopId_a actor) p s) (isInterState_pre p) (lines_pre' p) dto) = Inr math"
    "payment_r math = Some pm" "invoices_k s' = invoices_k s @ [invoice_cr res]"
    "subtotal_inv (invoice_cr res) = subtotal_r math" "discountAmount_inv (invoice_cr res) = totalDiscount_r math"
    "taxableAmount_inv (invoice_cr res) = taxableTotal_r math" "taxAmount_inv (invoice_cr res) = totalTax_r math"
    "roundOffAmount_inv (invoice_cr res) = roundOff_r math" "totalAmount_inv (invoice_cr res) = finalTotal_r math"
    "paidAmount_inv (invoice_cr res) = paidAmount_p pm" "udharAmount_inv (invoice_cr res) = udharAmount_p pm"
    "invoice_items (dec_env E) (sale_rows (shopId_a actor) p s) (lines_pre' p) (lines_r math) = Inr (items_inv (invoice_cr res))"
    "map totalAmount_li (items_inv (invoice_cr res)) = map lineTotal_l (lines_r math)"
    "map taxableAmount_li (items_inv (invoice_cr res)) = map taxableAmount_l (lines_r math)"
    "map tax_of_item (items_inv (invoice_cr res)) = map taxAmount_l (lines_r math)"
    "map discountAmount_li (items_inv (invoice_cr res)) = map discountAmount_l (lines_r math)"
    "sum_list (map amount_ip (drop (length (payments_k s)) (payments_k s'))) = paidAmount_p pm"
  using run ids
proof (cases rule: sale_invoice)
  case (1 rows math pm shift i number its)
  have bill: "bill_ok math pm" using calculate_bill[OF D 1(2,3)] .
  note m = decimal_arith.money_grid[OF D] and paid = bill_paid[OF D 1(2,3)]
  have g: "on_grid 2 (taxableTotal_r math)" "on_grid 2 (totalTax_r math)" "on_grid 2 (roundOff_r math)" "on_grid 2 (finalTotal_r math)"
    "on_grid 2 (udharAmount_p pm)" "list_all tender_ok (tenders_p pm)" using bill by (auto simp: bill_ok_def paise_def)
  have gp: "on_grid 2 (paidAmount_p pm)" unfolding paid using g(6) by (auto simp: list_all_iff tender_ok_def paise_def intro!: grid_intros)
  obtain h td d where ok: "\<And>l. l \<in> set (lines_r math) \<Longrightarrow> line_ok l"
    using decimal_arith.calculate_totals[OF D 1(2)] by metis
  have its: "items_inv (invoice_cr res) = its" by (simp add: 1(5))
  note am = decimal_arith.invoice_items_amounts[OF D ok 1(4)]
  have rows: "sum_list (map amount_ip (drop (length (payments_k s)) (payments_k s'))) = paidAmount_p pm"
    using tender_rows_sum[OF D g(6), of "\<lambda>_. True"] by (simp add: 1(7) paid)
  show thesis
    by (rule that[OF bill 1(2)[unfolded 1(1)] 1(3,6)]) (use g gp am rows 1(1,4,5) m bill_grid[OF D 1(2)] in simp_all)
qed

end
