(* ===== verification/CheckoutSamples.thy ===== *)
theory CheckoutSamples
  imports CheckoutTies BooksProperties
begin

text \<open>
  One checkout worked through with concrete parameters: a cashier sells two units of a product,
  part paid in cash and part on the customer's credit. Each step is evaluated on its own; they
  are then chained into the run of \<open>createInvoice\<close> that the witnesses of the checkout use.
\<close>

section \<open>The till\<close>

text \<open>An identifier longer than all the invoices' and all the ledger's sources.\<close>

definition long_invoice_id :: "counter \<Rightarrow> string" where
  "long_invoice_id s = replicate (Suc (sum_list (map length
     (map id_inv (invoices_k s) @ map sourceId_pst (postings_bk (books_k s)))))) (CHR ''x'')"

lemma long_invoice_id_new: "new_invoice_ids long_invoice_id"
proof -
  have long: "x \<notin> set xs" if len: "length x = Suc (sum_list (map length xs))" for x :: string and xs
  proof
    assume "x \<in> set xs"
    then have "length x \<in> set (map length xs)" by simp
    then show False using member_le_sum_list[of "length x" "map length xs"] len by simp
  qed
  have "long_invoice_id s \<notin> set (map id_inv (invoices_k s) @ map sourceId_pst (postings_bk (books_k s)))" for s
    by (rule long) (simp add: long_invoice_id_def)
  then show ?thesis unfolding new_invoice_ids_def by simp
qed

definition till_env :: checkout_env where
  "till_env = \<lparr>dec_env = decimal_js, json_env = (\<lambda>_. []), stock_id_env = long_id,
     posting_id_env = fresh_id, invoice_id_env = long_invoice_id, sha256_env = (\<lambda>_. ''h''),
     locale_le_env = (\<le>), redis_env = (\<lambda>_ _ _. PRE_OK), financialYear_env = (\<lambda>_. ''2026-27''), creditSales_env = True,
     cashierMaxDiscountPercent_env = 10, cashierMaxCustomLineAmount_env = 500, cashierMaxCustomTotalAmount_env = 1000\<rparr>"

definition till_start :: counter where
  "till_start = \<lparr>world_k = shop_world,
     books_k = \<lparr>postings_bk = [], transactions_bk = [], balances_bk = (\<lambda>_. None), suppliers_bk = [], payments_bk = [],
       shifts_bk = [\<lparr>id_sh = ''sf'', shopId_sh = ''s'', openedById_sh = ''u'', open_sh = True, isDeleted_sh = False, openedAt_sh = 1,
          totalSales_sh = 0, cashSales_sh = 0, upiSales_sh = 0, cardSales_sh = 0, udharSales_sh = 0, expectedCash_sh = 0,
          cashPayouts_sh = 0\<rparr>]\<rparr>,
     invoices_k = [], payments_k = [], customers_k = [\<lparr>id_cs = ''c'', shopId_cs = ''s'', state_cs = None, outstandingBalance_cs = 0,
        creditLimit_cs = 60, totalPurchases_cs = 0, lastPurchaseAt_cs = None, isActive_cs = True, isDeleted_cs = False\<rparr>],
     udhar_k = [], sequences_k = (\<lambda>_. None), audits_k = [], outbox_k = [], redis_k = []\<rparr>"

definition till_dto :: CreateInvoiceDto where
  "till_dto = \<lparr>idempotencyKey_ni = ''k'',
     items_ni = [\<lparr>productId_ii = Some ''p'', custom_ii = None, quantity_ii = 2, discountPercent_ii = None\<rparr>],
     customerId_ni = Some ''c'', placeOfSupply_ni = None, notes_ni = None, shiftId_ni = None, discountAmount_ni = None,
     discountPercentage_ni = None, discountType_ni = None, discountReason_ni = None,
     payments_ni = Some [\<lparr>tender_pt = ''CASH'', amount_pt = 55, tenderedAmount_pt = Some 100, reference_pt = None\<rparr>],
     udharAmount_ni = Some 50, paymentMode_ni = None, amountPaid_ni = None\<rparr>"

definition till_actor :: BillingActor where
  "till_actor = \<lparr>shopId_a = ''s'', userId_a = ''u'', role_a = ''CASHIER''\<rparr>"

definition till_nl :: NormalisedLine where
  "till_nl = \<lparr>key_nl = ''p'', productId_nl = Some ''p'', custom_nl = None, quantity_nl = 2, discountPercent_nl = 0\<rparr>"

definition till_rows :: "string \<Rightarrow> Product option" where
  "till_rows i = (if i = ''p'' then Some (hd (products shop_world)) else None)"

lemma till_normalised: "normaliseLines till_env (items_ni till_dto) = Inr [till_nl]"
  by code_simp

lemma till_rate_text: "numeral_text ''FIVE'' = False"
  by code_simp

lemma till_rate_trimmed: "js_trim ''FIVE'' = ''FIVE''" by code_simp

lemma till_rate: "resolve_rate_arg decimal_js (NText ''FIVE'') = Inr 5"
  by (simp add: resolve_rate_arg_def till_rate_text till_rate_trimmed) code_simp

lemma till_unit_totals: "exclusive_total decimal_js 50 (via_number decimal_js 5) 0 False = 105 / 2"
  "exclusive_total decimal_js 50 (via_number decimal_js 5) 0 True = 105 / 2"
  by code_simp+

lemma till_unit_price: "inclusiveUnitPrice decimal_js (NDecimal 50) (NText ''FIVE'') (NDecimal 0) = Inr (105 / 2)"
proof -
  have m: "money decimal_js 50 = 50" "resolveCessRate decimal_js (NDecimal 0) = Inr 0" by code_simp+
  show ?thesis by (simp add: inclusiveUnitPrice_def till_rate till_unit_totals m Let_def MONEY_MAX_def)
qed

lemma till_within_mrp: "assertWithinMrp decimal_js till_rows [till_nl] = Inr ()"
  by (simp add: till_nl_def till_rows_def shop_world_def till_unit_price)

definition till_pre_line :: PreLine where
  "till_pre_line = \<lparr>item_pre = json_item (toMathItem till_rows False till_nl), qty_pre = 2, unitPrice_pre = 50, gstRate_pre = 5,
     cessRate_pre = 0, lineSubtotal_pre = 100, itemDiscount_pre = 0, netSubtotal_pre = 100\<rparr>"

lemma till_pre_lines: "pre_lines decimal_js [] (items_m (json_input (engine_input till_rows False [till_nl] till_dto))) = Inr [till_pre_line]"
  by code_simp

lemma till_no_discount: "invoice_discount decimal_js (json_input (engine_input till_rows False [till_nl] till_dto)) 100 = Inr 0"
  by code_simp

lemma till_shares: "allocateProportionally decimal_js 0 [100] = [0]" by code_simp

definition till_line :: InvoiceLineResult where
  "till_line = \<lparr>productId_l = ''p'', quantity_l = 2, unitPrice_l = 50, lineSubtotal_l = 100, discountAmount_l = 0,
     itemDiscountAmount_l = 0, invoiceDiscountShare_l = 0, taxableAmount_l = 100, gstRate_l = 5, cgstAmount_l = 5 / 2,
     sgstAmount_l = 5 / 2, igstAmount_l = 0, cessAmount_l = 0, taxAmount_l = 5, lineTotal_l = 105\<rparr>"

definition till_pm :: PaymentResult where
  "till_pm = \<lparr>paidAmount_p = 55, udharAmount_p = 50, changeAmount_p = 45, paymentMode_p = PM_SPLIT,
     tenders_p = [\<lparr>type_t = CASH, amount_t = 55, tenderedAmount_t = 100, changeAmount_t = 45, reference_t = None\<rparr>]\<rparr>"

definition till_math :: InvoiceCalculationResultV1 where
  "till_math = \<lparr>schemaVersion_r = 2, engineVersion_r = ''2.0.0'', calculationHash_r = ''0'', lines_r = [till_line],
      subtotal_r = 100, totalItemDiscount_r = 0, invoiceDiscount_r = 0, totalDiscount_r = 0, taxableTotal_r = 100, totalCgst_r = 5 / 2,
      totalSgst_r = 5 / 2, totalIgst_r = 0, totalCess_r = 0, totalTax_r = 5, grandTotal_r = 105, roundOff_r = 0, finalTotal_r = 105,
      payment_r = Some till_pm\<rparr>"

definition till_pi :: PaymentInput where
  "till_pi = \<lparr>tenders_pi = [\<lparr>type_ti = ''CASH'', amount_ti = NNumber 55, tenderedAmount_ti = NNumber 100, reference_ti = None\<rparr>],
     udharAmount_pi = NDecimal 50\<rparr>"

lemma till_taxed: "taxed_line decimal_js till_pre_line 0 = till_line"
  by code_simp

lemma till_tenders: "normalisePayment decimal_js (json_input (engine_input till_rows False [till_nl] till_dto)) = Inr (Some till_pi)"
  by code_simp

lemma till_settled: "settlePayment decimal_js till_pi 105 = Inr till_pm" by code_simp

lemma till_totals: "totals decimal_js (generateHash []) 0 0 [till_line] = till_math\<lparr>payment_r := None\<rparr>" by code_simp

lemma till_sums: "d_sum decimal_js [0] = 0" "d_sum decimal_js [100] = 100" "d_minus decimal_js 100 0 = 100" "d_sum decimal_js [10] = 10" by code_simp+

lemma till_pre_fields: "lineSubtotal_pre till_pre_line = 100" "itemDiscount_pre till_pre_line = 0" "netSubtotal_pre till_pre_line = 100"
  by (simp_all add: till_pre_line_def)

lemma till_math_fields: "subtotal_r (till_math\<lparr>payment_r := None\<rparr>) = 100" "finalTotal_r (till_math\<lparr>payment_r := None\<rparr>) = 105"
  "till_math\<lparr>payment_r := Some till_pm\<rparr> = till_math"
  by (simp_all add: till_math_def)

lemma till_calculated: "calculate decimal_js (\<lambda>_. []) (engine_input till_rows False [till_nl] till_dto) = Inr till_math"
proof -
  have "items_m (json_input (engine_input till_rows False [till_nl] till_dto)) \<noteq> []" by (simp add: json_input_def engine_input_def)
  then show ?thesis
    by (simp add: calculate_def Let_def till_pre_lines till_no_discount till_taxed till_shares till_tenders till_settled till_totals till_sums till_pre_fields till_math_fields MONEY_MAX_def)
qed

lemma till_env_fields [simp]: "dec_env till_env = decimal_js" "json_env till_env = (\<lambda>_. [])" "stock_id_env till_env = long_id"
  "posting_id_env till_env = fresh_id" "invoice_id_env till_env = long_invoice_id"
  "sha256_env till_env x = ''h''" "redis_env till_env a b c = PRE_OK" "financialYear_env till_env t = ''2026-27''"
  "creditSales_env till_env" "cashierMaxDiscountPercent_env till_env = 10"
  "cashierMaxCustomLineAmount_env till_env = 500" "cashierMaxCustomTotalAmount_env till_env = 1000"
  by (simp_all add: till_env_def)

lemma till_actor_fields [simp]: "shopId_a till_actor = ''s''" "userId_a till_actor = ''u''" "role_a till_actor = ''CASHIER''"
  by (simp_all add: till_actor_def)

lemma till_request_fields [simp]: "customerId_ni till_dto = Some ''c''" "placeOfSupply_ni till_dto = None" "shiftId_ni till_dto = None"
  "idempotencyKey_ni till_dto = ''k''" "request_udhar till_dto = 50"
  by (simp_all add: till_dto_def request_udhar_def)

lemma till_lines: "normaliseLines till_env (items_ni till_dto) = Inr [till_nl]" unfolding till_nl_def by (rule till_normalised[unfolded till_nl_def])

lemma till_hash [simp]: "hashRequest till_env a b c = ''h''" by (simp add: hashRequest_def)

lemma till_ids: "productIds [till_nl] = [''p'']" by (simp add: productIds_def till_nl_def truthy_def)

lemma till_world [simp]: "world_k till_start = shop_world" by (simp add: till_start_def)

lemma till_product: "product_row ''s'' shop_world ''p'' = Some (hd (products shop_world))"
  by (simp add: product_row_def shop_world_def)

lemma till_products: "products (world_k s) = products shop_world \<Longrightarrow> loadProducts ''s'' (productIds [till_nl]) s = (s, Inr till_rows)"
proof -
  assume w: "products (world_k s) = products shop_world"
  then have "product_row ''s'' (world_k s) ''p'' = Some (hd (products shop_world))" using till_product by (simp add: product_row_def)
  then have "(\<lambda>i. if i \<in> set [''p''] then product_row ''s'' (world_k s) i else None) = till_rows" by (auto simp: till_rows_def)
  then have "read_eff (\<lambda>s i. if i \<in> set [''p''] then product_row ''s'' (world_k s) i else None) s = (s, Inr till_rows)" by simp
  then show ?thesis by (simp add: loadProducts_def bind_eff_def till_ids del: read_eff_run) (simp add: till_rows_def)
qed

lemma till_state_run: "snd (resolveInterState ''s'' (Some ''c'') None till_start) = Inr False"
  by code_simp

lemma till_location_run: "snd (resolveSaleLocation long_id ''s'' shop_world) = Inr ''L''"
  by code_simp

lemma till_inter_state: "resolveInterState ''s'' (Some ''c'') None till_start = (till_start, Inr False)"
  using resolveInterState_state[of "''s''" "Some ''c''" None till_start] till_state_run by (metis prod.collapse)

lemma till_engine: "runEngine till_env (engine_input till_rows False [till_nl] till_dto) = Inr till_math"
  by (simp add: runEngine_def till_calculated)

lemma till_share: "money decimal_js (d_div decimal_js (d_mul decimal_js 100 10) 100) = 10" by code_simp

lemma till_limits: "discountLimitAmounts decimal_js till_math (NDecimal 10) = Inr (10, 10)"
  by (simp add: discountLimitAmounts_def Let_def till_share till_sums till_math_def) (simp add: till_line_def till_share till_sums)

lemma till_authority: "enforceDiscountAuthority till_env ''CASHIER'' [till_nl] till_math None = Inr ()"
  by (simp add: enforceDiscountAuthority_def isManager_def MANAGER_ROLES_def till_limits Let_def)
     (simp add: till_math_def till_nl_def till_line_def)

lemma till_applied: "appliedInvoiceDiscount till_dto till_math = (None, None)"
  by code_simp

definition till_w :: world where "till_w = fst (resolveSaleLocation long_id ''s'' shop_world)"

lemma till_location: "resolveSaleLocation long_id ''s'' shop_world = (till_w, Inr ''L'')"
  using till_location_run unfolding till_w_def by (metis prod.collapse)

lemma till_in_stock: "\<not> first_short (fst (resolveSaleLocation long_id ''s'' shop_world)) ''s'' ''L'' till_rows [till_nl]"
  by code_simp

lemma till_stocked: "stockedLines till_rows [till_nl] = [till_nl]"
  by (simp add: stockedLines_def till_nl_def till_rows_def truthy_def shop_world_def STOCKED_TYPES_def)

definition till_prepared :: prepared where
  "till_prepared = \<lparr>lines_pre' = [till_nl], requestHash_pre = ''h'', isInterState_pre = False, requestedPercent_pre = None,
     locationId_pre = ''L'', decremented_pre = [till_nl]\<rparr>"

definition till_ready :: counter where
  "till_ready = till_start\<lparr>world_k := fst (resolveSaleLocation long_id ''s'' shop_world), redis_k := [DecrementStock ''s'' ''p'' 2 PRE_OK]\<rparr>"

lemma bind_run: "m s = (t, Inr x) \<Longrightarrow> f x t = y \<Longrightarrow> bind_eff m f s = y"
  by (simp add: bind_eff_def)

lemma till_step_lines: "lift_res (normaliseLines till_env (items_ni till_dto)) s = (s, Inr [till_nl])" by (simp add: till_lines)

lemma till_step_key: "read_eff (find_keyed ''s'' ''k'') till_start = (till_start, Inr None)" by (simp add: find_keyed_def till_start_def)

lemma till_step_products: "loadProducts ''s'' (productIds [till_nl]) till_start = (till_start, Inr till_rows)" by (simp add: till_products)

lemma till_step_mrp: "lift_res (assertWithinMrp decimal_js till_rows [till_nl]) s = (s, Inr ())" by (simp add: till_within_mrp del: assertWithinMrp.simps)

lemma require_ok: "b \<Longrightarrow> require_eff b e s = (s, Inr ())" by simp

lemma till_step_bill: "priced_bill till_env till_actor till_dto [till_nl] False till_rows f s = (s, Inr till_math)" if "f till_math = None"
  by (simp add: priced_bill_def bind_eff_def till_engine till_authority that)

lemma till_step_location: "on_stock StockFailed (resolveSaleLocation long_id ''s'') till_start = (till_start\<lparr>world_k := till_w\<rparr>, Inr ''L'')"
  by (simp add: on_stock_def till_location)

lemma till_step_stock: "read_eff (\<lambda>s. first_short (world_k s) ''s'' ''L'' till_rows [till_nl]) (till_start\<lparr>world_k := till_w\<rparr>) = (till_start\<lparr>world_k := till_w\<rparr>, Inr False)"
  using till_in_stock by (simp add: till_w_def)

lemma till_step_redis: "redis_precheck till_env ''s'' till_rows (stockedLines till_rows [till_nl]) (till_start\<lparr>world_k := till_w\<rparr>) =
   (till_ready, Inr [till_nl])"
  unfolding till_stocked by (simp add: redis_send_def bind_eff_def till_nl_def till_start_def till_ready_def till_w_def)

lemma till_prepared_run: "prepare_sale till_env till_dto till_actor till_start = (till_ready, Inr (Inr till_prepared))"
  unfolding prepare_sale_def Let_def
  apply (simp only: till_env_fields till_actor_fields till_request_fields till_hash)
  apply (rule bind_run, rule till_step_lines, rule bind_run, rule till_step_key)
  apply (simp only: option.case)
  apply (rule bind_run, rule till_step_products, rule bind_run, rule till_step_mrp, rule bind_run, rule till_inter_state)
  apply (rule bind_run, rule require_ok, simp, rule bind_run, rule require_ok, simp add: truthy_def)
  apply (rule bind_run, rule till_step_bill, simp add: till_applied, rule bind_run, rule till_step_location, rule bind_run, rule till_step_stock)
  apply (simp only: if_False not_False_eq_True)
  apply (rule bind_run, rule return_eff_run, rule bind_run)
  apply (rule require_ok, simp, rule bind_run, rule till_step_redis)
  apply (simp add: till_prepared_def till_applied)
  done

section \<open>The transaction\<close>

lemma till_prefix: "posDocumentPrefix ''INV'' ''2026-27'' = Some ''INV-2627-''" by code_simp

lemma till_number: "sequence_number ''INV-2627-'' (Suc 0) = ''INV-2627-000001''" by code_simp

lemma till_number_ok: "isGstDocumentNumber ''INV-2627-000001''" by code_simp

lemma till_mutation: "\<not> isl (snd (mutateStock long_id (sale_request till_actor ''L'' ''INV-2627-000001'' ''x'' ''p'' 2) till_w))"
  by code_simp

lemma till_cost: "costOfGoodsSlice decimal_js (NDecimal 40) (NNumber 0) (NNumber 2) = Inr 80" by code_simp

definition till_item :: InvoiceItem where
  "till_item = \<lparr>productId_li = Some ''p'', isCustom_li = False, productName_li = ''Rice'', productSku_li = ''R1'', unit_li = ''KG'',
     costPrice_li = 40, sellingPrice_li = 50, mrp_li = 60, gstRate_li = ''FIVE'', quantity_li = 2, discountPercent_li = 0,
     discountAmount_li = 0, taxableAmount_li = 100, cgstAmount_li = 5 / 2, sgstAmount_li = 5 / 2, igstAmount_li = 0,
     cessAmount_li = 0, totalAmount_li = 105\<rparr>"

lemma till_items: "invoice_items decimal_js till_rows [till_nl] [till_line] = Inr [till_item]" 
  by code_simp

definition till_invoice :: Invoice where
  "till_invoice = invoice_row till_env till_actor till_dto ''h'' False till_math till_pm ''x'' ''INV-2627-000001'' (Some ''sf'') 0 [till_item]"

definition till_1 :: counter where "till_1 = till_ready\<lparr>sequences_k := (sequences_k till_ready)((''s'', ''POS_INVOICE'', ''INV-2627-'') \<mapsto> Suc 0)\<rparr>"

definition till_2 :: counter where "till_2 = till_1\<lparr>invoices_k := [till_invoice]\<rparr>"

definition till_3 :: counter where "till_3 = till_2\<lparr>payments_k := [tender_row decimal_js ''s'' ''x'' (hd (tenders_p till_pm))]\<rparr>"

definition till_sale :: InventoryMutationRequest where "till_sale = sale_request till_actor ''L'' ''INV-2627-000001'' ''x'' ''p'' 2"

definition till_4 :: counter where "till_4 = till_3\<lparr>world_k := fst (mutateStock long_id till_sale till_w)\<rparr>"

definition till_outcome :: StockOutcome where 
  "till_outcome = (let r = projr (snd (mutateStock long_id till_sale till_w)) in
     \<lparr>productId_so = ''p'', quantity_so = 2, balanceAfter_so = balanceAfter_rs r, productStockAfter_so = productStockAfter_rs r\<rparr>)"

definition till_customer :: Customer where "till_customer = hd (customers_k till_start)"

definition till_5 :: counter where "till_5 = fst (book_credit decimal_js till_actor ''x'' 0 (Some till_customer) 50 105 till_4)"

definition till_6 :: counter where "till_6 = fst (book_shift decimal_js (Some ''sf'') till_math till_pm till_5)"

definition till_7 :: counter where "till_7 = fst (on_ledger (post decimal_js fresh_id (sale_posting decimal_js ''s'' ''x'' ''INV-2627-000001'' till_math till_pm 80)) till_6)"

lemma till_shift: "lockShift till_actor None till_ready = (till_ready, Inr (Some ''sf''))"
  by (simp add: lockShift_def truthy_def till_ready_def till_start_def)

lemma till_credit: "lock_credit decimal_js till_actor (Some ''c'') 50 till_ready = (till_ready, Inr (Some till_customer))"
proof -
  have "money decimal_js 50 = 50" "d_plus decimal_js 0 50 = 50" by code_simp+
  then show ?thesis
  by (simp add: lock_credit_def truthy_def till_ready_def till_start_def lockCustomer_def is_customer_def bind_eff_def check_credit_def
     till_customer_def Let_def MONEY_MAX_def)
qed

lemma till_step_number: "invoice_number ''s'' ''2026-27'' till_ready = (till_1, Inr ''INV-2627-000001'')"
proof -
  have "sequences_k till_ready (''s'', ''POS_INVOICE'', ''INV-2627-'') = None" by (simp add: till_ready_def till_start_def)
  then show ?thesis by (simp add: invoice_number_def till_prefix next_number_def bind_eff_def till_number till_number_ok till_1_def)
qed

lemma till_lock_run: "snd (lockProducts ''s'' [''p''] till_w) = Inr [''p'']" by code_simp

lemma till_worlds: "world_k till_1 = till_w" "world_k till_2 = till_w" "world_k till_3 = till_w" "world_k till_ready = till_w"
  by (simp_all add: till_1_def till_2_def till_3_def till_ready_def till_w_def)

lemma till_step_lock: "on_stock stock_fault (lockProducts ''s'' [''p'']) till_1 = (till_1, Inr [''p''])"
proof -
  have "fst (lockProducts ''s'' [''p''] till_w) = till_w" unfolding lockProducts_def by (metis fst_conv lock_each_run)
  with till_lock_run have "lockProducts ''s'' [''p''] till_w = (till_w, Inr [''p''])" by (metis prod.collapse)
  then show ?thesis by (simp add: on_stock_def till_worlds)
qed

lemma till_invoice_fits: "invoice_fits till_invoice" by code_simp

lemma till_step_invoice: "create_invoice till_invoice till_1 = (till_2, Inr ())"
  by (simp add: create_invoice_def till_invoice_fits) (simp add: till_2_def till_1_def till_ready_def till_start_def)

lemma till_step_tenders: "create_tenders (map (tender_row decimal_js ''s'' ''x'') (filter (\<lambda>t. 0 < amount_t t \<or> 0 < changeAmount_t t) (tenders_p till_pm))) till_2 = (till_3, Inr ())"
proof -
  have "filter (\<lambda>t. 0 < amount_t t \<or> 0 < changeAmount_t t) (tenders_p till_pm) = [hd (tenders_p till_pm)]" by (simp add: till_pm_def)
  moreover have "list_all (\<lambda>r. fits_column 10 (amount_ip r) \<and> fits_column 10 (tenderedAmount_ip r) \<and>
       fits_column 10 (changeAmount_ip r)) [tender_row decimal_js ''s'' ''x'' (hd (tenders_p till_pm))]" by code_simp
  ultimately show ?thesis by (simp add: create_tenders_def) (simp add: till_3_def till_2_def till_1_def till_ready_def till_start_def)
qed

lemma till_mutation_run: "mutateStock long_id till_sale till_w = (fst (mutateStock long_id till_sale till_w), Inr (projr (snd (mutateStock long_id till_sale till_w))))"
  using till_mutation unfolding till_sale_def by (metis prod.collapse sum.collapse(2))

lemma till_not_bypassed: "\<not> bypassed_rs (projr (snd (mutateStock long_id till_sale till_w)))" by code_simp

lemma till_step_stock_moves: "sell_lines till_env till_actor ''L'' ''INV-2627-000001'' ''x'' till_rows [till_nl] [] 0 till_3 = (till_4, Inr ([till_outcome], 80))"
proof -
  have m: "on_stock stock_fault (mutateStock long_id till_sale) till_3 = (till_4, Inr (projr (snd (mutateStock long_id till_sale till_w))))"
    using till_mutation_run by (auto simp: on_stock_Inr till_worlds till_4_def)
  have "d_plus decimal_js 0 80 = 80" by code_simp
  then show ?thesis using m till_not_bypassed by (simp add: till_nl_def truthy_def till_sale_def[symmetric] bind_eff_def till_rows_def shop_world_def till_cost till_outcome_def Let_def)
qed

lemma till_step_credit: "book_credit decimal_js till_actor ''x'' 0 (Some till_customer) 50 105 till_4 = (till_5, Inr ())"
proof -
  have "fits_column 14 (totalPurchases_cs till_customer + money decimal_js 105)" by code_simp
  then show ?thesis unfolding till_5_def by (simp add: book_credit_def Let_def)
qed

lemma till_books_kept: "books_k till_5 = books_k till_start"
  using arg_cong[OF book_credit_Inr[OF till_step_credit], of books_k] by (simp add: till_4_def till_3_def till_2_def till_1_def till_ready_def)

lemma till_step_shift: "book_shift decimal_js (Some ''sf'') till_math till_pm till_5 = (till_6, Inr ())"
proof -
  have "list_all (\<lambda>x. Shift.id_sh x = ''sf'' \<longrightarrow> shift_fits x) (update_rows (\<lambda>x. Shift.id_sh x = ''sf'') (shift_sale decimal_js till_math till_pm) (shifts_bk (books_k till_start)))" by code_simp
  moreover have "list_ex (\<lambda>x. Shift.id_sh x = ''sf'') (shifts_bk (books_k till_start))" by (simp add: till_start_def)
  ultimately show ?thesis unfolding till_6_def by (simp add: book_shift_def Let_def till_books_kept)
qed

lemma till_shift_books: "books_k till_6 = shift_books decimal_js (Some ''sf'') till_math till_pm (books_k till_start)"
  using arg_cong[OF book_shift_Inr[OF till_step_shift], of books_k] by (simp add: till_books_kept shift_books_def)

lemma till_post: "\<not> isl (snd (post decimal_js fresh_id (sale_posting decimal_js ''s'' ''x'' ''INV-2627-000001'' till_math till_pm 80)
   (shift_books decimal_js (Some ''sf'') till_math till_pm (books_k till_start))))"
  by code_simp

lemma till_step_ledger: "\<exists>r. on_ledger (post decimal_js fresh_id (sale_posting decimal_js ''s'' ''x'' ''INV-2627-000001'' till_math till_pm 80)) till_6 = (till_7, Inr r)"
  using till_post unfolding till_7_def on_ledger_def till_shift_books by (auto split: prod.splits sum.splits)

lemma till_found: "find (\<lambda>x. id_inv x = ''x'') (invoices_k till_7) = Some till_invoice"
proof -
  obtain b where "till_7 = till_6\<lparr>books_k := b\<rparr>" using till_step_ledger by (auto simp: on_ledger_Inr)
  from arg_cong[OF this, of invoices_k] have i: "invoices_k till_7 = invoices_k till_6" by simp
  have j: "invoices_k till_6 = invoices_k till_5" using arg_cong[OF book_shift_Inr[OF till_step_shift], of invoices_k] by simp
  have k: "invoices_k till_5 = invoices_k till_4" using arg_cong[OF book_credit_Inr[OF till_step_credit], of invoices_k] by simp
  show ?thesis unfolding i j k by (simp add: till_4_def till_3_def till_2_def) (simp add: till_invoice_def invoice_row_def Let_def)
qed

lemma till_invoice_id: "long_invoice_id till_1 = ''x''"
  by (simp add: long_invoice_id_def till_1_def till_ready_def till_start_def)

lemma till_prepared_fields: "lines_pre' till_prepared = [till_nl]" "requestHash_pre till_prepared = ''h''" "isInterState_pre till_prepared = False"
  "requestedPercent_pre till_prepared = None" "locationId_pre till_prepared = ''L''"
  by (simp_all add: till_prepared_def)

lemma till_bill_fields: "payment_r till_math = Some till_pm" "lines_r till_math = [till_line]" "udharAmount_p till_pm = 50" "finalTotal_r till_math = 105"
  by (simp_all add: till_math_def till_pm_def)

lemma till_transaction: "\<exists>u. sale_transaction till_env till_dto till_actor 0 till_prepared till_ready = (u, Inr \<lparr>invoice_cr = till_invoice, stock_cr = [till_outcome], shiftId_cr = Some ''sf'', replayed_cr = False\<rparr>)"
proof -
  obtain pr where till_step_ledger': "on_ledger (post decimal_js fresh_id (sale_posting decimal_js ''s'' ''x'' ''INV-2627-000001'' till_math till_pm 80)) till_6 = (till_7, Inr pr)"
    using till_step_ledger by blast
  have "products (world_k till_ready) = products shop_world"
    using keepsD[OF resolveSaleLocation_keeps till_location] by (simp add: till_worlds places_only_def)
  note r = till_products[OF this]
  show ?thesis
    unfolding sale_transaction_def Let_def
    apply (rule exI)
    apply (simp only: till_env_fields(1-4,8) till_actor_fields till_request_fields till_prepared_fields)
    apply (rule bind_run, rule r, rule bind_run, rule till_step_mrp, rule bind_run, rule till_step_bill, rule refl)
    apply (simp only: till_bill_fields option.case)
    apply (rule bind_run, rule lift_res_run, rule bind_run, rule till_shift)
    apply (simp only: till_bill_fields)
    apply (rule bind_run, rule till_credit, rule bind_run, rule till_step_number)
    apply (simp only: till_ids)
    apply (rule bind_run, rule till_step_lock)
    apply (simp only: till_items)
    apply (rule bind_run, rule lift_res_run, rule bind_run, rule read_eff_run)
    apply (simp only: till_env_fields(5) till_invoice_id till_invoice_def[symmetric])
    apply (rule bind_run, rule till_step_invoice, rule bind_run, rule till_step_tenders, rule bind_run, rule till_step_stock_moves)
    apply (simp only: prod.case till_bill_fields)
    apply (rule bind_run, rule till_step_credit, rule bind_run, rule till_step_shift, rule bind_run, rule till_step_ledger')
    apply (simp add: till_found)
    done
qed

definition till_answer :: CreateInvoiceResult where
  "till_answer = \<lparr>invoice_cr = till_invoice, stock_cr = [till_outcome], shiftId_cr = Some ''sf'', replayed_cr = False\<rparr>"

lemma till_checkout: "\<exists>u. createInvoice till_env till_dto till_actor [(0, False)] till_start = (u, Inr till_answer)"
proof -
  obtain u where u: "sale_transaction till_env till_dto till_actor 0 till_prepared till_ready = (u, Inr till_answer)"
    using till_transaction unfolding till_answer_def by blast
  have "\<exists>v. attempt_sale (Suc n) till_env till_dto till_actor [(0, False)] till_prepared till_ready = (v, Inr till_answer)" for n
    by (simp add: one_attempt_def atomically_def u afterStockChange_def redis_send_def)
  then show ?thesis by (simp add: createInvoice_def bind_eff_def till_prepared_run finish_sale_def MAX_RETRIES_def numeral_3_eq_3)
qed

definition till_after :: counter where
  "till_after = fst (createInvoice till_env till_dto till_actor [(0, False)] till_start)"

lemma till_sold: "createInvoice till_env till_dto till_actor [(0, False)] till_start = (till_after, Inr till_answer)"
  using till_checkout unfolding till_after_def by auto
section \<open>A checkout the database rolls back\<close>

definition till_undone :: counter where
  "till_undone = fst (createInvoice till_env till_dto till_actor [(0, True), (1, True), (2, True)] till_start)"

lemma till_ready_products: "loadProducts ''s'' (productIds [till_nl]) till_ready = (till_ready, Inr till_rows)"
  using keepsD[OF resolveSaleLocation_keeps till_location] by (intro till_products) (simp add: till_worlds places_only_def)

lemma till_aborted:
  "createInvoice till_env till_dto till_actor [(0, True), (1, True), (2, True)] till_start = (till_undone, Inl SerializationFailure)"
  "redis_k till_undone = [DecrementStock ''s'' ''p'' 2 PRE_OK, RestoreStock ''s'' ''p'' 2]"
proof -
  have "createInvoice till_env till_dto till_actor [(0, True), (1, True), (2, True)] till_start =
      fail_sale till_actor [till_nl] SerializationFailure till_ready"
    by (simp add: createInvoice_def bind_eff_def till_prepared_run finish_sale_def MAX_RETRIES_def numeral_3_eq_3 one_attempt_def
        retryable_def till_prepared_fields till_ready_products)
       (simp add: till_prepared_def)
  moreover have "fail_sale till_actor [till_nl] SerializationFailure till_ready =
      (till_ready\<lparr>redis_k := redis_k till_ready @ [RestoreStock ''s'' ''p'' 2]\<rparr>, Inl SerializationFailure)"
    by (simp add: fail_sale_def restoreRedis_def redis_send_def bind_eff_def till_nl_def truthy_def)
  ultimately have run: "createInvoice till_env till_dto till_actor [(0, True), (1, True), (2, True)] till_start =
      (till_ready\<lparr>redis_k := redis_k till_ready @ [RestoreStock ''s'' ''p'' 2]\<rparr>, Inl SerializationFailure)" by simp
  then show "createInvoice till_env till_dto till_actor [(0, True), (1, True), (2, True)] till_start = (till_undone, Inl SerializationFailure)"
    by (simp add: till_undone_def)
  show "redis_k till_undone = [DecrementStock ''s'' ''p'' 2 PRE_OK, RestoreStock ''s'' ''p'' 2]"
    using run by (simp add: till_undone_def till_ready_def)
qed

section \<open>The completed transaction\<close>

definition till_committed :: counter where
  "till_committed = fst (sale_transaction till_env till_dto till_actor 0 till_prepared till_ready)"

lemma till_committed_run:
  "sale_transaction till_env till_dto till_actor 0 till_prepared till_ready = (till_committed, Inr till_answer)"
  using till_transaction unfolding till_committed_def till_answer_def by auto

lemma till_invoice_fields: "udharAmount_inv till_invoice = 50" "totalAmount_inv till_invoice = 105"
  "discountAmount_inv till_invoice = 0" "subtotal_inv till_invoice = 100"
  by code_simp+

lemma till_customers:
  "map (\<lambda>c. (id_cs c, outstandingBalance_cs c, creditLimit_cs c)) (customers_k till_committed) = [(''c'', 50, 60)]"
  using till_committed_run
proof (cases rule: sale_completed)
  case (1 rows math pm shift co number prefix its stock cost pr inv i x)
  have "products (world_k till_ready) = products shop_world"
    using keepsD[OF resolveSaleLocation_keeps till_location] by (simp add: till_worlds places_only_def)
  then have "rows = till_rows"
    unfolding 1(1) sale_rows_def till_prepared_fields till_ids by (auto simp: till_rows_def product_row_def shop_world_def)
  then have math: "math = till_math" using 1(4) till_engine by (simp add: till_prepared_fields)
  then have pm: "pm = till_pm" using 1(6) by (simp add: till_bill_fields)
  then have co: "co = Some till_customer" using 1(8) till_credit by (simp add: till_bill_fields)
  have "customers_k till_ready = [till_customer]" by (simp add: till_ready_def till_customer_def till_start_def)
  moreover have "d_plus decimal_js 0 (money decimal_js 50) = 50" by code_simp
  moreover have "outstandingBalance_cs till_customer = 0" "id_cs till_customer = ''c''" "creditLimit_cs till_customer = 60"
    by (simp_all add: till_customer_def till_start_def)
  ultimately show ?thesis using 1(20) co pm by (simp add: customer_rows_def till_bill_fields update_rows_def)
qed

lemma till_customers_after: "customers_k till_after = customers_k till_committed" "udhar_k till_after = udhar_k till_committed"
proof -
  have "createInvoice till_env till_dto till_actor [(0, False)] till_start =
      (till_committed\<lparr>redis_k := redis_k till_committed @ syncs ''s'' (stock_cr till_answer)\<rparr>, Inr till_answer)"
    by (simp add: createInvoice_def bind_eff_def till_prepared_run finish_sale_def MAX_RETRIES_def numeral_3_eq_3 one_attempt_def
        atomically_def till_committed_run afterStockChange_def redis_send_def syncs_def)
  then show "customers_k till_after = customers_k till_committed" "udhar_k till_after = udhar_k till_committed"
    by (simp_all add: till_after_def)
qed

end
