(* ===== verification/CheckoutRequests.thy ===== *)
theory CheckoutRequests
  imports CheckoutTies
begin

text \<open>
  What normalising a request gives: the catalogue lines, one per product, then the custom lines,
  each with a positive quantity in thousandths.
\<close>

section \<open>Normalised requests\<close>

text \<open>A line after normalisation: a positive quantity in thousandths, of a product or of a named custom item.\<close>

definition line_typed :: "NormalisedLine \<Rightarrow> bool" where
  "line_typed l \<longleftrightarrow> on_grid 3 (quantity_nl l) \<and> 0 < quantity_nl l \<and>
     (case custom_nl l of
        None \<Rightarrow> productId_nl l = Some (key_nl l) \<and> key_nl l \<noteq> []
      | Some c \<Rightarrow> productId_nl l = None \<and> name_cu c \<noteq> [] \<and> on_grid 2 (unitPrice_cu c) \<and> 0 \<le> unitPrice_cu c)"

definition catalogue_ok :: "NormalisedLine list \<Rightarrow> bool" where
  "catalogue_ok ls \<longleftrightarrow> distinct (map key_nl ls) \<and> (\<forall>l \<in> set ls. line_typed l \<and> custom_nl l = None)"

definition customs_ok :: "NormalisedLine list \<Rightarrow> bool" where
  "customs_ok ls \<longleftrightarrow> (\<forall>l \<in> set ls. line_typed l \<and> custom_nl l \<noteq> None)"

lemma set_insert_line: "set (insert_line le x ys) = insert x (set ys)"
  by (induction ys) auto

lemma set_sort_lines: "set (foldr (insert_line le) ls []) = set ls"
  by (induction ls) (auto simp: set_insert_line)

lemma distinct_insert_line:
  "distinct (map key_nl (insert_line le x ys)) \<longleftrightarrow> key_nl x \<notin> key_nl ` set ys \<and> distinct (map key_nl ys)"
  by (induction ys) (auto simp: set_insert_line)

lemma distinct_sort_lines: "distinct (map key_nl (foldr (insert_line le) ls [])) = distinct (map key_nl ls)"
  by (induction ls) (simp_all add: distinct_insert_line set_sort_lines)

context decimal_arith
begin

lemma grid3_min: "on_grid 3 x \<Longrightarrow> 0 < x \<Longrightarrow> 1 / 1000 \<le> x"
proof -
  assume g: "on_grid 3 x" and p: "0 < x"
  then obtain k where "x = of_int k / 10 ^ 3" by (auto simp: on_grid_iff)
  with p have "1 \<le> k" by simp
  then show ?thesis using \<open>x = of_int k / 10 ^ 3\<close> by (simp add: field_simps)
qed

lemma merged_quantity:
  assumes "on_grid 3 x" "0 < x" "0 < y"
  shows "on_grid 3 (to_dp_half_up D 3 (d_plus D x y)) \<and> 0 < to_dp_half_up D 3 (d_plus D x y)"
proof -
  have "fits 20 (1 / 1000)" by (rule fits_grid[of 3]) (auto simp: on_grid_iff intro!: exI[of _ 1])
  then have "1 / 1000 \<le> d_plus D x y" unfolding d_plus_def
    using grid3_min[OF assms(1,2)] assms(3) by (intro ctx_ge) linarith+
  then have "half_up 3 (1 / 1000) \<le> half_up 3 (d_plus D x y)" by (rule half_up_mono)
  moreover have "half_up 3 (1 / 1000) = 1 / 1000" by (rule half_up_exact) (auto simp: on_grid_iff intro!: exI[of _ 1])
  ultimately show ?thesis by (simp add: to_dp_half_up)
qed

lemma merge_line_ok:
  assumes ok: "catalogue_ok merged" and q: "on_grid 3 q" "0 < q" and p: "p \<noteq> []"
    and run: "merge_line D p q d merged = Inr merged'"
  shows "catalogue_ok merged'"
proof (cases "find (\<lambda>l. key_nl l = p) merged")
  case None
  then have "p \<notin> key_nl ` set merged" by (auto simp: find_None_iff)
  moreover have "merged' = merged @ [\<lparr>key_nl = p, productId_nl = Some p, custom_nl = None, quantity_nl = q, discountPercent_nl = d\<rparr>]"
    using run None by (simp add: merge_line_def)
  ultimately show ?thesis using ok q p by (auto simp: catalogue_ok_def line_typed_def)
next
  case (Some l)
  define f where "f x = (if key_nl x = p then x\<lparr>quantity_nl := to_dp_half_up D 3 (d_plus D (quantity_nl x) q)\<rparr> else x)" for x :: NormalisedLine
  have m: "merged' = map f merged" using run Some by (auto simp: merge_line_def f_def[abs_def] split: if_splits)
  have keys: "map key_nl merged' = map key_nl merged" by (simp add: m f_def)
  have "line_typed (f x) \<and> custom_nl (f x) = None" if "x \<in> set merged" for x
    using that ok merged_quantity[of "quantity_nl x" q] q by (auto simp: catalogue_ok_def line_typed_def f_def)
  then have "\<forall>l \<in> set merged'. line_typed l \<and> custom_nl l = None" by (simp add: m)
  with ok keys show ?thesis unfolding catalogue_ok_def by metis
qed

lemma custom_line_ok:
  "custom_line D n c q d = Inr l \<Longrightarrow> on_grid 3 q \<Longrightarrow> 0 < q \<Longrightarrow> line_typed l \<and> custom_nl l \<noteq> None"
  by (auto simp: custom_line_def Let_def line_typed_def to_dp_half_up half_up_nonneg split: if_splits)

lemma gather_lines_ok:
  "gather_lines D n its merged customs = Inr (merged', customs') \<Longrightarrow> catalogue_ok merged \<Longrightarrow> customs_ok customs \<Longrightarrow>
     catalogue_ok merged' \<and> customs_ok customs'"
proof (induction its arbitrary: n merged customs)
  case (Cons it its)
  let ?q = "to_dp_half_up D 3 (quantity_ii it)" and ?d = "case discountPercent_ii it of None \<Rightarrow> 0 | Some d \<Rightarrow> d"
  have q: "on_grid 3 ?q" "0 < ?q" using Cons.prems(1) by (auto simp: Let_def to_dp_half_up split: if_splits)
  show ?case
  proof (cases "custom_ii it")
    case (Some c)
    with Cons.prems(1) q obtain l where l: "custom_line D n c ?q ?d = Inr l"
      "gather_lines D (Suc n) its merged (customs @ [l]) = Inr (merged', customs')"
      by (auto simp: Let_def bind_res_eq_Inr split: option.splits)
    have "customs_ok (customs @ [l])" using custom_line_ok[OF l(1) q] Cons.prems(3) by (auto simp: customs_ok_def)
    with Cons.IH[OF l(2) Cons.prems(2)] show ?thesis .
  next
    case None
    with Cons.prems(1) q obtain m where m: "merge_line D (the (productId_ii it)) ?q ?d merged = Inr m" "truthy (productId_ii it)"
      "gather_lines D (Suc n) its m customs = Inr (merged', customs')"
      by (auto simp: Let_def bind_res_eq_Inr split: if_splits option.splits)
    have "the (productId_ii it) \<noteq> []" using m(2) by (auto simp: truthy_def split: option.splits)
    from merge_line_ok[OF Cons.prems(2) q this m(1)] Cons.IH[OF m(3) _ Cons.prems(3)] show ?thesis by blast
  qed
qed simp

end

lemma normaliseLines_ok:
  assumes "decimal_arith (dec_env E)" and "normaliseLines E its = Inr ls"
  obtains ms cs where "ls = ms @ cs" "catalogue_ok ms" "customs_ok cs"
proof -
  obtain m c where g: "gather_lines (dec_env E) 0 its [] [] = Inr (m, c)" and ls: "ls = foldr (insert_line (locale_le_env E)) m [] @ c"
    using assms(2) by (auto simp: normaliseLines_def bind_res_eq_Inr)
  have "catalogue_ok m \<and> customs_ok c"
    by (rule decimal_arith.gather_lines_ok[OF assms(1) g]) (simp_all add: catalogue_ok_def customs_ok_def)
  then show thesis using that[OF ls] by (simp add: catalogue_ok_def set_sort_lines distinct_sort_lines)
qed

lemma normaliseLines_grid:
  assumes "decimal_arith (dec_env E)" and "normaliseLines E its = Inr ls"
  shows "grid_lines ls"
  using assms
proof (rule normaliseLines_ok)
  fix ms cs
  assume "ls = ms @ cs" "catalogue_ok ms" "customs_ok cs"
  then show ?thesis by (auto simp: grid_lines_def list_all_iff catalogue_ok_def customs_ok_def line_typed_def)
qed

end
