(* ===== verification/CheckoutBehaviour.thy ===== *)
theory CheckoutBehaviour
  imports CheckoutSamples CheckoutRequests
begin

text \<open>
  The properties of the POS checkout: histories of several tills over one database, retries and
  refusals, the documents of one sale, and what a cashier may do.
\<close>

section \<open>Several tills over one database\<close>

text \<open>
  A whole checkout; one attempt of a transaction whose request was prepared at any earlier time,
  so that the tills interleave in every order; and any other movement of stock.
\<close>

datatype till_call =
    Checkout CreateInvoiceDto BillingActor "(int \<times> bool) list"
  | Attempt CreateInvoiceDto BillingActor int bool prepared
  | OtherStock inventory_call

fun run_till :: "checkout_env \<Rightarrow> till_call \<Rightarrow> counter \<Rightarrow> counter" where
  "run_till E (Checkout dto actor clock) s = fst (createInvoice E dto actor clock s)"
| "run_till E (Attempt dto actor now aborted p) s = fst (one_attempt aborted (sale_transaction E dto actor now p) s)"
| "run_till E (OtherStock c) s = s\<lparr>world_k := InventoryProperties.run_call (stock_id_env E, c) (world_k s)\<rparr>"

fun till_allowed :: "checkout_env \<Rightarrow> till_call \<Rightarrow> bool" where
  "till_allowed E (Checkout dto actor clock) \<longleftrightarrow> True"
| "till_allowed E (Attempt dto actor now aborted p) \<longleftrightarrow> grid_lines (lines_pre' p)"
| "till_allowed E (OtherStock c) \<longleftrightarrow> call_guarded (stock_id_env E, c)"

definition till_history :: "checkout_env \<Rightarrow> till_call list \<Rightarrow> counter \<Rightarrow> counter" where
  "till_history E cs s = fold (run_till E) cs s"

text \<open>The decimal library is exact where it must be and the database draws new identifiers.\<close>

definition sound_env :: "checkout_env \<Rightarrow> bool" where
  "sound_env E \<longleftrightarrow> decimal_arith (dec_env E) \<and> fresh_ids (stock_id_env E) \<and> new_ids (posting_id_env E) \<and>
     new_invoice_ids (invoice_id_env E)"

definition till_ok :: "(string \<Rightarrow> decimal) \<Rightarrow> counter \<Rightarrow> bool" where
  "till_ok opening s \<longleftrightarrow> stock_ok (world_k s) \<and> ledger_ok (books_k s) \<and> numbers_ok s \<and> credit_ok opening s"

lemma till_ok_untouched: "untouched shop s s' \<Longrightarrow> till_ok opening s \<Longrightarrow> till_ok opening s'"
  using numbers_ok_untouched credit_ok_untouched stock_ok_places unfolding till_ok_def
  by (metis untouched_def)

lemma till_ok_redis [simp]: "till_ok opening (s\<lparr>redis_k := r\<rparr>) = till_ok opening s"
  by (simp add: till_ok_def numbers_ok_def numbers_of_def sequence_of_def credit_ok_def rows_of_customer_def)

locale sound_till =
  fixes E :: checkout_env
  assumes sound: "sound_env E"
begin

lemma sale_keeps:
  assumes run: "sale_transaction E dto actor now p s = (s', Inr res)" and grid: "grid_lines (lines_pre' p)"
    and ok: "till_ok opening s"
  shows "till_ok opening s'"
proof -
  have D: "decimal_arith (dec_env E)" and F: "fresh_ids (stock_id_env E)" and N: "new_ids (posting_id_env E)"
    using sound by (simp_all add: sound_env_def)
  have old: "stock_ok (world_k s)" "ledger_ok (books_k s)" "numbers_ok s" "credit_ok opening s"
    using ok by (simp_all add: till_ok_def)
  have "stock_ok (world_k s') \<and> ledger_ok (books_k s')"
    using run
  proof (cases rule: sale_completed)
    case (1 rows math pm shift co number prefix its stock cost pr inv i x)
    have "stock_ok (world_k s')"
      unfolding 1(19) using sale_calls_guarded[OF grid F] old(1) by (rule stock_ok_history)
    moreover have "ledger_ok (books_k s')"
      using decimal_arith.post_few_keeps[OF D _ N sale_posting_few 1(23)] old(2) by simp
    ultimately show ?thesis ..
  qed
  then show ?thesis
    using sale_numbers[OF run old(3)] sale_credit[OF run D old(4)] by (simp add: till_ok_def)
qed

lemma attempt_keeps:
  assumes "grid_lines (lines_pre' p)" and "till_ok opening s"
  shows "till_ok opening (fst (one_attempt aborted (sale_transaction E dto actor now p) s))"
proof (cases "one_attempt aborted (sale_transaction E dto actor now p) s")
  case (Pair s' r)
  have "till_ok opening s'"
  proof (cases r)
    case (Inl e)
    from one_attempt_Inl[OF Pair[unfolded Inl]] assms(2) show ?thesis by (blast intro: till_ok_untouched)
  next
    case (Inr x)
    from sale_keeps[OF one_attempt_Inr[OF Pair[unfolded Inr]] assms] show ?thesis .
  qed
  then show ?thesis by (simp add: Pair)
qed

lemma checkout_keeps: "till_ok opening s \<Longrightarrow> till_ok opening (fst (createInvoice E dto actor clock s))"
proof -
  assume ok: "till_ok opening s"
  obtain s' out where run: "createInvoice E dto actor clock s = (s', out)" by fastforce
  then have "till_ok opening s'"
  proof (cases rule: checkout_cases)
    case (sold r p t t' now)
    have "grid_lines (lines_pre' p)" using normaliseLines_grid[OF _ sold(3)] sound by (simp add: sound_env_def)
    from sale_keeps[OF sold(5) this till_ok_untouched[OF sold(2) ok]] show ?thesis by (simp add: sold(6))
  qed (use ok till_ok_untouched in blast)+
  then show ?thesis by (simp add: run)
qed

lemma other_stock_keeps:
  assumes "call_guarded (stock_id_env E, c)" and "till_ok opening s"
  shows "till_ok opening (s\<lparr>world_k := InventoryProperties.run_call (stock_id_env E, c) (world_k s)\<rparr>)"
proof -
  have "stock_ok (history (stock_id_env E) [c] (world_k s))"
    using assms by (intro stock_ok_history) (simp_all add: till_ok_def)
  then show ?thesis
    using assms(2) by (simp add: history_def till_ok_def numbers_ok_def numbers_of_def sequence_of_def credit_ok_def rows_of_customer_def)
qed

sublocale tills: step_system "run_till E" "till_allowed E" "till_ok opening"
proof unfold_locales
  fix c s
  assume "till_allowed E c" "till_ok opening s"
  then show "till_ok opening (run_till E c s)"
    using attempt_keeps checkout_keeps other_stock_keeps by (cases c) simp_all
qed

lemma history_ok:
  "list_all (till_allowed E) cs \<Longrightarrow> till_ok opening s \<Longrightarrow> till_ok opening (till_history E cs s)"
  unfolding till_history_def by (rule tills.history)

end

interpretation sample_till: sound_till till_env
  by unfold_locales (simp add: sound_env_def fresh_id_new long_invoice_id_new)

lemma till_history_ok:
  "sound_env E \<Longrightarrow> list_all (till_allowed E) cs \<Longrightarrow> till_ok opening s \<Longrightarrow> till_ok opening (till_history E cs s)"
  by (rule sound_till.history_ok) (simp_all add: sound_till_def)

lemma till_start_ok: "till_ok (\<lambda>_. 0) till_start"
proof -
  have "stock_ok (world_k till_start)" by (simp add: stock_ok_def shop_world_ok)
  moreover have "ledger_ok (books_k till_start)"
    by (simp add: till_start_def ledger_ok_def trial_ok_def account_balance_def side_of_def fits_column_def)
  moreover have "numbers_ok till_start"
    by (simp add: till_start_def numbers_ok_def numbers_of_def sequence_of_def)
  moreover have "credit_ok (\<lambda>_. 0) till_start"
    by (simp add: till_start_def credit_ok_def rows_of_customer_def MONEY_MAX_def)
  ultimately show ?thesis by (simp add: till_ok_def)
qed

lemma till_sound: "sound_env till_env"
  by (rule sample_till.sound)

definition till_calls :: "till_call list" where
  "till_calls = [Checkout till_dto till_actor [(0, False)]]"

lemma till_calls_run: "till_history till_env till_calls till_start = till_after" "list_all (till_allowed till_env) till_calls"
  by (simp_all add: till_history_def till_calls_def till_sold)

text \<open>C3: whatever the tills of a shop do, in any interleaving of their transactions and with any other
  movement of stock in between, completed or rolled back, the stock and the ledger stay sound:
  every product's aggregate is the stock on its rows, the stock journal explains every row, no row
  that may not go negative falls below what is reserved, every posting balances, and every account
  is the sum of its entries.\<close>

theorem tills_keep_stock_and_ledger:
  assumes "sound_env E" and "list_all (till_allowed E) cs" and "till_ok opening s"
  shows "stock_ok (world_k (till_history E cs s)) \<and> ledger_ok (books_k (till_history E cs s))"
  using till_history_ok[OF assms] by (simp add: till_ok_def)

theorem tills_keep_stock_and_ledger_witness: "stock_ok (world_k till_after) \<and> ledger_ok (books_k till_after)"
  using tills_keep_stock_and_ledger[OF till_sound till_calls_run(2) till_start_ok] by (simp add: till_calls_run(1))

text \<open>C6: invoice numbers have no gap and no repeat: after any history of the tills, the invoices of a shop
  and financial year carry the numbers 1, 2, 3, ... of their series in the order they were issued,
  also when attempts were rolled back and retried, and no idempotency key has two invoices.\<close>

theorem invoice_numbers_gapless:
  assumes "sound_env E" and "list_all (till_allowed E) cs" and "till_ok opening s"
  shows "numbers_of shop prefix (till_history E cs s) =
      map (sequence_number prefix) [1..<Suc (sequence_of shop prefix (till_history E cs s))] \<and>
    distinct (map invoice_key (invoices_k (till_history E cs s)))"
  using till_history_ok[OF assms] by (simp add: till_ok_def numbers_ok_def)

theorem invoice_numbers_gapless_witness:
  "numbers_of ''s'' ''INV-2627-'' till_after =
     map (sequence_number ''INV-2627-'') [1..<Suc (sequence_of ''s'' ''INV-2627-'' till_after)] \<and>
   distinct (map invoice_key (invoices_k till_after))"
  using invoice_numbers_gapless[OF till_sound till_calls_run(2) till_start_ok, of "''s''" "''INV-2627-''"] by (simp add: till_calls_run(1))

text \<open>C7: a customer's balance is what the credit rows explain: after any history of the tills it is the
  opening balance plus the customer's credit rows, each of which starts at the balance the one before
  left, and it never exceeds what the column holds.\<close>

theorem credit_explained:
  assumes "sound_env E" and "list_all (till_allowed E) cs" and "till_ok opening s"
    and "c \<in> set (customers_k (till_history E cs s))"
  shows "outstandingBalance_cs c = opening (id_cs c) + sum_list (map amount_ut (rows_of_customer (id_cs c) (till_history E cs s))) \<and>
    credit_chain (opening (id_cs c)) (rows_of_customer (id_cs c) (till_history E cs s)) (outstandingBalance_cs c) \<and>
    paise MONEY_MAX (outstandingBalance_cs c)"
proof -
  have "credit_ok opening (till_history E cs s)" using till_history_ok[OF assms(1-3)] by (simp add: till_ok_def)
  with assms(4) show ?thesis using credit_chain_sum unfolding credit_ok_def by blast
qed

theorem credit_explained_witness:
  "sum_list (map amount_ut (rows_of_customer ''c'' till_after)) = 50"
proof -
  obtain c where c: "c \<in> set (customers_k till_after)" "id_cs c = ''c''" "outstandingBalance_cs c = 50"
    using till_customers by (auto simp: till_customers_after)
  have "c \<in> set (customers_k (till_history till_env till_calls till_start))" using c(1) by (simp add: till_calls_run(1))
  from conjunct1[OF credit_explained[OF till_sound till_calls_run(2) till_start_ok this]]
  have "outstandingBalance_cs c = sum_list (map amount_ut (rows_of_customer ''c'' till_after))" by (simp add: till_calls_run(1) c(2))
  then show ?thesis using c(3) by simp
qed

text \<open>C4: a retry is answered, not charged again: once a checkout has succeeded, the same request with the
  same key is answered with the same invoice, marked as replayed, and changes nothing at all: no
  stock, no money, no Redis counter, no journal row.\<close>

theorem retry_returns_invoice:
  assumes "createInvoice E dto actor clock s = (s', Inr r)" and "new_invoice_ids (invoice_id_env E)"
  shows "\<exists>r'. createInvoice E dto actor clock' s' = (s', Inr r') \<and> invoice_cr r' = invoice_cr r \<and> replayed_cr r' \<and> stock_cr r' = []"
proof -
  have again: "\<exists>r'. createInvoice E dto actor clock' s' = (s', Inr r') \<and> invoice_cr r' = x \<and> replayed_cr r' \<and> stock_cr r' = []"
    if n: "normaliseLines E (items_ni dto) = Inr ls" and f: "find_keyed (shopId_a actor) (idempotencyKey_ni dto) s' = Some x"
      and a: "replayOrReject E ls dto (hashRequest E ls dto False) x = Inr r0" for ls x r0
  proof -
    have "prepare_sale E dto actor s' = (s', Inr (Inl r0))"
      using n f a by (simp add: prepare_sale_def Let_def bind_eff_def)
    then have "createInvoice E dto actor clock' s' = (s', Inr r0)" by (simp add: createInvoice_def bind_eff_def)
    moreover have "invoice_cr r0 = x \<and> replayed_cr r0 \<and> stock_cr r0 = []" using a by (auto simp: replayOrReject_def split: if_splits)
    ultimately show ?thesis by blast
  qed
  from assms(1) show ?thesis
  proof (cases rule: checkout_cases)
    case (answered r0 ls x cs)
    then have "invoice_cr r = x" by (auto simp: replayOrReject_def split: if_splits)
    with again[OF answered(5-7)] show ?thesis by simp
  next
    case (sold r0 p t t' now)
    then have r: "r0 = r" by simp
    from sold(5) assms(2) show ?thesis
    proof (cases rule: sale_invoice)
      case (1 rows math pm shift i number its)
      let ?x = "invoice_cr r0"
      have k: "shopId_inv ?x = shopId_a actor" "idempotencyKey_inv ?x = idempotencyKey_ni dto"
        "requestHash_inv ?x = hashRequest E (lines_pre' p) dto False" using 1(5) sold(4) by simp_all
      have "find_keyed (shopId_a actor) (idempotencyKey_ni dto) s' = Some ?x"
        using 1(6,8) k sold(6) by (auto simp: find_keyed_def intro!: find_snoc)
      moreover have "\<exists>r1. replayOrReject E (lines_pre' p) dto (hashRequest E (lines_pre' p) dto False) ?x = Inr r1"
        using k by (simp add: replayOrReject_def)
      ultimately show ?thesis using again[OF sold(3)] r by blast
    qed
  qed simp
qed

theorem retry_returns_invoice_witness:
  "\<exists>r'. createInvoice till_env till_dto till_actor [] till_after = (till_after, Inr r') \<and> invoice_cr r' = till_invoice \<and> replayed_cr r' \<and>
     stock_cr r' = []"
  using retry_returns_invoice[OF till_sold, of "[]"] by (simp add: long_invoice_id_new till_answer_def)

text \<open>C5: a checkout that is refused, or that the database keeps rolling back, leaves no trace: every
  table is as it was, save for the refusals the audit log records and a default stock location, and
  every counter Redis decremented for it has been given back.\<close>

theorem refused_checkout_leaves_no_trace:
  assumes "createInvoice E dto actor clock s = (s', Inl e)"
  shows "untouched (shopId_a actor) s s' \<and>
    (\<exists>cs. redis_k s' = redis_k s @ cs \<and> (\<forall>q. held (shopId_a actor) q cs = 0))"
  using assms by (cases rule: checkout_cases) auto

theorem refused_checkout_leaves_no_trace_witness:
  "untouched ''s'' till_start till_undone \<and>
   redis_k till_undone = [DecrementStock ''s'' ''p'' 2 PRE_OK, RestoreStock ''s'' ''p'' 2]"
  using refused_checkout_leaves_no_trace[OF till_aborted(1)] till_aborted(2) by simp

section \<open>The documents of one sale\<close>

text \<open>C2: the documents of a completed sale agree to the paisa: the transaction adds exactly one invoice, its
  totals are the sums of its stored lines, the subtotal less the discounts is the taxable amount,
  its tender rows add up to the paid amount, and paid plus credit is the total.\<close>

theorem sale_documents_agree:
  assumes "sale_transaction E dto actor now p s = (s', Inr res)" and "sound_env E"
  shows "(let x = invoice_cr res; its = items_inv x; ps = drop (length (payments_k s)) (payments_k s')
    in invoices_k s' = invoices_k s @ [x] \<and>
       totalAmount_inv x = sum_list (map totalAmount_li its) + roundOffAmount_inv x \<and>
       taxableAmount_inv x = sum_list (map taxableAmount_li its) \<and> taxAmount_inv x = sum_list (map tax_of_item its) \<and>
       discountAmount_inv x = sum_list (map discountAmount_li its) \<and>
       subtotal_inv x - discountAmount_inv x = taxableAmount_inv x \<and>
       taxableAmount_inv x + taxAmount_inv x + roundOffAmount_inv x = totalAmount_inv x \<and>
       paidAmount_inv x = sum_list (map amount_ip ps) \<and> paidAmount_inv x + udharAmount_inv x = totalAmount_inv x)"
proof -
  have D: "decimal_arith (dec_env E)" and ids: "new_invoice_ids (invoice_id_env E)" using assms(2) by (simp_all add: sound_env_def)
  from assms(1) D ids show ?thesis
  proof (cases rule: sale_documents)
    case (1 math pm)
    note bal = calculate_balance[OF D 1(2)] and paid = bill_paid[OF D 1(2,3)]
    obtain h td d where ok: "\<And>l. l \<in> set (lines_r math) \<Longrightarrow> line_ok l" and t: "math\<lparr>payment_r := None\<rparr> = totals (dec_env E) h td d (lines_r math)"
      and small: "subtotal_r math \<le> MONEY_MAX"
      using decimal_arith.calculate_totals[OF D 1(2)] by metis
    have "taxableTotal_r math = sum_list (map taxableAmount_l (lines_r math))" "totalTax_r math = sum_list (map taxAmount_l (lines_r math))"
      using decimal_arith.totals_exact[OF D ok t] small by simp_all
    moreover have "sum_list (map amount_t (tenders_p pm)) + udharAmount_p pm = finalTotal_r math"
      using 1(1) unfolding bill_ok_def by blast
    ultimately show ?thesis using 1(4-18) bal paid by (simp add: Let_def)
  qed
qed

theorem sale_documents_agree_witness:
  "totalAmount_inv till_invoice = sum_list (map totalAmount_li (items_inv till_invoice)) + roundOffAmount_inv till_invoice \<and>
   paidAmount_inv till_invoice + 50 = 105"
  using sale_documents_agree[OF till_committed_run till_sound] by (simp add: Let_def till_answer_def till_invoice_fields)

text \<open>C9: the drawer, the ledger and the receivables move together: a completed sale raises the cash account
  by its cash tenders, the bank account by its other tenders and the receivables by its credit, these
  three together are the invoice's total, and the drawer of its shift expects exactly what the cash
  account gained.\<close>

theorem drawer_and_ledger_agree:
  assumes "sale_transaction E dto actor now p s = (s', Inr res)" and "sound_env E" and "ledger_ok (books_k s)"
  shows "(let gain = (\<lambda>a. account_balance (books_k s') (shopId_a actor) a - account_balance (books_k s) (shopId_a actor) a);
        ps = drop (length (payments_k s)) (payments_k s')
    in gain A_CASH = sum_list (map amount_ip (filter (\<lambda>r. tender_ip r = CASH) ps)) \<and>
       gain A_BANK = sum_list (map amount_ip (filter (\<lambda>r. tender_ip r \<noteq> CASH) ps)) \<and>
       gain ACCOUNTS_RECEIVABLE = udharAmount_inv (invoice_cr res) \<and>
       gain A_CASH + gain A_BANK + gain ACCOUNTS_RECEIVABLE = totalAmount_inv (invoice_cr res) \<and>
       map expectedCash_sh (shifts_bk (books_k s')) =
         map (\<lambda>x. expectedCash_sh x + (if Some (Shift.id_sh x) = shiftId_cr res then gain A_CASH else 0)) (shifts_bk (books_k s)))"
proof -
  have D: "decimal_arith (dec_env E)" and ids: "new_invoice_ids (invoice_id_env E)" using assms(2) by (simp_all add: sound_env_def)
  from assms(1) D ids assms(3) show ?thesis
  proof (cases rule: sale_moves)
    case (1 math pm cost)
    let ?ts = "tenders_p pm" and ?D = "dec_env E"
    have ts: "list_all tender_ok ?ts" "sum_list (map amount_t ?ts) \<le> MONEY_MAX"
      and all: "sum_list (map amount_t ?ts) + udharAmount_p pm = finalTotal_r math"
      using 1(1) by (auto simp: bill_ok_def paise_def)
    have cash: "cash_bucket ?D ?ts = sum_list (map amount_t (filter (\<lambda>t. type_t t = CASH) ?ts))"
      by (simp add: cash_bucket_def decimal_arith.tender_sum_exact(1)[OF D ts])
    have "filter (\<lambda>t. type_t t \<in> set [UPI, TenderType.CARD, BANK_TRANSFER]) ?ts = filter (\<lambda>t. type_t t \<noteq> CASH) ?ts"
      by (intro filter_cong) (auto intro: TenderType.exhaust)
    then have bank: "bank_bucket ?D ?ts = sum_list (map amount_t (filter (\<lambda>t. type_t t \<noteq> CASH) ?ts))"
      by (simp add: bank_bucket_def decimal_arith.tender_sum_exact(1)[OF D ts])
    note moves = 1(4) sale_changes[OF D 1(1)]
    have tot: "cash_bucket ?D ?ts + bank_bucket ?D ?ts + udharAmount_p pm = finalTotal_r math"
      using all decimal_arith.cash_and_bank[OF D, of ?ts] by (simp add: cash_bucket_def bank_bucket_def decimal_arith.tender_sum_exact(1)[OF D ts])
    have drawer: "map expectedCash_sh (shifts_bk (books_k s')) = map (\<lambda>x. expectedCash_sh x +
        (if Some (Shift.id_sh x) = shiftId_cr res then cash_bucket ?D ?ts else 0)) (shifts_bk (books_k s))"
      unfolding 1(5) by (auto simp: shift_books_def update_rows_def shift_sale_def split: option.split)
    show ?thesis
      using tot drawer 1(2,3) 1(6)[of "\<lambda>t. t = CASH"] 1(6)[of "\<lambda>t. t \<noteq> CASH"] cash bank
      by (simp add: Let_def moves)
  qed
qed

theorem drawer_and_ledger_agree_witness:
  "account_balance (books_k till_committed) ''s'' ACCOUNTS_RECEIVABLE = 50"
proof -
  have "books_k till_ready = books_k till_start" by (simp add: till_ready_def)
  then have ok: "ledger_ok (books_k till_ready)" using till_start_ok by (simp add: till_ok_def)
  have "account_balance (books_k till_ready) ''s'' ACCOUNTS_RECEIVABLE = 0"
    by (simp add: till_ready_def till_start_def account_balance_def)
  then show ?thesis
    using drawer_and_ledger_agree[OF till_committed_run till_sound ok] by (simp add: Let_def till_answer_def till_invoice_fields)
qed

section \<open>Authority, credit and printed prices\<close>

lemma foldl_max_init: "a \<le> foldl max a xs" for a :: rat
  by (induction xs arbitrary: a) (auto intro: order_trans[OF max.cobounded1])

lemma foldl_max_ge: "x \<in> set xs \<Longrightarrow> x \<le> foldl max a xs" for a :: rat
proof (induction xs arbitrary: a)
  case (Cons y ys)
  then show ?case using foldl_max_init[of "max a y" ys] by auto
qed simp

lemma authority_limits:
  assumes "enforceDiscountAuthority E role ls math req = Inr ()" and "\<not> isManager role"
  shows "\<exists>bill eff. discountLimitAmounts (dec_env E) math (NDecimal (cashierMaxDiscountPercent_env E)) = Inr (bill, eff) \<and>
      totalDiscount_r math \<le> eff" and "\<forall>l \<in> set ls. discountPercent_nl l \<le> cashierMaxDiscountPercent_env E"
proof -
  have lim: "\<not> cashierMaxDiscountPercent_env E < foldl max 0 (map discountPercent_nl ls)"
    and "\<exists>bill eff. discountLimitAmounts (dec_env E) math (NDecimal (cashierMaxDiscountPercent_env E)) = Inr (bill, eff) \<and>
      totalDiscount_r math \<le> eff"
    using assms by (auto simp: enforceDiscountAuthority_def Let_def not_less split: sum.splits if_splits)
  then show "\<exists>bill eff. discountLimitAmounts (dec_env E) math (NDecimal (cashierMaxDiscountPercent_env E)) = Inr (bill, eff) \<and>
      totalDiscount_r math \<le> eff" by blast
  show "\<forall>l \<in> set ls. discountPercent_nl l \<le> cashierMaxDiscountPercent_env E"
    using lim foldl_max_ge[of _ "map discountPercent_nl ls" 0] by (force simp: not_less)
qed

text \<open>C11: a cashier never gives away more than the shop allows: the invoice a cashier writes is discounted in all
  by at most the cashier's percentage of its subtotal, to half a paisa a line, and no line of the request
  carries a larger percentage; the check is made on the bill as it is written, in its transaction.\<close>

theorem cashier_discount_bounded:
  assumes "sale_transaction E dto actor now p s = (s', Inr res)" and "sound_env E" and "\<not> isManager (role_a actor)"
    and "on_grid 2 (cashierMaxDiscountPercent_env E)" and "0 \<le> cashierMaxDiscountPercent_env E"
    and "cashierMaxDiscountPercent_env E \<le> 100"
  shows "discountAmount_inv (invoice_cr res) \<le> subtotal_inv (invoice_cr res) * cashierMaxDiscountPercent_env E / 100
      + of_nat (length (items_inv (invoice_cr res))) / 200 \<and>
    (\<forall>l \<in> set (lines_pre' p). discountPercent_nl l \<le> cashierMaxDiscountPercent_env E)"
proof -
  have D: "decimal_arith (dec_env E)" and ids: "new_invoice_ids (invoice_id_env E)" using assms(2) by (simp_all add: sound_env_def)
  from assms(1) have auth: "\<exists>math. calculate (dec_env E) (json_env E) (engine_input (sale_rows (shopId_a actor) p s) (isInterState_pre p)
      (lines_pre' p) dto) = Inr math \<and> enforceDiscountAuthority E (role_a actor) (lines_pre' p) math (requestedPercent_pre p) = Inr ()"
    by (cases rule: sale_completed) (auto simp: runEngine_Inr)
  from assms(1) D ids show ?thesis
  proof (cases rule: sale_documents)
    case (1 math pm)
    with auth have a: "enforceDiscountAuthority E (role_a actor) (lines_pre' p) math (requestedPercent_pre p) = Inr ()" by simp
    obtain bill eff where l: "discountLimitAmounts (dec_env E) math (NDecimal (cashierMaxDiscountPercent_env E)) = Inr (bill, eff)"
      "totalDiscount_r math \<le> eff" using authority_limits(1)[OF a assms(3)] by blast
    have "length (items_inv (invoice_cr res)) = length (lines_r math)" using 1(14) by (metis length_map)
    then show ?thesis
      using decimal_arith.effective_limit_bound[OF D 1(2) assms(4-6) l(1)] l(2) authority_limits(2)[OF a assms(3)] 1(5,6) by simp
  qed
qed

theorem cashier_discount_bounded_witness:
  "discountAmount_inv till_invoice \<le> subtotal_inv till_invoice * 10 / 100 + 1 / 200"
proof -
  have "on_grid 2 (10 :: rat)" using on_grid_of_int[of 2 10] by simp
  moreover have "\<not> isManager ''CASHIER''" by (simp add: isManager_def MANAGER_ROLES_def)
  moreover have "length (items_inv till_invoice) = 1" by (simp add: till_invoice_def)
  ultimately show ?thesis
    using cashier_discount_bounded[OF till_committed_run till_sound] by (simp add: till_answer_def)
qed

text \<open>C8: credit is given within its limits: when a checkout writes an invoice with an unpaid part, credit sales are
  on, the bill names an active customer of the shop, and after it that customer owes no more than the
  column holds and, unless a manager sold, no more than the customer's credit limit.\<close>

theorem credit_within_limit:
  assumes "createInvoice E dto actor clock s = (s', Inr r)" and "sound_env E" and "\<not> replayed_cr r" and "0 < udharAmount_inv (invoice_cr r)"
  shows "creditSales_env E \<and> (\<exists>c \<in> set (customers_k s'). Some (id_cs c) = customerId_ni dto \<and> shopId_cs c = shopId_a actor \<and> isActive_cs c \<and>
    outstandingBalance_cs c \<le> MONEY_MAX \<and> (outstandingBalance_cs c \<le> creditLimit_cs c \<or> isManager (role_a actor)))"
  using assms(1)
proof (cases rule: checkout_cases)
  case (answered r0 ls x cs)
  then show ?thesis using assms(3) by (auto simp: replayOrReject_def split: if_splits)
next
  case (sold r0 p t t' now)
  have D: "decimal_arith (dec_env E)" and ids: "new_invoice_ids (invoice_id_env E)" using assms(2) by (simp_all add: sound_env_def)
  have r: "r0 = r" using sold(1) by simp
  from sold(5) D ids obtain math0 pm0 where M: "bill_ok math0 pm0" "calculate (dec_env E) (json_env E)
      (engine_input (sale_rows (shopId_a actor) p t) (isInterState_pre p) (lines_pre' p) dto) = Inr math0" "payment_r math0 = Some pm0"
      "udharAmount_inv (invoice_cr r) = udharAmount_p pm0" unfolding r by (cases rule: sale_documents) blast
  have u: "0 < udharAmount_p pm0" using assms(4) M(4) by simp
  have "udharAmount_p pm0 = money (dec_env E) (request_udhar dto)" using bill_credit[OF D M(2,3)] .
  then have "0 < request_udhar dto"
    using u half_up_mono[of "request_udhar dto" 0 2] decimal_arith.to_dp_half_up[OF D] by (fastforce simp: money_def MONEY_DP_def not_less)
  then have g: "truthy (customerId_ni dto)" "creditSales_env E" using sold(7) by auto
  from sold(5) show ?thesis
  proof (cases rule: sale_completed)
    case (1 rows math pm shift co number prefix its stock cost pr inv i x)
    have "math = math0" "pm = pm0" using 1(1,4,6) M(2,3) by (auto simp: runEngine_Inr)
    with u have up: "0 < udharAmount_p pm" by simp
    from lock_credit_Inr[OF lock_credit_state_Inr[OF 1(8)]] g(1) obtain c where c: "co = Some c"
      "find (is_customer (shopId_a actor) (the (customerId_ni dto))) (customers_k t) = Some c" "isActive_cs c"
      "d_plus (dec_env E) (outstandingBalance_cs c) (money (dec_env E) (udharAmount_p pm)) \<le> MONEY_MAX"
      "d_plus (dec_env E) (outstandingBalance_cs c) (money (dec_env E) (udharAmount_p pm)) \<le> creditLimit_cs c \<or> isManager (role_a actor)"
      using up by (auto split: option.splits)
    let ?c = "charged (dec_env E) now (udharAmount_p pm) (finalTotal_r math) c c"
    have "c \<in> set (customers_k t)" and id: "id_cs c = the (customerId_ni dto)" "shopId_cs c = shopId_a actor"
      using find_SomeD[OF c(2)] by (simp_all add: is_customer_def)
    then have "?c \<in> set (customers_k t')" unfolding 1(20) c(1) by (auto simp: customer_rows_def set_update_rows)
    then have "?c \<in> set (customers_k s')" by (simp add: sold(6))
    moreover have "Some (id_cs c) = customerId_ni dto" using id(1) g(1) by (auto simp: truthy_def split: option.splits)
    ultimately show ?thesis using c(3-5) id g(2) up by (intro conjI bexI[of _ ?c]) simp_all
  qed
qed simp

theorem credit_within_limit_witness:
  "\<exists>c \<in> set (customers_k till_after). id_cs c = ''c'' \<and> outstandingBalance_cs c \<le> creditLimit_cs c"
proof -
  have "\<not> isManager ''CASHIER''" by (simp add: isManager_def MANAGER_ROLES_def)
  then show ?thesis
    using credit_within_limit[OF till_sold till_sound] by (simp add: till_answer_def till_invoice_fields) blast
qed

text \<open>C12: nothing sells above its printed price: every catalogue line of a written invoice is of a product the
  shop sells at that moment, carries its prices, and, where a printed price is set, one unit of it with its
  tax, in or out of the state, costs at most that.\<close>

theorem no_line_above_mrp:
  assumes "sale_transaction E dto actor now p s = (s', Inr res)" and "sound_env E"
    and "normaliseLines E (items_ni dto) = Inr (lines_pre' p)"
    and "it \<in> set (items_inv (invoice_cr res))" and "\<not> isCustom_li it"
  shows "\<exists>i q. productId_li it = Some i \<and> product_row (shopId_a actor) (world_k s) i = Some q \<and>
    sellingPrice_li it = sellingPrice_pr q \<and> mrp_li it = mrp_pr q \<and> gstRate_li it = gstRate_pr q \<and>
    (0 < mrp_li it \<longrightarrow> (\<exists>t. inclusiveUnitPrice (dec_env E) (NDecimal (sellingPrice_li it)) (NText (gstRate_li it))
       (NDecimal (cessRate_pr q)) = Inr t \<and> t \<le> mrp_li it))"
proof -
  have D: "decimal_arith (dec_env E)" and ids: "new_invoice_ids (invoice_id_env E)" using assms(2) by (simp_all add: sound_env_def)
  let ?rows = "sale_rows (shopId_a actor) p s"
  have mrp: "assertWithinMrp (dec_env E) ?rows (lines_pre' p) = Inr ()" using assms(1) by (cases rule: sale_completed) simp
  from assms(1) D ids obtain math :: InvoiceCalculationResultV1 where its: "invoice_items (dec_env E) ?rows (lines_pre' p) (lines_r math) = Inr (items_inv (invoice_cr res))"
    by (cases rule: sale_documents) blast
  obtain m l where l: "find (\<lambda>l. key_nl l = productId_l m) (lines_pre' p) = Some l" "invoiceItemData (dec_env E) ?rows l m = Inr it"
    using map_res_Inr_set[OF its[unfolded invoice_items_def] assms(4)] by (auto split: option.splits)
  have custom: "custom_nl l = None" using l(2) assms(5) by (auto simp: invoiceItemData_def Let_def split: option.splits sum.splits)
  have mem: "l \<in> set (lines_pre' p)" using find_SomeD[OF l(1)] by simp
  obtain ms cs where "lines_pre' p = ms @ cs" "catalogue_ok ms" "customs_ok cs" using normaliseLines_ok[OF D assms(3)] by blast
  then have "line_typed l" using mem by (auto simp: catalogue_ok_def customs_ok_def)
  then have pid: "productId_nl l = Some (key_nl l)" using custom by (simp add: line_typed_def)
  from within_mrp[OF mrp mem pid] obtain q where q: "?rows (key_nl l) = Some q"
    "0 < mrp_pr q \<longrightarrow> (\<exists>t. inclusiveUnitPrice (dec_env E) (NDecimal (sellingPrice_pr q)) (NText (gstRate_pr q)) (NDecimal (cessRate_pr q)) = Inr t \<and>
       t \<le> mrp_pr q)" by blast
  have row: "product_row (shopId_a actor) (world_k s) (key_nl l) = Some q" using q(1) by (auto simp: sale_rows_def split: if_splits)
  have "id_pr q = key_nl l" using row by (auto simp: product_row_def dest: find_SomeD)
  then show ?thesis
    using l(2) custom pid q row by (auto simp: invoiceItemData_def Let_def)
qed

theorem no_line_above_mrp_witness:
  "\<exists>t. inclusiveUnitPrice decimal_js (NDecimal 50) (NText ''FIVE'') (NDecimal 0) = Inr t \<and> t \<le> 60"
proof -
  have it: "till_item \<in> set (items_inv (invoice_cr till_answer))" by (simp add: till_answer_def till_invoice_def)
  have "product_row ''s'' (world_k till_ready) ''p'' = Some (hd (products shop_world))"
    using keepsD[OF resolveSaleLocation_keeps till_location] till_product by (simp add: till_worlds places_only_def product_row_def)
  then show ?thesis
    using no_line_above_mrp[OF till_committed_run till_sound _ it] till_lines
    by (simp add: till_prepared_fields) (simp add: till_item_def shop_world_def)
qed

text \<open>C13: a normalised request is well formed: its catalogue lines come first, one per product, then its custom
  lines; every quantity is positive and in thousandths, every custom line has a name and a price in paise.\<close>

theorem normalised_request_typed:
  assumes "decimal_arith (dec_env E)" and "normaliseLines E its = Inr ls"
  shows "list_all line_typed ls \<and> (\<exists>ms cs. ls = ms @ cs \<and> distinct (map key_nl ms) \<and>
    list_all (\<lambda>l. custom_nl l = None) ms \<and> list_all (\<lambda>l. custom_nl l \<noteq> None) cs)"
proof -
  obtain ms cs where p: "ls = ms @ cs" "catalogue_ok ms" "customs_ok cs" using normaliseLines_ok[OF assms] by blast
  then have "list_all line_typed ls" by (auto simp: catalogue_ok_def customs_ok_def list_all_iff)
  moreover have "distinct (map key_nl ms) \<and> list_all (\<lambda>l. custom_nl l = None) ms \<and> list_all (\<lambda>l. custom_nl l \<noteq> None) cs"
    using p(2,3) by (auto simp: catalogue_ok_def customs_ok_def list_all_iff)
  ultimately show ?thesis using p(1) by blast
qed

theorem normalised_request_typed_witness: "list_all line_typed [till_nl]"
  using normalised_request_typed[OF _ till_lines] by simp

text \<open>C10: the ledger never finds a sale out of balance: for any bill the engine returns with its payment and any cost
  of goods the columns can hold, both sides of the sale's posting add up to the final total plus the cost,
  also when the round-off makes the revenue negative.\<close>

theorem sale_posting_balances:
  assumes "decimal_arith D" and "calculate D J raw = Inr r" and "payment_r r = Some pm" and "paise (10 ^ 17) cost"
  shows "side_total D ty (normalise_entries D (saleLedgerEntries D (tenders_p pm) (udharAmount_p pm) r cost)) = finalTotal_r r + cost"
  using decimal_arith.sale_sides[OF assms(1) calculate_bill[OF assms(1-3)] assms(4)] .

theorem sale_posting_balances_witness:
  "side_total decimal_js CREDIT (normalise_entries decimal_js (saleLedgerEntries decimal_js (tenders_p till_pm) 50 till_math 80)) = 185"
proof -
  have "paise (10 ^ 17) 80" using on_grid_of_int[of 2 80] by (simp add: paise_def)
  then show ?thesis
    using sale_posting_balances[OF decimal_js till_calculated till_bill_fields(1), of 80 CREDIT] by (simp add: till_bill_fields)
qed

end
