(* ===== verification/Spec2Isabelle.thy ===== *)
theory Spec2Isabelle
  imports InvoiceProperties ReturnProperties InventoryProperties CartBehaviour CartEngine Scanner BooksProperties OutboxBehaviour VendorBillBehaviour CheckoutBehaviour
begin

text \<open>
  A verification development for DukaanAI, a billing, inventory and procurement system for small
  shops. This theory only gathers the others; each of them opens with what it holds.

  \<^bold>\<open>The program.\<close> A counter page (\<open>apps/web\<close>) keeps a cart, shows its price with the money engine
  and sends it to the server (\<open>apps/api\<close>). The server calculates the bill again with the same
  engine (\<open>packages/invoice-math\<close>) and, in one transaction, writes the invoice, takes the stock
  through the inventory engine, books the credit and the shift, posts to the ledger and stages an
  event in the outbox. Behind the counter, vendor bills are matched, approved, posted and paid; they
  meet the sales in the ledger, and the suppliers' payables follow the ledger. The outbox hands the
  staged events to the workers.

  \<^bold>\<open>Money engine\<close> (\<open>packages/invoice-math/src\<close>). InvoiceTypes has the inputs, results, errors and
  constants; Tax the GST and cess split; Numeric what the engine makes of a number, a text or a
  missing field; Allocation the proportional shares of a discount; Payment the settlement; Hash the
  audit hash; InvoiceCalc the stages of \<open>calculate\<close>; Pricing unit prices with and without tax and the
  amounts of a discount limit; ReturnCalc \<open>calculateReturn\<close>. The package decimal.js is not in the
  repository: theory Decimal takes it as a record of operations, the locale \<open>decimal_arith\<close> states
  the documented laws (a result of at most 20 digits is exact, rounding is monotone and half up)
  and \<open>decimal_js\<close> is an instance of it that rounds to 20 digits. InvoiceProperties and
  ReturnProperties show that the books of every bill and return add up to the paisa, that shares
  and refunds stay within what they divide, and which input is refused first.

  \<^bold>\<open>Inventory\<close> (\<open>apps/api/src/inventory\<close>). InventoryDb has the tables as lists of rows in creation
  order, InventoryLocation the default warehouse and bin with its process cache, InventoryMutation
  \<open>ensureItem\<close> and \<open>mutateStock\<close> step by step. InventoryStock and InventoryProperties show, for every
  sequence of calls, that the aggregate of a product is the sum of its rows, that nothing leaves
  what is not there unless the caller allows it, that the journal explains every quantity, that a
  repeated key moves nothing (a reservation writes no ledger entry and is not protected) and that one shop never touches another's rows.

  \<^bold>\<open>Ledger and payables\<close> (\<open>apps/api/src/ledger\<close>, \<open>shifts/cash-payout.ts\<close>). Ledger has the posting
  service, Payables the suppliers' running payable, their payments and the cash drawer they are
  paid from. LedgerProperties, PayablesProperties and BooksProperties show that debits equal
  credits per posting and in total, that each account's balance is the sum of its entries, and that
  the payable a supplier is shown is the one its documents imply in the ledger (a refinement of the
  ledger by one number per supplier).

  \<^bold>\<open>POS checkout\<close> (\<open>apps/api/src/billing\<close>, \<open>common/numbering\<close>, \<open>common/india\<close>). Checkout has
  \<open>createInvoice\<close> in the order of the code: normalising and hashing the request, the replay of a
  repeated key, the prices and the actor's authority, availability, the Redis precheck, the
  transaction (\<open>sale_transaction\<close>) and the retry loop (\<open>attempt_sale\<close>). Its state \<open>counter\<close> contains
  the inventory tables and the books, and its steps call the definitions of those theories. States
  has the Indian states and how two of them are compared. CheckoutSteps says what each step reads
  and writes, CheckoutRuns where in a run the one completed transaction stands, CheckoutMoney,
  CheckoutLaws, CheckoutTies and CheckoutRequests what a step keeps and how the documents agree;
  CheckoutBehaviour has the properties over the histories of several tills: no gap in the invoice
  numbers, the stock and ledger invariants, balances the credit rows explain, a retry that charges
  nothing, a refusal that leaves nothing, and what a cashier may do. CheckoutSamples runs one sale.

  \<^bold>\<open>Vendor bills\<close> (\<open>apps/api/src/vendor-bill-domain\<close>, \<open>supplier-credit-domain\<close>). VendorBills has
  creation, the three-way match, submission, approval, posting, payment and the allocation of a
  credit note. VendorBillProperties and VendorBillBooks say what an operation changes,
  VendorBillHistory and VendorBillControls what every history keeps: a bill's paid, credited and
  outstanding amounts add up, a credit note never gives more than it had, a receipt is billed once, nobody approves their own bill, the status
  follows the lifecycle. VendorBillBehaviour states them, and shows what two submissions that do not
  see each other do.

  \<^bold>\<open>Outbox\<close> (\<open>apps/api/src/common/outbox\<close>). Outbox has claims, settling and the reaper as separate
  statements where the code runs them outside a transaction, OutboxRouting which relay owns which
  event. OutboxProperties and OutboxBehaviour show that a claim takes each row once and oldest first,
  that an ended claim has no power over its row while no reaper writes for a batch it read before
  another writer, that retries are bounded and that a sweep ends the oldest stale claims, as many as
  it may handle; and the race the reaper leaves open.

  \<^bold>\<open>Counter page\<close> (\<open>apps/web/src\<close>). JsNumber has IEEE doubles, Cart and CartStore the cart store and
  its life in the session's storage, CartEngine the adapter to the money engine, Scanner the barcode
  listener as a state machine over key presses. CartProperties and CartBehaviour show the invariant of
  every reachable cart and what its operations undo; CartEngine that the preview is what is charged.

  \<^bold>\<open>How it is built.\<close> Prelude has the result type of code that throws (\<open>Inl\<close> the error), the grids on
  which money (1/100) and quantities (1/1000) live, and rounding; Effects the state transformer of
  service methods, whose writes before an error stay until a transaction drops them, with the
  collections that unfold a run or show that a method keeps an invariant. The interfaces are the
  locales \<open>decimal_arith\<close> (interpreted by \<open>decimal_js\<close>), \<open>step_system\<close> (a run function, the calls
  allowed and an invariant each of them keeps; interpreted by the inventory, the bookkeeping, the
  bills and the outbox) and \<open>sound_till\<close>, in which the tills are a \<open>step_system\<close> too. Samples,
  CheckoutSamples and the ends of the other theories work concrete cases for the witnesses. A name of
  the code is kept; a record's fields end in a suffix naming the record.

  \<^bold>\<open>Bounds and fuel.\<close> The decimal laws hold for results of at most 20 significant digits, those of a
  parse for 15; every column is refused beyond its digits (money \<open>Decimal(10,2)\<close> and \<open>(14,2)\<close>), which
  with at most seven entries a posting keeps the sums exact. \<open>ensureItem\<close> runs on fuel 2, enough because
  the inner call is at the sale location, where no further call is made (\<open>ensureItem_fuel\<close>). The loops
  of \<open>exclusiveUnitPrice\<close> are partial functions, shown to stop by \<open>exclusiveUnitPrice_spec\<close>. A checkout
  makes at most three attempts and a reaper's sweep at most 20 batches of 500, both as in the code. A
  receipt's value is below \<open>10 ^ 17\<close>, as its columns force, and so is the cost of goods of a sale.

  \<^bold>\<open>Hypotheses.\<close> Row identifiers, request hashes, collation, time zones, Redis, \<open>JSON.parse\<close> and
  \<open>JSON.stringify\<close> are parameters. Where a property needs one to behave it says so: identifiers are
  new, decimals obey \<open>decimal_arith\<close>. The witnesses discharge each with a concrete function.

  \<^bold>\<open>Not modelled.\<close> Negative zero; row locks and other concurrency, except where statements are
  kept apart (outbox), attempts are rolled back as a whole (checkout; a commit whose answer is lost is not represented) or a race is stated (submission of bills,
  reaper): a history is one transaction after another. Timestamps that only record when a row was
  written, message texts, metrics, logs and the details of audit rows and events. The preview of the
  checkout, the reversal of a stored invoice (its money is \<open>calculateReturn\<close>), customers' repayments,
  the opening and closing of shifts, expenses, orders and receipts as services of their own, stock
  counts, the catalogue, suppliers' records, search, analytics, imports, OCR, authentication and the
  pages: either calls of the database and of outside services, or left for later. The ranges of
  \<open>Decimal(12,3)\<close> stock columns and of the drawer's columns on payouts are not checked.
\<close>

end
